(* ===== verification/LC_Prelude.thy ===== *)
theory LC_Prelude
  imports Main "HOL-Library.Word" "HOL-Library.Monad_Syntax"
begin

text \<open>
  Prelude of the LabComm 2014 development: the machine types of the C sources, the errno
  values the library returns, the ways a C computation can end, and the small
  state-and-exception monad in which every operation of the library is written.

  A computation over a state \<open>'s\<close> is a function \<open>'s \<Rightarrow> (stop + 'a \<times> 's) option\<close>:
  \<^item> \<open>None\<close>: the computation never returns (an endless loop);
  \<^item> \<open>Some (Inl (Exit e))\<close>: the process was ended by \<open>exit(1)\<close> in the error handler;
  \<^item> \<open>Some (Inl ExitUnimplemented)\<close>: it was ended by \<open>exit(1)\<close> in a function that is not
    implemented;
  \<^item> \<open>Some (Inl ExitPerror)\<close>: it was ended by \<open>exit(1)\<close> after a system call had failed;
  \<^item> \<open>Some (Inl ExitParser)\<close>: it was ended by \<open>exit(1)\<close> in the signature parser;
  \<^item> \<open>Some (Inl Undef)\<close>: the C program has undefined behaviour here (a NULL pointer is
    dereferenced, an access is out of bounds, an uninitialised variable is read, a signed
    addition overflows);
  \<^item> \<open>Some (Inr (x, s))\<close>: it returned \<open>x\<close> and left the state \<open>s\<close>.
\<close>

unbundle bit_operations_syntax

named_theorems prog_simps \<open>evaluation of computations\<close>
named_theorems wp_simps \<open>weakest preconditions of the building blocks of computations\<close>

type_synonym byte = "8 word"
type_synonym u32 = "32 word"
type_synonym cstring = "byte list" \<comment> \<open>the bytes before the terminating NUL\<close>

section \<open>The error codes\<close>

text \<open>\<^verbatim>\<open>labcomm2014_error.h\<close>: the enumeration of library errors, in the order of the source.\<close>

datatype labcomm2014_error =
    LABCOMM2014_ERROR_SIGNATURE_ALREADY_SET
  | LABCOMM2014_ERROR_SIGNATURE_NOT_SET
  | LABCOMM2014_ERROR_ENC_NO_REG_SIGNATURE
  | LABCOMM2014_ERROR_ENC_BUF_FULL
  | LABCOMM2014_ERROR_DEC_NO_REG_SIGNATURE
  | LABCOMM2014_ERROR_DEC_UNKNOWN_DATATYPE
  | LABCOMM2014_ERROR_DEC_INDEX_MISMATCH
  | LABCOMM2014_ERROR_DEC_TYPE_NOT_FOUND
  | LABCOMM2014_ERROR_UNIMPLEMENTED_FUNC
  | LABCOMM2014_ERROR_MEMORY
  | LABCOMM2014_ERROR_USER_DEF
  | LABCOMM2014_ERROR_BAD_WRITER

text \<open>The values of \<^verbatim>\<open>errno.h\<close> (Linux) that the library returns negated.\<close>

definition ENOENT :: int where "ENOENT = 2"
definition ENOMEM :: int where "ENOMEM = 12"
definition EINVAL :: int where "EINVAL = 22"
definition EPIPE :: int where "EPIPE = 32"
definition ENOSYS :: int where "ENOSYS = 38"
definition ENOTSUP :: int where "ENOTSUP = 95"
definition ECONNRESET :: int where "ECONNRESET = 104"
definition EALREADY :: int where "EALREADY = 114"

lemmas errno_defs = ENOENT_def ENOMEM_def EINVAL_def EPIPE_def ENOSYS_def ENOTSUP_def
  ECONNRESET_def EALREADY_def

section \<open>Computations\<close>

datatype stop = Exit labcomm2014_error | ExitUnimplemented | ExitPerror | ExitParser | Undef

type_synonym ('s, 'a) prog = "'s \<Rightarrow> (stop + 'a \<times> 's) option"

definition ret :: "'a \<Rightarrow> ('s, 'a) prog" where
  "ret x = (\<lambda>s. Some (Inr (x, s)))"

definition stop :: "stop \<Rightarrow> ('s, 'a) prog" where
  "stop e = (\<lambda>s. Some (Inl e))"

definition andthen :: "('s, 'a) prog \<Rightarrow> ('a \<Rightarrow> ('s, 'b) prog) \<Rightarrow> ('s, 'b) prog" where
  "andthen m f = (\<lambda>s. Option.bind (m s)
     (\<lambda>r. case r of Inl e \<Rightarrow> Some (Inl e) | Inr (x, s') \<Rightarrow> f x s'))"

definition modify :: "('s \<Rightarrow> 's) \<Rightarrow> ('s, unit) prog" where
  "modify f = (\<lambda>s. Some (Inr ((), f s)))"

definition gets :: "('s \<Rightarrow> 'a) \<Rightarrow> ('s, 'a) prog" where
  "gets f = (\<lambda>s. Some (Inr (f s, s)))"

text \<open>Run a computation on one component of a bigger state.\<close>

definition zoom :: "('t \<Rightarrow> 's) \<Rightarrow> ('s \<Rightarrow> 't \<Rightarrow> 't) \<Rightarrow> ('s, 'a) prog \<Rightarrow> ('t, 'a) prog" where
  "zoom get put m = (\<lambda>t. map_option (map_sum id (\<lambda>(x, s'). (x, put s' t))) (m (get t)))"

lemma ret_apply [prog_simps]: "ret x s = Some (Inr (x, s))"
  by (simp add: ret_def)

lemma stop_apply [prog_simps]: "stop e s = Some (Inl e)"
  by (simp add: stop_def)

lemma modify_apply [prog_simps]: "modify f s = Some (Inr ((), f s))"
  by (simp add: modify_def)

lemma gets_apply [prog_simps]: "gets f s = Some (Inr (f s, s))"
  by (simp add: gets_def)

lemma andthen_apply [prog_simps]:
  "andthen m f s = (case m s of None \<Rightarrow> None | Some (Inl e) \<Rightarrow> Some (Inl e)
                     | Some (Inr (x, s')) \<Rightarrow> f x s')"
  by (auto simp: andthen_def split: option.splits sum.splits)

lemma zoom_apply [prog_simps]:
  "zoom get put m t = (case m (get t) of None \<Rightarrow> None | Some (Inl e) \<Rightarrow> Some (Inl e)
                        | Some (Inr (x, s')) \<Rightarrow> Some (Inr (x, put s' t)))"
  by (auto simp: zoom_def split: option.splits sum.splits)

lemma andthen_ret [simp]: "andthen (ret x) f = f x"
  by (rule ext) (simp add: prog_simps)

lemma andthen_assoc: "andthen (andthen m f) g = andthen m (\<lambda>x. andthen (f x) g)"
  by (rule ext) (auto simp: prog_simps split: option.splits sum.splits)

lemma andthen_run:
  "m s = Some (Inr (x, s')) \<Longrightarrow> andthen m f s = f x s'"
  by (simp add: prog_simps)

lemma andthen_Inr_iff:
  "andthen m f s = Some (Inr r) \<longleftrightarrow> (\<exists>x s'. m s = Some (Inr (x, s')) \<and> f x s' = Some (Inr r))"
  by (auto simp: prog_simps split: option.splits sum.splits)

lemma andthen_mono [partial_function_mono]:
  assumes "mono_option (\<lambda>f. B f s)" and "\<And>y t. mono_option (\<lambda>f. C y f t)"
  shows "mono_option (\<lambda>f. andthen (B f) (\<lambda>y. C y f) s)"
  unfolding andthen_def
proof (rule bind_mono [OF assms(1)])
  fix r
  show "mono_option (\<lambda>f. case r of Inl e \<Rightarrow> Some (Inl e) | Inr (x, s') \<Rightarrow> C x f s')"
    using assms(2) by (cases r) (auto intro: option.const_mono)
qed

section \<open>Weakest preconditions\<close>

text \<open>
  \<open>wp m Q s\<close>: from the state \<open>s\<close> the computation \<open>m\<close> returns (it does not loop, exit
  or run into undefined behaviour) and its result and final state satisfy \<open>Q\<close>.
\<close>

definition wp :: "('s, 'a) prog \<Rightarrow> ('a \<Rightarrow> 's \<Rightarrow> bool) \<Rightarrow> 's \<Rightarrow> bool" where
  "wp m Q s \<longleftrightarrow> (\<exists>x s'. m s = Some (Inr (x, s')) \<and> Q x s')"

lemma wp_ret [wp_simps]: "wp (ret x) Q s \<longleftrightarrow> Q x s"
  by (simp add: wp_def prog_simps)

lemma wp_stop [wp_simps]: "wp (stop e) Q s \<longleftrightarrow> False"
  by (simp add: wp_def prog_simps)

lemma wp_modify [wp_simps]: "wp (modify f) Q s \<longleftrightarrow> Q () (f s)"
  by (simp add: wp_def prog_simps)

lemma wp_gets [wp_simps]: "wp (gets f) Q s \<longleftrightarrow> Q (f s) s"
  by (simp add: wp_def prog_simps)

lemma wp_andthen [wp_simps]: "wp (andthen m f) Q s \<longleftrightarrow> wp m (\<lambda>x. wp (f x) Q) s"
  by (auto simp: wp_def prog_simps split: option.splits sum.splits)

lemma wp_zoom [wp_simps]:
  "wp (zoom get put m) Q t \<longleftrightarrow> wp m (\<lambda>x s'. Q x (put s' t)) (get t)"
  by (auto simp: wp_def prog_simps split: option.splits sum.splits)

lemma wp_if [wp_simps]:
  "wp (if b then m else n) Q s \<longleftrightarrow> (b \<longrightarrow> wp m Q s) \<and> (\<not> b \<longrightarrow> wp n Q s)"
  by simp

lemma wp_run: "m s = Some (Inr (x, s')) \<Longrightarrow> Q x s' \<Longrightarrow> wp m Q s"
  by (auto simp: wp_def)

lemma wp_andthen_run:
  "m s = Some (Inr (x, s')) \<Longrightarrow> wp (andthen m f) Q s \<longleftrightarrow> wp (f x) Q s'"
  by (simp add: wp_def prog_simps)

lemma wp_mono:
  assumes "wp m P s" and "\<And>x s'. P x s' \<Longrightarrow> Q x s'"
  shows "wp m Q s"
  using assms by (auto simp: wp_def)

lemma wp_conj: "wp m P s \<Longrightarrow> wp m Q s \<Longrightarrow> wp m (\<lambda>x s'. P x s' \<and> Q x s') s"
  by (auto simp: wp_def)

lemma wpE:
  assumes "wp m Q s"
  obtains x s' where "m s = Some (Inr (x, s'))" and "Q x s'"
  using assms by (auto simp: wp_def)

text \<open>\<open>stops m e s\<close>: from the state \<open>s\<close> the computation ends the program, in the way \<open>e\<close>.\<close>

definition stops :: "('s, 'a) prog \<Rightarrow> stop \<Rightarrow> 's \<Rightarrow> bool" where
  "stops m e s \<longleftrightarrow> m s = Some (Inl e)"

lemma stops_stop [simp]: "stops (stop e) e' s \<longleftrightarrow> e' = e"
  by (auto simp: stops_def prog_simps)

lemma stops_later: "wp m (\<lambda>x. stops (f x) e) s \<Longrightarrow> stops (andthen m f) e s"
  by (auto simp: wp_def stops_def prog_simps)

lemma stops_now: "stops m e s \<Longrightarrow> stops (andthen m f) e s"
  by (simp add: stops_def prog_simps)

section \<open>C integers\<close>

text \<open>
  An \<^verbatim>\<open>int\<close> is a HOL integer in the range of the 32-bit type; the conversions between
  \<^verbatim>\<open>unsigned int\<close>, \<^verbatim>\<open>int\<close> and \<^verbatim>\<open>size_t\<close> (64 bits) that the source makes implicitly
  are written out.
\<close>

definition INT_MAX :: int where "INT_MAX = 2147483647"
definition INT_MIN :: int where "INT_MIN = - 2147483648"

definition int_of_u32 :: "u32 \<Rightarrow> int" where
  "int_of_u32 x = sint x"

definition u32_of_int :: "int \<Rightarrow> u32" where
  "u32_of_int i = word_of_int i"

definition size_t_of_int :: "int \<Rightarrow> nat" where
  "size_t_of_int i = nat (i mod 2 ^ 64)"

text \<open>The result of signed arithmetic, which must fit in an \<^verbatim>\<open>int\<close>.\<close>

definition c_int :: "int \<Rightarrow> ('s, int) prog" where
  "c_int i = (if INT_MIN \<le> i \<and> i \<le> INT_MAX then ret i else stop Undef)"

lemma wp_c_int [wp_simps]: "wp (c_int i) Q s \<longleftrightarrow> INT_MIN \<le> i \<and> i \<le> INT_MAX \<and> Q i s"
  by (auto simp: c_int_def wp_simps)

lemma int_of_u32_bounds: "INT_MIN \<le> int_of_u32 x" "int_of_u32 x \<le> INT_MAX"
  using sint_range_size [of x] by (auto simp: int_of_u32_def INT_MIN_def INT_MAX_def word_size)

lemma int_of_u32_of_int [simp]:
  "INT_MIN \<le> i \<Longrightarrow> i \<le> INT_MAX \<Longrightarrow> int_of_u32 (u32_of_int i) = i"
  by (simp add: int_of_u32_def u32_of_int_def INT_MIN_def INT_MAX_def signed_of_int
      signed_take_bit_int_eq_self)

lemma u32_of_int_of_u32 [simp]: "u32_of_int (int_of_u32 x) = x"
  by (simp add: int_of_u32_def u32_of_int_def)

lemma size_t_of_int_nonneg [simp]:
  "0 \<le> i \<Longrightarrow> i \<le> INT_MAX \<Longrightarrow> size_t_of_int i = nat i"
  by (simp add: size_t_of_int_def INT_MAX_def)

lemma nat_diff_shift [simp]:
  "i \<le> f \<Longrightarrow> f \<le> x \<Longrightarrow> nat (x - i) - nat (f - i) = nat (x - f)"
  by linarith

end
