(* ===== verification/LC_Wire.thy ===== *)
theory LC_Wire
  imports LC_Prelude
begin

text \<open>
  The byte formats of the wire (\<^verbatim>\<open>labcomm2014_private.h\<close>): the packed 32-bit numbers, the
  big-endian scalars and their sizes, without the buffers they travel through.
\<close>

section \<open>Packet tags\<close>

definition LABCOMM_VERSION :: int where "LABCOMM_VERSION = 0x01"
definition LABCOMM_SAMPLE_DEF :: int where "LABCOMM_SAMPLE_DEF = 0x02"
definition LABCOMM_SAMPLE_REF :: int where "LABCOMM_SAMPLE_REF = 0x03"
definition LABCOMM_TYPE_DEF :: int where "LABCOMM_TYPE_DEF = 0x04"
definition LABCOMM_TYPE_BINDING :: int where "LABCOMM_TYPE_BINDING = 0x05"
definition LABCOMM_PRAGMA :: int where "LABCOMM_PRAGMA = 0x3f"
definition LABCOMM_USER :: int where "LABCOMM_USER = 0x40"
definition LABCOMM_BIND_SELF :: int where "LABCOMM_BIND_SELF = 0"

lemmas tag_defs = LABCOMM_VERSION_def LABCOMM_SAMPLE_DEF_def LABCOMM_SAMPLE_REF_def
  LABCOMM_TYPE_DEF_def LABCOMM_TYPE_BINDING_def LABCOMM_PRAGMA_def LABCOMM_USER_def
  LABCOMM_BIND_SELF_def

text \<open>The string \<^verbatim>\<open>"LabComm2014"\<close>.\<close>

definition CURRENT_VERSION :: cstring where
  "CURRENT_VERSION = [0x4c, 0x61, 0x62, 0x43, 0x6f, 0x6d, 0x6d, 0x32, 0x30, 0x31, 0x34]"

section \<open>Packed 32-bit numbers\<close>

text \<open>
  First loop of \<^verbatim>\<open>labcomm2014_write_packed32\<close>: the groups of seven bits \<^verbatim>\<open>tmp[0], tmp[1], ...\<close>,
  low group first; it runs once and then while \<^verbatim>\<open>data\<close> is not zero.
\<close>

lemma unat_drop_bit_less:
  fixes d :: u32
  assumes "drop_bit 7 d \<noteq> 0"
  shows "unat (drop_bit 7 d) < unat d"
proof -
  have "unat (drop_bit 7 d) = unat d div 128"
    by (simp add: drop_bit_eq_div unat_div)
  moreover from assms have "unat (drop_bit 7 d) \<noteq> 0" by (simp add: unat_eq_0)
  ultimately show ?thesis by simp
qed

function packed32_groups :: "u32 \<Rightarrow> byte list" where
  "packed32_groups d =
     ucast (d AND 0x7f) # (if drop_bit 7 d = 0 then [] else packed32_groups (drop_bit 7 d))"
  by pat_completeness auto
termination
  by (relation "measure unat") (auto intro: unat_drop_bit_less)

declare packed32_groups.simps [simp del]

text \<open>Second loop: the groups from the last to the first, all but \<^verbatim>\<open>tmp[0]\<close> marked with bit 7.\<close>

definition packed32_bytes :: "u32 \<Rightarrow> byte list" where
  "packed32_bytes d =
     (let tmp = packed32_groups d
      in map (\<lambda>i. tmp ! i OR (if i \<noteq> 0 then 0x80 else 0x00)) (rev [0..<length tmp]))"

text \<open>\<^verbatim>\<open>labcomm2014_size_packed32\<close>: the same loop, counting.\<close>

function size_packed32 :: "u32 \<Rightarrow> int" where
  "size_packed32 d = 1 + (if drop_bit 7 d = 0 then 0 else size_packed32 (drop_bit 7 d))"
  by pat_completeness auto
termination
  by (relation "measure unat") (auto intro: unat_drop_bit_less)

declare size_packed32.simps [simp del]

definition labcomm2014_size_packed32 :: "u32 \<Rightarrow> int" where
  "labcomm2014_size_packed32 d = size_packed32 d"

text \<open>\<^verbatim>\<open>int length = strlen(s)\<close> keeps the low 32 bits.\<close>

definition string_length :: "cstring \<Rightarrow> int" where
  "string_length s = int_of_u32 (of_nat (length s))"

lemma string_length_fits [simp]: "int (length s) \<le> INT_MAX \<Longrightarrow> string_length s = int (length s)"
  using int_of_u32_of_int [of "int (length s)"] by (simp add: string_length_def u32_of_int_def INT_MIN_def)

lemma u32_of_string_length [simp]: "u32_of_int (string_length s) = of_nat (length s)"
  by (simp add: string_length_def)

definition labcomm2014_size_string :: "cstring \<Rightarrow> int" where
  "labcomm2014_size_string s = labcomm2014_size_packed32 (u32_of_int (string_length s)) + string_length s"

text \<open>The step of the loop of \<^verbatim>\<open>labcomm2014_read_packed32\<close> for one byte.\<close>

definition packed32_step :: "u32 \<Rightarrow> byte \<Rightarrow> u32" where
  "packed32_step result tmp = push_bit 7 result OR (ucast tmp AND 0x7f)"

definition packed32_more :: "byte \<Rightarrow> bool" where
  "packed32_more tmp \<longleftrightarrow> tmp AND 0x80 \<noteq> 0"

text \<open>The loop over a byte sequence: the number and the bytes behind it.\<close>

fun unpack32 :: "u32 \<Rightarrow> byte list \<Rightarrow> (u32 \<times> byte list) option" where
  "unpack32 result [] = None"
| "unpack32 result (b # bs) =
     (if packed32_more b then unpack32 (packed32_step result b) bs
      else Some (packed32_step result b, bs))"

section \<open>Big-endian scalars\<close>

text \<open>
  \<^verbatim>\<open>LABCOMM_ENCODE\<close> on a little-endian machine: the bytes of the value from the most significant
  one down; \<^verbatim>\<open>LABCOMM_DECODE\<close> puts them back.  A \<^verbatim>\<open>float\<close> or \<^verbatim>\<open>double\<close> is its 32 or 64 bits.
\<close>

definition be_bytes :: "nat \<Rightarrow> 'a::len word \<Rightarrow> byte list" where
  "be_bytes n x = map (\<lambda>i. ucast (drop_bit (8 * i) x)) (rev [0..<n])"

fun of_be_bytes :: "byte list \<Rightarrow> 'a::len word" where
  "of_be_bytes [] = 0"
| "of_be_bytes (b # bs) = push_bit (8 * length bs) (ucast b) OR of_be_bytes bs"

section \<open>Lemmas\<close>

lemma packed32_groups_neq_Nil [simp]: "packed32_groups d \<noteq> []"
  by (subst packed32_groups.simps) simp

lemma map_rev_upt_Suc:
  "map f (rev [0..<Suc n]) = map (\<lambda>i. f (Suc i)) (rev [0..<n]) @ [f 0]"
  by (simp add: upt_conv_Cons map_Suc_upt [symmetric] rev_map del: upt_Suc)

lemma map_nth_rev: "map (\<lambda>i. f (xs ! i)) (rev [0..<length xs]) = rev (map f xs)"
proof -
  have "map (\<lambda>i. f (xs ! i)) [0..<length xs] = map f xs"
    by (rule nth_equalityI) auto
  then show ?thesis by (simp add: rev_map [symmetric])
qed

lemma packed32_bytes_eq:
  "packed32_bytes d =
     rev (map (\<lambda>b. b OR 0x80) (tl (packed32_groups d))) @ [hd (packed32_groups d)]"
proof (cases "packed32_groups d")
  case Nil
  then show ?thesis by simp
next
  case (Cons t ts)
  have "map (\<lambda>i. ts ! i OR 0x80) (rev [0..<length ts]) = rev (map (\<lambda>b. b OR 0x80) ts)"
    by (rule map_nth_rev)
  with Cons show ?thesis
    by (simp add: packed32_bytes_def Let_def map_rev_upt_Suc del: upt_Suc rev.simps)
qed

lemma packed32_bytes_neq_Nil [simp]: "packed32_bytes d \<noteq> []"
  by (simp add: packed32_bytes_eq)

lemma packed32_low_bit: "\<not> packed32_more (ucast (d AND 0x7f :: u32))"
proof -
  have "(ucast (d AND 0x7f) :: byte) AND 0x80 = 0"
    by (rule bit_word_eqI) (auto simp: bit_simps bit_numeral_simps numeral_eq_Suc less_Suc_eq)
  then show ?thesis by (simp add: packed32_more_def)
qed

lemma packed32_marked: "packed32_more (b OR 0x80)"
proof -
  have "bit ((b OR 0x80) AND 0x80) 7" by (simp add: bit_simps)
  then show ?thesis unfolding packed32_more_def by force
qed

lemma mask7: "(0x7f :: 'a::len word) = mask 7"
  by (simp add: mask_numeral)

lemma push_drop_take:
  fixes d :: "'a::len word"
  shows "push_bit n (drop_bit n d) OR take_bit n d = d"
  by (rule bit_word_eqI) (auto simp: bit_simps)

lemma packed32_step_low: "packed32_step (drop_bit 7 d) (ucast (d AND 0x7f)) = d"
proof -
  have "(ucast (ucast (take_bit 7 d) :: byte) :: u32) AND mask 7 = take_bit 7 d"
    by (rule bit_word_eqI) (auto simp: bit_simps)
  then show ?thesis
    unfolding packed32_step_def mask7 take_bit_eq_mask [symmetric]
    using push_drop_take [of 7 d] by (simp only: take_bit_eq_mask)
qed

lemma packed32_step_marked: "packed32_step r (b OR 0x80) = packed32_step r b"
proof -
  have "(ucast (b OR 0x80) :: u32) AND mask 7 = ucast b AND mask 7"
    by (rule bit_word_eqI) (auto simp: bit_simps numeral_eq_Suc less_Suc_eq)
  then show ?thesis by (simp only: packed32_step_def mask7)
qed

lemma unpack32_marked_groups:
  "unpack32 0 (rev (map (\<lambda>b. b OR 0x80) (packed32_groups d)) @ rest) = unpack32 d rest"
proof (induction d arbitrary: rest rule: packed32_groups.induct)
  case (1 d)
  show ?case
  proof (cases "drop_bit 7 d = 0")
    case True
    with packed32_step_low [of d] show ?thesis
      by (subst packed32_groups.simps) (simp add: packed32_marked packed32_step_marked)
  next
    case False
    then show ?thesis
      by (subst packed32_groups.simps)
        (simp add: "1.IH" packed32_marked packed32_step_marked packed32_step_low)
  qed
qed

text \<open>Reading what was packed gives the number back and leaves the bytes behind it.\<close>

lemma unpack32_packed32 [simp]: "unpack32 0 (packed32_bytes d @ rest) = Some (d, rest)"
proof (cases "drop_bit 7 d = 0")
  case True
  with packed32_step_low [of d] show ?thesis
    by (simp add: packed32_bytes_eq packed32_groups.simps [of d] packed32_low_bit)
next
  case False
  then show ?thesis
    by (simp add: packed32_bytes_eq packed32_groups.simps [of d] unpack32_marked_groups
        packed32_low_bit packed32_step_low)
qed

lemma size_packed32_groups: "size_packed32 d = int (length (packed32_groups d))"
  by (induction d rule: packed32_groups.induct)
    (subst size_packed32.simps, subst packed32_groups.simps, simp)

lemma length_packed32_bytes: "length (packed32_bytes d) = length (packed32_groups d)"
  by (simp add: packed32_bytes_def Let_def)

lemma size_packed32_length [simp]: "labcomm2014_size_packed32 d = int (length (packed32_bytes d))"
  by (simp add: labcomm2014_size_packed32_def size_packed32_groups length_packed32_bytes)

lemma length_packed32_groups:
  "unat d < 2 ^ (7 * Suc k) \<Longrightarrow> length (packed32_groups d) \<le> Suc k"
proof (induction k arbitrary: d)
  case 0
  then have "unat (drop_bit 7 d) = 0" by (simp add: drop_bit_eq_div unat_div)
  then have "drop_bit 7 d = 0" by (simp only: unat_eq_0)
  then show ?case by (simp add: packed32_groups.simps [of d])
next
  case (Suc k)
  then have "unat (drop_bit 7 d) < 2 ^ (7 * Suc k)"
    by (simp add: drop_bit_eq_div unat_div power_add less_mult_imp_div_less)
  from Suc.IH [OF this] show ?case by (simp add: packed32_groups.simps [of d])
qed

text \<open>The array \<^verbatim>\<open>tmp[5]\<close> is large enough for every number.\<close>

lemma length_packed32_groups_5: "length (packed32_groups d) \<le> 5"
proof -
  have "unat d < 2 ^ 32" using unsigned_less [of d] by simp
  then have "unat d < 2 ^ (7 * Suc 4)" by simp
  then show ?thesis using length_packed32_groups [of d 4] by simp
qed

lemma length_packed32_bytes_bounds: "1 \<le> length (packed32_bytes d)" "length (packed32_bytes d) \<le> 5"
  using length_packed32_groups_5 [of d] packed32_groups_neq_Nil [of d]
  by (simp_all add: length_packed32_bytes Suc_le_eq del: packed32_groups_neq_Nil)

lemma length_be_bytes [simp]: "length (be_bytes n x) = n"
  by (simp add: be_bytes_def)

lemma be_bytes_Suc: "be_bytes (Suc n) x = ucast (drop_bit (8 * n) x) # be_bytes n x"
  by (simp add: be_bytes_def)

lemma of_be_bytes_take: "of_be_bytes (be_bytes n x) = take_bit (8 * n) x"
proof (induction n)
  case 0
  then show ?case by (simp add: be_bytes_def)
next
  case (Suc n)
  have "push_bit (8 * n) (ucast (ucast (drop_bit (8 * n) x) :: byte)) OR take_bit (8 * n) x =
      take_bit (8 * Suc n) x"
    by (rule bit_word_eqI) (auto simp: bit_simps)
  with Suc show ?case by (simp add: be_bytes_Suc)
qed

lemma of_be_bytes_be_bytes: "LENGTH('a) \<le> 8 * n \<Longrightarrow> of_be_bytes (be_bytes n x) = (x :: 'a::len word)"
  by (simp add: of_be_bytes_take take_bit_word_eq_self)

end
