(* ===== verification/LC_Memory.thy ===== *)
theory LC_Memory
  imports LC_Prelude
begin

text \<open>
  The memory interface (\<^verbatim>\<open>labcomm2014_memory.c\<close>) over the default allocator
  (\<^verbatim>\<open>labcomm2014_default_memory.c\<close>) and the fatal error reports
  (\<^verbatim>\<open>labcomm2014_error.c\<close>, \<^verbatim>\<open>labcomm2014.c\<close>).

  Any \<^verbatim>\<open>malloc\<close> may fail. The state of a memory object says which requests are granted
  (\<open>mem_grant\<close>, by the number of the request and its size), how many requests were made
  and how many blocks are live; every theorem holds for every such function.
\<close>

section \<open>Memory\<close>

record memory =
  mem_grant :: "nat \<Rightarrow> nat \<Rightarrow> bool"
  mem_calls :: nat
  mem_live :: int

definition default_alloc :: "int \<Rightarrow> nat \<Rightarrow> (memory, bool) prog" where
  "default_alloc lifetime sz = (\<lambda>m.
     let ok = mem_grant m (mem_calls m) sz
     in Some (Inr (ok, m\<lparr>mem_calls := Suc (mem_calls m),
                         mem_live := (if ok then mem_live m + 1 else mem_live m)\<rparr>)))"

text \<open>
  \<^verbatim>\<open>realloc(ptr, size)\<close>: on success the old block (if there was one) is replaced by the
  new one, on failure it stays allocated.
\<close>

definition default_realloc :: "int \<Rightarrow> bool \<Rightarrow> nat \<Rightarrow> (memory, bool) prog" where
  "default_realloc lifetime nonnull sz = (\<lambda>m.
     let ok = mem_grant m (mem_calls m) sz
     in Some (Inr (ok, m\<lparr>mem_calls := Suc (mem_calls m),
                         mem_live := (if ok \<and> \<not> nonnull then mem_live m + 1 else mem_live m)\<rparr>)))"

definition default_free :: "int \<Rightarrow> bool \<Rightarrow> (memory, unit) prog" where
  "default_free lifetime nonnull =
     modify (\<lambda>m. if nonnull then m\<lparr>mem_live := mem_live m - 1\<rparr> else m)"

text \<open>The interface calls the operations of the memory object, here the default one.\<close>

definition labcomm2014_memory_alloc :: "int \<Rightarrow> nat \<Rightarrow> (memory, bool) prog" where
  "labcomm2014_memory_alloc lifetime sz = default_alloc lifetime sz"

definition labcomm2014_memory_realloc :: "int \<Rightarrow> bool \<Rightarrow> nat \<Rightarrow> (memory, bool) prog" where
  "labcomm2014_memory_realloc lifetime nonnull sz = default_realloc lifetime nonnull sz"

definition labcomm2014_memory_free :: "int \<Rightarrow> bool \<Rightarrow> (memory, unit) prog" where
  "labcomm2014_memory_free lifetime nonnull = default_free lifetime nonnull"

lemmas memory_defs = labcomm2014_memory_alloc_def labcomm2014_memory_realloc_def
  labcomm2014_memory_free_def default_alloc_def default_realloc_def default_free_def

text \<open>A memory that grants every request.\<close>

definition plenty :: "memory \<Rightarrow> bool" where
  "plenty m \<longleftrightarrow> (\<forall>k n. mem_grant m k n)"

lemma wp_memory_alloc [wp_simps]:
  "wp (labcomm2014_memory_alloc l n) Q m \<longleftrightarrow>
     (let ok = mem_grant m (mem_calls m) n
      in Q ok (m\<lparr>mem_calls := Suc (mem_calls m),
                 mem_live := (if ok then mem_live m + 1 else mem_live m)\<rparr>))"
  by (simp add: wp_def memory_defs Let_def)

lemma wp_memory_realloc [wp_simps]:
  "wp (labcomm2014_memory_realloc l nn n) Q m \<longleftrightarrow>
     (let ok = mem_grant m (mem_calls m) n
      in Q ok (m\<lparr>mem_calls := Suc (mem_calls m),
                 mem_live := (if ok \<and> \<not> nn then mem_live m + 1 else mem_live m)\<rparr>))"
  by (simp add: wp_def memory_defs Let_def)

lemma wp_memory_free [wp_simps]:
  "wp (labcomm2014_memory_free l nn) Q m \<longleftrightarrow>
     Q () (if nn then m\<lparr>mem_live := mem_live m - 1\<rparr> else m)"
  by (simp add: wp_def memory_defs prog_simps)

lemma plenty_simps [simp]:
  "plenty (m\<lparr>mem_calls := c\<rparr>) = plenty m" "plenty (m\<lparr>mem_live := l\<rparr>) = plenty m"
  by (simp_all add: plenty_def)

lemma plenty_grant [simp]: "plenty m \<Longrightarrow> mem_grant m k n"
  by (simp add: plenty_def)

section \<open>Errors\<close>

primrec error_id :: "labcomm2014_error \<Rightarrow> nat" where
  "error_id LABCOMM2014_ERROR_SIGNATURE_ALREADY_SET = 0"
| "error_id LABCOMM2014_ERROR_SIGNATURE_NOT_SET = 1"
| "error_id LABCOMM2014_ERROR_ENC_NO_REG_SIGNATURE = 2"
| "error_id LABCOMM2014_ERROR_ENC_BUF_FULL = 3"
| "error_id LABCOMM2014_ERROR_DEC_NO_REG_SIGNATURE = 4"
| "error_id LABCOMM2014_ERROR_DEC_UNKNOWN_DATATYPE = 5"
| "error_id LABCOMM2014_ERROR_DEC_INDEX_MISMATCH = 6"
| "error_id LABCOMM2014_ERROR_DEC_TYPE_NOT_FOUND = 7"
| "error_id LABCOMM2014_ERROR_UNIMPLEMENTED_FUNC = 8"
| "error_id LABCOMM2014_ERROR_MEMORY = 9"
| "error_id LABCOMM2014_ERROR_USER_DEF = 10"
| "error_id LABCOMM2014_ERROR_BAD_WRITER = 11"

definition labcomm2014_error_string :: "string list" where
  "labcomm2014_error_string =
    [''Signature has already been set'',
     ''Signature has not been set'',
     ''Encoder has no registration for this signature'',
     ''The labcomm2014 buffer is full'',
     ''Decoder has no registration for this signature'',
     ''Decoder: Unknown datatype'',
     ''Decoder: index mismatch'',
     ''Decoder: type not found'',
     ''This function is not yet implemented'',
     ''Could not allocate memory'',
     ''User defined error'',
     ''Decoder: writer_ioctl() failed'']"

definition labcomm2014_error_get_str :: "nat \<Rightarrow> string option" where
  "labcomm2014_error_get_str i =
     (if i < length labcomm2014_error_string then Some (labcomm2014_error_string ! i) else None)"

text \<open>
  Both reports print to stderr and then call \<^verbatim>\<open>exit(1)\<close>, the warning too.
\<close>

definition labcomm2014_error_fatal_global :: "labcomm2014_error \<Rightarrow> ('s, unit) prog" where
  "labcomm2014_error_fatal_global e = stop (Exit e)"

definition labcomm2014_error_warning :: "labcomm2014_error \<Rightarrow> ('s, unit) prog" where
  "labcomm2014_error_warning e = stop (Exit e)"

lemma error_id_less: "error_id e < length labcomm2014_error_string"
  by (cases e) (simp_all add: labcomm2014_error_string_def)

lemma error_get_str_error_id:
  "labcomm2014_error_get_str (error_id e) = Some (labcomm2014_error_string ! error_id e)"
  by (simp add: labcomm2014_error_get_str_def error_id_less)

end
