(* ===== verification/LC_Signature.thy ===== *)
theory LC_Signature
  imports LC_Memory LC_Wire
begin

text \<open>
  Type signatures (\<^verbatim>\<open>labcomm2014_type_signature.h\<close>, \<^verbatim>\<open>labcomm2014_type_signature.c\<close>) and the
  local indices given to them (\<^verbatim>\<open>labcomm2014.c\<close>).

  A signature carries its name, the flat signature bytes and the tree data: a sequence of
  entries that are either literal bytes or references to other signatures.  The sequence
  ends with the sentinel \<^verbatim>\<open>LABCOMM_SIGDEF_END\<close>, here the end of the list.  The type
  parameter \<open>'v\<close> is the type of sample values; \<open>sig_encoded_size\<close> is the generated function
  that gives the encoded size of a value.
\<close>

datatype (dead 'v) signature =
  Signature (sig_name: cstring) (sig_encoded_size: "'v \<Rightarrow> int") (sig_size: int)
    (sig_signature: "byte list") (sig_index: int) (sig_treedata: "'v signature_data list")
and (dead 'v) signature_data =
    SigBytes "byte list"       \<comment> \<open>\<open>length > 0\<close> and \<open>u.bytes\<close>\<close>
  | SigRef "'v signature"      \<comment> \<open>\<open>length = 0\<close> and \<open>u.signature\<close>\<close>
  | SigNull                    \<comment> \<open>\<open>length = 0\<close> and no signature: malformed\<close>

record raw_type_def =
  rtd_name :: "cstring option"
  rtd_index :: int
  rtd_length :: int
  rtd_signature_data :: "byte list"

record type_binding =
  tb_sample_index :: int
  tb_type_index :: int

section \<open>Local indices\<close>

definition initial_local_index :: int where
  "initial_local_index = LABCOMM_USER"

primrec set_sig_index :: "int \<Rightarrow> 'v signature \<Rightarrow> 'v signature" where
  "set_sig_index i (Signature nm es sz bs j td) = Signature nm es sz bs i td"

text \<open>The state is the static variable \<^verbatim>\<open>local_index\<close>; the updated signature is returned.\<close>

definition labcomm2014_set_local_index :: "'v signature \<Rightarrow> (int, 'v signature) prog" where
  "labcomm2014_set_local_index s =
     andthen (if sig_index s \<noteq> 0
              then labcomm2014_error_fatal_global LABCOMM2014_ERROR_SIGNATURE_ALREADY_SET
              else ret ()) (\<lambda>_.
     andthen (gets id) (\<lambda>i.
     if i = INT_MAX then stop Undef
     else andthen (modify (\<lambda>i. i + 1)) (\<lambda>_. ret (set_sig_index i s))))"

definition labcomm2014_get_local_index :: "'v signature option \<Rightarrow> ('s, int) prog" where
  "labcomm2014_get_local_index so =
     (case so of None \<Rightarrow> ret 0
      | Some s \<Rightarrow> andthen (if sig_index s = 0
                          then labcomm2014_error_fatal_global LABCOMM2014_ERROR_SIGNATURE_NOT_SET
                          else ret ()) (\<lambda>_. ret (sig_index s)))"

definition labcomm2014_get_local_type_index :: "'v signature option \<Rightarrow> ('s, int) prog" where
  "labcomm2014_get_local_type_index so = labcomm2014_get_local_index so"

section \<open>Walking the tree data\<close>

lemma size_treedata_less [simp]:
  "size_list size (sig_treedata s) < size (SigRef s)"
  by (cases s) simp

text \<open>
  \<^verbatim>\<open>sig_dump_checked\<close>: the bytes written to \<^verbatim>\<open>buf\<close> so far are \<open>acc\<close> (their number is
  \<^verbatim>\<open>*len\<close>), \<open>n\<close> is the capacity \<^verbatim>\<open>buflen\<close>.
\<close>

fun dump_bytes :: "nat \<Rightarrow> byte list \<Rightarrow> byte list \<Rightarrow> byte list" where
  "dump_bytes n acc [] = acc"
| "dump_bytes n acc (b # bs) = (if length acc < n then dump_bytes n (acc @ [b]) bs else acc)"

function sig_dump_checked :: "nat \<Rightarrow> byte list \<Rightarrow> 'v signature_data list \<Rightarrow> bool \<times> byte list" where
  "sig_dump_checked n acc [] = (n \<le> length acc, acc)"
| "sig_dump_checked n acc (p # ps) =
     (if length acc < n then
        (case p of
           SigBytes bs \<Rightarrow> if bs = [] then (True, acc)
                          else sig_dump_checked n (dump_bytes n acc bs) ps
         | SigRef s \<Rightarrow> sig_dump_checked n (snd (sig_dump_checked n acc (sig_treedata s))) ps
         | SigNull \<Rightarrow> (True, acc))
      else (n \<le> length acc, acc))"
  by pat_completeness auto
termination
  by (relation "measure (\<lambda>(n, acc, ps). size_list size ps)")
    (auto simp del: signature_data.size(5) intro: less_trans_Suc le_less_trans [OF less_imp_le [OF size_treedata_less]])

definition labcomm2014_signature_dump :: "'v signature_data list \<Rightarrow> nat \<Rightarrow> bool \<times> byte list" where
  "labcomm2014_signature_dump s len = sig_dump_checked len [] s"

definition labcomm2014_signature_cmp :: "'v signature_data list \<Rightarrow> 'v signature_data list \<Rightarrow> bool" where
  "labcomm2014_signature_cmp s1 s2 =
     (let (res1, buf1) = labcomm2014_signature_dump s1 512;
          (res2, buf2) = labcomm2014_signature_dump s2 512
      in if res1 \<or> res2 then False else length buf1 = length buf2 \<and> buf1 = buf2)"

text \<open>
  \<^verbatim>\<open>map_signature\<close> calls \<open>f\<close> on each byte, and on each reference when it does not flatten.
\<close>

fun map_bytes :: "(byte \<Rightarrow> 'v signature option \<Rightarrow> ('s, unit) prog) \<Rightarrow> byte list \<Rightarrow> ('s, unit) prog" where
  "map_bytes f [] = ret ()"
| "map_bytes f (b # bs) = andthen (f b None) (\<lambda>_. map_bytes f bs)"

function map_treedata ::
    "(byte \<Rightarrow> 'v signature option \<Rightarrow> ('s, unit) prog) \<Rightarrow> bool \<Rightarrow> 'v signature_data list \<Rightarrow> ('s, unit) prog"
  where
  "map_treedata f fl [] = ret ()"
| "map_treedata f fl (p # ps) =
     (case p of
        SigBytes bs \<Rightarrow> if bs = [] then ret ()
                       else andthen (map_bytes f bs) (\<lambda>_. map_treedata f fl ps)
      | SigRef s \<Rightarrow> andthen (if fl then map_treedata f fl (sig_treedata s) else f 0 (Some s))
                      (\<lambda>_. map_treedata f fl ps)
      | SigNull \<Rightarrow> ret ())"
  by pat_completeness auto
termination
  by (relation "measure (\<lambda>(f, fl, ps). size_list size ps)")
    (auto simp del: signature_data.size(5) intro: less_trans_Suc le_less_trans [OF less_imp_le [OF size_treedata_less]])

definition map_signature ::
    "(byte \<Rightarrow> 'v signature option \<Rightarrow> ('s, unit) prog) \<Rightarrow> 'v signature \<Rightarrow> bool \<Rightarrow> ('s, unit) prog" where
  "map_signature f s fl = map_treedata f fl (sig_treedata s)"

section \<open>What the walks compute\<close>

text \<open>
  The reference: \<open>tree_wf\<close> says that the tree data has no malformed entry, \<open>flatten\<close> is the
  byte sequence it denotes, \<open>tree_items\<close> the sequence of bytes and references of its top level.
\<close>

function tree_wf :: "'v signature_data list \<Rightarrow> bool" where
  "tree_wf [] = True"
| "tree_wf (SigBytes bs # ps) = (bs \<noteq> [] \<and> tree_wf ps)"
| "tree_wf (SigRef s # ps) = (tree_wf (sig_treedata s) \<and> tree_wf ps)"
| "tree_wf (SigNull # ps) = False"
  by pat_completeness auto
termination
  by (relation "measure (size_list size)")
    (auto simp del: signature_data.size(5) intro: less_trans_Suc le_less_trans [OF less_imp_le [OF size_treedata_less]])

function flatten :: "'v signature_data list \<Rightarrow> byte list" where
  "flatten [] = []"
| "flatten (SigBytes bs # ps) = bs @ flatten ps"
| "flatten (SigRef s # ps) = flatten (sig_treedata s) @ flatten ps"
| "flatten (SigNull # ps) = flatten ps"
  by pat_completeness auto
termination
  by (relation "measure (size_list size)")
    (auto simp del: signature_data.size(5) intro: less_trans_Suc le_less_trans [OF less_imp_le [OF size_treedata_less]])

fun tree_items :: "'v signature_data list \<Rightarrow> (byte \<times> 'v signature option) list" where
  "tree_items [] = []"
| "tree_items (SigBytes bs # ps) = (if bs = [] then [] else map (\<lambda>b. (b, None)) bs @ tree_items ps)"
| "tree_items (SigRef s # ps) = (0, Some s) # tree_items ps"
| "tree_items (SigNull # ps) = []"

fun map_items ::
    "(byte \<Rightarrow> 'v signature option \<Rightarrow> ('s, unit) prog) \<Rightarrow> (byte \<times> 'v signature option) list \<Rightarrow> ('s, unit) prog"
  where
  "map_items f [] = ret ()"
| "map_items f ((b, so) # xs) = andthen (f b so) (\<lambda>_. map_items f xs)"

lemma dump_bytes_eq:
  "length acc \<le> n \<Longrightarrow> dump_bytes n acc bs = take n (acc @ bs)"
  by (induction n acc bs rule: dump_bytes.induct) auto

lemma sig_dump_checked_eq:
  assumes "tree_wf td" and "length acc \<le> n"
  shows "sig_dump_checked n acc td = (n \<le> length acc + length (flatten td), take n (acc @ flatten td))"
  using assms
proof (induction n acc td rule: sig_dump_checked.induct)
  case (1 n acc)
  then show ?case by simp
next
  case (2 n acc p ps)
  show ?case
  proof (cases "length acc < n")
    case False
    with "2.prems" show ?thesis by simp
  next
    case True
    show ?thesis
    proof (cases p)
      case (SigBytes bs)
      have "length (take n (acc @ bs)) \<le> n" by simp
      with SigBytes True "2.prems" "2.IH"(1) [OF True SigBytes] show ?thesis
        by (auto simp: dump_bytes_eq min_def)
    next
      case (SigRef s)
      have inner: "sig_dump_checked n acc (sig_treedata s) =
          (n \<le> length acc + length (flatten (sig_treedata s)),
           take n (acc @ flatten (sig_treedata s)))"
        using "2.IH"(2) [OF True SigRef] "2.prems" SigRef by simp
      with SigRef True "2.prems" "2.IH"(3) [OF True SigRef] show ?thesis
        by (cases "length (flatten (sig_treedata s)) \<le> n - length acc") auto
    next
      case SigNull
      with "2.prems" show ?thesis by simp
    qed
  qed
qed

lemma map_bytes_items: "map_bytes f bs = map_items f (map (\<lambda>b. (b, None)) bs)"
  by (induction bs) simp_all

lemma map_items_append:
  "map_items f (xs @ ys) = andthen (map_items f xs) (\<lambda>_. map_items f ys)"
  by (induction f xs rule: map_items.induct) (simp_all add: andthen_assoc)

lemma map_treedata_items: "map_treedata f False td = map_items f (tree_items td)"
  by (induction td rule: tree_items.induct) (auto simp: map_bytes_items map_items_append)

lemma map_treedata_flatten:
  "tree_wf td \<Longrightarrow> map_treedata f True td = map_bytes f (flatten td)"
  by (induction td rule: flatten.induct) (auto simp: map_bytes_items map_items_append)

end
