(* ===== verification/LC_Ioctl.thy ===== *)
theory LC_Ioctl
  imports LC_Prelude
begin

text \<open>
  The ioctl action words of \<^verbatim>\<open>labcomm2014_ioctl.h\<close>: a 32-bit word made of a signature
  flag (1 bit), a direction (2), a size (13), a type (8) and a number (8), and the macros
  that take it apart.
\<close>

definition LABCOMM_IOC_NRBITS :: nat where "LABCOMM_IOC_NRBITS = 8"
definition LABCOMM_IOC_TYPEBITS :: nat where "LABCOMM_IOC_TYPEBITS = 8"
definition LABCOMM_IOC_SIZEBITS :: nat where "LABCOMM_IOC_SIZEBITS = 13"
definition LABCOMM_IOC_DIRBITS :: nat where "LABCOMM_IOC_DIRBITS = 2"
definition LABCOMM_IOC_SIGBITS :: nat where "LABCOMM_IOC_SIGBITS = 1"

text \<open>The masks \<^verbatim>\<open>((1 << BITS)-1)\<close> and the shifts.\<close>

definition ioc_mask :: "nat \<Rightarrow> u32" where
  "ioc_mask bits = push_bit bits 1 - 1"

definition LABCOMM_IOC_NRSHIFT :: nat where "LABCOMM_IOC_NRSHIFT = 0"
definition LABCOMM_IOC_TYPESHIFT :: nat where
  "LABCOMM_IOC_TYPESHIFT = LABCOMM_IOC_NRSHIFT + LABCOMM_IOC_NRBITS"
definition LABCOMM_IOC_SIZESHIFT :: nat where
  "LABCOMM_IOC_SIZESHIFT = LABCOMM_IOC_TYPESHIFT + LABCOMM_IOC_TYPEBITS"
definition LABCOMM_IOC_DIRSHIFT :: nat where
  "LABCOMM_IOC_DIRSHIFT = LABCOMM_IOC_SIZESHIFT + LABCOMM_IOC_SIZEBITS"
definition LABCOMM_IOC_SIGSHIFT :: nat where
  "LABCOMM_IOC_SIGSHIFT = LABCOMM_IOC_DIRSHIFT + LABCOMM_IOC_DIRBITS"

lemmas ioc_shift_defs = LABCOMM_IOC_NRBITS_def LABCOMM_IOC_TYPEBITS_def
  LABCOMM_IOC_SIZEBITS_def LABCOMM_IOC_DIRBITS_def LABCOMM_IOC_SIGBITS_def
  LABCOMM_IOC_NRSHIFT_def LABCOMM_IOC_TYPESHIFT_def LABCOMM_IOC_SIZESHIFT_def
  LABCOMM_IOC_DIRSHIFT_def LABCOMM_IOC_SIGSHIFT_def

definition LABCOMM_IOC_NOSIG :: u32 where "LABCOMM_IOC_NOSIG = 0"
definition LABCOMM_IOC_USESIG :: u32 where "LABCOMM_IOC_USESIG = 1"
definition LABCOMM_IOC_NONE :: u32 where "LABCOMM_IOC_NONE = 0"
definition LABCOMM_IOC_WRITE :: u32 where "LABCOMM_IOC_WRITE = 1"
definition LABCOMM_IOC_READ :: u32 where "LABCOMM_IOC_READ = 2"

definition LABCOMM_IOC :: "u32 \<Rightarrow> u32 \<Rightarrow> u32 \<Rightarrow> u32 \<Rightarrow> u32 \<Rightarrow> u32" where
  "LABCOMM_IOC sig dir ty nr sz =
     push_bit LABCOMM_IOC_SIGSHIFT sig OR push_bit LABCOMM_IOC_DIRSHIFT dir OR
     push_bit LABCOMM_IOC_SIZESHIFT sz OR push_bit LABCOMM_IOC_TYPESHIFT ty OR
     push_bit LABCOMM_IOC_NRSHIFT nr"

definition LABCOMM_IOC_SIG :: "u32 \<Rightarrow> u32" where
  "LABCOMM_IOC_SIG n = drop_bit LABCOMM_IOC_SIGSHIFT n AND ioc_mask LABCOMM_IOC_SIGBITS"
definition LABCOMM_IOC_DIR :: "u32 \<Rightarrow> u32" where
  "LABCOMM_IOC_DIR n = drop_bit LABCOMM_IOC_DIRSHIFT n AND ioc_mask LABCOMM_IOC_DIRBITS"
definition LABCOMM_IOC_SIZE :: "u32 \<Rightarrow> u32" where
  "LABCOMM_IOC_SIZE n = drop_bit LABCOMM_IOC_SIZESHIFT n AND ioc_mask LABCOMM_IOC_SIZEBITS"
definition LABCOMM_IOC_TYPE :: "u32 \<Rightarrow> u32" where
  "LABCOMM_IOC_TYPE n = drop_bit LABCOMM_IOC_TYPESHIFT n AND ioc_mask LABCOMM_IOC_TYPEBITS"
definition LABCOMM_IOC_NR :: "u32 \<Rightarrow> u32" where
  "LABCOMM_IOC_NR n = drop_bit LABCOMM_IOC_NRSHIFT n AND ioc_mask LABCOMM_IOC_NRBITS"

definition LABCOMM_IO :: "u32 \<Rightarrow> u32 \<Rightarrow> u32" where
  "LABCOMM_IO ty nr = LABCOMM_IOC LABCOMM_IOC_NOSIG LABCOMM_IOC_NONE ty nr 0"
definition LABCOMM_IOR :: "u32 \<Rightarrow> u32 \<Rightarrow> u32 \<Rightarrow> u32" where
  "LABCOMM_IOR ty nr sz = LABCOMM_IOC LABCOMM_IOC_NOSIG LABCOMM_IOC_READ ty nr sz"
definition LABCOMM_IOW :: "u32 \<Rightarrow> u32 \<Rightarrow> u32 \<Rightarrow> u32" where
  "LABCOMM_IOW ty nr sz = LABCOMM_IOC LABCOMM_IOC_NOSIG LABCOMM_IOC_WRITE ty nr sz"
definition LABCOMM_IOS :: "u32 \<Rightarrow> u32 \<Rightarrow> u32" where
  "LABCOMM_IOS ty nr = LABCOMM_IOC LABCOMM_IOC_USESIG LABCOMM_IOC_READ ty nr 0"
definition LABCOMM_IOSR :: "u32 \<Rightarrow> u32 \<Rightarrow> u32 \<Rightarrow> u32" where
  "LABCOMM_IOSR ty nr sz = LABCOMM_IOC LABCOMM_IOC_USESIG LABCOMM_IOC_READ ty nr sz"
definition LABCOMM_IOSW :: "u32 \<Rightarrow> u32 \<Rightarrow> u32 \<Rightarrow> u32" where
  "LABCOMM_IOSW ty nr sz = LABCOMM_IOC LABCOMM_IOC_USESIG LABCOMM_IOC_WRITE ty nr sz"

text \<open>\<^verbatim>\<open>sizeof(int)\<close> is 4, \<^verbatim>\<open>sizeof(void*)\<close> is 8.\<close>

definition LABCOMM_IOCTL_WRITER_GET_BYTES_WRITTEN :: u32 where
  "LABCOMM_IOCTL_WRITER_GET_BYTES_WRITTEN = LABCOMM_IOR 0 1 4"
definition LABCOMM_IOCTL_WRITER_GET_BYTE_POINTER :: u32 where
  "LABCOMM_IOCTL_WRITER_GET_BYTE_POINTER = LABCOMM_IOR 0 2 8"

lemma ioc_mask_eq: "ioc_mask n = mask n"
  by (simp add: ioc_mask_def mask_eq_exp_minus_1 push_bit_eq_mult)

lemma small_word_bit:
  fixes x :: u32
  assumes "x < 2 ^ k" and "bit x n"
  shows "n < k"
proof -
  have "x AND mask k = x"
    using assms(1) by (rule less_mask_eq)
  then have "bit (x AND mask k) n" using assms(2) by simp
  then show ?thesis by (simp add: bit_and_iff bit_mask_iff)
qed

lemmas ioc_field_defs = LABCOMM_IOC_def LABCOMM_IOC_SIG_def LABCOMM_IOC_DIR_def
  LABCOMM_IOC_SIZE_def LABCOMM_IOC_TYPE_def LABCOMM_IOC_NR_def

text \<open>
  The fields of an action word are independent: when each argument of \<open>LABCOMM_IOC\<close> fits in
  its field, the extraction macros give the arguments back.
\<close>

lemma ioc_fields:
  assumes "sig < 2 ^ 1" "dir < 2 ^ 2" "ty < 2 ^ 8" "nr < 2 ^ 8" "sz < 2 ^ 13"
  shows "LABCOMM_IOC_SIG (LABCOMM_IOC sig dir ty nr sz) = sig"
    and "LABCOMM_IOC_DIR (LABCOMM_IOC sig dir ty nr sz) = dir"
    and "LABCOMM_IOC_SIZE (LABCOMM_IOC sig dir ty nr sz) = sz"
    and "LABCOMM_IOC_TYPE (LABCOMM_IOC sig dir ty nr sz) = ty"
    and "LABCOMM_IOC_NR (LABCOMM_IOC sig dir ty nr sz) = nr"
  using small_word_bit [OF assms(1)] small_word_bit [OF assms(2)] small_word_bit [OF assms(3)]
    small_word_bit [OF assms(4)] small_word_bit [OF assms(5)]
  by (fastforce intro!: bit_word_eqI simp: ioc_field_defs ioc_shift_defs ioc_mask_eq bit_simps)+

end
