(* ===== verification/LC_Writer.thy ===== *)
theory LC_Writer
  imports LC_Wire LC_Signature LC_Ioctl
begin

text \<open>
  The writer (\<^verbatim>\<open>struct labcomm2014_writer\<close> and the \<^verbatim>\<open>labcomm2014_write_*\<close> functions of
  \<^verbatim>\<open>labcomm2014_private.h\<close>) and the dispatch through its chain of actions
  (\<^verbatim>\<open>UNWRAP\<close> in \<^verbatim>\<open>labcomm2014.c\<close>).

  The record \<open>writer\<close> holds the fields all writers share; a concrete writer extends it with the
  state of its device.  The counters \<^verbatim>\<open>data_size\<close>, \<^verbatim>\<open>count\<close> and \<^verbatim>\<open>pos\<close> are never negative in
  the source.  A chain of action contexts is the list of their action tables; an action that
  wraps another one was built knowing the rest of the chain, its \<^verbatim>\<open>action_context->next\<close>.
\<close>

record writer =
  w_memory :: memory
  w_data :: "byte list option"
  w_data_size :: nat
  w_count :: nat
  w_pos :: nat
  w_error :: int

datatype ioctl_out = IoctlNone | IoctlInt int | IoctlPtr "byte list option"

record ('z, 'v) writer_action =
  wa_alloc :: "('z writer_scheme, int) prog option"
  wa_free :: "('z writer_scheme, int) prog option"
  wa_start :: "(int \<Rightarrow> 'v signature option \<Rightarrow> bool \<Rightarrow> ('z writer_scheme, int) prog) option"
  wa_end :: "('z writer_scheme, int) prog option"
  wa_flush :: "('z writer_scheme, int) prog option"
  wa_ioctl :: "(int \<Rightarrow> 'v signature option \<Rightarrow> u32 \<Rightarrow> int list \<Rightarrow>
                 ('z writer_scheme, int \<times> ioctl_out) prog) option"

section \<open>Dispatch\<close>

text \<open>
  \<^verbatim>\<open>UNWRAP\<close>: the first action of the chain that is not NULL; \<^verbatim>\<open>-ENOSYS\<close> when there is none.
  The first context of the chain is dereferenced without a test.
\<close>

fun unwrap :: "('a \<Rightarrow> 'f option) \<Rightarrow> 'a list \<Rightarrow> 'f option" where
  "unwrap func [] = None"
| "unwrap func (ac # next) = (case func ac of Some f \<Rightarrow> Some f | None \<Rightarrow> unwrap func next)"

definition dispatch :: "'a list \<Rightarrow> ('a \<Rightarrow> 'f option) \<Rightarrow> ('f \<Rightarrow> ('s, 'r) prog) \<Rightarrow> 'r \<Rightarrow> ('s, 'r) prog" where
  "dispatch chain func call nosys =
     (if chain = [] then stop Undef
      else case unwrap func chain of None \<Rightarrow> ret nosys | Some f \<Rightarrow> call f)"

definition labcomm2014_writer_alloc :: "('z, 'v) writer_action list \<Rightarrow> ('z writer_scheme, int) prog" where
  "labcomm2014_writer_alloc acts = dispatch acts wa_alloc id (- ENOSYS)"

definition labcomm2014_writer_free :: "('z, 'v) writer_action list \<Rightarrow> ('z writer_scheme, int) prog" where
  "labcomm2014_writer_free acts = dispatch acts wa_free id (- ENOSYS)"

definition labcomm2014_writer_start ::
    "('z, 'v) writer_action list \<Rightarrow> int \<Rightarrow> 'v signature option \<Rightarrow> bool \<Rightarrow> ('z writer_scheme, int) prog" where
  "labcomm2014_writer_start acts index sig has_value =
     dispatch acts wa_start (\<lambda>f. f index sig has_value) (- ENOSYS)"

definition labcomm2014_writer_end :: "('z, 'v) writer_action list \<Rightarrow> ('z writer_scheme, int) prog" where
  "labcomm2014_writer_end acts = dispatch acts wa_end id (- ENOSYS)"

definition labcomm2014_writer_flush :: "('z, 'v) writer_action list \<Rightarrow> ('z writer_scheme, int) prog" where
  "labcomm2014_writer_flush acts = dispatch acts wa_flush id (- ENOSYS)"

definition labcomm2014_writer_ioctl ::
    "('z, 'v) writer_action list \<Rightarrow> int \<Rightarrow> 'v signature option \<Rightarrow> u32 \<Rightarrow> int list \<Rightarrow>
     ('z writer_scheme, int \<times> ioctl_out) prog" where
  "labcomm2014_writer_ioctl acts index sig action args =
     dispatch acts wa_ioctl (\<lambda>f. f index sig action args) (- ENOSYS, IoctlNone)"

lemmas writer_dispatch_defs = labcomm2014_writer_alloc_def labcomm2014_writer_free_def
  labcomm2014_writer_start_def labcomm2014_writer_end_def labcomm2014_writer_flush_def
  labcomm2014_writer_ioctl_def

section \<open>Writing\<close>

text \<open>\<^verbatim>\<open>w->data[w->pos] = b; w->pos++\<close>: undefined outside of the allocated buffer.\<close>

definition put_buffer :: "byte \<Rightarrow> 'z writer_scheme \<Rightarrow> 'z writer_scheme" where
  "put_buffer b w = w\<lparr>w_data := map_option (\<lambda>d. d[w_pos w := b]) (w_data w), w_pos := Suc (w_pos w)\<rparr>"

definition store_byte :: "byte \<Rightarrow> ('z writer_scheme, unit) prog" where
  "store_byte b = (\<lambda>w. case w_data w of
       None \<Rightarrow> Some (Inl Undef)
     | Some d \<Rightarrow> if w_pos w < length d then Some (Inr ((), put_buffer b w)) else Some (Inl Undef))"

text \<open>One round of a writing loop: flush a full buffer, give up on an error, store the byte.\<close>

definition write_byte_checked :: "('z, 'v) writer_action list \<Rightarrow> byte \<Rightarrow> ('z writer_scheme, int) prog" where
  "write_byte_checked acts b =
     andthen (gets (\<lambda>w. w_count w \<le> w_pos w)) (\<lambda>full.
     andthen (if full then labcomm2014_writer_flush acts else ret 0) (\<lambda>err.
     if err \<noteq> 0 then ret err else andthen (store_byte b) (\<lambda>_. ret 0)))"

fun write_loop :: "('z, 'v) writer_action list \<Rightarrow> byte list \<Rightarrow> ('z writer_scheme, int) prog" where
  "write_loop acts [] = ret 0"
| "write_loop acts (b # bs) =
     andthen (write_byte_checked acts b) (\<lambda>err. if err \<noteq> 0 then ret err else write_loop acts bs)"

definition labcomm2014_write_boolean :: "('z, 'v) writer_action list \<Rightarrow> byte \<Rightarrow> ('z writer_scheme, int) prog" where
  "labcomm2014_write_boolean acts x = write_loop acts (be_bytes 1 x)"
definition labcomm2014_write_byte :: "('z, 'v) writer_action list \<Rightarrow> byte \<Rightarrow> ('z writer_scheme, int) prog" where
  "labcomm2014_write_byte acts x = write_loop acts (be_bytes 1 x)"
definition labcomm2014_write_short :: "('z, 'v) writer_action list \<Rightarrow> 16 word \<Rightarrow> ('z writer_scheme, int) prog" where
  "labcomm2014_write_short acts x = write_loop acts (be_bytes 2 x)"
definition labcomm2014_write_int :: "('z, 'v) writer_action list \<Rightarrow> 32 word \<Rightarrow> ('z writer_scheme, int) prog" where
  "labcomm2014_write_int acts x = write_loop acts (be_bytes 4 x)"
definition labcomm2014_write_long :: "('z, 'v) writer_action list \<Rightarrow> 64 word \<Rightarrow> ('z writer_scheme, int) prog" where
  "labcomm2014_write_long acts x = write_loop acts (be_bytes 8 x)"
definition labcomm2014_write_float :: "('z, 'v) writer_action list \<Rightarrow> 32 word \<Rightarrow> ('z writer_scheme, int) prog" where
  "labcomm2014_write_float acts x = write_loop acts (be_bytes 4 x)"
definition labcomm2014_write_double :: "('z, 'v) writer_action list \<Rightarrow> 64 word \<Rightarrow> ('z writer_scheme, int) prog" where
  "labcomm2014_write_double acts x = write_loop acts (be_bytes 8 x)"

definition labcomm2014_write_packed32 :: "('z, 'v) writer_action list \<Rightarrow> u32 \<Rightarrow> ('z writer_scheme, int) prog" where
  "labcomm2014_write_packed32 acts x = write_loop acts (packed32_bytes x)"

definition labcomm2014_write_string :: "('z, 'v) writer_action list \<Rightarrow> cstring \<Rightarrow> ('z writer_scheme, int) prog" where
  "labcomm2014_write_string acts s =
     andthen (labcomm2014_write_packed32 acts (u32_of_int (string_length s))) (\<lambda>err.
     if err \<noteq> 0 then ret err else write_loop acts (take (nat (string_length s)) s))"

text \<open>
  The loops of the encoder that copy a signature flush a full buffer but do not look at the
  result of the flush.
\<close>

definition write_byte_unchecked :: "('z, 'v) writer_action list \<Rightarrow> byte \<Rightarrow> ('z writer_scheme, unit) prog" where
  "write_byte_unchecked acts b =
     andthen (gets (\<lambda>w. w_count w \<le> w_pos w)) (\<lambda>full.
     andthen (if full then labcomm2014_writer_flush acts else ret 0) (\<lambda>_. store_byte b))"

fun write_unchecked :: "('z, 'v) writer_action list \<Rightarrow> byte list \<Rightarrow> ('z writer_scheme, unit) prog" where
  "write_unchecked acts [] = ret ()"
| "write_unchecked acts (b # bs) =
     andthen (write_byte_unchecked acts b) (\<lambda>_. write_unchecked acts bs)"

section \<open>What a writer promises\<close>

text \<open>
  A sink: \<open>safe\<close> is its invariant, \<open>stream\<close> the bytes of the current packet as they will be
  seen on the other side, \<open>base\<close> the stream right after \<^verbatim>\<open>start\<close> and \<open>sent\<close> what has left the
  buffer after \<^verbatim>\<open>end\<close>.  A sink may fail: then \<^verbatim>\<open>w->error\<close> is set and stays set.  As long as it is zero, no byte is lost.  \<^verbatim>\<open>-EALREADY\<close> from \<^verbatim>\<open>start\<close> asks the encoder to
  skip a packet; a sink never does that.
\<close>

locale writer_sink =
  fixes acts :: "('z, 'v) writer_action list"
    and safe :: "'z writer_scheme \<Rightarrow> bool"
    and stream :: "'z writer_scheme \<Rightarrow> byte list"
    and base :: "'z writer_scheme \<Rightarrow> byte list"
    and sent :: "'z writer_scheme \<Rightarrow> byte list"
  assumes safe_buffer: "safe w \<Longrightarrow> \<exists>d. w_data w = Some d \<and> w_count w \<le> length d"
    and safe_error: "safe w \<Longrightarrow> w_error w \<noteq> - EALREADY"
    and put_law: "safe w \<Longrightarrow> w_pos w < w_count w \<Longrightarrow>
      safe (put_buffer b w) \<and> stream (put_buffer b w) = stream w @ [b]"
    and flush_law: "safe w \<Longrightarrow> wp (labcomm2014_writer_flush acts)
      (\<lambda>err w'. safe w' \<and> err = w_error w' \<and> w_pos w' < w_count w' \<and>
        (w_error w \<noteq> 0 \<longrightarrow> w_error w' \<noteq> 0) \<and> (w_error w' = 0 \<longrightarrow> stream w' = stream w)) w"
    and start_law: "safe w \<Longrightarrow> wp (labcomm2014_writer_start acts i sig v)
      (\<lambda>err w'. safe w' \<and> err = w_error w' \<and> (err = 0 \<longrightarrow> w_error w = 0 \<and> stream w' = base w)) w"
    and end_law: "safe w \<Longrightarrow> wp (labcomm2014_writer_end acts)
      (\<lambda>err w'. safe w' \<and> (w_error w \<noteq> 0 \<longrightarrow> w_error w' \<noteq> 0) \<and>
        (w_error w' = 0 \<longrightarrow> sent w' = stream w)) w"
begin

definition appends :: "'z writer_scheme \<Rightarrow> byte list \<Rightarrow> 'z writer_scheme \<Rightarrow> bool" where
  "appends w bs w' \<longleftrightarrow> safe w' \<and> (w_error w \<noteq> 0 \<longrightarrow> w_error w' \<noteq> 0) \<and>
     (w_error w' = 0 \<longrightarrow> stream w' = stream w @ bs)"

lemma appends_refl [simp]: "safe w \<Longrightarrow> appends w [] w"
  by (simp add: appends_def)

lemma appends_trans: "appends w bs w' \<Longrightarrow> appends w' cs w'' \<Longrightarrow> appends w (bs @ cs) w''"
  by (auto simp: appends_def)

lemma appends_safe: "appends w bs w' \<Longrightarrow> safe w'"
  by (simp add: appends_def)

lemma wp_store_byte:
  assumes "safe w" and "w_pos w < w_count w"
  shows "wp (store_byte b) (\<lambda>_ w'. w' = put_buffer b w \<and> appends w [b] w') w"
  using safe_buffer [OF assms(1)] put_law [OF assms, of b] assms(2)
  by (auto simp: wp_def store_byte_def appends_def put_buffer_def)

lemma wp_flush_if_full:
  assumes "safe w"
  shows "wp (if w_count w \<le> w_pos w then labcomm2014_writer_flush acts else ret 0)
    (\<lambda>err w'. safe w' \<and> (err \<noteq> 0 \<longrightarrow> w_error w' \<noteq> 0) \<and> w_pos w' < w_count w' \<and>
       (w_error w \<noteq> 0 \<longrightarrow> w_error w' \<noteq> 0) \<and> (w_error w' = 0 \<longrightarrow> stream w' = stream w)) w"
  using assms by (auto simp: wp_simps intro: wp_mono [OF flush_law [OF assms]])

text \<open>
  \<open>emits m bs\<close>: whatever \<open>m\<close> returns, it appends \<open>bs\<close> to the stream or sets the error;
  \<open>writes m bs\<close>: moreover a non-zero result means that the error is set.  Both compose the way
  the code does.
\<close>

definition emits :: "('z writer_scheme, 'a) prog \<Rightarrow> byte list \<Rightarrow> bool" where
  "emits m bs \<longleftrightarrow> (\<forall>w. safe w \<longrightarrow> wp m (\<lambda>_. appends w bs) w)"

definition writes :: "('z writer_scheme, int) prog \<Rightarrow> byte list \<Rightarrow> bool" where
  "writes m bs \<longleftrightarrow> (\<forall>w. safe w \<longrightarrow> wp m (\<lambda>err w'. appends w bs w' \<and> (err \<noteq> 0 \<longrightarrow> w_error w' \<noteq> 0)) w)"

lemma emitsD: "emits m bs \<Longrightarrow> safe w \<Longrightarrow> wp m (\<lambda>_. appends w bs) w"
  by (simp add: emits_def)

lemma writesD:
  "writes m bs \<Longrightarrow> safe w \<Longrightarrow> wp m (\<lambda>err w'. appends w bs w' \<and> (err \<noteq> 0 \<longrightarrow> w_error w' \<noteq> 0)) w"
  by (simp add: writes_def)

lemma writes_emits: "writes m bs \<Longrightarrow> emits m bs"
  unfolding emits_def by (blast intro: wp_mono dest: writesD)

lemma emits_ret [simp]: "emits (ret x) []"
  by (simp add: emits_def wp_simps)

lemma writes_ret [simp]: "writes (ret 0) []"
  by (simp add: writes_def wp_simps)

lemma emits_seq:
  assumes "emits m bs" and "\<And>x. emits (f x) cs"
  shows "emits (andthen m f) (bs @ cs)"
  unfolding emits_def wp_andthen
proof (intro allI impI)
  fix w assume "safe w"
  from emitsD [OF assms(1) this] show "wp m (\<lambda>x. wp (f x) (\<lambda>_. appends w (bs @ cs))) w"
    by (rule wp_mono) (blast intro: wp_mono emitsD [OF assms(2)] appends_trans appends_safe)
qed

lemma writes_seq:
  assumes "writes m bs" and "writes n cs"
  shows "writes (andthen m (\<lambda>err. if err \<noteq> 0 then ret err else n)) (bs @ cs)"
  unfolding writes_def wp_andthen
proof (intro allI impI)
  fix w assume "safe w"
  from writesD [OF assms(1) this]
  show "wp m (\<lambda>err. wp (if err \<noteq> 0 then ret err else n)
      (\<lambda>err w'. appends w (bs @ cs) w' \<and> (err \<noteq> 0 \<longrightarrow> w_error w' \<noteq> 0))) w"
  proof (rule wp_mono)
    fix err :: int and w1
    assume w1: "appends w bs w1 \<and> (err \<noteq> 0 \<longrightarrow> w_error w1 \<noteq> 0)"
    show "wp (if err \<noteq> 0 then ret err else n)
      (\<lambda>err w'. appends w (bs @ cs) w' \<and> (err \<noteq> 0 \<longrightarrow> w_error w' \<noteq> 0)) w1"
    proof (cases "err = 0")
      case True
      from w1 have "safe w1" by (simp add: appends_def)
      from writesD [OF assms(2) this] True w1 show ?thesis
        by (auto elim!: wp_mono dest: appends_trans)
    next
      case False
      with w1 show ?thesis by (auto simp: wp_simps appends_def)
    qed
  qed
qed

lemma writes_byte_checked: "writes (write_byte_checked acts b) [b]"
  unfolding writes_def write_byte_checked_def wp_andthen wp_gets
proof (intro allI impI)
  fix w assume "safe w"
  from wp_flush_if_full [OF this]
  show "wp (if w_count w \<le> w_pos w then labcomm2014_writer_flush acts else ret 0)
      (\<lambda>err. wp (if err \<noteq> 0 then ret err else andthen (store_byte b) (\<lambda>_. ret 0))
        (\<lambda>err w'. appends w [b] w' \<and> (err \<noteq> 0 \<longrightarrow> w_error w' \<noteq> 0))) w"
    by (rule wp_mono) (auto simp: wp_simps appends_def intro!: wp_mono [OF wp_store_byte])
qed

lemma writes_loop: "writes (write_loop acts bs) bs"
proof (induction bs)
  case Nil
  then show ?case by simp
next
  case (Cons b bs)
  from writes_seq [OF writes_byte_checked Cons.IH, of b] show ?case by simp
qed

lemma writes_packed32: "writes (labcomm2014_write_packed32 acts x) (packed32_bytes x)"
  unfolding labcomm2014_write_packed32_def by (rule writes_loop)

lemma writes_string:
  assumes "int (length s) \<le> INT_MAX"
  shows "writes (labcomm2014_write_string acts s) (packed32_bytes (u32_of_int (int (length s))) @ s)"
proof -
  have "nat (string_length s) = length s" "u32_of_int (string_length s) = u32_of_int (int (length s))"
    using assms by simp_all
  then show ?thesis
    unfolding labcomm2014_write_string_def by (simp only: take_all order_refl) (intro writes_seq writes_packed32 writes_loop)
qed

lemma emits_byte_unchecked: "emits (write_byte_unchecked acts b) [b]"
  unfolding emits_def write_byte_unchecked_def wp_andthen wp_gets
proof (intro allI impI)
  fix w assume "safe w"
  from wp_flush_if_full [OF this]
  show "wp (if w_count w \<le> w_pos w then labcomm2014_writer_flush acts else ret 0)
      (\<lambda>_. wp (store_byte b) (\<lambda>_. appends w [b])) w"
    by (rule wp_mono) (auto simp: appends_def intro!: wp_mono [OF wp_store_byte])
qed

lemma emits_unchecked: "emits (write_unchecked acts bs) bs"
proof (induction bs)
  case Nil
  then show ?case by simp
next
  case (Cons b bs)
  from emits_seq [OF emits_byte_unchecked Cons.IH, of b] show ?case by simp
qed

lemmas emits_packed32 = writes_packed32 [THEN writes_emits]
  and emits_string = writes_string [THEN writes_emits]

end

end
