(* ===== verification/LC_Reader.thy ===== *)
theory LC_Reader
  imports LC_Writer
begin

text \<open>
  The reader (\<^verbatim>\<open>struct labcomm2014_reader\<close> and the \<^verbatim>\<open>labcomm2014_read_*\<close> functions of
  \<^verbatim>\<open>labcomm2014_private.h\<close>) and the dispatch through its chain of actions, in the same way as the
  writer.
\<close>

record reader =
  r_memory :: memory
  r_data :: "byte list option"
  r_data_size :: nat
  r_count :: nat
  r_pos :: nat
  r_error :: int

record ('z, 'v) reader_action =
  ra_alloc :: "('z reader_scheme, int) prog option"
  ra_free :: "('z reader_scheme, int) prog option"
  ra_start :: "(int \<Rightarrow> int \<Rightarrow> 'v signature option \<Rightarrow> bool \<Rightarrow> ('z reader_scheme, int) prog) option"
  ra_end :: "('z reader_scheme, int) prog option"
  ra_fill :: "('z reader_scheme, int) prog option"
  ra_ioctl :: "(int \<Rightarrow> int \<Rightarrow> 'v signature option \<Rightarrow> u32 \<Rightarrow> int list \<Rightarrow>
                 ('z reader_scheme, int \<times> ioctl_out) prog) option"

section \<open>Dispatch\<close>

definition labcomm2014_reader_alloc :: "('z, 'v) reader_action list \<Rightarrow> ('z reader_scheme, int) prog" where
  "labcomm2014_reader_alloc acts = dispatch acts ra_alloc id (- ENOSYS)"

definition labcomm2014_reader_free :: "('z, 'v) reader_action list \<Rightarrow> ('z reader_scheme, int) prog" where
  "labcomm2014_reader_free acts = dispatch acts ra_free id (- ENOSYS)"

definition labcomm2014_reader_start ::
    "('z, 'v) reader_action list \<Rightarrow> int \<Rightarrow> int \<Rightarrow> 'v signature option \<Rightarrow> bool \<Rightarrow> ('z reader_scheme, int) prog" where
  "labcomm2014_reader_start acts local_index remote_index sig has_value =
     dispatch acts ra_start (\<lambda>f. f local_index remote_index sig has_value) (- ENOSYS)"

definition labcomm2014_reader_end :: "('z, 'v) reader_action list \<Rightarrow> ('z reader_scheme, int) prog" where
  "labcomm2014_reader_end acts = dispatch acts ra_end id (- ENOSYS)"

definition labcomm2014_reader_fill :: "('z, 'v) reader_action list \<Rightarrow> ('z reader_scheme, int) prog" where
  "labcomm2014_reader_fill acts = dispatch acts ra_fill id (- ENOSYS)"

definition labcomm2014_reader_ioctl ::
    "('z, 'v) reader_action list \<Rightarrow> int \<Rightarrow> int \<Rightarrow> 'v signature option \<Rightarrow> u32 \<Rightarrow> int list \<Rightarrow>
     ('z reader_scheme, int \<times> ioctl_out) prog" where
  "labcomm2014_reader_ioctl acts local_index remote_index sig action args =
     dispatch acts ra_ioctl (\<lambda>f. f local_index remote_index sig action args) (- ENOSYS, IoctlNone)"

lemmas reader_dispatch_defs = labcomm2014_reader_alloc_def labcomm2014_reader_free_def
  labcomm2014_reader_start_def labcomm2014_reader_end_def labcomm2014_reader_fill_def
  labcomm2014_reader_ioctl_def

section \<open>Reading\<close>

text \<open>\<^verbatim>\<open>r->data[r->pos]; r->pos++\<close>: undefined outside of the buffer.\<close>

definition load_byte :: "('z reader_scheme, byte) prog" where
  "load_byte = (\<lambda>r. case r_data r of
       None \<Rightarrow> Some (Inl Undef)
     | Some d \<Rightarrow> if r_pos r < length d then Some (Inr (d ! r_pos r, r\<lparr>r_pos := Suc (r_pos r)\<rparr>))
                else Some (Inl Undef))"

text \<open>
  The test in front of every byte: an empty buffer is filled, and the reading stops when the
  error of the reader then fails the test of the loop (\<^verbatim>\<open>error < 0\<close>, or \<^verbatim>\<open>error != 0\<close> for a packed
  number).
\<close>

definition available :: "('z, 'v) reader_action list \<Rightarrow> (int \<Rightarrow> bool) \<Rightarrow> ('z reader_scheme, bool) prog" where
  "available acts failed =
     andthen (gets (\<lambda>r. r_count r \<le> r_pos r)) (\<lambda>empty.
     if empty then andthen (labcomm2014_reader_fill acts) (\<lambda>_. gets (\<lambda>r. \<not> failed (r_error r)))
     else ret True)"

text \<open>\<^verbatim>\<open>LABCOMM_DECODE\<close>: the bytes of a scalar, or 0 as soon as the reader fails.\<close>

fun read_loop :: "('z, 'v) reader_action list \<Rightarrow> nat \<Rightarrow> byte list \<Rightarrow> ('z reader_scheme, byte list option) prog" where
  "read_loop acts 0 acc = ret (Some acc)"
| "read_loop acts (Suc n) acc =
     andthen (available acts (\<lambda>e. e < 0)) (\<lambda>ok.
     if \<not> ok then ret None else andthen load_byte (\<lambda>b. read_loop acts n (acc @ [b])))"

definition read_scalar :: "('z, 'v) reader_action list \<Rightarrow> nat \<Rightarrow> ('z reader_scheme, 'a::len word) prog" where
  "read_scalar acts n =
     andthen (read_loop acts n []) (\<lambda>bs. ret (case bs of None \<Rightarrow> 0 | Some bs \<Rightarrow> of_be_bytes bs))"

definition labcomm2014_read_boolean :: "('z, 'v) reader_action list \<Rightarrow> ('z reader_scheme, byte) prog" where
  "labcomm2014_read_boolean acts = read_scalar acts 1"
definition labcomm2014_read_byte :: "('z, 'v) reader_action list \<Rightarrow> ('z reader_scheme, byte) prog" where
  "labcomm2014_read_byte acts = read_scalar acts 1"
definition labcomm2014_read_short :: "('z, 'v) reader_action list \<Rightarrow> ('z reader_scheme, 16 word) prog" where
  "labcomm2014_read_short acts = read_scalar acts 2"
definition labcomm2014_read_int :: "('z, 'v) reader_action list \<Rightarrow> ('z reader_scheme, 32 word) prog" where
  "labcomm2014_read_int acts = read_scalar acts 4"
definition labcomm2014_read_long :: "('z, 'v) reader_action list \<Rightarrow> ('z reader_scheme, 64 word) prog" where
  "labcomm2014_read_long acts = read_scalar acts 8"
definition labcomm2014_read_float :: "('z, 'v) reader_action list \<Rightarrow> ('z reader_scheme, 32 word) prog" where
  "labcomm2014_read_float acts = read_scalar acts 4"
definition labcomm2014_read_double :: "('z, 'v) reader_action list \<Rightarrow> ('z reader_scheme, 64 word) prog" where
  "labcomm2014_read_double acts = read_scalar acts 8"

text \<open>The loop of \<^verbatim>\<open>labcomm2014_read_packed32\<close> ends at a byte without the mark or at an error.\<close>

partial_function (option) read_packed32_loop ::
    "('z, 'v) reader_action list \<Rightarrow> u32 \<Rightarrow> 'z reader_scheme \<Rightarrow> (stop + u32 \<times> 'z reader_scheme) option" where
  "read_packed32_loop acts result r =
     andthen (available acts (\<lambda>e. e \<noteq> 0)) (\<lambda>ok r.
     if \<not> ok then ret result r
     else andthen load_byte (\<lambda>tmp r.
          if packed32_more tmp then read_packed32_loop acts (packed32_step result tmp) r
          else ret (packed32_step result tmp) r) r) r"

lemma read_packed32_loop_eq:
  "read_packed32_loop acts result = andthen (available acts (\<lambda>e. e \<noteq> 0)) (\<lambda>ok.
     if \<not> ok then ret result
     else andthen load_byte (\<lambda>tmp.
          if packed32_more tmp then read_packed32_loop acts (packed32_step result tmp)
          else ret (packed32_step result tmp)))"
  by (rule ext, subst read_packed32_loop.simps) (auto simp: prog_simps split: option.splits sum.splits)

definition labcomm2014_read_packed32 :: "('z, 'v) reader_action list \<Rightarrow> ('z reader_scheme, u32) prog" where
  "labcomm2014_read_packed32 acts = read_packed32_loop acts 0"

text \<open>
  \<^verbatim>\<open>labcomm2014_read_string\<close>: the characters are read into a block of \<^verbatim>\<open>length + 1\<close> bytes; the
  string the caller sees ends at the first NUL.  A length of -1 asks for a block of 0 bytes and
  writes the terminating NUL behind it.
\<close>

fun read_chars :: "('z, 'v) reader_action list \<Rightarrow> nat \<Rightarrow> byte list \<Rightarrow> ('z reader_scheme, byte list) prog" where
  "read_chars acts 0 acc = ret acc"
| "read_chars acts (Suc n) acc =
     andthen (available acts (\<lambda>e. e < 0)) (\<lambda>ok.
     if \<not> ok then ret acc else andthen load_byte (\<lambda>b. read_chars acts n (acc @ [b])))"

abbreviation on_rmemory :: "(memory, 'a) prog \<Rightarrow> ('z reader_scheme, 'a) prog" where
  "on_rmemory \<equiv> zoom r_memory (\<lambda>m r. r\<lparr>r_memory := m\<rparr>)"

definition c_string :: "byte list \<Rightarrow> cstring" where
  "c_string bs = takeWhile (\<lambda>b. b \<noteq> 0) bs"

definition labcomm2014_read_string :: "('z, 'v) reader_action list \<Rightarrow> ('z reader_scheme, cstring option) prog" where
  "labcomm2014_read_string acts =
     andthen (labcomm2014_read_packed32 acts) (\<lambda>x.
     let len = int_of_u32 x in
     if len = INT_MAX then stop Undef
     else andthen (on_rmemory (labcomm2014_memory_alloc 1 (size_t_of_int (len + 1)))) (\<lambda>ok.
          if \<not> ok then ret None
          else if len = -1 then stop Undef
          else andthen (read_chars acts (nat len) []) (\<lambda>bs. ret (Some (c_string bs)))))"

section \<open>What a reader promises\<close>

text \<open>
  A source: \<open>rok\<close> is its invariant and \<open>rest\<close> the bytes that are still to come.  Filling an
  empty buffer makes the next byte available, or sets \<^verbatim>\<open>r->error\<close> when there is none.
\<close>

locale reader_source =
  fixes acts :: "('z, 'v) reader_action list"
    and rok :: "'z reader_scheme \<Rightarrow> bool"
    and rest :: "'z reader_scheme \<Rightarrow> byte list"
  assumes error_law: "rok r \<Longrightarrow> r_error r \<le> 0"
    and load_law: "rok r \<Longrightarrow> r_pos r < r_count r \<Longrightarrow>
      \<exists>d. r_data r = Some d \<and> r_pos r < length d \<and> rok (r\<lparr>r_pos := Suc (r_pos r)\<rparr>) \<and>
          rest r = d ! r_pos r # rest (r\<lparr>r_pos := Suc (r_pos r)\<rparr>)"
    and fill_law: "rok r \<Longrightarrow> r_count r \<le> r_pos r \<Longrightarrow>
      wp (labcomm2014_reader_fill acts)
        (\<lambda>_ r'. rok r' \<and> r_memory r' = r_memory r \<and> (r_error r < 0 \<longrightarrow> r_error r' < 0) \<and>
          (r_error r = 0 \<longrightarrow> (if rest r = [] then r_error r' < 0
             else r_error r' = 0 \<and> rest r' = rest r \<and> r_pos r' < r_count r'))) r"
    and start_law: "rok r \<Longrightarrow> wp (labcomm2014_reader_start acts li ri sig v) (\<lambda>_ r'. r' = r) r"
    and end_law: "rok r \<Longrightarrow> wp (labcomm2014_reader_end acts) (\<lambda>_ r'. r' = r) r"
    and memory_law: "rok (r\<lparr>r_memory := m\<rparr>) = rok r" "rest (r\<lparr>r_memory := m\<rparr>) = rest r"
begin

text \<open>
  \<open>ready s m r\<close>: no error so far, \<open>s\<close> is still to come and \<open>m\<close> is the state of the memory;
  \<open>broken m r\<close>: the source has failed or ended.
\<close>

definition ready :: "byte list \<Rightarrow> memory \<Rightarrow> 'z reader_scheme \<Rightarrow> bool" where
  "ready s m r \<longleftrightarrow> rok r \<and> r_error r = 0 \<and> rest r = s \<and> r_memory r = m"

definition broken :: "memory \<Rightarrow> 'z reader_scheme \<Rightarrow> bool" where
  "broken m r \<longleftrightarrow> rok r \<and> r_error r < 0 \<and> r_memory r = m"

lemma ready_error [simp]: "ready s m r \<Longrightarrow> r_error r = 0"
  by (simp add: ready_def)

lemma broken_error [simp]: "broken m r \<Longrightarrow> r_error r < 0"
  by (simp add: broken_def)

lemma wp_available:
  assumes "ready s m r" and "\<And>e. e < 0 \<Longrightarrow> failed e" and "\<not> failed 0"
  shows "wp (available acts failed) (\<lambda>ok r'. if s = [] then \<not> ok \<and> broken m r'
            else ok \<and> ready s m r' \<and> r_pos r' < r_count r') r"
proof (cases "r_count r \<le> r_pos r")
  case True
  from assms(1) have r: "rok r" "r_error r = 0" "rest r = s" "r_memory r = m" by (simp_all add: ready_def)
  show ?thesis
    unfolding available_def wp_andthen wp_gets using True
    by (simp add: wp_andthen wp_gets)
      (rule wp_mono [OF fill_law [OF r(1) True]], use r assms(2,3) in \<open>auto simp: wp_gets ready_def broken_def split: if_splits\<close>)
next
  case False
  with assms(1) load_law [of r] show ?thesis by (auto simp: available_def wp_simps ready_def)
qed

lemma wp_load_byte:
  assumes "ready (b # s) m r" and "r_pos r < r_count r"
  shows "wp load_byte (\<lambda>x r'. x = b \<and> ready s m r') r"
  using load_law [of r] assms by (auto simp: wp_def load_byte_def ready_def)

lemma wp_available_load:
  assumes "ready (b # s) m r" and "\<And>e. e < 0 \<Longrightarrow> failed e" and "\<not> failed 0"
    and "\<And>r'. ready s m r' \<Longrightarrow> wp (f b) Q r'"
  shows "wp (andthen (available acts failed) (\<lambda>ok. if \<not> ok then g else andthen load_byte f)) Q r"
  unfolding wp_andthen
  by (rule wp_mono [OF wp_available [where failed = failed, OF assms(1-3)]])
    (auto simp: wp_andthen intro!: wp_mono [OF wp_load_byte] assms(4))

lemma wp_available_eof:
  assumes "ready [] m r" and "\<And>e. e < 0 \<Longrightarrow> failed e" and "\<not> failed 0"
    and "\<And>r'. broken m r' \<Longrightarrow> wp g Q r'"
  shows "wp (andthen (available acts failed) (\<lambda>ok. if \<not> ok then g else h)) Q r"
  unfolding wp_andthen
  by (rule wp_mono [OF wp_available [where failed = failed, OF assms(1-3)]]) (auto intro: assms(4))

lemma wp_read_loop:
  "ready (bs @ s) m r \<Longrightarrow> wp (read_loop acts (length bs) acc) (\<lambda>x r'. x = Some (acc @ bs) \<and> ready s m r') r"
proof (induction bs arbitrary: acc r)
  case Nil
  then show ?case by (simp add: wp_simps)
next
  case (Cons b bs)
  from Cons.prems have "ready (b # bs @ s) m r" by simp
  then show ?case
    unfolding length_Cons read_loop.simps
    by (rule wp_available_load) (use Cons.IH [of _ "acc @ [b]"] in auto)
qed

lemma wp_read_scalar:
  assumes "ready (be_bytes n x @ s) m r" and "LENGTH('a) \<le> 8 * n"
  shows "wp (read_scalar acts n) (\<lambda>y r'. y = (x :: 'a::len word) \<and> ready s m r') r"
  unfolding read_scalar_def wp_andthen
  using wp_read_loop [OF assms(1), of "[]"] assms(2)
  by (auto simp: wp_simps of_be_bytes_be_bytes elim!: wp_mono)

lemma wp_read_byte:
  "ready (b # s) m r \<Longrightarrow> wp (labcomm2014_read_byte acts) (\<lambda>y r'. y = b \<and> ready s m r') r"
  unfolding labcomm2014_read_byte_def
  by (rule wp_read_scalar) (simp_all add: be_bytes_def)

lemma wp_read_byte_eof:
  "ready [] m r \<Longrightarrow> wp (labcomm2014_read_byte acts) (\<lambda>y r'. y = 0 \<and> broken m r') r"
  unfolding labcomm2014_read_byte_def read_scalar_def One_nat_def read_loop.simps andthen_assoc
  unfolding wp_andthen
  by (rule wp_mono [OF wp_available]) (auto simp: wp_simps)

lemma wp_read_packed32_loop:
  "ready s m r \<Longrightarrow> wp (read_packed32_loop acts result)
     (\<lambda>y r'. case unpack32 result s of None \<Rightarrow> broken m r' | Some (x, s') \<Rightarrow> y = x \<and> ready s' m r') r"
proof (induction s arbitrary: result r)
  case Nil
  show ?case unfolding read_packed32_loop_eq [of acts result]
    by (rule wp_available_eof [OF Nil]) (auto simp: wp_simps)
next
  case (Cons b s)
  show ?case unfolding read_packed32_loop_eq [of acts result]
    by (rule wp_available_load [OF Cons.prems]) (use Cons.IH in \<open>auto simp: wp_simps\<close>)
qed

lemma wp_read_packed32:
  "ready (packed32_bytes x @ s) m r \<Longrightarrow> wp (labcomm2014_read_packed32 acts) (\<lambda>y r'. y = x \<and> ready s m r') r"
  unfolding labcomm2014_read_packed32_def by (drule wp_read_packed32_loop [of _ _ _ 0]) simp

lemma wp_read_packed32_eof:
  "ready s m r \<Longrightarrow> unpack32 0 s = None \<Longrightarrow> wp (labcomm2014_read_packed32 acts) (\<lambda>_ r'. broken m r') r"
  unfolding labcomm2014_read_packed32_def by (drule wp_read_packed32_loop [of _ _ _ 0]) simp

lemma wp_read_chars:
  "ready (bs @ s) m r \<Longrightarrow> wp (read_chars acts (length bs) acc) (\<lambda>x r'. x = acc @ bs \<and> ready s m r') r"
proof (induction bs arbitrary: acc r)
  case Nil
  then show ?case by (simp add: wp_simps)
next
  case (Cons b bs)
  from Cons.prems have "ready (b # bs @ s) m r" by simp
  then show ?case
    unfolding length_Cons read_chars.simps
    by (rule wp_available_load) (use Cons.IH [of _ "acc @ [b]"] in auto)
qed

lemma ready_memory: "ready s m r \<Longrightarrow> ready s m' (r\<lparr>r_memory := m'\<rparr>)"
  by (simp add: ready_def memory_law)

text \<open>A string that fits is read back; its block stays allocated.\<close>

abbreviation one_more :: "memory \<Rightarrow> memory" where
  "one_more m \<equiv> m\<lparr>mem_calls := Suc (mem_calls m), mem_live := mem_live m + 1\<rparr>"

lemma wp_read_string:
  assumes "ready (packed32_bytes (u32_of_int (int (length str))) @ str @ s) m r"
    and "int (length str) < INT_MAX" and "plenty m"
  shows "wp (labcomm2014_read_string acts) (\<lambda>y r'. y = Some (c_string str) \<and> ready s (one_more m) r') r"
proof -
  have len: "int_of_u32 (u32_of_int (int (length str))) = int (length str)"
    using assms(2) by (intro int_of_u32_of_int) (auto simp: INT_MIN_def)
  show ?thesis
    unfolding labcomm2014_read_string_def wp_andthen
  proof (rule wp_mono [OF wp_read_packed32 [OF assms(1)]], elim conjE, hypsubst)
    fix r1 assume r1: "ready (str @ s) m r1"
    then have m: "r_memory r1 = m" by (simp add: ready_def)
    note chars = wp_read_chars [OF ready_memory [OF r1, of "one_more m"], of "[]"]
    show "wp (let len = int_of_u32 (u32_of_int (int (length str)))
         in if len = INT_MAX then stop Undef
            else andthen (on_rmemory (labcomm2014_memory_alloc 1 (size_t_of_int (len + 1)))) (\<lambda>ok.
              if \<not> ok then ret None else if len = - 1 then stop Undef
              else andthen (read_chars acts (nat len) []) (\<lambda>bs. ret (Some (c_string bs)))))
        (\<lambda>y r'. y = Some (c_string str) \<and> ready s (one_more m) r') r1"
      using assms(2,3) m
      by (simp add: len wp_simps Let_def) (rule wp_mono [OF chars], simp add: wp_ret)
  qed
qed

end

end
