(* ===== verification/LC_FdReader.thy ===== *)
theory LC_FdReader
  imports LC_Reader
begin

text \<open>
  The file descriptor reader (\<^verbatim>\<open>labcomm2014_fd_reader.c\<close>): a buffer of 2048 bytes that is refilled
  with one call of \<^verbatim>\<open>read\<close> whenever it is used up.

  The operating system is a parameter: \<open>sys_read d n\<close> is one call of \<^verbatim>\<open>read\<close> on a device in state
  \<open>d\<close> for at most \<open>n\<close> bytes; it gives the result, the bytes and the new state.
\<close>

definition FDR_BUFFER_SIZE :: nat where "FDR_BUFFER_SIZE = 2048"

record 'd fd_reader = reader +
  fr_dev :: 'd
  fr_close_fd_on_free :: bool

type_synonym 'd sys_read = "'d \<Rightarrow> nat \<Rightarrow> int \<times> byte list \<times> 'd"
type_synonym 'd fdr_ext = "('d, unit) fd_reader_ext"

definition fdr_alloc :: "('d fd_reader, int) prog" where
  "fdr_alloc =
     andthen (modify (\<lambda>r. r\<lparr>r_count := 0, r_pos := 0\<rparr>)) (\<lambda>_.
     andthen (on_rmemory (labcomm2014_memory_alloc 0 FDR_BUFFER_SIZE)) (\<lambda>ok.
     if \<not> ok then andthen (modify (\<lambda>r. r\<lparr>r_data := None, r_data_size := 0\<rparr>)) (\<lambda>_. ret (- ENOMEM))
     else andthen (modify (\<lambda>r. r\<lparr>r_data := Some (replicate FDR_BUFFER_SIZE 0),
                                 r_data_size := FDR_BUFFER_SIZE\<rparr>)) (\<lambda>_.
          gets (\<lambda>r. int (r_data_size r)))))"

definition fdr_free :: "('d \<Rightarrow> 'd) \<Rightarrow> ('d fd_reader, int) prog" where
  "fdr_free sys_close =
     andthen (gets (\<lambda>r. r_data r \<noteq> None)) (\<lambda>nonnull.
     andthen (on_rmemory (labcomm2014_memory_free 0 nonnull)) (\<lambda>_.
     andthen (modify (\<lambda>r. r\<lparr>r_data := None, r_data_size := 0, r_count := 0, r_pos := 0\<rparr>)) (\<lambda>_.
     andthen (modify (\<lambda>r. if fr_close_fd_on_free r then r\<lparr>fr_dev := sys_close (fr_dev r)\<rparr> else r)) (\<lambda>_.
     andthen (on_rmemory (labcomm2014_memory_free 0 True)) (\<lambda>_.
     ret 0)))))"

definition fdr_fill :: "'d sys_read \<Rightarrow> ('d fd_reader, int) prog" where
  "fdr_fill sys_read = (\<lambda>r.
     if r_pos r < r_count r then Some (Inr (int (r_count r) - int (r_pos r), r))
     else let (err, bs, d) = sys_read (fr_dev r) (r_data_size r);
              r1 = r\<lparr>r_pos := 0, fr_dev := d\<rparr>
          in if err \<le> 0 then Some (Inr (- EPIPE, r1\<lparr>r_count := 0, r_error := - EPIPE\<rparr>))
             else (case r_data r of
                     None \<Rightarrow> Some (Inl Undef)
                   | Some data \<Rightarrow>
                       Some (Inr (err, r1\<lparr>r_data := Some (bs @ drop (length bs) data), r_count := nat err\<rparr>))))"

definition fdr_action :: "'d sys_read \<Rightarrow> ('d \<Rightarrow> 'd) \<Rightarrow> ('d fdr_ext, 'v) reader_action" where
  "fdr_action sys_read sys_close =
     \<lparr>ra_alloc = Some fdr_alloc, ra_free = Some (fdr_free sys_close), ra_start = None, ra_end = None,
      ra_fill = Some (fdr_fill sys_read), ra_ioctl = None\<rparr>"

definition labcomm2014_fd_reader_new ::
    "'d sys_read \<Rightarrow> ('d \<Rightarrow> 'd) \<Rightarrow> 'd \<Rightarrow> bool \<Rightarrow>
     (memory, ('d fd_reader \<times> ('d fdr_ext, 'v) reader_action list) option) prog" where
  "labcomm2014_fd_reader_new sys_read sys_close fd close_fd_on_free =
     andthen (labcomm2014_memory_alloc 0 80) (\<lambda>ok.
     gets (\<lambda>m. if ok then Some (\<lparr>r_memory = m, r_data = None, r_data_size = 0, r_count = 0, r_pos = 0,
                                 r_error = 0, fr_dev = fd, fr_close_fd_on_free = close_fd_on_free\<rparr>,
                               [fdr_action sys_read sys_close]) else None))"

section \<open>Contract\<close>

lemma fdr_dispatch [simp]:
  "labcomm2014_reader_alloc [fdr_action sr sc] = fdr_alloc"
  "labcomm2014_reader_free [fdr_action sr sc] = fdr_free sc"
  "labcomm2014_reader_start [fdr_action sr sc] li ri sig v = ret (- ENOSYS)"
  "labcomm2014_reader_end [fdr_action sr sc] = ret (- ENOSYS)"
  "labcomm2014_reader_fill [fdr_action sr sc] = fdr_fill sr"
  "labcomm2014_reader_ioctl [fdr_action sr sc] li ri sig a args = ret (- ENOSYS, IoctlNone)"
  by (simp_all add: fun_eq_iff reader_dispatch_defs dispatch_def fdr_action_def)

definition fdr_ok :: "'d fd_reader \<Rightarrow> bool" where
  "fdr_ok r \<longleftrightarrow> (case r_data r of None \<Rightarrow> False
     | Some d \<Rightarrow> length d = r_data_size r \<and> 0 < r_data_size r) \<and>
     r_pos r \<le> r_count r \<and> r_count r \<le> r_data_size r \<and> r_error r \<le> 0"

text \<open>The bytes still to be read: those in the buffer, then those of the device.\<close>

definition fd_unread :: "('d \<Rightarrow> byte list) \<Rightarrow> 'd fd_reader \<Rightarrow> byte list" where
  "fd_unread pending r = (case r_data r of None \<Rightarrow> [] | Some d \<Rightarrow> drop (r_pos r) (take (r_count r) d)) @
     pending (fr_dev r)"

text \<open>
  POSIX \<^verbatim>\<open>read\<close>: a positive result is the number of bytes delivered, never more than asked for;
  \<open>pending\<close> are the bytes that come before the next end of file or failure.
\<close>

locale posix_read =
  fixes sys_read :: "'d sys_read"
    and pending :: "'d \<Rightarrow> byte list"
  assumes read_law: "sys_read d n = (r, bs, d') \<Longrightarrow> 0 < n \<Longrightarrow>
    (if r \<le> 0 then pending d = []
     else nat r = length bs \<and> length bs \<le> n \<and> pending d = bs @ pending d')"
begin

abbreviation fdr_rest :: "'d fd_reader \<Rightarrow> byte list" where
  "fdr_rest \<equiv> fd_unread pending"

lemma wp_fdr_fill:
  assumes "fdr_ok r" and "r_count r \<le> r_pos r"
  shows "wp (fdr_fill sys_read) (\<lambda>_ r'. fdr_ok r' \<and> r_memory r' = r_memory r \<and>
      (r_error r < 0 \<longrightarrow> r_error r' < 0) \<and>
      (r_error r = 0 \<longrightarrow> (if fdr_rest r = [] then r_error r' < 0
         else r_error r' = 0 \<and> fdr_rest r' = fdr_rest r \<and> r_pos r' < r_count r'))) r"
proof -
  from assms obtain data where data: "r_data r = Some data" "length data = r_data_size r" "0 < r_data_size r"
    by (auto simp: fdr_ok_def split: option.splits)
  obtain err bs d where call: "sys_read (fr_dev r) (r_data_size r) = (err, bs, d)"
    by (cases "sys_read (fr_dev r) (r_data_size r)")
  from read_law [OF call data(3)] show ?thesis
    using assms data call
    by (auto simp: wp_def fdr_fill_def fdr_ok_def fd_unread_def Let_def EPIPE_def split: if_splits)
qed

end

sublocale posix_read \<subseteq> fdr: reader_source "[fdr_action sys_read sys_close]" fdr_ok fdr_rest
  for sys_close
proof (unfold_locales, goal_cases)
  case (1 r)
  then show ?case by (simp add: fdr_ok_def)
next
  case (2 r)
  then obtain d where d: "r_data r = Some d" "length d = r_data_size r" "r_count r \<le> length d"
    by (auto simp: fdr_ok_def split: option.splits)
  with 2 have "drop (r_pos r) (take (r_count r) d) = d ! r_pos r # drop (Suc (r_pos r)) (take (r_count r) d)"
    by (simp add: Cons_nth_drop_Suc [symmetric])
  with d 2 show ?case by (auto simp: fdr_ok_def fd_unread_def)
next
  case (3 r)
  then show ?case by (simp add: wp_fdr_fill)
qed (auto simp: wp_simps fdr_ok_def fd_unread_def split: option.splits)

lemma fdr_alloc_ok:
  assumes "plenty (r_memory r)" and "r_error r = 0"
  shows "wp fdr_alloc (\<lambda>n r'. fdr_ok r' \<and> n = 2048 \<and> r_error r' = 0 \<and> fr_dev r' = fr_dev r \<and>
           r_count r' = 0 \<and> r_pos r' = 0 \<and>
           r_memory r' = (r_memory r)\<lparr>mem_calls := Suc (mem_calls (r_memory r)), mem_live := mem_live (r_memory r) + 1\<rparr>) r"
  using assms by (auto simp: fdr_alloc_def wp_simps fdr_ok_def FDR_BUFFER_SIZE_def)

section \<open>A scripted device\<close>

text \<open>
  A device that delivers the chunks of a script, one chunk (or as much of it as fits) for each
  call; an empty chunk is an end of file or a failure.
\<close>

fun chunk_read :: "byte list list sys_read" where
  "chunk_read [] n = (0, [], [])"
| "chunk_read (c # cs) n =
     (if c = [] then (-1, [], cs)
      else if length c \<le> n then (int (length c), c, cs)
      else (int n, take n c, drop n c # cs))"

definition chunk_pending :: "byte list list \<Rightarrow> byte list" where
  "chunk_pending cs = concat (takeWhile (\<lambda>c. c \<noteq> []) cs)"

interpretation chunks: posix_read chunk_read chunk_pending
proof
  fix d :: "byte list list" and n r bs d'
  assume "chunk_read d n = (r, bs, d')" and "0 < n"
  then show "if r \<le> 0 then chunk_pending d = []
     else nat r = length bs \<and> length bs \<le> n \<and> chunk_pending d = bs @ chunk_pending d'"
    by (induction d n rule: chunk_read.induct) (auto simp: chunk_pending_def split: if_splits)
qed

end
