(* ===== verification/LC_SigArray.thy ===== *)
theory LC_SigArray
  imports LC_Memory
begin

text \<open>
  Arrays indexed by signature index (\<^verbatim>\<open>labcomm2014_signature_array_ref\<close> in
  \<^verbatim>\<open>labcomm2014.c\<close> and the \<^verbatim>\<open>LABCOMM_SIGNATURE_ARRAY_*\<close> macros of
  \<^verbatim>\<open>labcomm2014_private.h\<close>): a window \<^verbatim>\<open>[first, last)\<close> of the integers with one element per
  index, which grows to include every index it is asked for.

  The elements of the type \<open>'a\<close> are the C values of the array's kind; \<open>z\<close> is the value all of
  whose bytes are zero and \<open>sz\<close> the \<^verbatim>\<open>sizeof\<close> of the kind.
\<close>

record 'a sigarr =
  sa_first :: int
  sa_last :: int
  sa_data :: "'a list option"

definition signature_array_init :: "'a sigarr" where
  "signature_array_init = \<lparr>sa_first = 0, sa_last = 0, sa_data = None\<rparr>"

definition signature_array_free :: "(memory \<times> 'a sigarr, unit) prog" where
  "signature_array_free =
     andthen (gets (\<lambda>(m, a). sa_data a \<noteq> None)) (\<lambda>nonnull.
     andthen (zoom fst (\<lambda>m (_, a). (m, a))
               (if nonnull then labcomm2014_memory_free 0 True else ret ())) (\<lambda>_.
     modify (\<lambda>(m, a). (m, a\<lparr>sa_data := None\<rparr>))))"

text \<open>
  The result says whether a pointer was returned (\<^verbatim>\<open>NULL\<close> when an allocation failed).  The
  signed additions and multiplications of the source overflow for the indices and windows
  excluded by the tests on \<open>INT_MAX\<close>, and \<^verbatim>\<open>memcpy\<close> from a NULL \<^verbatim>\<open>old_data\<close> is undefined.
\<close>

definition labcomm2014_signature_array_ref ::
    "'a \<Rightarrow> int \<Rightarrow> int \<Rightarrow> (memory \<times> 'a sigarr, bool) prog" where
  "labcomm2014_signature_array_ref z sz index =
     andthen (gets snd) (\<lambda>a.
     andthen
      (if sa_first a = 0 \<and> sa_last a = 0 then
         (if index = INT_MAX then stop Undef
          else andthen (zoom fst (\<lambda>m (_, a). (m, a))
                         (labcomm2014_memory_alloc 0 (size_t_of_int sz))) (\<lambda>ok.
               modify (\<lambda>(m, a). (m, \<lparr>sa_first = index, sa_last = index + 1,
                                      sa_data = (if ok then Some [z] else None)\<rparr>))))
       else if index < sa_first a \<or> sa_last a \<le> index then
         (let first' = (if index < sa_first a then index else sa_first a);
              last' = (if sa_last a \<le> index then index + 1 else sa_last a);
              n = last' - first'
          in if (sa_last a \<le> index \<and> index = INT_MAX) \<or> INT_MAX < n \<or> INT_MAX < n * sz
             then stop Undef
             else andthen (zoom fst (\<lambda>m (_, a). (m, a))
                             (labcomm2014_memory_alloc 0 (size_t_of_int (n * sz)))) (\<lambda>ok.
                  andthen (case (ok, sa_data a) of
                             (False, _) \<Rightarrow> ret None
                           | (True, None) \<Rightarrow> stop Undef
                           | (True, Some old) \<Rightarrow>
                               ret (Some (replicate (nat (sa_first a - first')) z @ old @
                                          replicate (nat (last' - sa_last a)) z))) (\<lambda>new.
                  andthen (zoom fst (\<lambda>m (_, a). (m, a))
                             (labcomm2014_memory_free 0 (sa_data a \<noteq> None))) (\<lambda>_.
                  modify (\<lambda>(m, a). (m, \<lparr>sa_first = first', sa_last = last', sa_data = new\<rparr>))))))
       else ret ()) (\<lambda>_.
     gets (\<lambda>(m, a). sa_data a \<noteq> None)))"

text \<open>
  Reading and writing through the returned pointer, and \<^verbatim>\<open>LABCOMM_SIGNATURE_ARRAY_GET\<close>,
  which gives \<open>nomatch\<close> outside of the window.
\<close>

definition sa_at :: "int \<Rightarrow> 'a sigarr \<Rightarrow> 'a" where
  "sa_at i a = (case sa_data a of Some d \<Rightarrow> d ! nat (i - sa_first a))"

definition sa_set :: "int \<Rightarrow> 'a \<Rightarrow> 'a sigarr \<Rightarrow> 'a sigarr" where
  "sa_set i v a = a\<lparr>sa_data := map_option (\<lambda>d. d[nat (i - sa_first a) := v]) (sa_data a)\<rparr>"

definition signature_array_get :: "int \<Rightarrow> 'a \<Rightarrow> 'a sigarr \<Rightarrow> ('s, 'a) prog" where
  "signature_array_get i nomatch a =
     (if sa_first a \<le> i \<and> i < sa_last a
      then (case sa_data a of None \<Rightarrow> stop Undef | Some d \<Rightarrow> ret (d ! nat (i - sa_first a)))
      else ret nomatch)"

text \<open>The indices \<^verbatim>\<open>LABCOMM_SIGNATURE_ARRAY_FOREACH\<close> runs through.\<close>

definition sa_indices :: "'a sigarr \<Rightarrow> int list" where
  "sa_indices a = [sa_first a..sa_last a - 1]"

section \<open>Invariant and abstraction\<close>

text \<open>
  A healthy array is either fresh or has a non-empty window with one element per index.  It
  denotes a total map: the element inside of the window, \<open>z\<close> outside.
\<close>

definition sa_ok :: "'a sigarr \<Rightarrow> bool" where
  "sa_ok a \<longleftrightarrow> (case sa_data a of
       None \<Rightarrow> sa_first a = 0 \<and> sa_last a = 0
     | Some d \<Rightarrow> sa_first a < sa_last a \<and> sa_last a \<le> INT_MAX \<and>
                length d = nat (sa_last a - sa_first a))"

definition sa_lookup :: "'a \<Rightarrow> 'a sigarr \<Rightarrow> int \<Rightarrow> 'a" where
  "sa_lookup z a i =
     (case sa_data a of None \<Rightarrow> z
      | Some d \<Rightarrow> if sa_first a \<le> i \<and> i < sa_last a then d ! nat (i - sa_first a) else z)"

definition sa_in :: "int \<Rightarrow> 'a sigarr \<Rightarrow> bool" where
  "sa_in i a \<longleftrightarrow> sa_first a \<le> i \<and> i < sa_last a"

text \<open>The window that the array gets when it grows to \<open>i\<close>, and that it fits in an \<^verbatim>\<open>int\<close>.\<close>

definition sa_room :: "int \<Rightarrow> int \<Rightarrow> 'a sigarr \<Rightarrow> bool" where
  "sa_room sz i a \<longleftrightarrow> 0 < sz \<and> i < INT_MAX \<and>
     (max (sa_last a) (i + 1) - min (sa_first a) i) * sz \<le> INT_MAX"

lemma sa_ok_init [simp]: "sa_ok signature_array_init"
  by (simp add: sa_ok_def signature_array_init_def)

lemma sa_lookup_init [simp]: "sa_lookup z signature_array_init i = z"
  by (simp add: sa_lookup_def signature_array_init_def)

lemma sa_ok_set [simp]: "sa_ok (sa_set i v a) = sa_ok a"
  by (auto simp: sa_ok_def sa_set_def split: option.splits)

lemma sa_in_set [simp]: "sa_in j (sa_set i v a) = sa_in j a"
  by (simp add: sa_in_def sa_set_def)

lemma sa_at_lookup: "sa_ok a \<Longrightarrow> sa_in i a \<Longrightarrow> sa_at i a = sa_lookup z a i"
  by (auto simp: sa_ok_def sa_in_def sa_at_def sa_lookup_def split: option.splits)

lemma sa_lookup_set:
  assumes "sa_ok a" and "sa_in i a"
  shows "sa_lookup z (sa_set i v a) = (sa_lookup z a)(i := v)"
proof
  fix j
  show "sa_lookup z (sa_set i v a) j = ((sa_lookup z a)(i := v)) j"
    using assms by (auto simp: sa_ok_def sa_in_def sa_set_def sa_lookup_def nth_list_update
        eq_nat_nat_iff split: option.splits)
qed

lemma sa_lookup_outside: "\<not> sa_in i a \<Longrightarrow> sa_lookup z a i = z"
  by (auto simp: sa_in_def sa_lookup_def split: option.splits)

lemma wp_signature_array_get [wp_simps]:
  "sa_ok a \<Longrightarrow> wp (signature_array_get i nomatch a) Q s \<longleftrightarrow> Q (sa_lookup nomatch a i) s"
  by (auto simp: signature_array_get_def sa_ok_def sa_lookup_def wp_simps split: option.splits)

lemma sa_indices_in: "i \<in> set (sa_indices a) \<longleftrightarrow> sa_in i a"
  by (auto simp: sa_indices_def sa_in_def)

text \<open>
  The window is large enough for the index: the array is healthy afterwards, contains the index
  and denotes the same map as before.
\<close>

lemma grow_lookup:
  assumes "sa_ok a" and "sa_data a = Some d" and "\<not> sa_in i a"
    and "first' = min (sa_first a) i" and "last' = max (sa_last a) (i + 1)"
    and "d' = replicate (nat (sa_first a - first')) z @ d @ replicate (nat (last' - sa_last a)) z"
    and "i < INT_MAX"
  shows "sa_ok \<lparr>sa_first = first', sa_last = last', sa_data = Some d'\<rparr>"
    and "sa_lookup z \<lparr>sa_first = first', sa_last = last', sa_data = Some d'\<rparr> = sa_lookup z a"
  using assms
  by (auto simp: sa_ok_def sa_in_def sa_lookup_def nth_append fun_eq_iff max_def min_def not_le
      split: if_splits)

text \<open>
  The contract of \<^verbatim>\<open>labcomm2014_signature_array_ref\<close> for every allocator: it returns; a
  non-NULL pointer means a healthy array with the index in its window and an unchanged map, NULL
  leaves the array without data; and the number of live blocks changes exactly by the blocks the
  array owns.
\<close>

definition owned :: "'a sigarr \<Rightarrow> int" where
  "owned a = (if sa_data a = None then 0 else 1)"

lemma wp_signature_array_ref:
  assumes "sa_ok a" and "sa_room sz i a"
  shows "wp (labcomm2014_signature_array_ref z sz i)
    (\<lambda>ok (m', a').
        (if ok then sa_ok a' \<and> sa_in i a' \<and> sa_lookup z a' = sa_lookup z a else sa_data a' = None) \<and>
        (plenty m \<longrightarrow> ok \<and> plenty m') \<and>
        mem_live m' - owned a' = mem_live m - owned a) (m, a)"
proof (cases "sa_data a")
  case None
  with assms have "sa_first a = 0" "sa_last a = 0" by (simp_all add: sa_ok_def)
  with None assms show ?thesis
    by (simp add: labcomm2014_signature_array_ref_def wp_simps sa_room_def Let_def owned_def
        sa_ok_def sa_in_def sa_lookup_def fun_eq_iff)
next
  case (Some d)
  with assms have window: "sa_first a < sa_last a" by (simp add: sa_ok_def)
  show ?thesis
  proof (cases "sa_in i a")
    case True
    with Some window assms show ?thesis
      by (simp add: labcomm2014_signature_array_ref_def wp_simps sa_in_def)
  next
    case False
    define f l where "f = min (sa_first a) i" and "l = max (sa_last a) (i + 1)"
    note grow = grow_lookup [OF assms(1) Some False f_def l_def refl, of z]
    have "0 < l - f" and sz: "0 < sz" "(l - f) * sz \<le> INT_MAX" and i: "i < INT_MAX"
      using assms(2) window by (auto simp: sa_room_def f_def l_def)
    then have "l - f \<le> (l - f) * sz" by (simp add: mult_le_cancel_left1)
    with sz have n: "l - f \<le> INT_MAX" by linarith
    have inside: "sa_in i \<lparr>sa_first = f, sa_last = l, sa_data = d'\<rparr>" for d' :: "'a list option"
      by (simp add: sa_in_def f_def l_def)
    consider (below) "i < sa_first a" "\<not> sa_last a \<le> i" "f = i" "l = sa_last a"
      | (above) "\<not> i < sa_first a" "sa_last a \<le> i" "f = sa_first a" "l = i + 1"
      using False window by (fastforce simp: f_def l_def sa_in_def)
    then show ?thesis
      by cases (use window sz i n inside grow [OF i] Some in
          \<open>auto simp: labcomm2014_signature_array_ref_def wp_simps Let_def owned_def not_less\<close>)
  qed
qed

lemma wp_signature_array_free:
  "wp signature_array_free
     (\<lambda>_ (m', a'). sa_data a' = None \<and> mem_live m' = mem_live m - owned a \<and>
                   mem_grant m' = mem_grant m) (m, a)"
  by (auto simp: signature_array_free_def wp_simps owned_def)

section \<open>Tables\<close>

text \<open>
  The source mostly uses the returned pointer without looking at it: \<^verbatim>\<open>*REF(...)\<close> reads the
  element and \<^verbatim>\<open>*REF(...) = v\<close> writes it, and both dereference NULL when the allocation
  failed.
\<close>

definition sa_deref :: "'a \<Rightarrow> int \<Rightarrow> int \<Rightarrow> (memory \<times> 'a sigarr, 'a) prog" where
  "sa_deref z sz i =
     andthen (labcomm2014_signature_array_ref z sz i) (\<lambda>ok.
     if ok then gets (\<lambda>(m, a). sa_at i a) else stop Undef)"

definition sa_assign :: "'a \<Rightarrow> int \<Rightarrow> int \<Rightarrow> 'a \<Rightarrow> (memory \<times> 'a sigarr, unit) prog" where
  "sa_assign z sz i v =
     andthen (labcomm2014_signature_array_ref z sz i) (\<lambda>ok.
     if ok then modify (\<lambda>(m, a). (m, sa_set i v a)) else stop Undef)"

text \<open>What the clients of an array rely on: a table of elements by index.\<close>

locale index_table =
  fixes deref :: "int \<Rightarrow> ('t, 'a) prog"
    and assign :: "int \<Rightarrow> 'a \<Rightarrow> ('t, unit) prog"
    and poke :: "int \<Rightarrow> 'a \<Rightarrow> 't \<Rightarrow> 't"
    and view :: "'t \<Rightarrow> int \<Rightarrow> 'a"
    and has :: "int \<Rightarrow> 't \<Rightarrow> bool"
    and room :: "int \<Rightarrow> 't \<Rightarrow> bool"
    and inv :: "'t \<Rightarrow> bool"
  assumes deref_law: "inv t \<Longrightarrow> room i t \<Longrightarrow>
      wp (deref i) (\<lambda>x t'. x = view t i \<and> inv t' \<and> has i t' \<and> view t' = view t) t"
    and assign_law: "inv t \<Longrightarrow> room i t \<Longrightarrow>
      wp (assign i v) (\<lambda>_ t'. inv t' \<and> has i t' \<and> view t' = (view t)(i := v)) t"
    and poke_inv: "inv t \<Longrightarrow> inv (poke i v t)"
    and poke_has: "has j (poke i v t) = has j t"
    and poke_view: "inv t \<Longrightarrow> has i t \<Longrightarrow> view (poke i v t) = (view t)(i := v)"
begin

text \<open>
  Read an entry and, when it still has its initial value \<open>z\<close>, write \<open>v\<close> through the same
  pointer: the pattern of every registration function.
\<close>

lemma test_and_set:
  assumes "inv t" and "room i t"
  shows "wp (andthen (deref i) (\<lambda>x. if x \<noteq> z then ret False
                                    else andthen (modify (poke i v)) (\<lambda>_. ret True)))
    (\<lambda>fresh t'. inv t' \<and> fresh = (view t i = z) \<and>
                view t' = (if view t i = z then (view t)(i := v) else view t)) t"
  unfolding wp_andthen wp_if
  by (rule wp_mono [OF deref_law [OF assms]]) (auto simp: wp_simps poke_inv poke_view)

lemma assign_then_view:
  assumes "inv t" and "room i t"
  shows "wp (assign i v) (\<lambda>_ t'. view t' i = v \<and> (\<forall>j. j \<noteq> i \<longrightarrow> view t' j = view t j)) t"
  by (rule wp_mono [OF assign_law [OF assms]]) auto

end

lemma owned_set [simp]: "owned (sa_set i v a) = owned a"
  by (simp add: owned_def sa_set_def)

text \<open>
  The arrays are such tables on a memory that grants every request.  The number \<open>k\<close> of live blocks
  that do not belong to the array is part of the invariant: growing an array leaks nothing.
\<close>

interpretation sigtab: index_table "sa_deref z sz" "sa_assign z sz" "\<lambda>i v (m, a). (m, sa_set i v a)"
  "\<lambda>(m, a). sa_lookup z a" "\<lambda>i (m, a). sa_in i a" "\<lambda>i (m, a). sa_room sz i a"
  "\<lambda>(m, a). plenty m \<and> sa_ok a \<and> mem_live m - owned a = k" for z :: 'a and sz k
proof unfold_locales
  fix t :: "memory \<times> 'a sigarr" and i :: int and v :: 'a
  obtain m a where t: "t = (m, a)" by (cases t)
  assume "case t of (m, a) \<Rightarrow> plenty m \<and> sa_ok a \<and> mem_live m - owned a = k"
    and "case t of (m, a) \<Rightarrow> sa_room sz i a"
  then have ok: "plenty m" "sa_ok a" "mem_live m - owned a = k" and room: "sa_room sz i a" by (simp_all add: t)
  show "wp (sa_deref z sz i) (\<lambda>x t'. x = (case t of (m, a) \<Rightarrow> sa_lookup z a) i \<and>
      (case t' of (m, a) \<Rightarrow> plenty m \<and> sa_ok a \<and> mem_live m - owned a = k) \<and> (case t' of (m, a) \<Rightarrow> sa_in i a) \<and>
      (case t' of (m, a) \<Rightarrow> sa_lookup z a) = (case t of (m, a) \<Rightarrow> sa_lookup z a)) t"
    unfolding sa_deref_def wp_simps t
    by (rule wp_mono [OF wp_signature_array_ref [OF ok(2) room, where m = m and z = z]])
      (use ok(1,3) in \<open>auto simp: wp_simps sa_at_lookup [of _ _ z]\<close>)
  show "wp (sa_assign z sz i v) (\<lambda>_ t'. (case t' of (m, a) \<Rightarrow> plenty m \<and> sa_ok a \<and> mem_live m - owned a = k) \<and>
      (case t' of (m, a) \<Rightarrow> sa_in i a) \<and>
      (case t' of (m, a) \<Rightarrow> sa_lookup z a) = (case t of (m, a) \<Rightarrow> sa_lookup z a)(i := v)) t"
    unfolding sa_assign_def wp_simps t
    by (rule wp_mono [OF wp_signature_array_ref [OF ok(2) room, where m = m and z = z]])
      (use ok(1,3) in \<open>auto simp: wp_simps sa_lookup_set\<close>)
qed (auto simp: sa_lookup_set)

text \<open>A read inside of the window changes nothing.\<close>

lemma sa_deref_inside:
  assumes "sa_ok a" and "sa_in i a"
  shows "sa_deref z sz i (m, a) = Some (Inr (sa_lookup z a i, (m, a)))"
proof -
  from assms have "\<not> (sa_first a = 0 \<and> sa_last a = 0)" "\<not> i < sa_first a" "\<not> sa_last a \<le> i"
    by (auto simp: sa_in_def)
  moreover from assms obtain x where "sa_data a = Some x"
    by (auto simp: sa_ok_def sa_in_def split: option.splits)
  ultimately show ?thesis
    using sa_at_lookup [OF assms, of z]
    by (simp add: sa_deref_def labcomm2014_signature_array_ref_def prog_simps)
qed

end
