(* ===== verification/LC_Scheduler.thy ===== *)
theory LC_Scheduler
  imports LC_Prelude
begin

text \<open>
  The scheduler interface (\<^verbatim>\<open>labcomm2014_scheduler.c\<close>, \<^verbatim>\<open>labcomm2014_time.c\<close>), the default scheduler
  (\<^verbatim>\<open>labcomm2014_default_scheduler.c\<close>), and the lock discipline its clients keep.

  A scheduler is a table of actions over a state \<open>'x\<close>; \<open>'t\<close> is its type of times and \<open>'f\<close> the type
  of deferred calls (a function with its context).  NULL pointers to a scheduler, a table entry or
  a time are \<open>None\<close>.
\<close>

record ('x, 't, 'f) scheduler_action =
  sc_free :: "('x, int) prog option"
  sc_writer_lock :: "('x, int) prog option"
  sc_writer_unlock :: "('x, int) prog option"
  sc_data_lock :: "('x, int) prog option"
  sc_data_unlock :: "('x, int) prog option"
  sc_now :: "('x, 't option) prog option"
  sc_sleep :: "('t option \<Rightarrow> ('x, int) prog) option"
  sc_wakeup :: "('x, int) prog option"
  sc_enqueue :: "(u32 \<Rightarrow> 'f \<Rightarrow> ('x, int) prog) option"

record 't time_action =
  tm_free :: "('t, int) prog option"
  tm_add_usec :: "(u32 \<Rightarrow> ('t, int) prog) option"

text \<open>The macros \<^verbatim>\<open>SCHEDULER\<close> and \<^verbatim>\<open>TIME\<close>.\<close>

definition via :: "'a option \<Rightarrow> ('a \<Rightarrow> 'f option) \<Rightarrow> ('f \<Rightarrow> ('x, 'r) prog) \<Rightarrow> 'r \<Rightarrow> ('x, 'r) prog" where
  "via s func call nosys =
     (case s of None \<Rightarrow> ret nosys
      | Some a \<Rightarrow> (case func a of None \<Rightarrow> ret nosys | Some f \<Rightarrow> call f))"

definition labcomm2014_scheduler_free :: "('x, 't, 'f) scheduler_action option \<Rightarrow> ('x, int) prog" where
  "labcomm2014_scheduler_free s = via s sc_free id (- ENOSYS)"
definition labcomm2014_scheduler_writer_lock :: "('x, 't, 'f) scheduler_action option \<Rightarrow> ('x, int) prog" where
  "labcomm2014_scheduler_writer_lock s = via s sc_writer_lock id (- ENOSYS)"
definition labcomm2014_scheduler_writer_unlock :: "('x, 't, 'f) scheduler_action option \<Rightarrow> ('x, int) prog" where
  "labcomm2014_scheduler_writer_unlock s = via s sc_writer_unlock id (- ENOSYS)"
definition labcomm2014_scheduler_data_lock :: "('x, 't, 'f) scheduler_action option \<Rightarrow> ('x, int) prog" where
  "labcomm2014_scheduler_data_lock s = via s sc_data_lock id (- ENOSYS)"
definition labcomm2014_scheduler_data_unlock :: "('x, 't, 'f) scheduler_action option \<Rightarrow> ('x, int) prog" where
  "labcomm2014_scheduler_data_unlock s = via s sc_data_unlock id (- ENOSYS)"
definition labcomm2014_scheduler_now :: "('x, 't, 'f) scheduler_action option \<Rightarrow> ('x, 't option) prog" where
  "labcomm2014_scheduler_now s = via s sc_now id None"
definition labcomm2014_scheduler_sleep ::
    "('x, 't, 'f) scheduler_action option \<Rightarrow> 't option \<Rightarrow> ('x, int) prog" where
  "labcomm2014_scheduler_sleep s wakeup = via s sc_sleep (\<lambda>f. f wakeup) (- ENOSYS)"
definition labcomm2014_scheduler_wakeup :: "('x, 't, 'f) scheduler_action option \<Rightarrow> ('x, int) prog" where
  "labcomm2014_scheduler_wakeup s = via s sc_wakeup id (- ENOSYS)"
definition labcomm2014_scheduler_enqueue ::
    "('x, 't, 'f) scheduler_action option \<Rightarrow> u32 \<Rightarrow> 'f \<Rightarrow> ('x, int) prog" where
  "labcomm2014_scheduler_enqueue s delay func = via s sc_enqueue (\<lambda>f. f delay func) (- ENOSYS)"

definition labcomm2014_time_free :: "'t time_action option \<Rightarrow> ('t, int) prog" where
  "labcomm2014_time_free s = via s tm_free id (- ENOSYS)"
definition labcomm2014_time_add_usec :: "'t time_action option \<Rightarrow> u32 \<Rightarrow> ('t, int) prog" where
  "labcomm2014_time_add_usec s usec = via s tm_add_usec (\<lambda>f. f usec) (- ENOSYS)"

lemmas scheduler_dispatch_defs = labcomm2014_scheduler_free_def labcomm2014_scheduler_writer_lock_def
  labcomm2014_scheduler_writer_unlock_def labcomm2014_scheduler_data_lock_def
  labcomm2014_scheduler_data_unlock_def labcomm2014_scheduler_now_def labcomm2014_scheduler_sleep_def
  labcomm2014_scheduler_wakeup_def labcomm2014_scheduler_enqueue_def
  labcomm2014_time_free_def labcomm2014_time_add_usec_def

section \<open>The default scheduler\<close>

text \<open>Its locks do nothing, for one thread only; everything else prints a message and exits.\<close>

definition labcomm2014_default_scheduler :: "('x, 't, 'f) scheduler_action" where
  "labcomm2014_default_scheduler =
     \<lparr>sc_free = Some (stop ExitUnimplemented),
      sc_writer_lock = Some (ret 0), sc_writer_unlock = Some (ret 0),
      sc_data_lock = Some (ret 0), sc_data_unlock = Some (ret 0),
      sc_now = Some (stop ExitUnimplemented), sc_sleep = Some (\<lambda>t. stop ExitUnimplemented),
      sc_wakeup = Some (stop ExitUnimplemented),
      sc_enqueue = Some (\<lambda>delay func. stop ExitUnimplemented)\<rparr>"

section \<open>Lock discipline\<close>

text \<open>
  The encoder and the decoder ignore the results of the lock calls, so what they do with their
  scheduler is the sequence of these calls; \<open>run_calls\<close> keeps the results.
\<close>

datatype sched_call = WriterLock | WriterUnlock | DataLock | DataUnlock

primrec sched_call_run :: "('x, 't, 'f) scheduler_action option \<Rightarrow> sched_call \<Rightarrow> ('x, int) prog" where
  "sched_call_run s WriterLock = labcomm2014_scheduler_writer_lock s"
| "sched_call_run s WriterUnlock = labcomm2014_scheduler_writer_unlock s"
| "sched_call_run s DataLock = labcomm2014_scheduler_data_lock s"
| "sched_call_run s DataUnlock = labcomm2014_scheduler_data_unlock s"

text \<open>
  One thread's view of the two (not recursive) locks: which it holds after a call, or \<open>None\<close> when
  the call locks what it already holds or unlocks what it does not hold.  A scheduler may use its data lock
  in the functions of the writer lock, so they must not be called with the data lock held.
\<close>

fun lock_step :: "sched_call \<Rightarrow> bool \<times> bool \<Rightarrow> (bool \<times> bool) option" where
  "lock_step WriterLock (w, d) = (if w \<or> d then None else Some (True, d))"
| "lock_step WriterUnlock (w, d) = (if w \<and> \<not> d then Some (False, d) else None)"
| "lock_step DataLock (w, d) = (if d then None else Some (w, True))"
| "lock_step DataUnlock (w, d) = (if d then Some (w, False) else None)"

fun lock_run :: "sched_call list \<Rightarrow> bool \<times> bool \<Rightarrow> (bool \<times> bool) option" where
  "lock_run [] held = Some held"
| "lock_run (c # cs) held = Option.bind (lock_step c held) (lock_run cs)"

primrec run_calls :: "('x, 't, 'f) scheduler_action option \<Rightarrow> sched_call list \<Rightarrow> ('x, int list) prog" where
  "run_calls s [] = ret []"
| "run_calls s (c # cs) =
     andthen (sched_call_run s c) (\<lambda>result. andthen (run_calls s cs) (\<lambda>results. ret (result # results)))"

lemma lock_run_append: "lock_run (cs @ ds) held = Option.bind (lock_run cs held) (lock_run ds)"
  by (induction cs arbitrary: held) (auto split: bind_splits)

text \<open>
  What a scheduler with locks promises: a call that respects the discipline returns 0 and does what
  \<open>lock_step\<close> says.  Then so does every sequence of such calls.
\<close>

locale lock_provider =
  fixes sched :: "('x, 't, 'f) scheduler_action"
    and ok :: "'x \<Rightarrow> bool"
    and held :: "'x \<Rightarrow> bool \<times> bool"
  assumes step_law: "ok s \<Longrightarrow> lock_step c (held s) = Some h \<Longrightarrow>
    wp (sched_call_run (Some sched) c) (\<lambda>result s'. result = 0 \<and> ok s' \<and> held s' = h) s"
begin

lemma wp_run_calls:
  "ok s \<Longrightarrow> lock_run cs (held s) = Some h \<Longrightarrow>
     wp (run_calls (Some sched) cs) (\<lambda>results s'. results = replicate (length cs) 0 \<and> ok s' \<and> held s' = h) s"
proof (induction cs arbitrary: s)
  case (Cons c cs)
  from Cons.prems(2) obtain h1 where h1: "lock_step c (held s) = Some h1" "lock_run cs h1 = Some h"
    by (auto simp: bind_eq_Some_conv)
  show ?case
    unfolding run_calls.simps wp_andthen
    by (rule wp_mono [OF step_law [OF Cons.prems(1) h1(1)]])
      (use Cons.IH h1(2) in \<open>auto simp: wp_ret intro!: wp_mono [OF Cons.IH]\<close>)
qed (simp add: wp_ret)

end

end
