(* ===== verification/LC_Decoder.thy ===== *)
theory LC_Decoder
  imports LC_FdReader LC_SigArray LC_Scheduler
begin

text \<open>
  The decoder (\<^verbatim>\<open>labcomm2014_decoder.c\<close>).

  Its state is the record \<open>decoder\<close>: the reader with its chain of actions, the memory, the calls made
  to the scheduler so far, the two flags, the four tables and the calls that were made to the
  handlers of the user.  A handler and its context are numbered; what a handler does with its own
  data is not part of the decoder.
\<close>

datatype 'v handled = Sample 'v | TypeDef raw_type_def | TypeBinding type_binding

record 'v handler_call =
  hc_handler :: nat
  hc_context :: nat
  hc_value :: "'v handled"

text \<open>
  A decode function reads a value and calls the handler it is given; it works on the reader and on
  the log of handler calls.
\<close>

type_synonym ('z, 'v) feed = "'z reader_scheme \<times> 'v handler_call list"
type_synonym ('z, 'v) decode_function =
  "('z, 'v) reader_action list \<Rightarrow> ('v handled \<Rightarrow> (('z, 'v) feed, unit) prog) \<Rightarrow> (('z, 'v) feed, unit) prog"

record ('z, 'v) sample_entry =
  se_remote_index :: int
  se_signature :: "'v signature option"
  se_decode :: "('z, 'v) decode_function option"
  se_handler :: "nat option"
  se_context :: nat

definition no_entry :: "('z, 'v) sample_entry" where
  "no_entry = \<lparr>se_remote_index = 0, se_signature = None, se_decode = None, se_handler = None, se_context = 0\<rparr>"

record ('z, 'v) decoder =
  d_reader :: "'z reader_scheme"
  d_acts :: "('z, 'v) reader_action list"
  d_memory :: memory
  d_scheduler :: "sched_call list"
  d_reader_allocated :: bool
  d_version_ok :: bool
  d_local :: "('z, 'v) sample_entry sigarr"
  d_remote_to_local :: "int sigarr"
  d_local_ref :: "'v signature option sigarr"
  d_remote_to_local_ref :: "int sigarr"
  d_calls :: "'v handler_call list"

section \<open>Calls on the parts\<close>

definition dec_call :: "sched_call \<Rightarrow> (('z, 'v) decoder, unit) prog" where
  "dec_call c = modify (\<lambda>d. d\<lparr>d_scheduler := d_scheduler d @ [c]\<rparr>)"

definition on_reader :: "(('z, 'v) reader_action list \<Rightarrow> ('z reader_scheme, 'a) prog) \<Rightarrow> (('z, 'v) decoder, 'a) prog" where
  "on_reader f = andthen (gets d_acts) (\<lambda>acts. zoom d_reader (\<lambda>r d. d\<lparr>d_reader := r\<rparr>) (f acts))"

definition on_feed :: "(('z, 'v) reader_action list \<Rightarrow> (('z, 'v) feed, 'a) prog) \<Rightarrow> (('z, 'v) decoder, 'a) prog" where
  "on_feed f = andthen (gets d_acts) (\<lambda>acts.
     zoom (\<lambda>d. (d_reader d, d_calls d)) (\<lambda>(r, c) d. d\<lparr>d_reader := r, d_calls := c\<rparr>) (f acts))"

definition on_dmemory :: "(memory, 'a) prog \<Rightarrow> (('z, 'v) decoder, 'a) prog" where
  "on_dmemory = zoom d_memory (\<lambda>m d. d\<lparr>d_memory := m\<rparr>)"

definition on_local :: "(memory \<times> ('z, 'v) sample_entry sigarr, 'a) prog \<Rightarrow> (('z, 'v) decoder, 'a) prog" where
  "on_local = zoom (\<lambda>d. (d_memory d, d_local d)) (\<lambda>(m, a) d. d\<lparr>d_memory := m, d_local := a\<rparr>)"

definition on_remote_to_local :: "(memory \<times> int sigarr, 'a) prog \<Rightarrow> (('z, 'v) decoder, 'a) prog" where
  "on_remote_to_local =
     zoom (\<lambda>d. (d_memory d, d_remote_to_local d)) (\<lambda>(m, a) d. d\<lparr>d_memory := m, d_remote_to_local := a\<rparr>)"

definition on_local_ref :: "(memory \<times> 'v signature option sigarr, 'a) prog \<Rightarrow> (('z, 'v) decoder, 'a) prog" where
  "on_local_ref = zoom (\<lambda>d. (d_memory d, d_local_ref d)) (\<lambda>(m, a) d. d\<lparr>d_memory := m, d_local_ref := a\<rparr>)"

definition on_remote_to_local_ref :: "(memory \<times> int sigarr, 'a) prog \<Rightarrow> (('z, 'v) decoder, 'a) prog" where
  "on_remote_to_local_ref =
     zoom (\<lambda>d. (d_memory d, d_remote_to_local_ref d)) (\<lambda>(m, a) d. d\<lparr>d_memory := m, d_remote_to_local_ref := a\<rparr>)"

text \<open>The sizes of the kinds of the tables: a \<^verbatim>\<open>struct sample_entry\<close> has 40 bytes.\<close>

abbreviation "entry_size \<equiv> 40 :: int"
abbreviation "int_size \<equiv> 4 :: int"
abbreviation "pointer_size \<equiv> 8 :: int"

definition reader_error :: "(('z, 'v) decoder, int) prog" where
  "reader_error = gets (\<lambda>d. r_error (d_reader d))"

section \<open>Received definitions\<close>

text \<open>
  The comparison of a registered signature with a received one: \<open>rname\<close>, \<open>rsize\<close> and \<open>rsig\<close> are the
  fields of the received signature (the bytes of a registered one are never NULL).  \<^verbatim>\<open>strcmp\<close> with NULL and \<^verbatim>\<open>memcmp\<close> beyond the end of a block are
  undefined.
\<close>

definition same_signature :: "'v signature \<Rightarrow> cstring option \<Rightarrow> int \<Rightarrow> byte list \<Rightarrow> ('s, bool) prog" where
  "same_signature s rname rsize rsig =
     (if sig_size s \<noteq> rsize then ret False
      else case rname of
             None \<Rightarrow> stop Undef
           | Some name \<Rightarrow>
               if sig_name s \<noteq> name then ret False
               else if rsize < 0 \<or> length (sig_signature s) < nat rsize \<or> length rsig < nat rsize then stop Undef
               else ret (take (nat rsize) (sig_signature s) = take (nat rsize) rsig))"

text \<open>
  The loop of \<^verbatim>\<open>handle_sample_def\<close> over the registered samples; the result is the index and the
  signature of the first that matches.
\<close>

fun find_local :: "cstring option \<Rightarrow> int \<Rightarrow> byte list \<Rightarrow> int list \<Rightarrow> (('z, 'v) decoder, (int \<times> 'v signature) option) prog" where
  "find_local rname rsize rsig [] = ret None"
| "find_local rname rsize rsig (i # is) =
     andthen (on_local (sa_deref no_entry entry_size i)) (\<lambda>entry.
     case se_signature entry of
       None \<Rightarrow> find_local rname rsize rsig is
     | Some s \<Rightarrow> andthen (same_signature s rname rsize rsig) (\<lambda>same.
                 if same then ret (Some (i, s)) else find_local rname rsize rsig is))"

text \<open>
  \<^verbatim>\<open>result\<close> is set in the loop only: when no sample at all was ever registered it is returned
  uninitialised.
\<close>

definition handle_sample_def :: "int \<Rightarrow> cstring option \<Rightarrow> int \<Rightarrow> byte list \<Rightarrow> (('z, 'v) decoder, int) prog" where
  "handle_sample_def remote_index rname rsize rsig =
     andthen (dec_call DataLock) (\<lambda>_.
     andthen (gets (\<lambda>d. sa_indices (d_local d))) (\<lambda>indices.
     andthen (find_local rname rsize rsig indices) (\<lambda>found.
     andthen (case found of
                None \<Rightarrow> ret ()
              | Some (i, s) \<Rightarrow>
                  andthen (modify (\<lambda>d. d\<lparr>d_local := sa_set i ((sa_at i (d_local d))\<lparr>se_remote_index := remote_index\<rparr>)
                                                   (d_local d)\<rparr>)) (\<lambda>_.
                  on_remote_to_local (sa_assign 0 int_size remote_index i))) (\<lambda>_.
     andthen (dec_call DataUnlock) (\<lambda>_.
     case found of
       Some (i, s) \<Rightarrow>
         andthen (on_reader (\<lambda>acts. labcomm2014_reader_start acts i remote_index (Some s) False)) (\<lambda>_.
         andthen (on_reader labcomm2014_reader_end) (\<lambda>_.
         ret remote_index))
     | None \<Rightarrow> if indices = [] then stop Undef else ret (- ENOENT))))))"

fun find_local_ref :: "cstring option \<Rightarrow> int \<Rightarrow> byte list \<Rightarrow> int list \<Rightarrow> (('z, 'v) decoder, int option) prog" where
  "find_local_ref rname rsize rsig [] = ret None"
| "find_local_ref rname rsize rsig (i # is) =
     andthen (gets d_local_ref) (\<lambda>local_ref.
     andthen (signature_array_get i None local_ref) (\<lambda>so.
     case so of
       None \<Rightarrow> find_local_ref rname rsize rsig is
     | Some s \<Rightarrow> andthen (same_signature s rname rsize rsig) (\<lambda>same.
                 if same then ret (Some i) else find_local_ref rname rsize rsig is)))"

definition handle_sample_ref :: "int \<Rightarrow> cstring option \<Rightarrow> int \<Rightarrow> byte list \<Rightarrow> (('z, 'v) decoder, int) prog" where
  "handle_sample_ref remote_index rname rsize rsig =
     andthen (dec_call DataLock) (\<lambda>_.
     andthen (gets (\<lambda>d. sa_indices (d_local_ref d))) (\<lambda>indices.
     andthen (find_local_ref rname rsize rsig indices) (\<lambda>found.
     andthen (case found of
                None \<Rightarrow> ret ()
              | Some i \<Rightarrow> on_remote_to_local_ref (sa_assign 0 int_size remote_index i)) (\<lambda>_.
     andthen (dec_call DataUnlock) (\<lambda>_.
     case found of
       Some i \<Rightarrow> ret remote_index
     | None \<Rightarrow> if indices = [] then stop Undef else ret (- ENOENT))))))"

section \<open>Skipping and intentions\<close>

fun skip_loop :: "('z, 'v) reader_action list \<Rightarrow> nat \<Rightarrow> ('z reader_scheme, int) prog" where
  "skip_loop acts 0 = ret 0"
| "skip_loop acts (Suc n) =
     andthen (labcomm2014_read_byte acts) (\<lambda>_.
     andthen (gets r_error) (\<lambda>err.
     if err < 0 then ret err else skip_loop acts n))"

definition reader_skip :: "('z, 'v) reader_action list \<Rightarrow> int \<Rightarrow> int \<Rightarrow> ('z reader_scheme, int) prog" where
  "reader_skip acts len tag =
     andthen (skip_loop acts (nat len)) (\<lambda>err. ret (if err < 0 then err else tag))"

text \<open>
  \<^verbatim>\<open>TODO_read_intentions\<close>: the number of intentions is one byte; only the one with the empty key is
  kept.  The loop goes on after an error of the reader.
\<close>

fun read_intentions_loop :: "('z, 'v) reader_action list \<Rightarrow> nat \<Rightarrow> cstring option \<Rightarrow> ('z reader_scheme, cstring option) prog" where
  "read_intentions_loop acts 0 name = ret name"
| "read_intentions_loop acts (Suc n) name =
     andthen (labcomm2014_read_packed32 acts) (\<lambda>k.
     let klen = int_of_u32 k in
     if klen = 0 then andthen (labcomm2014_read_string acts) (\<lambda>name. read_intentions_loop acts n name)
     else andthen (reader_skip acts klen 1) (\<lambda>_.
          andthen (labcomm2014_read_packed32 acts) (\<lambda>v.
          andthen (reader_skip acts (int_of_u32 v) 1) (\<lambda>_.
          read_intentions_loop acts n name))))"

definition TODO_read_intentions :: "('z, 'v) reader_action list \<Rightarrow> ('z reader_scheme, cstring option) prog" where
  "TODO_read_intentions acts =
     andthen (labcomm2014_read_byte acts) (\<lambda>numInts. read_intentions_loop acts (unat numInts) None)"

text \<open>
  The loop that reads the bytes of a signature, with a test of \<^verbatim>\<open>error\<close> after each; the result is the
  bytes, or the error.
\<close>

fun read_signature_loop :: "('z, 'v) reader_action list \<Rightarrow> nat \<Rightarrow> byte list \<Rightarrow> ('z reader_scheme, int + byte list) prog" where
  "read_signature_loop acts 0 acc = ret (Inr acc)"
| "read_signature_loop acts (Suc n) acc =
     andthen (labcomm2014_read_byte acts) (\<lambda>b.
     andthen (gets r_error) (\<lambda>err.
     if err < 0 then ret (Inl err) else read_signature_loop acts n (acc @ [b])))"

text \<open>The exit \<^verbatim>\<open>free_signature_name\<close>: the warning ends the process.\<close>

definition free_signature_name :: "cstring option \<Rightarrow> int \<Rightarrow> (('z, 'v) decoder, int) prog" where
  "free_signature_name name result =
     (case name of
        None \<Rightarrow> ret result
      | Some _ \<Rightarrow>
          andthen (if result = - ENOENT then labcomm2014_error_warning LABCOMM2014_ERROR_DEC_NO_REG_SIGNATURE
                   else ret ()) (\<lambda>_.
          andthen (on_dmemory (labcomm2014_memory_free 0 True)) (\<lambda>_.
          ret result)))"

definition handle_definition ::
    "int \<Rightarrow> int \<Rightarrow> cstring option \<Rightarrow> int \<Rightarrow> byte list \<Rightarrow> (('z, 'v) decoder, int) prog" where
  "handle_definition kind remote_index name sz bs =
     (if kind = LABCOMM_SAMPLE_DEF then handle_sample_def remote_index name sz bs
      else if kind = LABCOMM_SAMPLE_REF then
        andthen (handle_sample_ref remote_index name sz bs) (\<lambda>result.
        ret (if result = - ENOENT then LABCOMM_SAMPLE_REF else result))
      else ret (- EINVAL))"

text \<open>The store through a NULL \<^verbatim>\<open>signature.signature\<close> is undefined.\<close>

definition decode_sample_def_or_ref :: "int \<Rightarrow> (('z, 'v) decoder, int) prog" where
  "decode_sample_def_or_ref kind =
     andthen (on_reader labcomm2014_read_packed32) (\<lambda>x.
     andthen reader_error (\<lambda>err.
     if err < 0 then ret err
     else let remote_index = int_of_u32 x in
     andthen (on_reader TODO_read_intentions) (\<lambda>name.
     andthen reader_error (\<lambda>err.
     if err < 0 then free_signature_name name err
     else andthen (on_reader labcomm2014_read_packed32) (\<lambda>y.
     andthen reader_error (\<lambda>err.
     if err < 0 then free_signature_name name err
     else let sz = int_of_u32 y in
     andthen (on_dmemory (labcomm2014_memory_alloc 1 (size_t_of_int sz))) (\<lambda>ok.
     if \<not> ok \<and> 0 < sz then stop Undef
     else andthen (on_reader (\<lambda>acts. read_signature_loop acts (nat sz) [])) (\<lambda>loop.
     andthen (case loop of Inl err \<Rightarrow> ret err | Inr bs \<Rightarrow> handle_definition kind remote_index name sz bs) (\<lambda>result.
     andthen (on_dmemory (labcomm2014_memory_free 1 ok)) (\<lambda>_.
     free_signature_name name result))))))))))"

section \<open>Samples\<close>

record 'v call_handler_context =
  ch_local_index :: int
  ch_remote_index :: int
  ch_signature :: "'v signature option"
  ch_handler :: "nat option"
  ch_context :: nat

definition call_handler ::
    "('z, 'v) reader_action list \<Rightarrow> 'v call_handler_context \<Rightarrow> 'v handled \<Rightarrow> (('z, 'v) feed, unit) prog" where
  "call_handler acts wrap value =
     andthen (gets (\<lambda>(r, c). r_error r)) (\<lambda>err.
     if 0 \<le> err then
       andthen (zoom fst (\<lambda>r (_, c). (r, c))
                 (labcomm2014_reader_start acts (ch_local_index wrap) (ch_remote_index wrap) (ch_signature wrap) True)) (\<lambda>_.
       andthen (case ch_handler wrap of
                  None \<Rightarrow> stop Undef
                | Some h \<Rightarrow> modify (\<lambda>(r, c). (r, c @ [\<lparr>hc_handler = h, hc_context = ch_context wrap, hc_value = value\<rparr>]))) (\<lambda>_.
       andthen (zoom fst (\<lambda>r (_, c). (r, c)) (labcomm2014_reader_end acts)) (\<lambda>_.
       ret ())))
     else ret ())"

definition reader_alloc :: "(('z, 'v) decoder, unit) prog" where
  "reader_alloc =
     andthen (gets d_reader_allocated) (\<lambda>allocated.
     if allocated then ret ()
     else andthen (modify (\<lambda>d. d\<lparr>d_reader_allocated := True\<rparr>)) (\<lambda>_.
          andthen (on_reader labcomm2014_reader_alloc) (\<lambda>_. ret ())))"

text \<open>\<^verbatim>\<open>strlen\<close> of a NULL \<^verbatim>\<open>pragma_type\<close> is undefined; the string is never freed.\<close>

definition decode_pragma :: "int \<Rightarrow> (('z, 'v) decoder, int) prog" where
  "decode_pragma len =
     andthen (on_reader labcomm2014_read_string) (\<lambda>pragma_type.
     andthen reader_error (\<lambda>err.
     if err < 0 then ret err
     else case pragma_type of
            None \<Rightarrow> stop Undef
          | Some p \<Rightarrow> andthen (c_int (labcomm2014_size_string p)) (\<lambda>sz. andthen (c_int (len - sz)) (\<lambda>psize.
                      on_reader (\<lambda>acts. reader_skip acts psize LABCOMM_PRAGMA)))))"

definition lookup_h ::
    "int \<Rightarrow> (('z, 'v) decoder, int \<times> 'v call_handler_context \<times> ('z, 'v) decode_function option) prog" where
  "lookup_h remote_index =
     andthen (dec_call DataLock) (\<lambda>_.
     andthen (on_remote_to_local (sa_deref 0 int_size remote_index)) (\<lambda>local_index.
     andthen
       (let wrap = \<lparr>ch_local_index = 0, ch_remote_index = remote_index, ch_signature = None,
                    ch_handler = None, ch_context = 0\<rparr>
        in if local_index \<noteq> 0 then
             andthen (on_local (sa_deref no_entry entry_size local_index)) (\<lambda>entry.
             ret (wrap\<lparr>ch_local_index := local_index, ch_signature := se_signature entry,
                       ch_handler := se_handler entry, ch_context := se_context entry\<rparr>, se_decode entry))
           else ret (wrap, None)) (\<lambda>(wrap, do_decode).
     andthen (dec_call DataUnlock) (\<lambda>_.
     ret (local_index, wrap, do_decode)))))"

definition decode_and_handle :: "int \<Rightarrow> (('z, 'v) decoder, int) prog" where
  "decode_and_handle remote_index =
     andthen (lookup_h remote_index) (\<lambda>(local_index, wrap, do_decode).
     case do_decode of
       None \<Rightarrow> ret (- ENOENT)
     | Some f \<Rightarrow> andthen (on_feed (\<lambda>acts. f acts (call_handler acts wrap))) (\<lambda>_.
                 andthen reader_error (\<lambda>err.
                 ret (if err < 0 then err else local_index))))"

section \<open>Decoding\<close>

text \<open>\<^verbatim>\<open>strcmp\<close> of a NULL \<^verbatim>\<open>version\<close> is undefined.\<close>

definition decode_version :: "(('z, 'v) decoder, int) prog" where
  "decode_version =
     andthen (on_reader labcomm2014_read_string) (\<lambda>version.
     andthen reader_error (\<lambda>err.
     andthen (if err < 0 then ret err
              else case version of
                     None \<Rightarrow> stop Undef
                   | Some v \<Rightarrow> if v = CURRENT_VERSION
                              then andthen (modify (\<lambda>d. d\<lparr>d_version_ok := True\<rparr>)) (\<lambda>_. ret LABCOMM_VERSION)
                              else ret (- ECONNRESET)) (\<lambda>result.
     andthen (on_dmemory (labcomm2014_memory_free 1 (version \<noteq> None))) (\<lambda>_.
     ret result))))"

text \<open>The part of \<^verbatim>\<open>do_decode_one\<close> behind the tag and the length.\<close>

definition decode_packet :: "int \<Rightarrow> int \<Rightarrow> (('z, 'v) decoder, int) prog" where
  "decode_packet remote_index len =
     andthen (gets d_version_ok) (\<lambda>version_ok.
     if remote_index = LABCOMM_VERSION then decode_version
     else if \<not> version_ok then ret (- ECONNRESET)
     else if remote_index = LABCOMM_SAMPLE_DEF then decode_sample_def_or_ref LABCOMM_SAMPLE_DEF
     else if remote_index = LABCOMM_SAMPLE_REF then decode_sample_def_or_ref LABCOMM_SAMPLE_REF
     else if remote_index = LABCOMM_TYPE_DEF \<or> remote_index = LABCOMM_TYPE_BINDING then
       andthen (decode_and_handle remote_index) (\<lambda>result.
       if result = - ENOENT then on_reader (\<lambda>acts. reader_skip acts len remote_index) else ret result)
     else if remote_index = LABCOMM_PRAGMA then decode_pragma len
     else if remote_index < LABCOMM_USER then on_reader (\<lambda>acts. reader_skip acts len remote_index)
     else decode_and_handle remote_index)"

definition do_decode_one :: "(('z, 'v) decoder, int) prog" where
  "do_decode_one =
     andthen reader_alloc (\<lambda>_.
     andthen (on_reader labcomm2014_read_packed32) (\<lambda>x.
     andthen reader_error (\<lambda>err.
     if err < 0 then ret err
     else andthen (on_reader labcomm2014_read_packed32) (\<lambda>y.
     andthen reader_error (\<lambda>err.
     if err < 0 then ret err
     else decode_packet (int_of_u32 x) (int_of_u32 y))))))"

text \<open>\<^verbatim>\<open>labcomm2014_decoder_run\<close> may never return.\<close>

partial_function (option) labcomm2014_decoder_run ::
    "('z, 'v) decoder \<Rightarrow> (stop + unit \<times> ('z, 'v) decoder) option" where
  "labcomm2014_decoder_run d =
     andthen do_decode_one (\<lambda>result d. if 0 < result then labcomm2014_decoder_run d else ret () d) d"

section \<open>Registration\<close>

definition dec_do_ref_register :: "'v signature \<Rightarrow> (('z, 'v) decoder, int) prog" where
  "dec_do_ref_register s =
     andthen (labcomm2014_get_local_index (Some s)) (\<lambda>local_index.
     if local_index \<le> 0 then ret local_index
     else andthen (dec_call DataLock) (\<lambda>_.
          andthen (on_local_ref (labcomm2014_signature_array_ref None pointer_size local_index)) (\<lambda>ok.
          andthen
            (if \<not> ok then ret (- ENOMEM)
             else andthen (gets (\<lambda>d. sa_at local_index (d_local_ref d))) (\<lambda>old.
                  if old \<noteq> None then ret local_index
                  else andthen (modify (\<lambda>d. d\<lparr>d_local_ref := sa_set local_index (Some s) (d_local_ref d)\<rparr>)) (\<lambda>_.
                       andthen (on_remote_to_local_ref (sa_assign 0 int_size local_index 0)) (\<lambda>_.
                       ret local_index)))) (\<lambda>result.
          andthen (dec_call DataUnlock) (\<lambda>_. ret result)))))"

definition dec_do_ioctl :: "'v signature option \<Rightarrow> u32 \<Rightarrow> int list \<Rightarrow> (('z, 'v) decoder, int \<times> ioctl_out) prog" where
  "dec_do_ioctl so action args =
     andthen (labcomm2014_get_local_index so) (\<lambda>local_index.
     andthen
       (if local_index = 0 then ret 0
        else andthen (dec_call DataLock) (\<lambda>_.
             andthen (on_local (sa_deref no_entry entry_size local_index)) (\<lambda>entry.
             andthen (dec_call DataUnlock) (\<lambda>_.
             ret (se_remote_index entry))))) (\<lambda>remote_index.
     on_reader (\<lambda>acts. labcomm2014_reader_ioctl acts local_index remote_index so action args)))"

definition labcomm2014_decoder_ioctl :: "u32 \<Rightarrow> int list \<Rightarrow> (('z, 'v) decoder, int \<times> ioctl_out) prog" where
  "labcomm2014_decoder_ioctl action args = dec_do_ioctl None action args"

text \<open>
  \<^verbatim>\<open>decode_raw_type_def\<close>; a failed allocation of \<^verbatim>\<open>signature_data\<close> skips the loop and the handler
  (and the rest of the packet stays in the reader).
\<close>

definition on_feed_reader :: "('z reader_scheme, 'a) prog \<Rightarrow> (('z, 'v) feed, 'a) prog" where
  "on_feed_reader = zoom fst (\<lambda>r (_, c). (r, c))"

definition decode_raw_type_def :: "('z, 'v) decode_function" where
  "decode_raw_type_def acts handle =
     andthen (on_feed_reader (labcomm2014_read_packed32 acts)) (\<lambda>index.
     andthen (gets (\<lambda>(r, c). r_error r)) (\<lambda>err.
     if err < 0 then ret ()
     else andthen (on_feed_reader (TODO_read_intentions acts)) (\<lambda>name.
     andthen (gets (\<lambda>(r, c). r_error r)) (\<lambda>err.
     andthen
       (if err < 0 then ret ()
        else andthen (on_feed_reader (labcomm2014_read_packed32 acts)) (\<lambda>y.
             andthen (gets (\<lambda>(r, c). r_error r)) (\<lambda>err.
             if err < 0 then ret ()
             else let len = int_of_u32 y in
                  andthen (on_feed_reader (on_rmemory (labcomm2014_memory_alloc 1 (size_t_of_int len)))) (\<lambda>ok.
                  andthen
                    (if ok then
                       andthen (on_feed_reader (read_signature_loop acts (nat len) [])) (\<lambda>loop.
                       case loop of
                         Inl err \<Rightarrow> ret ()
                       | Inr bs \<Rightarrow> handle (TypeDef \<lparr>rtd_name = name, rtd_index = int_of_u32 index, rtd_length = len,
                                                   rtd_signature_data = bs\<rparr>))
                     else ret ()) (\<lambda>_.
                  on_feed_reader (on_rmemory (labcomm2014_memory_free 1 ok))))))) (\<lambda>_.
     on_feed_reader (on_rmemory (labcomm2014_memory_free 1 (name \<noteq> None))))))))"

definition decode_type_binding :: "('z, 'v) decode_function" where
  "decode_type_binding acts handle =
     andthen (on_feed_reader (labcomm2014_read_packed32 acts)) (\<lambda>x.
     andthen (gets (\<lambda>(r, c). r_error r)) (\<lambda>err.
     if err < 0 then ret ()
     else andthen (on_feed_reader (labcomm2014_read_packed32 acts)) (\<lambda>y.
          andthen (gets (\<lambda>(r, c). r_error r)) (\<lambda>err.
          if err < 0 then ret ()
          else handle (TypeBinding \<lparr>tb_sample_index = int_of_u32 x, tb_type_index = int_of_u32 y\<rparr>)))))"

text \<open>The common shape of the two registrations of handlers for reserved tags.\<close>

definition register_tag :: "int \<Rightarrow> ('z, 'v) decode_function \<Rightarrow> nat \<Rightarrow> nat \<Rightarrow> (('z, 'v) decoder, int) prog" where
  "register_tag tag decode handler context =
     andthen (dec_call DataLock) (\<lambda>_.
     andthen (on_local (labcomm2014_signature_array_ref no_entry entry_size tag)) (\<lambda>ok.
     andthen
       (if \<not> ok then ret (- ENOMEM)
        else andthen (modify (\<lambda>d. d\<lparr>d_local := sa_set tag \<lparr>se_remote_index = tag, se_signature = None,
                        se_decode = Some decode, se_handler = Some handler, se_context = context\<rparr> (d_local d)\<rparr>)) (\<lambda>_.
             andthen (on_remote_to_local (sa_assign 0 int_size tag tag)) (\<lambda>_.
             ret tag))) (\<lambda>result.
     andthen (dec_call DataUnlock) (\<lambda>_. ret result))))"

definition labcomm2014_decoder_register_labcomm2014_type_def :: "nat \<Rightarrow> nat \<Rightarrow> (('z, 'v) decoder, int) prog" where
  "labcomm2014_decoder_register_labcomm2014_type_def handler context =
     register_tag LABCOMM_TYPE_DEF decode_raw_type_def handler context"

definition labcomm2014_decoder_register_labcomm2014_type_binding :: "nat \<Rightarrow> nat \<Rightarrow> (('z, 'v) decoder, int) prog" where
  "labcomm2014_decoder_register_labcomm2014_type_binding handler context =
     register_tag LABCOMM_TYPE_BINDING decode_type_binding handler context"

definition do_register_sample ::
    "'v signature \<Rightarrow> ('z, 'v) decode_function \<Rightarrow> nat \<Rightarrow> nat \<Rightarrow> (('z, 'v) decoder, int) prog" where
  "do_register_sample s decode handler context =
     andthen reader_alloc (\<lambda>_.
     andthen (labcomm2014_get_local_index (Some s)) (\<lambda>local_index.
     if local_index \<le> 0 then ret local_index
     else andthen (on_reader (\<lambda>acts. labcomm2014_reader_start acts local_index 0 (Some s) False)) (\<lambda>_.
          andthen (on_reader labcomm2014_reader_end) (\<lambda>_.
          andthen (dec_call DataLock) (\<lambda>_.
          andthen (on_local (labcomm2014_signature_array_ref no_entry entry_size local_index)) (\<lambda>ok.
          andthen
            (if \<not> ok then ret (- ENOMEM)
             else andthen (modify (\<lambda>d. d\<lparr>d_local := sa_set local_index \<lparr>se_remote_index = 0, se_signature = Some s,
                             se_decode = Some decode, se_handler = Some handler, se_context = context\<rparr> (d_local d)\<rparr>)) (\<lambda>_.
                  ret local_index)) (\<lambda>result.
          andthen (dec_call DataUnlock) (\<lambda>_. ret result))))))))"

section \<open>References, creation and destruction\<close>

definition do_index_to_sample_ref :: "int \<Rightarrow> (('z, 'v) decoder, 'v signature option) prog" where
  "do_index_to_sample_ref index =
     andthen (dec_call DataLock) (\<lambda>_.
     andthen (gets d_remote_to_local_ref) (\<lambda>remote_to_local_ref.
     andthen (signature_array_get index 0 remote_to_local_ref) (\<lambda>local_index.
     andthen (if local_index \<noteq> 0 then
                andthen (gets d_local_ref) (\<lambda>local_ref. signature_array_get local_index None local_ref)
              else ret None) (\<lambda>result.
     andthen (dec_call DataUnlock) (\<lambda>_. ret result)))))"

definition dec_do_ref_get :: "'v signature \<Rightarrow> 'v signature option" where
  "dec_do_ref_get s = Some s"

definition dec_do_free :: "(('z, 'v) decoder, unit) prog" where
  "dec_do_free =
     andthen (on_reader labcomm2014_reader_free) (\<lambda>_.
     andthen (on_local signature_array_free) (\<lambda>_.
     andthen (on_remote_to_local signature_array_free) (\<lambda>_.
     andthen (on_local_ref signature_array_free) (\<lambda>_.
     andthen (on_remote_to_local_ref signature_array_free) (\<lambda>_.
     on_dmemory (labcomm2014_memory_free 0 True))))))"

text \<open>\<^verbatim>\<open>sizeof(struct decoder)\<close> is 184.\<close>

definition labcomm2014_decoder_new ::
    "'z reader_scheme \<Rightarrow> ('z, 'v) reader_action list \<Rightarrow> (memory, ('z, 'v) decoder option) prog" where
  "labcomm2014_decoder_new r acts =
     andthen (labcomm2014_memory_alloc 0 184) (\<lambda>ok.
     gets (\<lambda>m. if \<not> ok then None
               else Some \<lparr>d_reader = r\<lparr>r_data := None, r_data_size := 0, r_count := 0, r_pos := 0, r_error := 0\<rparr>,
                          d_acts = acts, d_memory = m, d_scheduler = [], d_reader_allocated = False,
                          d_version_ok = False, d_local = signature_array_init,
                          d_remote_to_local = signature_array_init, d_local_ref = signature_array_init,
                          d_remote_to_local_ref = signature_array_init, d_calls = []\<rparr>))"

end
