(* ===== verification/LC_Packets.thy ===== *)
theory LC_Packets
  imports LC_Signature
begin

text \<open>
  The packets of the protocol as byte sequences: the specification that the encoder implements and
  the decoder relies on.  Every packet is a tag, the length of its payload and the payload.
\<close>

definition number_bytes :: "int \<Rightarrow> byte list" where
  "number_bytes i = packed32_bytes (u32_of_int i)"

definition packet_bytes :: "int \<Rightarrow> byte list \<Rightarrow> byte list" where
  "packet_bytes tag payload = number_bytes tag @ number_bytes (int (length payload)) @ payload"

definition string_bytes :: "cstring \<Rightarrow> byte list" where
  "string_bytes s = number_bytes (int (length s)) @ s"

text \<open>One intention, with the empty key: the name.\<close>

definition intentions_bytes :: "cstring \<Rightarrow> byte list" where
  "intentions_bytes name = number_bytes 1 @ number_bytes 0 @ string_bytes name"

definition definition_payload :: "int \<Rightarrow> cstring \<Rightarrow> byte list \<Rightarrow> byte list" where
  "definition_payload index name sig =
     number_bytes index @ intentions_bytes name @ number_bytes (int (length sig)) @ sig"

definition binding_payload :: "int \<Rightarrow> int \<Rightarrow> byte list" where
  "binding_payload sindex tindex = number_bytes sindex @ number_bytes tindex"

definition version_packet :: "byte list" where
  "version_packet = packet_bytes LABCOMM_VERSION (string_bytes CURRENT_VERSION)"

text \<open>The tree of a type definition, with references to other types as their indices.\<close>

definition item_bytes :: "byte \<times> 'v signature option \<Rightarrow> byte list" where
  "item_bytes x = (case snd x of None \<Rightarrow> [fst x] | Some s \<Rightarrow> number_bytes (sig_index s))"

definition tree_bytes :: "'v signature \<Rightarrow> byte list" where
  "tree_bytes s = concat (map item_bytes (tree_items (sig_treedata s)))"

text \<open>All references of the top level have an index.\<close>

definition tree_indexed :: "'v signature \<Rightarrow> bool" where
  "tree_indexed s \<longleftrightarrow> (\<forall>x\<in>set (tree_items (sig_treedata s)). case snd x of None \<Rightarrow> True | Some t \<Rightarrow> sig_index t \<noteq> 0)"

text \<open>A usable signature: it has an index, its size is that of its bytes and its packet fits.\<close>

definition sig_ok :: "'v signature \<Rightarrow> bool" where
  "sig_ok s \<longleftrightarrow> 0 < sig_index s \<and> sig_index s < INT_MAX \<and> sig_size s = int (length (sig_signature s)) \<and>
     int (length (definition_payload (sig_index s) (sig_name s) (sig_signature s))) \<le> INT_MAX"

lemma length_number_bytes: "int (length (number_bytes i)) = labcomm2014_size_packed32 (u32_of_int i)"
  by (simp add: number_bytes_def)

lemma length_string_bytes:
  "int (length s) \<le> INT_MAX \<Longrightarrow> int (length (string_bytes s)) = labcomm2014_size_string s"
  by (simp add: string_bytes_def labcomm2014_size_string_def number_bytes_def)

lemma length_number_bytes_pos: "0 < length (number_bytes i)"
  using length_packed32_bytes_bounds [of "u32_of_int i"] by (simp add: number_bytes_def)

lemma number_bytes_neq_Nil [simp]: "number_bytes i \<noteq> []"
  using length_number_bytes_pos [of i] by force

lemma number_bytes_small: "0 \<le> i \<Longrightarrow> i < 128 \<Longrightarrow> number_bytes i = [word_of_int i]"
proof -
  assume i: "0 \<le> i" "i < 128"
  then have "uint (u32_of_int i) = i"
    by (simp add: u32_of_int_def unsigned_of_int take_bit_int_eq_self)
  with i have "unat (u32_of_int i) < 128" by (simp flip: nat_uint_eq)
  then have "unat (drop_bit 7 (u32_of_int i)) = 0" by (simp add: drop_bit_eq_div unat_div)
  then have hi: "drop_bit 7 (u32_of_int i) = 0" by (simp only: unat_eq_0)
  have "u32_of_int i AND 0x7f = u32_of_int i"
    using hi push_drop_take [of 7 "u32_of_int i"] by (simp add: mask7 take_bit_eq_mask)
  with hi have "packed32_groups (u32_of_int i) = [ucast (u32_of_int i)]"
    by (simp add: packed32_groups.simps [of "u32_of_int i"])
  moreover have "ucast (u32_of_int i) = (word_of_int i :: byte)"
    using i by (simp add: u32_of_int_def unsigned_of_int ucast_eq take_bit_int_eq_self)
  ultimately show ?thesis by (simp add: number_bytes_def packed32_bytes_eq)
qed

lemma length_intentions_bytes:
  "int (length name) \<le> INT_MAX \<Longrightarrow> int (length (intentions_bytes name)) = labcomm2014_size_string name + 2"
  by (simp add: intentions_bytes_def number_bytes_small length_string_bytes [symmetric])

lemma length_definition_payload:
  assumes "int (length name) \<le> INT_MAX"
  shows "int (length (definition_payload index name sig)) =
     labcomm2014_size_packed32 (u32_of_int index) + (labcomm2014_size_string name + 2) +
     labcomm2014_size_packed32 (u32_of_int (int (length sig))) + int (length sig)"
  using length_intentions_bytes [OF assms]
  by (simp add: definition_payload_def number_bytes_def)

lemma definition_payload_lengths:
  assumes "int (length (definition_payload index name sig)) \<le> n"
  shows "int (length name) < n" and "int (length sig) < n"
  using assms length_number_bytes_pos [of index]
  unfolding definition_payload_def intentions_bytes_def string_bytes_def length_append of_nat_add
  by linarith+

lemma packet_bytes_neq_Nil [simp]: "packet_bytes tag payload \<noteq> []"
  by (simp add: packet_bytes_def)

end
