(* ===== verification/LC_DecoderSpec.thy ===== *)
theory LC_DecoderSpec
  imports LC_Decoder LC_Packets
begin

text \<open>
  What the decoder does with the packets of \<open>LC_Packets\<close> on a reader that keeps the contract
  \<open>reader_source\<close>: it consumes exactly the packet, updates the tables or calls the handler, and
  frees what it allocated.
\<close>

section \<open>Building blocks\<close>

lemma wp_dec_call [wp_simps]: "wp (dec_call c) Q d \<longleftrightarrow> Q () (d\<lparr>d_scheduler := d_scheduler d @ [c]\<rparr>)"
  by (simp add: dec_call_def wp_simps)

lemma wp_on_reader [wp_simps]:
  "wp (on_reader f) Q d \<longleftrightarrow> wp (f (d_acts d)) (\<lambda>x r. Q x (d\<lparr>d_reader := r\<rparr>)) (d_reader d)"
  by (simp add: on_reader_def wp_simps)

lemma wp_on_feed [wp_simps]:
  "wp (on_feed f) Q d \<longleftrightarrow>
     wp (f (d_acts d)) (\<lambda>x (r, c). Q x (d\<lparr>d_reader := r, d_calls := c\<rparr>)) (d_reader d, d_calls d)"
  by (simp add: on_feed_def wp_simps case_prod_unfold)

lemma wp_reader_error [wp_simps]: "wp reader_error Q d \<longleftrightarrow> Q (r_error (d_reader d)) d"
  by (simp add: reader_error_def wp_simps)

lemma wp_on_dmemory [wp_simps]:
  "wp (on_dmemory f) Q d \<longleftrightarrow> wp f (\<lambda>x m. Q x (d\<lparr>d_memory := m\<rparr>)) (d_memory d)"
  by (simp add: on_dmemory_def wp_simps)

lemma wp_get_index [wp_simps]:
  "wp (labcomm2014_get_local_index (Some s)) Q e \<longleftrightarrow> sig_index s \<noteq> 0 \<and> Q (sig_index s) e"
  by (auto simp: labcomm2014_get_local_index_def labcomm2014_error_fatal_global_def wp_simps)

lemma on_reader_run:
  "f (d_acts d) (d_reader d) = Some (Inr (x, r)) \<Longrightarrow> on_reader f d = Some (Inr (x, d\<lparr>d_reader := r\<rparr>))"
  by (simp add: on_reader_def prog_simps)

lemma reader_error_run: "reader_error d = Some (Inr (r_error (d_reader d), d))"
  by (simp add: reader_error_def prog_simps)

lemma reader_alloc_run: "d_reader_allocated d \<Longrightarrow> reader_alloc d = Some (Inr ((), d))"
  by (simp add: reader_alloc_def prog_simps)

lemmas dec_run = andthen_run on_reader_run reader_error_run reader_alloc_run

section \<open>Invariant\<close>

text \<open>
  The tables are healthy, the memory grants every request and the registered signatures are as
  long as they say.
\<close>

definition entry_at :: "('z, 'v) decoder \<Rightarrow> int \<Rightarrow> ('z, 'v) sample_entry" where
  "entry_at d = sa_lookup no_entry (d_local d)"

definition local_of :: "('z, 'v) decoder \<Rightarrow> int \<Rightarrow> int" where
  "local_of d = sa_lookup 0 (d_remote_to_local d)"

text \<open>The decoder \<open>d'\<close> differs from \<open>d\<close> only in its memory, its table of samples and its log of lock calls.\<close>

definition same_but_samples :: "('z, 'v) decoder \<Rightarrow> ('z, 'v) decoder \<Rightarrow> bool" where
  "same_but_samples d d' \<longleftrightarrow> d' = d\<lparr>d_memory := d_memory d', d_local := d_local d', d_scheduler := d_scheduler d'\<rparr>"

definition sig_sized :: "'v signature \<Rightarrow> bool" where
  "sig_sized s \<longleftrightarrow> sig_size s = int (length (sig_signature s))"

definition dec_inv :: "('z, 'v) reader_action list \<Rightarrow> ('z, 'v) decoder \<Rightarrow> bool" where
  "dec_inv acts d \<longleftrightarrow> d_acts d = acts \<and> d_reader_allocated d \<and> plenty (d_memory d) \<and>
     sa_ok (d_local d) \<and> sa_ok (d_remote_to_local d) \<and> sa_ok (d_local_ref d) \<and> sa_ok (d_remote_to_local_ref d) \<and>
     (\<forall>i s. se_signature (entry_at d i) = Some s \<longrightarrow> sig_sized s) \<and>
     (\<forall>i s. sa_lookup None (d_local_ref d) i = Some s \<longrightarrow> sig_sized s)"

definition same_tables :: "('z, 'v) decoder \<Rightarrow> ('z, 'v) decoder \<Rightarrow> bool" where
  "same_tables d d' \<longleftrightarrow> d_local d' = d_local d \<and> d_remote_to_local d' = d_remote_to_local d \<and>
     d_local_ref d' = d_local_ref d \<and> d_remote_to_local_ref d' = d_remote_to_local_ref d"

text \<open>The live blocks that belong to no table.\<close>

definition stray :: "('z, 'v) decoder \<Rightarrow> int" where
  "stray d = mem_live (r_memory (d_reader d)) + mem_live (d_memory d) -
     owned (d_local d) - owned (d_remote_to_local d) - owned (d_local_ref d) - owned (d_remote_to_local_ref d)"

section \<open>Matching a received definition\<close>

definition entry_matches :: "cstring \<Rightarrow> byte list \<Rightarrow> ('z, 'v) sample_entry \<Rightarrow> bool" where
  "entry_matches name sig en \<longleftrightarrow> (case se_signature en of None \<Rightarrow> False
     | Some s \<Rightarrow> sig_name s = name \<and> sig_signature s = sig)"

text \<open>The first registered sample with this name and signature.\<close>

definition first_match :: "cstring \<Rightarrow> byte list \<Rightarrow> ('z, 'v) decoder \<Rightarrow> int option" where
  "first_match name sig d = find (\<lambda>i. entry_matches name sig (entry_at d i)) (sa_indices (d_local d))"

lemma same_signature_eq:
  "sig_sized s \<Longrightarrow> same_signature s (Some name) (int (length sig)) sig =
     ret (sig_name s = name \<and> sig_signature s = sig)"
  by (cases "sig_signature s = sig") (auto simp: same_signature_def sig_sized_def)

lemma find_local_eq:
  assumes "dec_inv acts d" and "\<forall>i\<in>set is. sa_in i (d_local d)"
  shows "find_local (Some name) (int (length sig)) sig is d =
    Some (Inr (map_option (\<lambda>i. (i, the (se_signature (entry_at d i))))
                 (find (\<lambda>i. entry_matches name sig (entry_at d i)) is), d))"
  using assms(2)
proof (induction "is")
  case Nil
  then show ?case by (simp add: prog_simps)
next
  case (Cons i "is")
  from assms(1) have ok: "sa_ok (d_local d)"
    and sized: "\<And>i s. se_signature (entry_at d i) = Some s \<Longrightarrow> sig_sized s"
    by (auto simp: dec_inv_def)
  have "on_local (sa_deref no_entry entry_size i) d = Some (Inr (entry_at d i, d))"
    using Cons.prems by (simp add: on_local_def prog_simps sa_deref_inside [OF ok] entry_at_def)
  then show ?case
    using Cons sized [of i]
    by (auto simp: andthen_run ret_apply same_signature_eq entry_matches_def split: option.splits)
qed

lemma first_match_in: "first_match name sig d = Some i \<Longrightarrow> sa_in i (d_local d) \<and> entry_matches name sig (entry_at d i)"
  by (auto simp: first_match_def find_Some_iff sa_indices_in [symmetric])

text \<open>
  A definition that can be received: its index and its length fit in an \<^verbatim>\<open>int\<close>, its name contains no
  NUL.  The index -2 is the value of \<^verbatim>\<open>-ENOENT\<close>, which the decoder takes for a missing registration.
\<close>

definition def_fits :: "int \<Rightarrow> cstring \<Rightarrow> byte list \<Rightarrow> bool" where
  "def_fits ri name sig \<longleftrightarrow> INT_MIN \<le> ri \<and> ri \<le> INT_MAX \<and> ri \<noteq> - ENOENT \<and>
     int (length (definition_payload ri name sig)) \<le> INT_MAX \<and> 0 \<notin> set name"

text \<open>The effect of a definition: \<open>ri\<close> means \<open>i\<close> from now on.\<close>

definition binds :: "int \<Rightarrow> int \<Rightarrow> ('z, 'v) decoder \<Rightarrow> ('z, 'v) decoder \<Rightarrow> bool" where
  "binds ri i d d' \<longleftrightarrow> local_of d' = (local_of d)(ri := i) \<and>
     entry_at d' = (entry_at d)(i := (entry_at d i)\<lparr>se_remote_index := ri\<rparr>) \<and>
     d_local_ref d' = d_local_ref d \<and> d_remote_to_local_ref d' = d_remote_to_local_ref d \<and>
     d_version_ok d' = d_version_ok d \<and> d_calls d' = d_calls d"

section \<open>Reading the parts of a packet\<close>

context reader_source
begin

lemma wp_read_number:
  "ready (number_bytes i @ s) m r \<Longrightarrow>
     wp (labcomm2014_read_packed32 acts) (\<lambda>y r'. y = u32_of_int i \<and> ready s m r') r"
  unfolding number_bytes_def by (rule wp_read_packed32)

lemma wp_skip_loop:
  "ready (bs @ s) m r \<Longrightarrow> wp (skip_loop acts (length bs)) (\<lambda>x r'. x = 0 \<and> ready s m r') r"
proof (induction bs arbitrary: r)
  case Nil
  then show ?case by (simp add: wp_simps)
next
  case (Cons b bs)
  then have "ready (b # bs @ s) m r" by simp
  from wp_read_byte [OF this] show ?case
    unfolding length_Cons skip_loop.simps wp_andthen wp_gets
    by (rule wp_mono) (use Cons.IH in auto)
qed

lemma wp_reader_skip:
  "ready (bs @ s) m r \<Longrightarrow> wp (reader_skip acts (int (length bs)) tag) (\<lambda>x r'. x = tag \<and> ready s m r') r"
  unfolding reader_skip_def wp_andthen nat_int
  by (rule wp_mono [OF wp_skip_loop]) (auto simp: wp_simps)

lemma wp_read_signature:
  "ready (bs @ s) m r \<Longrightarrow> wp (read_signature_loop acts (length bs) acc) (\<lambda>x r'. x = Inr (acc @ bs) \<and> ready s m r') r"
proof (induction bs arbitrary: r acc)
  case Nil
  then show ?case by (simp add: wp_simps)
next
  case (Cons b bs)
  then have "ready (b # bs @ s) m r" by simp
  from wp_read_byte [OF this] show ?case
    unfolding length_Cons read_signature_loop.simps wp_andthen wp_gets
    by (rule wp_mono) (use Cons.IH [of _ "acc @ [b]"] in auto)
qed

lemma wp_read_cstring:
  assumes "ready (string_bytes str @ s) m r" and "int (length str) < INT_MAX" and "plenty m"
  shows "wp (labcomm2014_read_string acts) (\<lambda>y r'. y = Some (c_string str) \<and> ready s (one_more m) r') r"
  by (rule wp_read_string) (use assms in \<open>auto simp: string_bytes_def number_bytes_def\<close>)

lemma wp_read_intentions:
  assumes "ready (intentions_bytes name @ s) m r" and "int (length name) < INT_MAX" and "plenty m"
  shows "wp (TODO_read_intentions acts) (\<lambda>y r'. y = Some (c_string name) \<and> ready s (one_more m) r') r"
proof -
  have "ready (1 # number_bytes 0 @ string_bytes name @ s) m r"
    using assms(1) by (simp add: intentions_bytes_def number_bytes_small)
  from wp_read_byte [OF this] show ?thesis
    unfolding TODO_read_intentions_def wp_andthen
  proof (rule wp_mono, goal_cases)
    case (1 x r1)
    then have r1: "ready (number_bytes 0 @ string_bytes name @ s) m r1" and x: "unat x = Suc 0" by simp_all
    show ?case
      unfolding x read_intentions_loop.simps wp_andthen
      by (rule wp_mono [OF wp_read_number [OF r1]])
        (auto simp: u32_of_int_def int_of_u32_def wp_simps intro!: wp_mono [OF wp_read_cstring] assms(2,3))
  qed
qed

section \<open>Definitions\<close>

lemma wp_start_end:
  assumes "rok (d_reader d)" and "d_acts d = acts" and "Q x d"
  shows "wp (andthen (on_reader (\<lambda>acts. labcomm2014_reader_start acts i j so v))
    (\<lambda>_. andthen (on_reader labcomm2014_reader_end) (\<lambda>_. ret x))) Q d"
proof -
  have "wp (labcomm2014_reader_end acts) (\<lambda>_ r. Q x (d\<lparr>d_reader := r\<rparr>)) (d_reader d)"
    by (rule wp_mono [OF end_law [OF assms(1)]]) (simp add: assms(3))
  then have "wp (labcomm2014_reader_start acts i j so v)
      (\<lambda>_ r. wp (labcomm2014_reader_end acts) (\<lambda>_ r. Q x (d\<lparr>d_reader := r\<rparr>)) r) (d_reader d)"
    by (auto intro: wp_mono [OF start_law [OF assms(1)]])
  then show ?thesis by (simp add: wp_simps assms(2))
qed

text \<open>
  A definition that matches the sample registered at \<open>i\<close> binds the remote index \<open>ri\<close> to \<open>i\<close> and
  leaves everything else alone.
\<close>

lemma wp_handle_sample_def:
  assumes "dec_inv acts d" and "rok (d_reader d)" and "sa_room int_size ri (d_remote_to_local d)"
    and "first_match name sig d = Some i"
  shows "wp (handle_sample_def ri (Some name) (int (length sig)) sig) (\<lambda>result d'.
      result = ri \<and> binds ri i d d' \<and> dec_inv acts d' \<and> stray d' = stray d \<and> d_reader d' = d_reader d \<and>
      d_scheduler d' = d_scheduler d @ [DataLock, DataUnlock]) d"
proof -
  let ?d0 = "d\<lparr>d_scheduler := d_scheduler d @ [DataLock]\<rparr>"
  from assms(1) have inv: "d_acts d = acts" "plenty (d_memory d)" "sa_ok (d_local d)" "sa_ok (d_remote_to_local d)"
    by (simp_all add: dec_inv_def)
  note i = first_match_in [OF assms(4)]
  then obtain s where s: "se_signature (entry_at d i) = Some s"
    by (auto simp: entry_matches_def split: option.splits)
  let ?en = "(entry_at d i)\<lparr>se_remote_index := ri\<rparr>"
  let ?d1 = "?d0\<lparr>d_local := sa_set i ?en (d_local d)\<rparr>"
  have at: "sa_at i (d_local d) = entry_at d i"
    using i inv(3) by (simp add: entry_at_def sa_at_lookup [of _ _ no_entry])
  have entries: "sa_lookup no_entry (sa_set i ?en (d_local d)) = (entry_at d)(i := ?en)"
    using i inv(3) by (simp add: sa_lookup_set entry_at_def)
  have "dec_inv acts ?d0" using assms(1) by (simp add: dec_inv_def entry_at_def)
  from find_local_eq [OF this, of "sa_indices (d_local d)" name sig] assms(4) s
  have find: "find_local (Some name) (int (length sig)) sig (sa_indices (d_local d)) ?d0 = Some (Inr (Some (i, s), ?d0))"
    by (simp add: first_match_def entry_at_def sa_indices_in)
  have found: "wp (find_local (Some name) (int (length sig)) sig (sa_indices (d_local d))) Q ?d0 = Q (Some (i, s)) ?d0" for Q
    by (simp add: wp_def find)
  have assign: "wp (on_remote_to_local (sa_assign 0 int_size ri i)) (\<lambda>_ d'. \<exists>m a. d' = ?d1\<lparr>d_memory := m, d_remote_to_local := a\<rparr> \<and>
      plenty m \<and> sa_ok a \<and> mem_live m - owned a = mem_live (d_memory d) - owned (d_remote_to_local d) \<and>
      sa_lookup 0 a = (local_of d)(ri := i)) ?d1"
    unfolding on_remote_to_local_def wp_zoom
    by (rule wp_mono [OF sigtab.assign_law [where k = "mem_live (d_memory d) - owned (d_remote_to_local d)"]])
      (use inv assms(3) in \<open>auto simp: local_of_def\<close>)
  show ?thesis
    unfolding handle_sample_def_def
  proof (simp add: wp_andthen wp_dec_call wp_gets found at wp_modify, rule wp_mono [OF assign], elim exE conjE, goal_cases)
    case (1 x d' m a)
    let ?d2 = "d'\<lparr>d_scheduler := d_scheduler d' @ [DataUnlock]\<rparr>"
    have "entry_at ?d2 = (entry_at d)(i := ?en)" using 1 entries by (simp add: entry_at_def)
    with 1 assms(1) have "binds ri i d ?d2 \<and> dec_inv acts ?d2 \<and> stray ?d2 = stray d"
      by (auto simp: binds_def dec_inv_def local_of_def stray_def)
    moreover have "rok (d_reader ?d2)" "d_acts ?d2 = acts" using 1 assms(2) inv(1) by simp_all
    ultimately show ?case using 1
      by (simp add: wp_andthen [of "dec_call DataUnlock"] wp_dec_call) (rule wp_start_end, auto)
  qed
qed

text \<open>The tag and the length are read and the packet is dispatched.\<close>

lemma decode_header:
  assumes "dec_inv acts d" and "ready (packet_bytes tag payload @ s) m (d_reader d)"
    and "INT_MIN \<le> tag" and "tag \<le> INT_MAX" and "int (length payload) \<le> INT_MAX"
  obtains r where "ready (payload @ s) m r"
    and "do_decode_one d = decode_packet tag (int (length payload)) (d\<lparr>d_reader := r\<rparr>)"
proof -
  from assms(1) have inv: "d_acts d = acts" "d_reader_allocated d" by (simp_all add: dec_inv_def)
  have "ready (number_bytes tag @ number_bytes (int (length payload)) @ payload @ s) m (d_reader d)"
    using assms(2) by (simp add: packet_bytes_def)
  from wp_read_number [OF this] obtain r1
    where r1: "labcomm2014_read_packed32 acts (d_reader d) = Some (Inr (u32_of_int tag, r1))"
      "ready (number_bytes (int (length payload)) @ payload @ s) m r1" by (auto elim!: wpE)
  from wp_read_number [OF r1(2)] obtain r2
    where r2: "labcomm2014_read_packed32 acts r1 = Some (Inr (u32_of_int (int (length payload)), r2))"
      "ready (payload @ s) m r2" by (auto elim!: wpE)
  have "int_of_u32 (u32_of_int (int (length payload))) = int (length payload)"
    using assms(5) by (intro int_of_u32_of_int) (simp_all add: INT_MIN_def)
  with r1 r2 inv assms(3,4)
  have "do_decode_one d = decode_packet tag (int (length payload)) (d\<lparr>d_reader := r2\<rparr>)"
    by (simp add: do_decode_one_def dec_run)
  with r2(2) that show ?thesis by blast
qed

text \<open>The fields of a definition are read, then it is handled and its memory is freed.\<close>

lemma decode_definition_fields:
  assumes "dec_inv acts d" and "ready (definition_payload ri name sig @ s) m (d_reader d)" and "plenty m"
    and "INT_MIN \<le> ri" and "ri \<le> INT_MAX" and "int (length name) < INT_MAX" and "int (length sig) \<le> INT_MAX"
  obtains r where "ready s (one_more m) r"
    and "decode_sample_def_or_ref kind d =
      andthen (handle_definition kind ri (Some (c_string name)) (int (length sig)) sig) (\<lambda>result.
      andthen (on_dmemory (labcomm2014_memory_free 1 True)) (\<lambda>_.
      free_signature_name (Some (c_string name)) result)) (d\<lparr>d_memory := one_more (d_memory d), d_reader := r\<rparr>)"
proof -
  from assms(1) have inv: "d_acts d = acts" "plenty (d_memory d)" by (simp_all add: dec_inv_def)
  have "ready (number_bytes ri @ intentions_bytes name @ number_bytes (int (length sig)) @ sig @ s) m (d_reader d)"
    using assms(2) by (simp add: definition_payload_def)
  from wp_read_number [OF this] obtain r1
    where r1: "labcomm2014_read_packed32 acts (d_reader d) = Some (Inr (u32_of_int ri, r1))"
      "ready (intentions_bytes name @ number_bytes (int (length sig)) @ sig @ s) m r1" by (auto elim!: wpE)
  from wp_read_intentions [OF r1(2) assms(6,3)] obtain r2
    where r2: "TODO_read_intentions acts r1 = Some (Inr (Some (c_string name), r2))"
      "ready (number_bytes (int (length sig)) @ sig @ s) (one_more m) r2" by (auto elim!: wpE)
  from wp_read_number [OF r2(2)] obtain r3
    where r3: "labcomm2014_read_packed32 acts r2 = Some (Inr (u32_of_int (int (length sig)), r3))"
      "ready (sig @ s) (one_more m) r3" by (auto elim!: wpE)
  from wp_read_signature [OF r3(2), of "[]"] obtain r4
    where r4: "read_signature_loop acts (length sig) [] r3 = Some (Inr (Inr sig, r4))" "ready s (one_more m) r4"
    by (auto elim!: wpE)
  have len: "int_of_u32 (u32_of_int (int (length sig))) = int (length sig)"
    using assms(7) by (intro int_of_u32_of_int) (simp_all add: INT_MIN_def)
  have alloc: "on_dmemory (labcomm2014_memory_alloc l n) d' = Some (Inr (True, d'\<lparr>d_memory := one_more (d_memory d')\<rparr>))"
    if "plenty (d_memory d')" for l n and d' :: "('z, 'v) decoder"
    using that by (simp add: on_dmemory_def memory_defs Let_def prog_simps)
  let ?rest = "andthen (handle_definition kind ri (Some (c_string name)) (int (length sig)) sig) (\<lambda>result.
      andthen (on_dmemory (labcomm2014_memory_free 1 True)) (\<lambda>_.
      free_signature_name (Some (c_string name)) result))"
  have "decode_sample_def_or_ref kind d = ?rest (d\<lparr>d_memory := one_more (d_memory d), d_reader := r4\<rparr>)"
    unfolding decode_sample_def_or_ref_def
    using r1 r2 r3 r4 inv assms(4,5) len by (simp add: dec_run alloc Let_def)
  then show ?thesis using r4(2) that by blast
qed

text \<open>Both together, for a packet with a definition: the state in which it is handled.\<close>

lemma decode_definition:
  assumes "dec_inv acts d" and "d_version_ok d" and "plenty m"
    and "kind = LABCOMM_SAMPLE_DEF \<or> kind = LABCOMM_SAMPLE_REF"
    and "ready (packet_bytes kind (definition_payload ri name sig) @ s) m (d_reader d)"
    and "def_fits ri name sig"
  obtains r where "ready s (one_more m) r"
    and "do_decode_one d = andthen (handle_definition kind ri (Some name) (int (length sig)) sig) (\<lambda>result.
      andthen (on_dmemory (labcomm2014_memory_free 1 True)) (\<lambda>_. free_signature_name (Some name) result))
      (d\<lparr>d_memory := one_more (d_memory d), d_reader := r\<rparr>)"
proof -
  note fits = assms(6) [unfolded def_fits_def]
  have len: "int (length name) < INT_MAX" "int (length sig) \<le> INT_MAX"
    using definition_payload_lengths [of ri name sig INT_MAX] fits by simp_all
  have name: "c_string name = name" using fits by (auto simp: c_string_def takeWhile_eq_all_conv)
  obtain r where r: "ready (definition_payload ri name sig @ s) m r"
    and one: "do_decode_one d = decode_packet kind
                (int (length (definition_payload ri name sig))) (d\<lparr>d_reader := r\<rparr>)"
    by (rule decode_header [OF assms(1,5)])
      (use fits assms(4) in \<open>auto simp: tag_defs INT_MIN_def INT_MAX_def\<close>)
  let ?d = "d\<lparr>d_reader := r\<rparr>"
  have inv: "dec_inv acts ?d" using assms(1) by (simp add: dec_inv_def entry_at_def)
  obtain r' where r': "ready s (one_more m) r'"
    and def: "decode_sample_def_or_ref kind ?d =
      andthen (handle_definition kind ri (Some (c_string name)) (int (length sig)) sig) (\<lambda>result.
      andthen (on_dmemory (labcomm2014_memory_free 1 True)) (\<lambda>_.
      free_signature_name (Some (c_string name)) result)) (?d\<lparr>d_memory := one_more (d_memory ?d), d_reader := r'\<rparr>)"
    by (rule decode_definition_fields [OF inv, of ri name sig s m kind])
      (use r assms(3) fits len in simp_all)
  have "decode_packet kind (int (length (definition_payload ri name sig))) ?d = decode_sample_def_or_ref kind ?d"
    using assms(2,4) by (auto simp: decode_packet_def prog_simps tag_defs)
  with one def name have "do_decode_one d =
      andthen (handle_definition kind ri (Some name) (int (length sig)) sig) (\<lambda>result.
      andthen (on_dmemory (labcomm2014_memory_free 1 True)) (\<lambda>_. free_signature_name (Some name) result))
      (d\<lparr>d_memory := one_more (d_memory d), d_reader := r'\<rparr>)" by simp
  with r' that show ?thesis by blast
qed

text \<open>
  A whole definition packet: it is consumed, the remote index is bound, every block that was
  allocated on the way is free again.
\<close>

lemma wp_decode_sample_def:
  assumes "dec_inv acts d" and "d_version_ok d" and "plenty m"
    and "ready (packet_bytes LABCOMM_SAMPLE_DEF (definition_payload ri name sig) @ s) m (d_reader d)"
    and "def_fits ri name sig"
    and "sa_room int_size ri (d_remote_to_local d)" and "first_match name sig d = Some i"
  shows "wp do_decode_one (\<lambda>result d'. result = ri \<and> binds ri i d d' \<and> dec_inv acts d' \<and>
      stray d' = stray d \<and> d_scheduler d' = d_scheduler d @ [DataLock, DataUnlock] \<and>
      ready s (one_more m) (d_reader d')) d"
proof -
  obtain r' where r': "ready s (one_more m) r'"
    and run: "do_decode_one d = andthen (handle_definition LABCOMM_SAMPLE_DEF ri (Some name) (int (length sig)) sig)
      (\<lambda>result. andthen (on_dmemory (labcomm2014_memory_free 1 True)) (\<lambda>_. free_signature_name (Some name) result))
      (d\<lparr>d_memory := one_more (d_memory d), d_reader := r'\<rparr>)"
    by (rule decode_definition [OF assms(1-3) disjI1 [OF refl] assms(4,5)])
  let ?d' = "d\<lparr>d_memory := one_more (d_memory d), d_reader := r'\<rparr>"
  have r'm: "r_memory r' = one_more m" "rok r'" and rm: "r_memory (d_reader d) = m"
    using r' assms(4) by (simp_all add: ready_def)
  have "wp (handle_sample_def ri (Some name) (int (length sig)) sig) (\<lambda>result d'.
      result = ri \<and> binds ri i ?d' d' \<and> dec_inv acts d' \<and> stray d' = stray ?d' \<and> d_reader d' = d_reader ?d' \<and>
      d_scheduler d' = d_scheduler ?d' @ [DataLock, DataUnlock]) ?d'"
    by (rule wp_handle_sample_def)
      (use assms r'm in \<open>simp_all add: dec_inv_def first_match_def entry_at_def\<close>)
  then have "wp (andthen (handle_definition LABCOMM_SAMPLE_DEF ri (Some name) (int (length sig)) sig) (\<lambda>result.
      andthen (on_dmemory (labcomm2014_memory_free 1 True)) (\<lambda>_. free_signature_name (Some name) result)))
      (\<lambda>result d'. result = ri \<and> binds ri i d d' \<and> dec_inv acts d' \<and>
        stray d' = stray d \<and> d_scheduler d' = d_scheduler d @ [DataLock, DataUnlock] \<and>
        ready s (one_more m) (d_reader d')) ?d'"
    unfolding wp_andthen handle_definition_def if_P [OF refl]
    by (rule wp_mono)
      (use assms(5) r' r'm rm in \<open>auto simp: free_signature_name_def wp_simps binds_def dec_inv_def stray_def
         entry_at_def local_of_def def_fits_def\<close>)
  with run show ?thesis by (simp add: wp_def)
qed

text \<open>
  Without a match the decoder does not return: with registered samples the warning ends the
  process, without any the result was never set.
\<close>

lemma handle_sample_def_unmatched:
  assumes "dec_inv acts d" and "first_match name sig d = None"
  shows "handle_sample_def ri (Some name) (int (length sig)) sig d =
    (if sa_indices (d_local d) = [] then Some (Inl Undef)
     else Some (Inr (- ENOENT, d\<lparr>d_scheduler := d_scheduler d @ [DataLock, DataUnlock]\<rparr>)))"
proof -
  let ?d0 = "d\<lparr>d_scheduler := d_scheduler d @ [DataLock]\<rparr>"
  have "dec_inv acts ?d0" using assms(1) by (simp add: dec_inv_def entry_at_def)
  from find_local_eq [OF this, of "sa_indices (d_local d)" name sig] assms(2)
  have "find_local (Some name) (int (length sig)) sig (sa_indices (d_local d)) ?d0 = Some (Inr (None, ?d0))"
    by (simp add: first_match_def entry_at_def sa_indices_in)
  then show ?thesis
    by (simp add: handle_sample_def_def dec_call_def prog_simps)
qed

lemma decode_sample_def_unmatched:
  assumes "dec_inv acts d" and "d_version_ok d" and "plenty m"
    and "ready (packet_bytes LABCOMM_SAMPLE_DEF (definition_payload ri name sig) @ s) m (d_reader d)"
    and "def_fits ri name sig" and "first_match name sig d = None"
  shows "do_decode_one d = Some (Inl (if sa_indices (d_local d) = [] then Undef
           else Exit LABCOMM2014_ERROR_DEC_NO_REG_SIGNATURE))"
proof -
  obtain r' where r': "ready s (one_more m) r'"
    and run: "do_decode_one d = andthen (handle_definition LABCOMM_SAMPLE_DEF ri (Some name) (int (length sig)) sig)
      (\<lambda>result. andthen (on_dmemory (labcomm2014_memory_free 1 True)) (\<lambda>_. free_signature_name (Some name) result))
      (d\<lparr>d_memory := one_more (d_memory d), d_reader := r'\<rparr>)"
    by (rule decode_definition [OF assms(1-3) disjI1 [OF refl] assms(4,5)])
  let ?d' = "d\<lparr>d_memory := one_more (d_memory d), d_reader := r'\<rparr>"
  have "dec_inv acts ?d'" "first_match name sig ?d' = None"
    using assms(1,6) by (simp_all add: dec_inv_def first_match_def entry_at_def)
  from handle_sample_def_unmatched [OF this, of ri] run show ?thesis
    by (simp add: handle_definition_def free_signature_name_def labcomm2014_error_warning_def
        on_dmemory_def memory_defs prog_simps)
qed

section \<open>Registration\<close>

text \<open>Registering a sample sets its entry, and its entry only.\<close>

lemma wp_register_sample:
  assumes "dec_inv acts d" and "rok (d_reader d)" and "0 < sig_index s" and "sig_sized s"
    and "sa_room entry_size (sig_index s) (d_local d)"
  shows "wp (do_register_sample s f h ctx) (\<lambda>result d'. result = sig_index s \<and> dec_inv acts d' \<and>
      entry_at d' = (entry_at d)(sig_index s := \<lparr>se_remote_index = 0, se_signature = Some s, se_decode = Some f,
                                                 se_handler = Some h, se_context = ctx\<rparr>) \<and>
      local_of d' = local_of d \<and> d_remote_to_local d' = d_remote_to_local d \<and> d_reader d' = d_reader d \<and>
      d_version_ok d' = d_version_ok d \<and> d_calls d' = d_calls d \<and> stray d' = stray d \<and>
      d_scheduler d' = d_scheduler d @ [DataLock, DataUnlock] \<and> same_but_samples d d') d"
proof -
  let ?i = "sig_index s"
  let ?en = "\<lparr>se_remote_index = 0, se_signature = Some s, se_decode = Some f, se_handler = Some h, se_context = ctx\<rparr>"
  let ?d0 = "d\<lparr>d_scheduler := d_scheduler d @ [DataLock]\<rparr>"
  from assms(1) have inv: "d_acts d = acts" "d_reader_allocated d" "plenty (d_memory d)" "sa_ok (d_local d)"
    by (simp_all add: dec_inv_def)
  have alloc: "reader_alloc d = Some (Inr ((), d))" by (rule reader_alloc_run [OF inv(2)])
  have grow: "wp (on_local (labcomm2014_signature_array_ref no_entry entry_size ?i)) (\<lambda>ok d'. ok \<and>
      (\<exists>m a. d' = ?d0\<lparr>d_memory := m, d_local := a\<rparr> \<and> plenty m \<and> sa_ok a \<and> sa_in ?i a \<and>
        sa_lookup no_entry a = entry_at d \<and> mem_live m - owned a = mem_live (d_memory d) - owned (d_local d))) ?d0"
    unfolding on_local_def wp_zoom
    by (rule wp_mono [OF wp_signature_array_ref [where m = "d_memory ?d0" and a = "d_local ?d0"]])
      (use inv assms(5) in \<open>auto simp: entry_at_def intro!: exI\<close>)
  have register: "wp (andthen (dec_call DataLock) (\<lambda>_.
      andthen (on_local (labcomm2014_signature_array_ref no_entry entry_size ?i)) (\<lambda>ok.
      andthen (if \<not> ok then ret (- ENOMEM)
             else andthen (modify (\<lambda>d. d\<lparr>d_local := sa_set ?i ?en (d_local d)\<rparr>)) (\<lambda>_. ret ?i)) (\<lambda>result.
      andthen (dec_call DataUnlock) (\<lambda>_. ret result)))))
      (\<lambda>result d'. result = ?i \<and> dec_inv acts d' \<and> entry_at d' = (entry_at d)(?i := ?en) \<and>
        local_of d' = local_of d \<and> d_remote_to_local d' = d_remote_to_local d \<and> d_reader d' = d_reader d \<and>
        d_version_ok d' = d_version_ok d \<and> d_calls d' = d_calls d \<and> stray d' = stray d \<and>
        d_scheduler d' = d_scheduler d @ [DataLock, DataUnlock] \<and> same_but_samples d d') d"
    unfolding wp_andthen wp_dec_call
    by (rule wp_mono [OF grow])
      (use assms(1,4) in \<open>auto simp: wp_simps dec_inv_def entry_at_def local_of_def stray_def sa_lookup_set same_but_samples_def
         split: if_splits\<close>)
  show ?thesis
    unfolding do_register_sample_def wp_andthen_run [of reader_alloc, OF alloc]
    using assms(3) register wp_start_end [OF assms(2) inv(1)]
    by (simp add: wp_get_index wp_andthen wp_on_reader wp_ret)
qed

end

end
