(* ===== verification/LC_DecoderSamples.thy ===== *)
theory LC_DecoderSamples
  imports LC_DecoderSpec
begin

text \<open>
  The packets other than definitions: the version handshake, samples with their handlers, the
  reserved tags and the pragmas.
\<close>

text \<open>The entry of a remote index that has one.\<close>

lemma lookup_h_run:
  assumes "dec_inv acts d" and "local_of d ri = i" and "i \<noteq> 0" and "se_decode (entry_at d i) = Some f"
  shows "lookup_h ri d = Some (Inr ((i, \<lparr>ch_local_index = i, ch_remote_index = ri,
      ch_signature = se_signature (entry_at d i), ch_handler = se_handler (entry_at d i),
      ch_context = se_context (entry_at d i)\<rparr>, Some f), d\<lparr>d_scheduler := d_scheduler d @ [DataLock, DataUnlock]\<rparr>))"
proof -
  have "sa_in ri (d_remote_to_local d)"
    using assms(2,3) sa_lookup_outside [of ri "d_remote_to_local d" 0] by (auto simp: local_of_def)
  moreover have "sa_in i (d_local d)"
    using assms(4) sa_lookup_outside [of i "d_local d" no_entry]
    by (cases "sa_in i (d_local d)") (simp_all add: entry_at_def, simp add: no_entry_def)
  moreover have "sa_ok (d_local d)" "sa_ok (d_remote_to_local d)" using assms(1) by (simp_all add: dec_inv_def)
  ultimately show ?thesis
    using assms(2-4)
    by (simp add: lookup_h_def dec_call_def on_remote_to_local_def on_local_def prog_simps sa_deref_inside
        entry_at_def local_of_def Let_def)
qed

text \<open>A remote index without one: the window of the table grows, nothing else happens.\<close>

lemma wp_lookup_h_unknown:
  assumes "dec_inv acts d" and "local_of d ri = 0" and "sa_room int_size ri (d_remote_to_local d)"
  shows "wp (lookup_h ri) (\<lambda>(i, wrap, f) d'. i = 0 \<and> f = None \<and> d_reader d' = d_reader d \<and> dec_inv acts d' \<and>
      local_of d' = local_of d \<and> entry_at d' = entry_at d \<and> d_calls d' = d_calls d \<and>
      d_version_ok d' = d_version_ok d \<and> stray d' = stray d \<and>
      d_scheduler d' = d_scheduler d @ [DataLock, DataUnlock]) d"
proof -
  let ?d0 = "d\<lparr>d_scheduler := d_scheduler d @ [DataLock]\<rparr>"
  from assms(1) have inv: "plenty (d_memory d)" "sa_ok (d_remote_to_local d)" by (simp_all add: dec_inv_def)
  have "wp (on_remote_to_local (sa_deref 0 int_size ri)) (\<lambda>i d'. i = 0 \<and> (\<exists>m a. d' = ?d0\<lparr>d_memory := m, d_remote_to_local := a\<rparr> \<and>
      plenty m \<and> sa_ok a \<and> mem_live m - owned a = mem_live (d_memory d) - owned (d_remote_to_local d) \<and>
      sa_lookup 0 a = local_of d)) ?d0"
    unfolding on_remote_to_local_def wp_zoom
    by (rule wp_mono [OF sigtab.deref_law [where k = "mem_live (d_memory d) - owned (d_remote_to_local d)"]])
      (use inv assms(2,3) in \<open>auto simp: local_of_def\<close>)
  then show ?thesis
    unfolding lookup_h_def wp_andthen wp_dec_call
    by (rule wp_mono) (use assms(1) in \<open>auto simp: wp_simps dec_inv_def local_of_def entry_at_def stray_def\<close>)
qed

context reader_source
begin

section \<open>Handlers\<close>

text \<open>
  What is assumed of a generated decode function \<open>f\<close>: from the bytes \<open>bs\<close> of the value \<open>v\<close> it reads
  the value and calls the handler with it, once.
\<close>

definition decodes :: "('z, 'v) decode_function \<Rightarrow> 'v handled \<Rightarrow> byte list \<Rightarrow> bool" where
  "decodes f v bs \<longleftrightarrow> (\<forall>handle Q s m r c. ready (bs @ s) m r \<longrightarrow>
     (\<forall>r'. ready s m r' \<longrightarrow> wp (handle v) Q (r', c)) \<longrightarrow> wp (f acts handle) Q (r, c))"

lemma wp_call_handler:
  assumes "ready s m r" and "ch_handler wrap = Some h"
  shows "wp (call_handler acts wrap v) (\<lambda>_ (r', c'). ready s m r' \<and>
      c' = c @ [\<lparr>hc_handler = h, hc_context = ch_context wrap, hc_value = v\<rparr>]) (r, c)"
proof -
  from assms(1) have r: "rok r" "r_error r = 0" by (simp_all add: ready_def)
  have "wp (labcomm2014_reader_end acts) (\<lambda>_ r'. ready s m r') r"
    by (rule wp_mono [OF end_law [OF r(1)]]) (simp add: assms(1))
  then have "wp (labcomm2014_reader_start acts (ch_local_index wrap) (ch_remote_index wrap) (ch_signature wrap) True)
      (\<lambda>_ r1. wp (labcomm2014_reader_end acts) (\<lambda>_ r'. ready s m r') r1) r"
    by (auto intro: wp_mono [OF start_law [OF r(1)]])
  then show ?thesis
    using r assms(2) by (simp add: call_handler_def wp_simps)
qed

lemma wp_decode_and_handle:
  assumes "dec_inv acts d" and "ready (bs @ s) m (d_reader d)" and "local_of d ri = i" and "i \<noteq> 0"
    and "se_decode (entry_at d i) = Some f" and "se_handler (entry_at d i) = Some h" and "decodes f v bs"
  shows "wp (decode_and_handle ri) (\<lambda>result d'. result = i \<and> ready s m (d_reader d') \<and>
      d_calls d' = d_calls d @ [\<lparr>hc_handler = h, hc_context = se_context (entry_at d i), hc_value = v\<rparr>] \<and>
      (\<exists>r c. d' = d\<lparr>d_scheduler := d_scheduler d @ [DataLock, DataUnlock], d_reader := r, d_calls := c\<rparr>)) d"
proof -
  let ?wrap = "\<lparr>ch_local_index = i, ch_remote_index = ri, ch_signature = se_signature (entry_at d i),
      ch_handler = se_handler (entry_at d i), ch_context = se_context (entry_at d i)\<rparr>"
  have acts: "d_acts d = acts" using assms(1) by (simp add: dec_inv_def)
  have "wp (f acts (call_handler acts ?wrap)) (\<lambda>_ (r', c'). ready s m r' \<and>
      c' = d_calls d @ [\<lparr>hc_handler = h, hc_context = se_context (entry_at d i), hc_value = v\<rparr>])
      (d_reader d, d_calls d)"
    using assms(7) [unfolded decodes_def, rule_format, OF assms(2)] wp_call_handler [of s m _ ?wrap h v "d_calls d"] assms(6)
    by simp
  then have "wp (on_feed (\<lambda>acts. f acts (call_handler acts ?wrap))) (\<lambda>_ d'. ready s m (d_reader d') \<and>
      d_calls d' = d_calls d @ [\<lparr>hc_handler = h, hc_context = se_context (entry_at d i), hc_value = v\<rparr>] \<and>
      (\<exists>r c. d' = d\<lparr>d_scheduler := d_scheduler d @ [DataLock, DataUnlock], d_reader := r, d_calls := c\<rparr>))
      (d\<lparr>d_scheduler := d_scheduler d @ [DataLock, DataUnlock]\<rparr>)"
    using acts by (auto simp: wp_on_feed elim!: wp_mono)
  then show ?thesis
    unfolding decode_and_handle_def wp_andthen_run [of "lookup_h ri" d, OF lookup_h_run [OF assms(1,3-5)]] prod.case option.case
    unfolding wp_andthen
    by (rule wp_mono) (auto simp: wp_simps)
qed

section \<open>Whole packets\<close>

lemma dec_inv_reader [simp]: "dec_inv acts (d\<lparr>d_reader := r\<rparr>) = dec_inv acts d"
  by (simp add: dec_inv_def entry_at_def)

lemma entry_local_reader [simp]: "entry_at (d\<lparr>d_reader := r\<rparr>) = entry_at d" "local_of (d\<lparr>d_reader := r\<rparr>) = local_of d"
  by (simp_all add: entry_at_def local_of_def)

text \<open>A sample: the handler of its entry is called with the value, once.\<close>

lemma wp_decode_sample:
  assumes "dec_inv acts d" and "d_version_ok d"
    and "ready (packet_bytes ri bs @ s) m (d_reader d)" and "int (length bs) \<le> INT_MAX"
    and "LABCOMM_USER \<le> ri" and "ri \<le> INT_MAX" and "local_of d ri = i" and "i \<noteq> 0"
    and "se_decode (entry_at d i) = Some f" and "se_handler (entry_at d i) = Some h" and "decodes f v bs"
  shows "wp do_decode_one (\<lambda>result d'. result = i \<and> ready s m (d_reader d') \<and> dec_inv acts d' \<and>
      d_calls d' = d_calls d @ [\<lparr>hc_handler = h, hc_context = se_context (entry_at d i), hc_value = v\<rparr>] \<and>
      entry_at d' = entry_at d \<and> local_of d' = local_of d \<and> d_version_ok d' \<and> stray d' = stray d \<and>
      d_scheduler d' = d_scheduler d @ [DataLock, DataUnlock]) d"
proof -
  obtain r where r: "ready (bs @ s) m r"
    and one: "do_decode_one d = decode_packet ri (int (length bs)) (d\<lparr>d_reader := r\<rparr>)"
    by (rule decode_header [OF assms(1,3)]) (use assms in \<open>simp_all add: tag_defs INT_MIN_def\<close>)
  let ?d = "d\<lparr>d_reader := r\<rparr>"
  have "decode_packet ri (int (length bs)) ?d = decode_and_handle ri ?d"
    using assms(2,5) by (simp add: decode_packet_def prog_simps tag_defs)
  moreover have "wp (decode_and_handle ri) (\<lambda>result d'. result = i \<and> ready s m (d_reader d') \<and>
      d_calls d' = d_calls ?d @ [\<lparr>hc_handler = h, hc_context = se_context (entry_at ?d i), hc_value = v\<rparr>] \<and>
      (\<exists>r c. d' = ?d\<lparr>d_scheduler := d_scheduler ?d @ [DataLock, DataUnlock], d_reader := r, d_calls := c\<rparr>)) ?d"
    by (rule wp_decode_and_handle) (use assms r in simp_all)
  then have "wp (decode_and_handle ri) (\<lambda>result d'. result = i \<and> ready s m (d_reader d') \<and> dec_inv acts d' \<and>
      d_calls d' = d_calls d @ [\<lparr>hc_handler = h, hc_context = se_context (entry_at d i), hc_value = v\<rparr>] \<and>
      entry_at d' = entry_at d \<and> local_of d' = local_of d \<and> d_version_ok d' \<and> stray d' = stray d \<and>
      d_scheduler d' = d_scheduler d @ [DataLock, DataUnlock]) ?d"
    by (rule wp_mono) (use assms(1-3) in \<open>auto simp: dec_inv_def entry_at_def local_of_def stray_def ready_def\<close>)
  ultimately show ?thesis using one by (simp add: wp_def)
qed

text \<open>A sample of an unknown index: its payload stays in the reader.\<close>

lemma wp_decode_unknown:
  assumes "dec_inv acts d" and "d_version_ok d"
    and "ready (packet_bytes ri bs @ s) m (d_reader d)" and "int (length bs) \<le> INT_MAX"
    and "LABCOMM_USER \<le> ri" and "ri \<le> INT_MAX" and "local_of d ri = 0"
    and "sa_room int_size ri (d_remote_to_local d)"
  shows "wp do_decode_one (\<lambda>result d'. result = - ENOENT \<and> ready (bs @ s) m (d_reader d') \<and>
      d_calls d' = d_calls d) d"
proof -
  obtain r where r: "ready (bs @ s) m r"
    and one: "do_decode_one d = decode_packet ri (int (length bs)) (d\<lparr>d_reader := r\<rparr>)"
    by (rule decode_header [OF assms(1,3)]) (use assms in \<open>simp_all add: tag_defs INT_MIN_def\<close>)
  let ?d = "d\<lparr>d_reader := r\<rparr>"
  have "decode_packet ri (int (length bs)) ?d = decode_and_handle ri ?d"
    using assms(2,5) by (simp add: decode_packet_def prog_simps tag_defs)
  moreover have "wp (decode_and_handle ri) (\<lambda>result d'. result = - ENOENT \<and> ready (bs @ s) m (d_reader d') \<and>
      d_calls d' = d_calls d) ?d"
    unfolding decode_and_handle_def wp_andthen
    by (rule wp_mono [OF wp_lookup_h_unknown [of acts]]) (use assms r in \<open>auto simp: wp_simps\<close>)
  ultimately show ?thesis using one by (simp add: wp_def)
qed

text \<open>A reserved tag without a meaning: exactly the announced bytes are skipped.\<close>

lemma wp_decode_reserved:
  assumes "dec_inv acts d" and "d_version_ok d"
    and "ready (packet_bytes tag bs @ s) m (d_reader d)" and "int (length bs) \<le> INT_MAX"
    and "LABCOMM_TYPE_BINDING < tag" and "tag < LABCOMM_PRAGMA"
  shows "wp do_decode_one (\<lambda>result d'. result = tag \<and> (\<exists>r. d' = d\<lparr>d_reader := r\<rparr> \<and> ready s m r)) d"
proof -
  obtain r where r: "ready (bs @ s) m r"
    and one: "do_decode_one d = decode_packet tag (int (length bs)) (d\<lparr>d_reader := r\<rparr>)"
    by (rule decode_header [OF assms(1,3)]) (use assms in \<open>simp_all add: tag_defs INT_MIN_def INT_MAX_def\<close>)
  have "wp (on_reader (\<lambda>acts. reader_skip acts (int (length bs)) tag))
      (\<lambda>result d'. result = tag \<and> (\<exists>r. d' = d\<lparr>d_reader := r\<rparr> \<and> ready s m r)) (d\<lparr>d_reader := r\<rparr>)"
    using wp_reader_skip [OF r, of tag] assms(1) by (auto simp: wp_on_reader dec_inv_def elim!: wp_mono)
  with one assms(2,5,6) show ?thesis
    by (simp add: wp_def decode_packet_def prog_simps tag_defs)
qed

text \<open>The version: the right one opens the stream, any other one or none is refused.\<close>

lemma wp_decode_version_packet:
  assumes "dec_inv acts d" and "ready (packet_bytes LABCOMM_VERSION (string_bytes v) @ s) m (d_reader d)"
    and "plenty m" and "int (length (string_bytes v)) \<le> INT_MAX" and "0 \<notin> set v"
  shows "wp do_decode_one (\<lambda>result d'. dec_inv acts d' \<and> stray d' = stray d \<and> d_calls d' = d_calls d \<and>
      same_tables d d' \<and> ready s (one_more m) (d_reader d') \<and>
      (if v = CURRENT_VERSION then result = LABCOMM_VERSION \<and> d_version_ok d'
       else result = - ECONNRESET \<and> d_version_ok d' = d_version_ok d)) d"
proof -
  obtain r where r: "ready (string_bytes v @ s) m r"
    and one: "do_decode_one d = decode_packet LABCOMM_VERSION (int (length (string_bytes v))) (d\<lparr>d_reader := r\<rparr>)"
    by (rule decode_header [OF assms(1,2)]) (use assms in \<open>simp_all add: tag_defs INT_MIN_def INT_MAX_def\<close>)
  have v: "c_string v = v" using assms(5) by (auto simp: c_string_def takeWhile_eq_all_conv)
  have "int (length v) < INT_MAX"
    using assms(4) length_number_bytes_pos [of "int (length v)"]
    unfolding string_bytes_def length_append of_nat_add by linarith
  from wp_read_cstring [OF r this assms(3)] obtain r'
    where r': "labcomm2014_read_string acts r = Some (Inr (Some v, r'))" "ready s (one_more m) r'"
    by (auto elim!: wpE simp: v)
  have acts: "d_acts d = acts" and rm: "r_memory (d_reader d) = m" "r_memory r' = one_more m"
    using assms(1,2) r'(2) by (simp_all add: dec_inv_def ready_def)
  have "wp decode_version (\<lambda>result d'. dec_inv acts d' \<and> stray d' = stray d \<and> d_calls d' = d_calls d \<and>
      same_tables d d' \<and> ready s (one_more m) (d_reader d') \<and>
      (if v = CURRENT_VERSION then result = LABCOMM_VERSION \<and> d_version_ok d'
       else result = - ECONNRESET \<and> d_version_ok d' = d_version_ok d)) (d\<lparr>d_reader := r\<rparr>)"
    unfolding decode_version_def
    using r' acts assms(1) rm
    by (subst wp_andthen_run [of "on_reader labcomm2014_read_string", OF on_reader_run])
      (auto simp: wp_simps dec_inv_def entry_at_def stray_def ready_def same_tables_def)
  with one show ?thesis by (simp add: wp_def decode_packet_def prog_simps)
qed

lemma wp_decode_no_version:
  assumes "dec_inv acts d" and "\<not> d_version_ok d"
    and "ready (packet_bytes tag bs @ s) m (d_reader d)" and "int (length bs) \<le> INT_MAX"
    and "INT_MIN \<le> tag" and "tag \<le> INT_MAX" and "tag \<noteq> LABCOMM_VERSION"
  shows "wp do_decode_one (\<lambda>result d'. result = - ECONNRESET \<and> (\<exists>r. d' = d\<lparr>d_reader := r\<rparr>)) d"
proof -
  obtain r where "do_decode_one d = decode_packet tag (int (length bs)) (d\<lparr>d_reader := r\<rparr>)"
    by (rule decode_header [OF assms(1,3,5,6,4)]) blast
  with assms(2,7) show ?thesis by (auto simp: wp_def decode_packet_def prog_simps)
qed

section \<open>Whole streams\<close>

text \<open>At the end of the stream the decoder gives the error of the reader.\<close>

lemma wp_decode_eof:
  assumes "dec_inv acts d" and "ready [] m (d_reader d)"
  shows "wp do_decode_one (\<lambda>result d'. result < 0 \<and> (\<exists>r. d' = d\<lparr>d_reader := r\<rparr> \<and> r_memory r = m)) d"
proof -
  from assms(1) have inv: "d_acts d = acts" "d_reader_allocated d" by (simp_all add: dec_inv_def)
  have "unpack32 0 [] = None" by simp
  from wp_read_packed32_eof [OF assms(2) this] obtain x r
    where r: "labcomm2014_read_packed32 acts (d_reader d) = Some (Inr (x, r))" "r_error r < 0" "r_memory r = m"
    by (auto elim!: wpE simp: broken_def)
  with inv show ?thesis by (auto simp: wp_def do_decode_one_def dec_run prog_simps)
qed

lemma wp_decoder_run:
  assumes "wp do_decode_one (\<lambda>result d'. if 0 < result then wp labcomm2014_decoder_run Q d' else Q () d') d"
  shows "wp labcomm2014_decoder_run Q d"
proof -
  from assms obtain result d' where step: "do_decode_one d = Some (Inr (result, d'))"
    and Q: "if 0 < result then wp labcomm2014_decoder_run Q d' else Q () d'" by (auto elim!: wpE)
  from step have "labcomm2014_decoder_run d = (if 0 < result then labcomm2014_decoder_run d' else ret () d')"
    by (subst labcomm2014_decoder_run.simps) (simp add: andthen_run)
  with Q show ?thesis by (auto simp: wp_def prog_simps split: if_splits)
qed

text \<open>
  The loop \<^verbatim>\<open>labcomm2014_decoder_run\<close> over a stream of samples of one type: it returns at the end of the
  stream, and the handler was called with every value, in order.
\<close>

lemma wp_run_samples:
  assumes "dec_inv acts d" and "d_version_ok d"
    and "ready (concat (map (\<lambda>v. packet_bytes ri (enc v)) vs)) m (d_reader d)"
    and "\<forall>v\<in>set vs. int (length (enc v)) \<le> INT_MAX \<and> decodes f (Sample v) (enc v)"
    and "LABCOMM_USER \<le> ri" and "ri \<le> INT_MAX" and "local_of d ri = i" and "0 < i"
    and "se_decode (entry_at d i) = Some f" and "se_handler (entry_at d i) = Some h" and "se_context (entry_at d i) = ctx"
  shows "wp labcomm2014_decoder_run (\<lambda>_ d'.
      d_calls d' = d_calls d @ map (\<lambda>v. \<lparr>hc_handler = h, hc_context = ctx, hc_value = Sample v\<rparr>) vs \<and>
      stray d' = stray d) d"
  using assms
proof (induction vs arbitrary: d)
  case Nil
  then have end_of: "ready [] m (d_reader d)" and m: "r_memory (d_reader d) = m" by (simp_all add: ready_def)
  show ?case
    by (rule wp_decoder_run, rule wp_mono [OF wp_decode_eof [OF Nil.prems(1) end_of]])
      (use m in \<open>auto simp: stray_def\<close>)
next
  case (Cons v vs)
  let ?s = "concat (map (\<lambda>v. packet_bytes ri (enc v)) vs)"
  have r: "ready (packet_bytes ri (enc v) @ ?s) m (d_reader d)" using Cons.prems(3) by simp
  have i: "i \<noteq> 0" and v: "int (length (enc v)) \<le> INT_MAX" "decodes f (Sample v) (enc v)"
    using Cons.prems(4,8) by simp_all
  note sample = wp_decode_sample [OF Cons.prems(1,2) r v(1) Cons.prems(5-7) i Cons.prems(9,10) v(2)]
  show ?case
  proof (rule wp_decoder_run, rule wp_mono [OF sample], elim conjE, goal_cases)
    case (1 result d')
    have "wp labcomm2014_decoder_run (\<lambda>_ d''.
        d_calls d'' = d_calls d' @ map (\<lambda>v. \<lparr>hc_handler = h, hc_context = ctx, hc_value = Sample v\<rparr>) vs \<and>
        stray d'' = stray d') d'"
      by (rule Cons.IH) (use 1 Cons.prems in simp_all)
    then show ?case using 1 Cons.prems(8,11) by (auto elim!: wp_mono)
  qed
qed

end

end
