(* ===== verification/LC_DynWriter.thy ===== *)
theory LC_DynWriter
  imports LC_Writer
begin

text \<open>
  The dynamic buffer writer (\<^verbatim>\<open>labcomm2014_dynamic_buffer_writer.c\<close>): a writer that keeps a whole
  packet in a buffer which grows by 1000 bytes whenever it is full.  The contents of a fresh block
  are written as zeros; nothing relies on them.  The size is a natural number: a packet of more
  than 2 GiB, for which the \<^verbatim>\<open>int\<close> of the source would overflow, is outside of the model.
\<close>

abbreviation on_memory :: "(memory, 'a) prog \<Rightarrow> ('z writer_scheme, 'a) prog" where
  "on_memory \<equiv> zoom w_memory (\<lambda>m w. w\<lparr>w_memory := m\<rparr>)"

definition resize :: "nat \<Rightarrow> byte list \<Rightarrow> byte list" where
  "resize n d = take n d @ replicate (n - length d) 0"

definition dyn_alloc :: "('z writer_scheme, int) prog" where
  "dyn_alloc =
     andthen (modify (\<lambda>w. w\<lparr>w_data_size := 1000, w_count := 1000\<rparr>)) (\<lambda>_.
     andthen (on_memory (labcomm2014_memory_alloc 1 1000)) (\<lambda>ok.
     andthen (modify (\<lambda>w. w\<lparr>w_data := (if ok then Some (replicate 1000 0) else None),
                            w_error := (if ok then w_error w else - ENOMEM),
                            w_pos := 0\<rparr>)) (\<lambda>_.
     gets w_error)))"

definition dyn_free :: "('z writer_scheme, int) prog" where
  "dyn_free =
     andthen (gets (\<lambda>w. w_data w \<noteq> None)) (\<lambda>nonnull.
     andthen (on_memory (labcomm2014_memory_free 1 nonnull)) (\<lambda>_.
     andthen (modify (\<lambda>w. w\<lparr>w_data := None, w_data_size := 0, w_count := 0, w_pos := 0\<rparr>)) (\<lambda>_.
     andthen (on_memory (labcomm2014_memory_free 0 True)) (\<lambda>_.
     ret 0))))"

text \<open>
  \<^verbatim>\<open>dyn_start\<close> and \<^verbatim>\<open>dyn_flush\<close> write the new size into \<^verbatim>\<open>count\<close> before they know whether the
  reallocation succeeds.
\<close>

definition dyn_realloc :: "('z writer_scheme, unit) prog" where
  "dyn_realloc =
     andthen (gets (\<lambda>w. (w_data w, w_data_size w))) (\<lambda>(data, sz).
     andthen (on_memory (labcomm2014_memory_realloc 1 (data \<noteq> None) sz)) (\<lambda>ok.
     modify (\<lambda>w. if ok then w\<lparr>w_data := Some (resize sz (case data of None \<Rightarrow> [] | Some d \<Rightarrow> d)), w_error := 0\<rparr>
                 else w\<lparr>w_error := - ENOMEM\<rparr>)))"

definition dyn_start :: "int \<Rightarrow> 'v signature option \<Rightarrow> bool \<Rightarrow> ('z writer_scheme, int) prog" where
  "dyn_start index sig has_value =
     andthen (modify (\<lambda>w. w\<lparr>w_data_size := 1000, w_count := 1000\<rparr>)) (\<lambda>_.
     andthen dyn_realloc (\<lambda>_.
     andthen (modify (\<lambda>w. w\<lparr>w_pos := 0\<rparr>)) (\<lambda>_.
     gets w_error)))"

definition dyn_end :: "('z writer_scheme, int) prog" where
  "dyn_end = ret 0"

definition dyn_flush :: "('z writer_scheme, int) prog" where
  "dyn_flush =
     andthen (modify (\<lambda>w. w\<lparr>w_data_size := w_data_size w + 1000, w_count := w_data_size w + 1000\<rparr>)) (\<lambda>_.
     andthen dyn_realloc (\<lambda>_.
     gets w_error))"

definition dyn_ioctl :: "int \<Rightarrow> 'v signature option \<Rightarrow> u32 \<Rightarrow> int list \<Rightarrow> ('z writer_scheme, int \<times> ioctl_out) prog" where
  "dyn_ioctl index sig action args =
     (if action = LABCOMM_IOCTL_WRITER_GET_BYTES_WRITTEN then gets (\<lambda>w. (0, IoctlInt (int (w_pos w))))
      else if action = LABCOMM_IOCTL_WRITER_GET_BYTE_POINTER then gets (\<lambda>w. (0, IoctlPtr (w_data w)))
      else ret (- ENOTSUP, IoctlNone))"

definition dyn_action :: "('z, 'v) writer_action" where
  "dyn_action = \<lparr>wa_alloc = Some dyn_alloc, wa_free = Some dyn_free, wa_start = Some dyn_start,
     wa_end = Some dyn_end, wa_flush = Some dyn_flush, wa_ioctl = Some dyn_ioctl\<rparr>"

definition blank_writer :: "memory \<Rightarrow> writer" where
  "blank_writer m = \<lparr>w_memory = m, w_data = None, w_data_size = 0, w_count = 0, w_pos = 0, w_error = 0\<rparr>"

definition labcomm2014_dynamic_buffer_writer_new ::
    "(memory, (writer \<times> (unit, 'v) writer_action list) option) prog" where
  "labcomm2014_dynamic_buffer_writer_new =
     andthen (labcomm2014_memory_alloc 0 72) (\<lambda>ok.
     gets (\<lambda>m. if ok then Some (blank_writer m, [dyn_action]) else None))"

section \<open>Contract\<close>

lemmas dyn_defs = dyn_alloc_def dyn_free_def dyn_start_def dyn_end_def dyn_flush_def dyn_realloc_def

lemma dyn_dispatch [simp]:
  "labcomm2014_writer_alloc [dyn_action] = dyn_alloc"
  "labcomm2014_writer_free [dyn_action] = dyn_free"
  "labcomm2014_writer_start [dyn_action] = dyn_start"
  "labcomm2014_writer_end [dyn_action] = dyn_end"
  "labcomm2014_writer_flush [dyn_action] = dyn_flush"
  "labcomm2014_writer_ioctl [dyn_action] = dyn_ioctl"
  by (simp_all add: fun_eq_iff writer_dispatch_defs dispatch_def dyn_action_def)

definition dyn_safe :: "'z writer_scheme \<Rightarrow> bool" where
  "dyn_safe w \<longleftrightarrow> plenty (w_memory w) \<and> w_error w = 0 \<and>
     (case w_data w of None \<Rightarrow> False
      | Some d \<Rightarrow> w_count w = length d \<and> w_data_size w = length d \<and> w_pos w \<le> length d)"

definition dyn_stream :: "'z writer_scheme \<Rightarrow> byte list" where
  "dyn_stream w = (case w_data w of None \<Rightarrow> [] | Some d \<Rightarrow> take (w_pos w) d)"

lemma length_resize [simp]: "length (resize n d) = n"
  by (simp add: resize_def)

lemma take_resize: "k \<le> n \<Longrightarrow> k \<le> length d \<Longrightarrow> take k (resize n d) = take k d"
  by (simp add: resize_def)

interpretation dynw: writer_sink "[dyn_action]" dyn_safe dyn_stream "\<lambda>_. []" dyn_stream
proof unfold_locales
  fix w :: "'a writer_scheme" and b
  assume w: "dyn_safe w"
  then obtain d where d: "w_data w = Some d" "w_count w = length d" "w_data_size w = length d"
      "w_pos w \<le> length d" "w_error w = 0" "plenty (w_memory w)"
    by (auto simp: dyn_safe_def split: option.splits)
  from d show "\<exists>d. w_data w = Some d \<and> w_count w \<le> length d" by simp
  from d show "w_error w \<noteq> - EALREADY" by (simp add: EALREADY_def)
  show "dyn_safe (put_buffer b w) \<and> dyn_stream (put_buffer b w) = dyn_stream w @ [b]"
    if "w_pos w < w_count w"
    using that d by (simp add: dyn_safe_def dyn_stream_def put_buffer_def take_Suc_conv_app_nth)
  show "wp (labcomm2014_writer_flush [dyn_action]) (\<lambda>err w'. dyn_safe w' \<and> err = w_error w' \<and>
      w_pos w' < w_count w' \<and> (w_error w \<noteq> 0 \<longrightarrow> w_error w' \<noteq> 0) \<and>
      (w_error w' = 0 \<longrightarrow> dyn_stream w' = dyn_stream w)) w"
    using d by (simp add: dyn_defs wp_simps Let_def dyn_safe_def dyn_stream_def take_resize)
  show "wp (labcomm2014_writer_start [dyn_action] i sig v)
      (\<lambda>err w'. dyn_safe w' \<and> err = w_error w' \<and> (err = 0 \<longrightarrow> w_error w = 0 \<and> dyn_stream w' = [])) w"
    for i and sig :: "'b signature option" and v
    using d by (simp add: dyn_defs wp_simps Let_def dyn_safe_def dyn_stream_def)
  show "wp (labcomm2014_writer_end [dyn_action]) (\<lambda>err w'. dyn_safe w' \<and>
      (w_error w \<noteq> 0 \<longrightarrow> w_error w' \<noteq> 0) \<and> (w_error w' = 0 \<longrightarrow> dyn_stream w' = dyn_stream w)) w"
    using w by (simp add: dyn_defs wp_simps)
qed

lemma dyn_alloc_safe:
  "plenty (w_memory w) \<Longrightarrow> w_error w = 0 \<Longrightarrow> wp dyn_alloc (\<lambda>err w'. err = 0 \<and> dyn_safe w') w"
  by (simp add: dyn_defs wp_simps Let_def dyn_safe_def)

end
