(* ===== verification/LC_FdWriter.thy ===== *)
theory LC_FdWriter
  imports LC_DynWriter
begin

text \<open>
  The file descriptor writer (\<^verbatim>\<open>labcomm2014_fd_writer.c\<close>, compiled without
  \<^verbatim>\<open>LABCOMM_WITH_SANITY_CHECKS\<close>): a buffer of 2048 bytes that is written to a descriptor when it
  is full and at the end of every packet.

  The operating system is a parameter: \<open>sys_write d bs\<close> is one call of \<^verbatim>\<open>write\<close> on a device in
  state \<open>d\<close> with the bytes \<open>bs\<close>; it gives the result, the value of \<^verbatim>\<open>errno\<close> and the new state.
\<close>

definition FD_BUFFER_SIZE :: nat where "FD_BUFFER_SIZE = 2048"

record 'd fd_writer = writer +
  fw_dev :: 'd
  fw_close_fd_on_free :: bool

type_synonym 'd sys_write = "'d \<Rightarrow> byte list \<Rightarrow> int \<times> int \<times> 'd"
type_synonym 'd fdw_ext = "('d, unit) fd_writer_ext"

definition fdw_alloc :: "('d fd_writer, int) prog" where
  "fdw_alloc =
     andthen (on_memory (labcomm2014_memory_alloc 0 FD_BUFFER_SIZE)) (\<lambda>ok.
     andthen (modify (\<lambda>w.
        if \<not> ok then w\<lparr>w_data := None, w_error := - ENOMEM, w_data_size := 0, w_count := 0, w_pos := 0\<rparr>
        else w\<lparr>w_data := Some (replicate FD_BUFFER_SIZE 0), w_data_size := FD_BUFFER_SIZE,
               w_count := FD_BUFFER_SIZE, w_pos := 0\<rparr>)) (\<lambda>_.
     gets w_error))"

definition fdw_free :: "('d \<Rightarrow> 'd) \<Rightarrow> ('d fd_writer, int) prog" where
  "fdw_free sys_close =
     andthen (gets (\<lambda>w. w_data w \<noteq> None)) (\<lambda>nonnull.
     andthen (on_memory (labcomm2014_memory_free 0 nonnull)) (\<lambda>_.
     andthen (modify (\<lambda>w. w\<lparr>w_data := None, w_data_size := 0, w_count := 0, w_pos := 0\<rparr>)) (\<lambda>_.
     andthen (modify (\<lambda>w. if fw_close_fd_on_free w then w\<lparr>fw_dev := sys_close (fw_dev w)\<rparr> else w)) (\<lambda>_.
     andthen (on_memory (labcomm2014_memory_free 0 True)) (\<lambda>_.
     ret 0)))))"

definition fdw_start :: "int \<Rightarrow> 'v signature option \<Rightarrow> bool \<Rightarrow> ('d fd_writer, int) prog" where
  "fdw_start index sig has_value =
     andthen (modify (\<lambda>w. w\<lparr>w_pos := 0\<rparr>)) (\<lambda>_. gets w_error)"

text \<open>
  The loop of \<^verbatim>\<open>fd_flush\<close> over the bytes that are still to be written; every round that does not
  leave the loop writes at least one byte.
\<close>

function flush_loop :: "'d sys_write \<Rightarrow> byte list \<Rightarrow> int \<Rightarrow> int \<Rightarrow> 'd \<Rightarrow> int \<times> int \<times> 'd" where
  "flush_loop sys_write todo err eno d =
     (if todo = [] then (err, eno, d)
      else let (err', eno', d') = sys_write d todo
           in if err' \<le> 0 then (err', eno', d')
              else flush_loop sys_write (drop (nat err') todo) err' eno' d')"
  by pat_completeness auto
termination
  by (relation "measure (\<lambda>(f, todo, _). length todo)") auto

declare flush_loop.simps [simp del]

definition fdw_flush :: "'d sys_write \<Rightarrow> ('d fd_writer, int) prog" where
  "fdw_flush sys_write = (\<lambda>w.
     if w_data w = None \<and> 0 < w_pos w then Some (Inl Undef)
     else let todo = (case w_data w of None \<Rightarrow> [] | Some data \<Rightarrow> take (w_pos w) data);
              (err, eno, d) = flush_loop sys_write todo 0 0 (fw_dev w);
              w' = w\<lparr>w_error := (if err < 0 then - eno else if err = 0 then - EINVAL else w_error w),
                     w_pos := 0, fw_dev := d\<rparr>
          in Some (Inr (w_error w', w')))"

definition fdw_action :: "'d sys_write \<Rightarrow> ('d \<Rightarrow> 'd) \<Rightarrow> ('d fdw_ext, 'v) writer_action" where
  "fdw_action sys_write sys_close =
     \<lparr>wa_alloc = Some fdw_alloc, wa_free = Some (fdw_free sys_close), wa_start = Some fdw_start,
      wa_end = Some (fdw_flush sys_write), wa_flush = Some (fdw_flush sys_write), wa_ioctl = None\<rparr>"

definition labcomm2014_fd_writer_new ::
    "'d sys_write \<Rightarrow> ('d \<Rightarrow> 'd) \<Rightarrow> 'd \<Rightarrow> bool \<Rightarrow>
     (memory, ('d fd_writer \<times> ('d fdw_ext, 'v) writer_action list) option) prog" where
  "labcomm2014_fd_writer_new sys_write sys_close fd close_fd_on_free =
     andthen (labcomm2014_memory_alloc 0 80) (\<lambda>ok.
     gets (\<lambda>m. if ok then Some (\<lparr>w_memory = m, w_data = None, w_data_size = 0, w_count = 0, w_pos = 0,
                                 w_error = 0, fw_dev = fd, fw_close_fd_on_free = close_fd_on_free\<rparr>,
                               [fdw_action sys_write sys_close]) else None))"

section \<open>Contract\<close>

lemma fdw_dispatch [simp]:
  "labcomm2014_writer_alloc [fdw_action sw sc] = fdw_alloc"
  "labcomm2014_writer_free [fdw_action sw sc] = fdw_free sc"
  "labcomm2014_writer_start [fdw_action sw sc] = fdw_start"
  "labcomm2014_writer_end [fdw_action sw sc] = fdw_flush sw"
  "labcomm2014_writer_flush [fdw_action sw sc] = fdw_flush sw"
  by (simp_all add: fun_eq_iff writer_dispatch_defs dispatch_def fdw_action_def)

lemma fdw_ioctl_nosys:
  "labcomm2014_writer_ioctl [fdw_action sw sc] i s a args = ret (- ENOSYS, IoctlNone)"
  by (simp add: writer_dispatch_defs dispatch_def fdw_action_def)

definition fdw_safe :: "'d fd_writer \<Rightarrow> bool" where
  "fdw_safe w \<longleftrightarrow> (case w_data w of None \<Rightarrow> False
     | Some d \<Rightarrow> w_count w = length d \<and> 0 < w_count w \<and> w_pos w \<le> length d \<and> w_error w \<noteq> - EALREADY)"

text \<open>What was delivered to the device, and this with the contents of the buffer behind it.\<close>

definition fd_sent :: "('d \<Rightarrow> byte list) \<Rightarrow> 'd fd_writer \<Rightarrow> byte list" where
  "fd_sent delivered w = delivered (fw_dev w)"

definition fd_stream :: "('d \<Rightarrow> byte list) \<Rightarrow> 'd fd_writer \<Rightarrow> byte list" where
  "fd_stream delivered w = delivered (fw_dev w) @ (case w_data w of None \<Rightarrow> [] | Some d \<Rightarrow> take (w_pos w) d)"

text \<open>
  POSIX \<^verbatim>\<open>write\<close>: a positive result is the number of bytes, taken from the front, that were
  accepted, never more than were offered; a negative result comes with a positive \<^verbatim>\<open>errno\<close>, and
  \<^verbatim>\<open>EALREADY\<close> is not among the errors of \<^verbatim>\<open>write\<close>.
\<close>

locale posix_write =
  fixes sys_write :: "'d sys_write"
    and delivered :: "'d \<Rightarrow> byte list"
  assumes write_law: "sys_write d bs = (r, e, d') \<Longrightarrow>
    r \<le> int (length bs) \<and> delivered d' = delivered d @ take (nat r) bs \<and> (r < 0 \<longrightarrow> 0 < e \<and> e \<noteq> EALREADY)"
begin

abbreviation fdw_stream :: "'d fd_writer \<Rightarrow> byte list" where
  "fdw_stream \<equiv> fd_stream delivered"

abbreviation fdw_sent :: "'d fd_writer \<Rightarrow> byte list" where
  "fdw_sent \<equiv> fd_sent delivered"

lemma flush_loop_law:
  "flush_loop sys_write todo err eno d = (err', eno', d') \<Longrightarrow> (err < 0 \<longrightarrow> 0 < eno \<and> eno \<noteq> EALREADY) \<Longrightarrow>
     (err' < 0 \<longrightarrow> 0 < eno' \<and> eno' \<noteq> EALREADY) \<and> (0 < err' \<longrightarrow> delivered d' = delivered d @ todo)"
proof (induction todo arbitrary: err eno d rule: length_induct)
  case (1 todo)
  obtain r e d1 where w: "sys_write d todo = (r, e, d1)" by (cases "sys_write d todo")
  note law = write_law [OF w]
  show ?case
  proof (cases "todo = [] \<or> r \<le> 0")
    case True
    with "1.prems" w law show ?thesis by (auto simp: flush_loop.simps [of _ todo] split: if_splits)
  next
    case False
    with "1.prems"(1) w have "flush_loop sys_write (drop (nat r) todo) r e d1 = (err', eno', d')"
      by (simp add: flush_loop.simps [of _ todo])
    moreover have "length (drop (nat r) todo) < length todo" using False by auto
    ultimately have "(err' < 0 \<longrightarrow> 0 < eno' \<and> eno' \<noteq> EALREADY) \<and> (0 < err' \<longrightarrow> delivered d' = delivered d1 @ drop (nat r) todo)"
      using "1.IH" law by blast
    with law show ?thesis by simp
  qed
qed

lemma wp_fdw_flush:
  assumes "fdw_safe w"
  shows "wp (fdw_flush sys_write) (\<lambda>err w'. fdw_safe w' \<and> err = w_error w' \<and> w_pos w' < w_count w' \<and>
    (w_error w \<noteq> 0 \<longrightarrow> w_error w' \<noteq> 0) \<and>
    (w_error w' = 0 \<longrightarrow> fdw_stream w' = fdw_stream w \<and> fdw_sent w' = fdw_stream w)) w"
proof -
  from assms obtain data where data: "w_data w = Some data" "w_count w = length data" "0 < length data"
      "w_error w \<noteq> - EALREADY"
    by (auto simp: fdw_safe_def split: option.splits)
  obtain err eno d where loop: "flush_loop sys_write (take (w_pos w) data) 0 0 (fw_dev w) = (err, eno, d)"
    by (cases "flush_loop sys_write (take (w_pos w) data) 0 0 (fw_dev w)")
  from flush_loop_law [OF loop] show ?thesis
    using data loop
    by (auto simp: wp_def fdw_flush_def fdw_safe_def fd_stream_def fd_sent_def Let_def EINVAL_def EALREADY_def
        split: if_splits)
qed

end

sublocale posix_write \<subseteq> fdw: writer_sink "[fdw_action sys_write sys_close]" fdw_safe fdw_stream fdw_sent fdw_sent
  for sys_close
proof (unfold_locales, goal_cases)
  case (1 w)
  then show ?case by (auto simp: fdw_safe_def split: option.splits)
next
  case (2 w)
  then show ?case by (auto simp: fdw_safe_def split: option.splits)
next
  case (3 w b)
  then show ?case
    by (auto simp: fdw_safe_def fd_stream_def put_buffer_def take_Suc_conv_app_nth split: option.splits)
next
  case (4 w)
  from wp_fdw_flush [OF 4] show ?case by (auto elim: wp_mono)
next
  case (5 w i sig v)
  then show ?case
    by (auto simp: fdw_start_def wp_simps fdw_safe_def fd_stream_def fd_sent_def split: option.splits)
next
  case (6 w)
  from wp_fdw_flush [OF 6] show ?case by (auto elim: wp_mono)
qed

lemma fdw_alloc_safe:
  "plenty (w_memory w) \<Longrightarrow> w_error w = 0 \<Longrightarrow>
     wp fdw_alloc (\<lambda>err w'. err = 0 \<and> fdw_safe w' \<and> w_error w' = 0 \<and> fw_dev w' = fw_dev w) w"
  by (simp add: fdw_alloc_def wp_simps Let_def fdw_safe_def FD_BUFFER_SIZE_def EALREADY_def)

section \<open>A scripted device\<close>

text \<open>
  A device that takes its results from a script (all of the offered bytes when the script is
  empty), so every sequence of partial writes and failures is one of its runs.
\<close>

record script_dev =
  sd_out :: "byte list"
  sd_script :: "int list"

definition script_write :: "script_dev sys_write" where
  "script_write d bs =
     (case sd_script d of
        [] \<Rightarrow> (int (length bs), 0, d\<lparr>sd_out := sd_out d @ bs\<rparr>)
      | r # rs \<Rightarrow>
          let k = min (nat r) (length bs)
          in (if r < 0 then -1 else int k, EPIPE, d\<lparr>sd_out := sd_out d @ take k bs, sd_script := rs\<rparr>))"

interpretation script: posix_write script_write sd_out
  by unfold_locales
    (auto simp: script_write_def Let_def EPIPE_def EALREADY_def min_def split: list.splits if_splits)

end
