(* ===== verification/LC_Encoder.thy ===== *)
theory LC_Encoder
  imports LC_FdWriter LC_SigArray LC_Scheduler
begin

text \<open>
  The encoder (\<^verbatim>\<open>labcomm2014_encoder.c\<close>, compiled with type definitions and without sanity checks).

  Its state is the record \<open>encoder\<close>: the writer with its chain of actions, the memory, the calls
  made to the scheduler so far and the three tables of registered indices.  The writer lock is
  taken and released through the scheduler; the results of these calls are not used.
\<close>

record ('z, 'v) encoder =
  e_writer :: "'z writer_scheme"
  e_acts :: "('z, 'v) writer_action list"
  e_memory :: memory
  e_scheduler :: "sched_call list"
  e_registered :: "int sigarr"
  e_sample_ref :: "int sigarr"
  e_typedefs :: "int sigarr"

text \<open>Calls on the parts: the scheduler, the writer, one of the tables.\<close>

definition enc_call :: "sched_call \<Rightarrow> (('z, 'v) encoder, unit) prog" where
  "enc_call c = modify (\<lambda>e. e\<lparr>e_scheduler := e_scheduler e @ [c]\<rparr>)"

definition on_writer :: "(('z, 'v) writer_action list \<Rightarrow> ('z writer_scheme, 'a) prog) \<Rightarrow> (('z, 'v) encoder, 'a) prog" where
  "on_writer f = andthen (gets e_acts) (\<lambda>acts. zoom e_writer (\<lambda>w e. e\<lparr>e_writer := w\<rparr>) (f acts))"

datatype enc_table = Registered | SampleRef | Typedefs

primrec enc_get :: "enc_table \<Rightarrow> ('z, 'v) encoder \<Rightarrow> int sigarr" where
  "enc_get Registered e = e_registered e"
| "enc_get SampleRef e = e_sample_ref e"
| "enc_get Typedefs e = e_typedefs e"

primrec enc_put :: "enc_table \<Rightarrow> int sigarr \<Rightarrow> ('z, 'v) encoder \<Rightarrow> ('z, 'v) encoder" where
  "enc_put Registered a e = e\<lparr>e_registered := a\<rparr>"
| "enc_put SampleRef a e = e\<lparr>e_sample_ref := a\<rparr>"
| "enc_put Typedefs a e = e\<lparr>e_typedefs := a\<rparr>"

definition on_table :: "enc_table \<Rightarrow> (memory \<times> int sigarr, 'a) prog \<Rightarrow> (('z, 'v) encoder, 'a) prog" where
  "on_table t = zoom (\<lambda>e. (e_memory e, enc_get t e)) (\<lambda>(m, a) e. enc_put t a (e\<lparr>e_memory := m\<rparr>))"

section \<open>Samples\<close>

definition TODO_sizeof_intentions :: "'v signature \<Rightarrow> int" where
  "TODO_sizeof_intentions s = labcomm2014_size_string (sig_name s) + 2"

definition TODO_encode_intentions :: "'v signature \<Rightarrow> (('z, 'v) encoder, int) prog" where
  "TODO_encode_intentions s =
     andthen (on_writer (\<lambda>acts. labcomm2014_write_packed32 acts 1)) (\<lambda>_.
     andthen (on_writer (\<lambda>acts. labcomm2014_write_packed32 acts 0)) (\<lambda>_.
     andthen (on_writer (\<lambda>acts. labcomm2014_write_string acts (sig_name s))) (\<lambda>_.
     gets (\<lambda>e. w_error (e_writer e)))))"

text \<open>The copy loop reads \<^verbatim>\<open>signature->signature[i]\<close> for \<^verbatim>\<open>i < signature->size\<close>.\<close>

definition copy_signature :: "'v signature \<Rightarrow> (('z, 'v) encoder, unit) prog" where
  "copy_signature s =
     (if int (length (sig_signature s)) < sig_size s then stop Undef
      else on_writer (\<lambda>acts. write_unchecked acts (take (nat (sig_size s)) (sig_signature s))))"

text \<open>
  What \<^verbatim>\<open>do_sample_register\<close> and \<^verbatim>\<open>do_ref_register\<close> write between \<^verbatim>\<open>start\<close> and \<^verbatim>\<open>end\<close>; they differ
  in the tag only.
\<close>

definition write_definition :: "int \<Rightarrow> int \<Rightarrow> 'v signature \<Rightarrow> (('z, 'v) encoder, unit) prog" where
  "write_definition tag index s =
     andthen (on_writer (\<lambda>acts. labcomm2014_write_packed32 acts (u32_of_int tag))) (\<lambda>_.
     andthen (c_int (labcomm2014_size_packed32 (u32_of_int index) + TODO_sizeof_intentions s +
                     labcomm2014_size_packed32 (u32_of_int (sig_size s)) + sig_size s)) (\<lambda>len.
     andthen (on_writer (\<lambda>acts. labcomm2014_write_packed32 acts (u32_of_int len))) (\<lambda>_.
     andthen (on_writer (\<lambda>acts. labcomm2014_write_packed32 acts (u32_of_int index))) (\<lambda>_.
     andthen (TODO_encode_intentions s) (\<lambda>_.
     andthen (on_writer (\<lambda>acts. labcomm2014_write_packed32 acts (u32_of_int (sig_size s)))) (\<lambda>_.
     copy_signature s))))))"

text \<open>
  From \<^verbatim>\<open>start\<close> to \<^verbatim>\<open>result = e->writer->error\<close>: \<^verbatim>\<open>-EALREADY\<close> skips the packet with the result 0.
\<close>

definition send_packet :: "int \<Rightarrow> 'v signature \<Rightarrow> (('z, 'v) encoder, unit) prog \<Rightarrow> (('z, 'v) encoder, int) prog" where
  "send_packet index s body =
     andthen (on_writer (\<lambda>acts. labcomm2014_writer_start acts index (Some s) False)) (\<lambda>err.
     if err = - EALREADY then ret 0
     else if err \<noteq> 0 then ret err
     else andthen body (\<lambda>_.
          andthen (on_writer labcomm2014_writer_end) (\<lambda>_.
          gets (\<lambda>e. w_error (e_writer e)))))"

text \<open>
  The frame of the three registration functions: under the writer lock, an index that is in the
  table already is refused, a new one is entered and then announced.
\<close>

definition register_once ::
    "enc_table \<Rightarrow> 'v signature \<Rightarrow> (int \<Rightarrow> (('z, 'v) encoder, unit) prog) \<Rightarrow> (('z, 'v) encoder, int) prog" where
  "register_once t s body =
     andthen (labcomm2014_get_local_index (Some s)) (\<lambda>index.
     andthen (enc_call WriterLock) (\<lambda>_.
     andthen
       (if index \<le> 0 then ret (- EINVAL)
        else andthen (on_table t (sa_deref 0 4 index)) (\<lambda>done.
             if done \<noteq> 0 then ret (- EINVAL)
             else andthen (modify (\<lambda>e. enc_put t (sa_set index 1 (enc_get t e)) e)) (\<lambda>_.
                  send_packet index s (body index)))) (\<lambda>result.
     andthen (enc_call WriterUnlock) (\<lambda>_. ret result))))"

definition do_sample_register :: "'v signature \<Rightarrow> (('z, 'v) encoder, int) prog" where
  "do_sample_register s = register_once Registered s (\<lambda>index. write_definition LABCOMM_SAMPLE_DEF index s)"

definition enc_do_ref_register :: "'v signature \<Rightarrow> (('z, 'v) encoder, int) prog" where
  "enc_do_ref_register s = register_once SampleRef s (\<lambda>index. write_definition LABCOMM_SAMPLE_REF index s)"

text \<open>
  \<^verbatim>\<open>do_encode\<close>; \<open>encode\<close> is the generated function that writes a value.  The result of the first
  \<^verbatim>\<open>write_packed32\<close> is overwritten and that of \<^verbatim>\<open>writer_end\<close> is dropped.
\<close>

type_synonym ('z, 'v) encode_function = "('z, 'v) writer_action list \<Rightarrow> 'v \<Rightarrow> ('z writer_scheme, int) prog"

definition do_encode :: "'v signature \<Rightarrow> ('z, 'v) encode_function \<Rightarrow> 'v \<Rightarrow> (('z, 'v) encoder, int) prog" where
  "do_encode s encode v =
     andthen (labcomm2014_get_local_index (Some s)) (\<lambda>index.
     let len = sig_encoded_size s v in
     andthen (enc_call WriterLock) (\<lambda>_.
     andthen (gets e_registered) (\<lambda>registered.
     andthen (signature_array_get index 0 registered) (\<lambda>reg.
     andthen
       (if reg = 0 then ret (- EINVAL)
        else andthen (on_writer (\<lambda>acts. labcomm2014_writer_start acts index (Some s) True)) (\<lambda>result.
             if result = - EALREADY then ret 0
             else andthen
                   (if result \<noteq> 0 then ret result
                    else andthen (on_writer (\<lambda>acts. labcomm2014_write_packed32 acts (u32_of_int index))) (\<lambda>_.
                         andthen (on_writer (\<lambda>acts. labcomm2014_write_packed32 acts (u32_of_int len))) (\<lambda>result.
                         if result \<noteq> 0 then ret result
                         else on_writer (\<lambda>acts. encode acts v)))) (\<lambda>result.
                  andthen (on_writer labcomm2014_writer_end) (\<lambda>_. ret result)))) (\<lambda>result.
     andthen (enc_call WriterUnlock) (\<lambda>_. ret result))))))"

text \<open>
  \<^verbatim>\<open>labcomm2014_internal_sizeof\<close> of \<^verbatim>\<open>labcomm2014.c\<close>: the size of the packet of a sample, a sum of three \<^verbatim>\<open>int\<close>, of
  which the first two together have at most ten.
\<close>

definition labcomm2014_internal_sizeof :: "'v signature \<Rightarrow> 'v \<Rightarrow> ('s, int) prog" where
  "labcomm2014_internal_sizeof s v =
     (let len = sig_encoded_size s v
      in c_int (labcomm2014_size_packed32 (u32_of_int (sig_index s)) + labcomm2014_size_packed32 (u32_of_int len) + len))"

section \<open>Control and references\<close>

definition enc_do_ioctl :: "'v signature option \<Rightarrow> u32 \<Rightarrow> int list \<Rightarrow> (('z, 'v) encoder, int \<times> ioctl_out) prog" where
  "enc_do_ioctl so action args =
     andthen (labcomm2014_get_local_index so) (\<lambda>index.
     on_writer (\<lambda>acts. labcomm2014_writer_ioctl acts index so action args))"

definition labcomm2014_encoder_ioctl :: "u32 \<Rightarrow> int list \<Rightarrow> (('z, 'v) encoder, int \<times> ioctl_out) prog" where
  "labcomm2014_encoder_ioctl action args =
     (if LABCOMM_IOC_SIG action \<noteq> LABCOMM_IOC_NOSIG then ret (- EINVAL, IoctlNone)
      else enc_do_ioctl None action args)"

text \<open>A sample reference is a pointer to the signature; NULL is \<open>None\<close>.\<close>

definition do_sample_ref_to_index :: "'v signature option \<Rightarrow> (('z, 'v) encoder, int) prog" where
  "do_sample_ref_to_index ref =
     (case ref of None \<Rightarrow> ret 0
      | Some s \<Rightarrow> andthen (labcomm2014_get_local_index (Some s)) (\<lambda>index.
                 andthen (gets e_sample_ref) (\<lambda>sample_ref.
                 andthen (signature_array_get index 0 sample_ref) (\<lambda>x.
                 ret (if x = 0 then 0 else index)))))"

definition enc_do_ref_get :: "'v signature \<Rightarrow> 'v signature option" where
  "enc_do_ref_get s = Some s"

section \<open>Type definitions\<close>

definition write_sig_tree_byte :: "byte \<Rightarrow> 'v signature option \<Rightarrow> (('z, 'v) encoder, unit) prog" where
  "write_sig_tree_byte b so =
     (case so of
        Some s \<Rightarrow> andthen (labcomm2014_get_local_index (Some s)) (\<lambda>index.
                  andthen (on_writer (\<lambda>acts. labcomm2014_write_packed32 acts (u32_of_int index))) (\<lambda>_. ret ()))
      | None \<Rightarrow> on_writer (\<lambda>acts. write_byte_unchecked acts b))"

definition do_write_signature :: "'v signature \<Rightarrow> bool \<Rightarrow> (('z, 'v) encoder, unit) prog" where
  "do_write_signature s fl = map_signature write_sig_tree_byte s fl"

text \<open>The size is accumulated in an \<^verbatim>\<open>int\<close>, the state of this computation.\<close>

definition sig_size_step :: "byte \<Rightarrow> 'v signature option \<Rightarrow> (int, unit) prog" where
  "sig_size_step b so =
     (case so of
        Some s \<Rightarrow> andthen (labcomm2014_get_local_index (Some s)) (\<lambda>idx.
                  modify (\<lambda>result. result + labcomm2014_size_packed32 (u32_of_int idx)))
      | None \<Rightarrow> modify (\<lambda>result. result + 1))"

definition calc_sig_encoded_size :: "'v signature \<Rightarrow> ('s, int) prog" where
  "calc_sig_encoded_size s = (\<lambda>e.
     case map_signature sig_size_step s False 0 of
       None \<Rightarrow> None
     | Some (Inl x) \<Rightarrow> Some (Inl x)
     | Some (Inr (_, result)) \<Rightarrow> Some (Inr (result, e)))"

definition write_type_def :: "int \<Rightarrow> 'v signature \<Rightarrow> (('z, 'v) encoder, unit) prog" where
  "write_type_def index s =
     andthen (calc_sig_encoded_size s) (\<lambda>sz.
     andthen (c_int (labcomm2014_size_packed32 (u32_of_int index) + TODO_sizeof_intentions s +
                     labcomm2014_size_packed32 (u32_of_int sz) + sz)) (\<lambda>len.
     andthen (on_writer (\<lambda>acts. labcomm2014_write_packed32 acts (u32_of_int LABCOMM_TYPE_DEF))) (\<lambda>_.
     andthen (on_writer (\<lambda>acts. labcomm2014_write_packed32 acts (u32_of_int len))) (\<lambda>_.
     andthen (on_writer (\<lambda>acts. labcomm2014_write_packed32 acts (u32_of_int index))) (\<lambda>_.
     andthen (TODO_encode_intentions s) (\<lambda>_.
     andthen (on_writer (\<lambda>acts. labcomm2014_write_packed32 acts (u32_of_int sz))) (\<lambda>_.
     do_write_signature s False)))))))"

definition internal_reg_type :: "'v signature \<Rightarrow> bool \<Rightarrow> (('z, 'v) encoder, int) prog" where
  "internal_reg_type s fl = register_once Typedefs s (\<lambda>index. write_type_def index s)"

definition do_type_register :: "'v signature \<Rightarrow> (('z, 'v) encoder, int) prog" where
  "do_type_register s = internal_reg_type s False"

definition do_type_bind :: "'v signature \<Rightarrow> bool \<Rightarrow> (('z, 'v) encoder, int) prog" where
  "do_type_bind s has_deps =
     andthen (labcomm2014_get_local_index (Some s)) (\<lambda>sindex.
     andthen (if has_deps then labcomm2014_get_local_type_index (Some s) else ret LABCOMM_BIND_SELF) (\<lambda>tindex.
     andthen (enc_call WriterLock) (\<lambda>_.
     andthen
       (if sindex \<le> 0 \<or> has_deps \<and> tindex \<le> 0 then ret (- EINVAL)
        else send_packet LABCOMM_TYPE_BINDING s
              (let len = labcomm2014_size_packed32 (u32_of_int sindex) + labcomm2014_size_packed32 (u32_of_int tindex) in
               andthen (on_writer (\<lambda>acts. labcomm2014_write_packed32 acts (u32_of_int LABCOMM_TYPE_BINDING))) (\<lambda>_.
               andthen (on_writer (\<lambda>acts. labcomm2014_write_packed32 acts (u32_of_int len))) (\<lambda>_.
               andthen (on_writer (\<lambda>acts. labcomm2014_write_packed32 acts (u32_of_int sindex))) (\<lambda>_.
               andthen (on_writer (\<lambda>acts. labcomm2014_write_packed32 acts (u32_of_int tindex))) (\<lambda>_.
               ret ())))))) (\<lambda>result.
     andthen (enc_call WriterUnlock) (\<lambda>_. ret result)))))"

section \<open>Creation and destruction\<close>

definition enc_do_free :: "(('z, 'v) encoder, unit) prog" where
  "enc_do_free =
     andthen (on_writer labcomm2014_writer_free) (\<lambda>_.
     andthen (on_table Registered signature_array_free) (\<lambda>_.
     andthen (on_table SampleRef signature_array_free) (\<lambda>_.
     andthen (on_table Typedefs signature_array_free) (\<lambda>_.
     zoom e_memory (\<lambda>m e. e\<lparr>e_memory := m\<rparr>) (labcomm2014_memory_free 0 True)))))"

text \<open>
  The encoder is created on a memory; \<^verbatim>\<open>sizeof(struct encoder)\<close> is 160.  When the allocation fails
  the source returns \<^verbatim>\<open>&(result->encoder)\<close>, which is NULL.
\<close>

definition write_version :: "(('z, 'v) encoder, unit) prog" where
  "write_version =
     andthen (on_writer (\<lambda>acts. labcomm2014_writer_start acts LABCOMM_VERSION None True)) (\<lambda>_.
     andthen (on_writer (\<lambda>acts. labcomm2014_write_packed32 acts (u32_of_int LABCOMM_VERSION))) (\<lambda>_.
     andthen (on_writer (\<lambda>acts. labcomm2014_write_packed32 acts
                (u32_of_int (labcomm2014_size_string CURRENT_VERSION)))) (\<lambda>_.
     andthen (on_writer (\<lambda>acts. labcomm2014_write_string acts CURRENT_VERSION)) (\<lambda>_.
     andthen (on_writer labcomm2014_writer_end) (\<lambda>_. ret ())))))"

definition internal_encoder_new ::
    "'z writer_scheme \<Rightarrow> ('z, 'v) writer_action list \<Rightarrow> bool \<Rightarrow> (memory, ('z, 'v) encoder option) prog" where
  "internal_encoder_new w acts outputVer = (\<lambda>m.
     andthen (labcomm2014_memory_alloc 0 160) (\<lambda>ok.
     if \<not> ok then ret None
     else (\<lambda>m.
       let e = \<lparr>e_writer = w\<lparr>w_data := None, w_data_size := 0, w_count := 0, w_pos := 0, w_error := 0\<rparr>,
                e_acts = acts, e_memory = m, e_scheduler = [], e_registered = signature_array_init,
                e_sample_ref = signature_array_init, e_typedefs = signature_array_init\<rparr>
       in case andthen (on_writer labcomm2014_writer_alloc) (\<lambda>_.
               if outputVer then write_version else ret ()) e of
            None \<Rightarrow> None
          | Some (Inl x) \<Rightarrow> Some (Inl x)
          | Some (Inr (_, e')) \<Rightarrow> Some (Inr (Some e', m)))) m)"

definition labcomm2014_encoder_new ::
    "'z writer_scheme \<Rightarrow> ('z, 'v) writer_action list \<Rightarrow> (memory, ('z, 'v) encoder option) prog" where
  "labcomm2014_encoder_new w acts = internal_encoder_new w acts True"

end
