(* ===== verification/LC_EncoderSpec.thy ===== *)
theory LC_EncoderSpec
  imports LC_Encoder LC_Packets
begin

text \<open>
  What the encoder does on a writer that keeps the contract \<open>writer_sink\<close>: every announcement and
  every sample is one well-formed packet (\<open>LC_Packets\<close>), sent once and under the writer lock.  The
  contract is met by the dynamic buffer writer and by the file descriptor writer.
\<close>

text \<open>
  The invariant of an encoder: the writer is usable, the memory grants every request and the three
  tables are healthy.
\<close>

definition enc_inv :: "('z, 'v) writer_action list \<Rightarrow> ('z writer_scheme \<Rightarrow> bool) \<Rightarrow> ('z, 'v) encoder \<Rightarrow> bool" where
  "enc_inv acts safe e \<longleftrightarrow> e_acts e = acts \<and> safe (e_writer e) \<and> plenty (e_memory e) \<and>
     (\<forall>t. sa_ok (enc_get t e))"

text \<open>The table \<open>t\<close> as a function from indices to marks.\<close>

definition enc_marks :: "enc_table \<Rightarrow> ('z, 'v) encoder \<Rightarrow> int \<Rightarrow> int" where
  "enc_marks t e = sa_lookup 0 (enc_get t e)"

lemma enc_get_put: "enc_get t (enc_put t' a e) = (if t = t' then a else enc_get t e)"
  by (cases t; cases t') simp_all

lemma enc_put_other [simp]:
  "e_writer (enc_put t a e) = e_writer e" "e_acts (enc_put t a e) = e_acts e"
  "e_memory (enc_put t a e) = e_memory e" "e_scheduler (enc_put t a e) = e_scheduler e"
  by (cases t; simp)+

lemma enc_get_other [simp]:
  "enc_get t (e\<lparr>e_writer := w\<rparr>) = enc_get t e" "enc_get t (e\<lparr>e_memory := m\<rparr>) = enc_get t e"
  "enc_get t (e\<lparr>e_scheduler := c\<rparr>) = enc_get t e"
  by (cases t; simp)+

text \<open>Nothing but the writer differs.\<close>

definition framed :: "('z, 'v) encoder \<Rightarrow> ('z, 'v) encoder \<Rightarrow> bool" where
  "framed e e' \<longleftrightarrow> e_acts e' = e_acts e \<and> e_memory e' = e_memory e \<and> e_scheduler e' = e_scheduler e \<and>
     (\<forall>t. enc_get t e' = enc_get t e)"

lemma framed_refl [simp]: "framed e e"
  by (simp add: framed_def)

lemma framed_writer [simp]: "framed e (e'\<lparr>e_writer := w\<rparr>) = framed e e'"
  "framed (e\<lparr>e_writer := w\<rparr>) e' = framed e e'"
  by (simp_all add: framed_def)

lemma framed_trans: "framed e e' \<Longrightarrow> framed e' e'' \<Longrightarrow> framed e e''"
  by (simp add: framed_def)

lemma framedD: "framed e e' \<Longrightarrow> e_acts e' = e_acts e"
  by (simp add: framed_def)

lemma wp_enc_call [wp_simps]: "wp (enc_call c) Q e \<longleftrightarrow> Q () (e\<lparr>e_scheduler := e_scheduler e @ [c]\<rparr>)"
  by (simp add: enc_call_def wp_simps)

lemma wp_on_writer [wp_simps]:
  "wp (on_writer f) Q e \<longleftrightarrow> wp (f (e_acts e)) (\<lambda>x w. Q x (e\<lparr>e_writer := w\<rparr>)) (e_writer e)"
  by (simp add: on_writer_def wp_simps)

lemma wp_get_local_index [wp_simps]:
  "wp (labcomm2014_get_local_index (Some s)) Q e \<longleftrightarrow> sig_index s \<noteq> 0 \<and> Q (sig_index s) e"
  by (auto simp: labcomm2014_get_local_index_def labcomm2014_error_fatal_global_def wp_simps)

text \<open>The test of the table: the index is marked after it, and the rest of the encoder is as before.\<close>

lemma wp_table_deref:
  assumes "plenty (e_memory e)" and "sa_ok (enc_get t e)" and "sa_room 4 i (enc_get t e)"
  shows "wp (on_table t (sa_deref 0 4 i)) (\<lambda>x e'. x = enc_marks t e i \<and>
      (\<exists>m a. e' = enc_put t a (e\<lparr>e_memory := m\<rparr>) \<and> plenty m \<and> sa_ok a \<and> sa_in i a \<and>
             sa_lookup 0 a = enc_marks t e)) e"
  unfolding on_table_def wp_zoom
  by (rule wp_mono [OF sigtab.deref_law [where k = "mem_live (e_memory e) - owned (enc_get t e)"]])
    (use assms in \<open>auto simp: enc_marks_def\<close>)

text \<open>The two walks over the tree data of a signature agree on its size.\<close>

lemma map_items_size:
  "(\<forall>x\<in>set xs. case snd x of None \<Rightarrow> True | Some t \<Rightarrow> sig_index t \<noteq> 0) \<Longrightarrow>
     map_items sig_size_step xs n = Some (Inr ((), n + int (length (concat (map item_bytes xs)))))"
proof (induction xs arbitrary: n)
  case Nil
  then show ?case by (simp add: prog_simps)
next
  case (Cons x xs)
  have "sig_size_step (fst x) (snd x) n = Some (Inr ((), n + int (length (item_bytes x))))"
    using Cons.prems
    by (auto simp: sig_size_step_def item_bytes_def labcomm2014_get_local_index_def prog_simps
        number_bytes_def split: option.splits)
  with Cons show ?case by (cases x) (simp add: andthen_run add.assoc)
qed

lemma calc_sig_encoded_size_eq:
  "tree_indexed s \<Longrightarrow> calc_sig_encoded_size s = ret (int (length (tree_bytes s)))"
  using map_items_size [of "tree_items (sig_treedata s)" 0]
  by (simp add: calc_sig_encoded_size_def map_signature_def map_treedata_items tree_indexed_def tree_bytes_def
      fun_eq_iff prog_simps)

definition type_def_payload :: "'v signature \<Rightarrow> byte list" where
  "type_def_payload s = definition_payload (sig_index s) (sig_name s) (tree_bytes s)"

context writer_sink
begin

text \<open>
  \<open>esends m bs\<close>: a part of an encoder operation that only touches the writer and appends \<open>bs\<close> to
  its stream.
\<close>

definition esends :: "(('z, 'v) encoder, 'a) prog \<Rightarrow> byte list \<Rightarrow> bool" where
  "esends m bs \<longleftrightarrow> (\<forall>e. e_acts e = acts \<and> safe (e_writer e) \<longrightarrow>
     wp m (\<lambda>_ e'. framed e e' \<and> appends (e_writer e) bs (e_writer e')) e)"

lemma esendsD: "esends m bs \<Longrightarrow> e_acts e = acts \<Longrightarrow> safe (e_writer e) \<Longrightarrow>
    wp m (\<lambda>_ e'. framed e e' \<and> appends (e_writer e) bs (e_writer e')) e"
  by (simp add: esends_def)

lemma esends_writer: "emits (f acts) bs \<Longrightarrow> esends (on_writer f) bs"
  by (auto simp: esends_def wp_simps elim!: wp_mono dest!: emitsD)

lemma esends_seq:
  assumes "esends m bs" and "\<And>x. esends (f x) cs"
  shows "esends (andthen m f) (bs @ cs)"
  unfolding esends_def wp_andthen
proof (intro allI impI, elim conjE)
  fix e :: "('z, 'v) encoder" assume e: "e_acts e = acts" "safe (e_writer e)"
  show "wp m (\<lambda>x. wp (f x) (\<lambda>_ e'. framed e e' \<and> appends (e_writer e) (bs @ cs) (e_writer e'))) e"
    by (rule wp_mono [OF esendsD [OF assms(1) e]], rule wp_mono [OF esendsD [OF assms(2)]])
      (use e in \<open>auto intro: appends_trans appends_safe framed_trans simp: framedD\<close>)
qed

lemma esends_ret: "esends (ret x) []"
  by (auto simp: esends_def wp_simps)

lemma esends_gets: "esends (gets f) []"
  by (auto simp: esends_def wp_simps)

lemma esends_c_int: "INT_MIN \<le> i \<Longrightarrow> i \<le> INT_MAX \<Longrightarrow> esends (f i) bs \<Longrightarrow> esends (andthen (c_int i) f) bs"
  by (simp add: esends_def wp_simps)

lemma esends_packed32:
  "esends (on_writer (\<lambda>acts. labcomm2014_write_packed32 acts (u32_of_int i))) (number_bytes i)"
  unfolding number_bytes_def by (rule esends_writer) (rule emits_packed32)

lemma esends_string:
  "int (length s) \<le> INT_MAX \<Longrightarrow> esends (on_writer (\<lambda>acts. labcomm2014_write_string acts s)) (string_bytes s)"
  unfolding string_bytes_def number_bytes_def by (rule esends_writer) (rule emits_string)

lemma esends_intentions:
  assumes "int (length (sig_name s)) \<le> INT_MAX"
  shows "esends (TODO_encode_intentions s) (intentions_bytes (sig_name s))"
proof -
  have "esends (TODO_encode_intentions s) (number_bytes 1 @ number_bytes 0 @ string_bytes (sig_name s) @ [])"
    unfolding TODO_encode_intentions_def
    by (intro esends_seq esends_string [OF assms] esends_gets)
      (use esends_packed32 [of 1] esends_packed32 [of 0] in \<open>simp_all add: u32_of_int_def\<close>)
  then show ?thesis by (simp add: intentions_bytes_def)
qed

lemma esends_copy_signature:
  "sig_size s = int (length (sig_signature s)) \<Longrightarrow> esends (copy_signature s) (sig_signature s)"
  by (simp add: copy_signature_def) (rule esends_writer, rule emits_unchecked)

text \<open>A definition packet: the length field is the length of what follows.\<close>

lemma esends_definition:
  assumes "sig_ok s"
  shows "esends (write_definition tag (sig_index s) s)
    (packet_bytes tag (definition_payload (sig_index s) (sig_name s) (sig_signature s)))"
proof -
  from assms have sz: "sig_size s = int (length (sig_signature s))" by (simp add: sig_ok_def)
  have name: "int (length (sig_name s)) \<le> INT_MAX" using assms by (auto simp: sig_ok_def dest: definition_payload_lengths)
  let ?len = "int (length (definition_payload (sig_index s) (sig_name s) (sig_signature s)))"
  have len: "labcomm2014_size_packed32 (u32_of_int (sig_index s)) + TODO_sizeof_intentions s +
      labcomm2014_size_packed32 (u32_of_int (sig_size s)) + sig_size s = ?len"
    by (simp only: length_definition_payload [OF name] TODO_sizeof_intentions_def sz)
  have "0 \<le> ?len" "?len \<le> INT_MAX" using assms by (simp_all add: sig_ok_def)
  then have "esends (write_definition tag (sig_index s) s)
      (number_bytes tag @ number_bytes ?len @ number_bytes (sig_index s) @ intentions_bytes (sig_name s) @
       number_bytes (sig_size s) @ sig_signature s)"
    unfolding write_definition_def len
    by (intro esends_seq esends_packed32 esends_c_int esends_intentions [OF name] esends_copy_signature sz)
      (simp_all add: INT_MIN_def)
  then show ?thesis by (simp add: packet_bytes_def definition_payload_def sz)
qed

lemma wp_send_packet:
  assumes "e_acts e = acts" and "safe (e_writer e)" and "esends body bs"
  shows "wp (send_packet i s body) (\<lambda>result e'. framed e e' \<and> safe (e_writer e') \<and>
      result = w_error (e_writer e') \<and>
      (result = 0 \<longrightarrow> w_error (e_writer e) = 0 \<and> sent (e_writer e') = base (e_writer e) @ bs)) e"
  unfolding send_packet_def wp_andthen wp_on_writer assms(1)
proof (rule wp_mono [OF start_law [OF assms(2)]], goal_cases)
  case (1 err w1)
  then have w1: "safe w1" "err = w_error w1" "err = 0 \<Longrightarrow> w_error (e_writer e) = 0 \<and> stream w1 = base (e_writer e)" by auto
  show ?case
  proof (cases "err = 0")
    case False
    with w1 safe_error [OF w1(1)] show ?thesis by (auto simp: wp_simps)
  next
    case True
    note body = esendsD [OF assms(3), of "e\<lparr>e_writer := w1\<rparr>"]
    have "wp body (\<lambda>_ e'. wp (labcomm2014_writer_end (e_acts e')) (\<lambda>_ w'. framed e e' \<and> safe w' \<and>
        (w_error w' = 0 \<longrightarrow> sent w' = base (e_writer e) @ bs)) (e_writer e')) (e\<lparr>e_writer := w1\<rparr>)"
    proof (rule wp_mono [OF body])
      fix e2 assume "framed (e\<lparr>e_writer := w1\<rparr>) e2 \<and> appends (e_writer (e\<lparr>e_writer := w1\<rparr>)) bs (e_writer e2)"
      then have e2: "framed e e2" "e_acts e2 = acts" "appends w1 bs (e_writer e2)"
        using assms(1) by (auto dest: framedD)
      show "wp (labcomm2014_writer_end (e_acts e2)) (\<lambda>_ w'. framed e e2 \<and> safe w' \<and>
          (w_error w' = 0 \<longrightarrow> sent w' = base (e_writer e) @ bs)) (e_writer e2)"
        unfolding e2(2)
        by (rule wp_mono [OF end_law [OF appends_safe [OF e2(3)]]]) (use e2 True w1 in \<open>auto simp: appends_def\<close>)
    qed (use assms w1 in simp_all)
    then show ?thesis using True w1(3) by (auto simp: wp_simps EALREADY_def elim!: wp_mono)
  qed
qed

text \<open>
  Registration: a marked index is refused and nothing is written; otherwise the index is marked
  and, when the result is 0, exactly one packet was sent.  In both cases the writer lock is taken
  and released once.
\<close>

lemma wp_register_once:
  assumes "enc_inv acts safe e" and "0 < sig_index s" and "sa_room 4 (sig_index s) (enc_get t e)"
    and "esends (body (sig_index s)) bs"
  shows "wp (register_once t s body) (\<lambda>result e'. enc_inv acts safe e' \<and>
      e_scheduler e' = e_scheduler e @ [WriterLock, WriterUnlock] \<and>
      (\<forall>t'. t' \<noteq> t \<longrightarrow> enc_marks t' e' = enc_marks t' e) \<and>
      (if enc_marks t e (sig_index s) \<noteq> 0
       then result = - EINVAL \<and> e_writer e' = e_writer e \<and> enc_marks t e' = enc_marks t e
       else result = w_error (e_writer e') \<and> enc_marks t e' = (enc_marks t e)(sig_index s := 1) \<and>
            (result = 0 \<longrightarrow> w_error (e_writer e) = 0 \<and> sent (e_writer e') = base (e_writer e) @ bs))) e"
proof -
  let ?i = "sig_index s"
  let ?e0 = "e\<lparr>e_scheduler := e_scheduler e @ [WriterLock]\<rparr>"
  from assms(1) have inv: "e_acts e = acts" "safe (e_writer e)" "plenty (e_memory e)"
    "\<And>t. sa_ok (enc_get t e)" by (simp_all add: enc_inv_def)
  have deref: "wp (on_table t (sa_deref 0 4 ?i)) (\<lambda>x e'. x = enc_marks t e ?i \<and>
      (\<exists>m a. e' = enc_put t a (?e0\<lparr>e_memory := m\<rparr>) \<and> plenty m \<and> sa_ok a \<and> sa_in ?i a \<and>
             sa_lookup 0 a = enc_marks t e)) ?e0"
    using wp_table_deref [of ?e0 t ?i] inv assms(3) by (simp add: enc_marks_def)
  show ?thesis
    unfolding register_once_def wp_andthen wp_get_local_index wp_enc_call
    using assms(2)
  proof (simp add: wp_andthen, intro wp_mono [OF deref], elim exE conjE, goal_cases)
    case (1 x e1 m a)
    let ?e2 = "enc_put t (sa_set ?i 1 (enc_get t e1)) e1"
    have put: "sa_lookup 0 (sa_set ?i 1 a) = (enc_marks t e)(?i := 1)"
      using 1 by (simp add: sa_lookup_set)
    have "wp (send_packet ?i s (body ?i)) (\<lambda>result e'. framed ?e2 e' \<and> safe (e_writer e') \<and>
        result = w_error (e_writer e') \<and>
        (result = 0 \<longrightarrow> w_error (e_writer ?e2) = 0 \<and> sent (e_writer e') = base (e_writer ?e2) @ bs)) ?e2"
      by (rule wp_send_packet) (use 1 inv assms(4) in auto)
    then show ?case
      using 1 inv put
      by (auto simp: wp_simps enc_inv_def enc_marks_def enc_get_put framed_def elim!: wp_mono)
  qed
qed

text \<open>Samples: when the writer is without error in the end, exactly the packet of the sample was sent.\<close>

lemma wp_do_encode:
  assumes "enc_inv acts safe e" and "0 < sig_index s" and "writes (encode acts v) bs"
    and "sig_encoded_size s v = int (length bs)"
  shows "wp (do_encode s encode v) (\<lambda>result e'. enc_inv acts safe e' \<and>
      e_scheduler e' = e_scheduler e @ [WriterLock, WriterUnlock] \<and>
      (\<forall>t. enc_marks t e' = enc_marks t e) \<and>
      (if enc_marks Registered e (sig_index s) = 0 then result = - EINVAL \<and> e_writer e' = e_writer e
       else w_error (e_writer e') = 0 \<longrightarrow>
            result = 0 \<and> w_error (e_writer e) = 0 \<and>
            sent (e_writer e') = base (e_writer e) @ packet_bytes (sig_index s) bs)) e"
proof -
  let ?w = "e_writer e" and ?i = "sig_index s"
  let ?out = "\<lambda>result w'. safe w' \<and> (w_error w' = 0 \<longrightarrow> result = 0 \<and> w_error ?w = 0 \<and> sent w' = base ?w @ packet_bytes ?i bs)"
  from assms(1) have inv: "e_acts e = acts" "safe ?w" "\<And>t. sa_ok (enc_get t e)"
    by (simp_all add: enc_inv_def)
  have reg: "sa_ok (e_registered e)" using inv(3) [of Registered] by simp
  have end_of: "wp (labcomm2014_writer_end acts) (\<lambda>_. ?out result) w2"
    if "safe w2" "w_error w2 = 0 \<longrightarrow> result = 0 \<and> w_error ?w = 0 \<and> stream w2 = base ?w @ packet_bytes ?i bs" for result w2
    by (rule wp_mono [OF end_law [OF that(1)]]) (use that in auto)
  have body: "writes (andthen (labcomm2014_write_packed32 acts (u32_of_int (int (length bs))))
      (\<lambda>err. if err \<noteq> 0 then ret err else encode acts v)) (number_bytes (int (length bs)) @ bs)"
    unfolding number_bytes_def by (intro writes_seq writes_packed32 assms(3))
  have run: "wp (if result \<noteq> 0 then ret result
          else andthen (labcomm2014_write_packed32 acts (u32_of_int ?i)) (\<lambda>_.
               andthen (labcomm2014_write_packed32 acts (u32_of_int (int (length bs)))) (\<lambda>err.
               if err \<noteq> 0 then ret err else encode acts v)))
        (\<lambda>result w2. safe w2 \<and> (w_error w2 = 0 \<longrightarrow> result = 0 \<and> w_error ?w = 0 \<and>
           stream w2 = base ?w @ packet_bytes ?i bs)) w1"
    if "safe w1" "result = w_error w1" "result = 0 \<longrightarrow> w_error ?w = 0 \<and> stream w1 = base ?w" for result w1
  proof (cases "result = 0")
    case True
    note first = emitsD [OF emits_packed32 that(1), of "u32_of_int ?i"]
    from True that show ?thesis
      by (simp add: wp_andthen [of "labcomm2014_write_packed32 acts (u32_of_int ?i)"])
        (rule wp_mono [OF first], rule wp_mono [OF writesD [OF body appends_safe]],
          auto simp: appends_def packet_bytes_def number_bytes_def)
  qed (use that in \<open>auto simp: wp_simps\<close>)
  have "wp (labcomm2014_writer_start acts ?i (Some s) True) (\<lambda>result w1.
      wp (if result \<noteq> 0 then ret result
          else andthen (labcomm2014_write_packed32 acts (u32_of_int ?i)) (\<lambda>_.
               andthen (labcomm2014_write_packed32 acts (u32_of_int (int (length bs)))) (\<lambda>err.
               if err \<noteq> 0 then ret err else encode acts v)))
        (\<lambda>result. wp (labcomm2014_writer_end acts) (\<lambda>_. ?out result)) w1 \<and> result \<noteq> - EALREADY) ?w"
  proof (rule wp_mono [OF start_law [OF inv(2)]], elim conjE, intro conjI, goal_cases)
    case (1 result w1)
    then show ?case by (intro wp_mono [OF run]) (auto intro: end_of)
  next
    case (2 result w1)
    then show ?case using safe_error by simp
  qed
  then show ?thesis
    using inv reg assms(1,2)
    by (auto simp: do_encode_def Let_def assms(4) wp_simps enc_inv_def enc_marks_def elim!: wp_mono)
qed

section \<open>Type definitions\<close>

lemma esends_items:
  "(\<forall>x\<in>set xs. case snd x of None \<Rightarrow> True | Some t \<Rightarrow> sig_index t \<noteq> 0) \<Longrightarrow>
     esends (map_items write_sig_tree_byte xs) (concat (map item_bytes xs))"
proof (induction xs)
  case Nil
  then show ?case by (simp add: esends_ret)
next
  case (Cons x xs)
  have "esends (write_sig_tree_byte (fst x) (snd x)) (item_bytes x)"
  proof (cases "snd x")
    case None
    then show ?thesis
      by (simp add: write_sig_tree_byte_def item_bytes_def) (rule esends_writer, rule emits_byte_unchecked)
  next
    case (Some t)
    have "esends (andthen (on_writer (\<lambda>acts. labcomm2014_write_packed32 acts (u32_of_int (sig_index t)))) (\<lambda>_. ret ()))
        (number_bytes (sig_index t) @ [])"
      by (intro esends_seq esends_packed32 esends_ret)
    with Some Cons.prems show ?thesis
      by (simp add: write_sig_tree_byte_def item_bytes_def labcomm2014_get_local_index_def)
  qed
  with Cons show ?case by (cases x) (simp add: esends_seq)
qed

lemma esends_calc:
  assumes "tree_indexed s" and "esends (f (int (length (tree_bytes s)))) bs"
  shows "esends (andthen (calc_sig_encoded_size s) f) bs"
  using assms(2) by (simp add: calc_sig_encoded_size_eq [OF assms(1)])

lemma esends_type_def:
  assumes "tree_indexed s" and "int (length (type_def_payload s)) \<le> INT_MAX"
  shows "esends (write_type_def (sig_index s) s) (packet_bytes LABCOMM_TYPE_DEF (type_def_payload s))"
proof -
  let ?sz = "int (length (tree_bytes s))"
  have name: "int (length (sig_name s)) \<le> INT_MAX"
    using assms(2) by (auto simp: type_def_payload_def dest: definition_payload_lengths)
  have len: "labcomm2014_size_packed32 (u32_of_int (sig_index s)) + TODO_sizeof_intentions s +
      labcomm2014_size_packed32 (u32_of_int ?sz) + ?sz = int (length (type_def_payload s))"
    by (simp only: type_def_payload_def length_definition_payload [OF name] TODO_sizeof_intentions_def)
  have tree: "esends (do_write_signature s False) (tree_bytes s)"
    using esends_items [of "tree_items (sig_treedata s)"] assms(1)
    by (simp add: do_write_signature_def map_signature_def map_treedata_items tree_bytes_def tree_indexed_def)
  have "esends (write_type_def (sig_index s) s)
      (number_bytes LABCOMM_TYPE_DEF @ number_bytes (int (length (type_def_payload s))) @
       number_bytes (sig_index s) @ intentions_bytes (sig_name s) @ number_bytes ?sz @ tree_bytes s)"
    unfolding write_type_def_def
    by (rule esends_calc [OF assms(1)], unfold len)
      (intro esends_seq esends_packed32 esends_c_int esends_intentions [OF name] tree,
        use assms(2) in \<open>simp_all add: INT_MIN_def\<close>)
  then show ?thesis by (simp add: packet_bytes_def type_def_payload_def definition_payload_def)
qed

lemma wp_do_type_bind:
  assumes "enc_inv acts safe e" and "0 < sig_index s"
  shows "wp (do_type_bind s deps) (\<lambda>result e'. enc_inv acts safe e' \<and>
      e_scheduler e' = e_scheduler e @ [WriterLock, WriterUnlock] \<and>
      (\<forall>t. enc_marks t e' = enc_marks t e) \<and> result = w_error (e_writer e') \<and>
      (result = 0 \<longrightarrow> sent (e_writer e') = base (e_writer e) @
         packet_bytes LABCOMM_TYPE_BINDING
           (binding_payload (sig_index s) (if deps then sig_index s else LABCOMM_BIND_SELF)))) e"
proof -
  let ?t = "if deps then sig_index s else LABCOMM_BIND_SELF"
  let ?len = "labcomm2014_size_packed32 (u32_of_int (sig_index s)) + labcomm2014_size_packed32 (u32_of_int ?t)"
  have len: "?len = int (length (binding_payload (sig_index s) ?t))"
    by (simp add: binding_payload_def number_bytes_def)
  have body: "esends (andthen (on_writer (\<lambda>acts. labcomm2014_write_packed32 acts (u32_of_int LABCOMM_TYPE_BINDING))) (\<lambda>_.
      andthen (on_writer (\<lambda>acts. labcomm2014_write_packed32 acts (u32_of_int ?len))) (\<lambda>_.
      andthen (on_writer (\<lambda>acts. labcomm2014_write_packed32 acts (u32_of_int (sig_index s)))) (\<lambda>_.
      andthen (on_writer (\<lambda>acts. labcomm2014_write_packed32 acts (u32_of_int ?t))) (\<lambda>_. ret ())))))
      (number_bytes LABCOMM_TYPE_BINDING @ number_bytes ?len @ number_bytes (sig_index s) @ number_bytes ?t @ [])"
    by (intro esends_seq esends_packed32 esends_ret)
  have "wp (send_packet LABCOMM_TYPE_BINDING s (let len = ?len in
      andthen (on_writer (\<lambda>acts. labcomm2014_write_packed32 acts (u32_of_int LABCOMM_TYPE_BINDING))) (\<lambda>_.
      andthen (on_writer (\<lambda>acts. labcomm2014_write_packed32 acts (u32_of_int len))) (\<lambda>_.
      andthen (on_writer (\<lambda>acts. labcomm2014_write_packed32 acts (u32_of_int (sig_index s)))) (\<lambda>_.
      andthen (on_writer (\<lambda>acts. labcomm2014_write_packed32 acts (u32_of_int ?t))) (\<lambda>_. ret ()))))))
      (\<lambda>result e'. framed (e\<lparr>e_scheduler := e_scheduler e @ [WriterLock]\<rparr>) e' \<and> safe (e_writer e') \<and>
        result = w_error (e_writer e') \<and> (result = 0 \<longrightarrow> sent (e_writer e') = base (e_writer e) @
          packet_bytes LABCOMM_TYPE_BINDING (binding_payload (sig_index s) ?t)))
      (e\<lparr>e_scheduler := e_scheduler e @ [WriterLock]\<rparr>)"
    unfolding Let_def
    by (rule wp_mono [OF wp_send_packet [OF _ _ body]])
      (use assms(1) len in \<open>auto simp: enc_inv_def packet_bytes_def binding_payload_def\<close>)
  then show ?thesis
    using assms
    by (cases deps) (auto simp: do_type_bind_def labcomm2014_get_local_type_index_def wp_simps enc_inv_def
        enc_marks_def framed_def elim!: wp_mono)
qed

section \<open>The version packet\<close>

lemma wp_write_version:
  assumes "e_acts e = acts" and "safe (e_writer e)"
  shows "wp write_version (\<lambda>_ e'. framed e e' \<and> safe (e_writer e') \<and>
      (w_error (e_writer e') = 0 \<longrightarrow> sent (e_writer e') = base (e_writer e) @ version_packet)) e"
  unfolding write_version_def wp_andthen [of "on_writer (\<lambda>acts. labcomm2014_writer_start acts LABCOMM_VERSION None True)"]
    wp_on_writer [of "\<lambda>acts. labcomm2014_writer_start acts LABCOMM_VERSION None True"] assms(1)
proof (rule wp_mono [OF start_law [OF assms(2)]], goal_cases)
  case (1 err w1)
  let ?body = "andthen (on_writer (\<lambda>acts. labcomm2014_write_packed32 acts (u32_of_int LABCOMM_VERSION))) (\<lambda>_.
      andthen (on_writer (\<lambda>acts. labcomm2014_write_packed32 acts
                 (u32_of_int (labcomm2014_size_string CURRENT_VERSION)))) (\<lambda>_.
      on_writer (\<lambda>acts. labcomm2014_write_string acts CURRENT_VERSION)))"
  have "esends ?body (number_bytes LABCOMM_VERSION @ number_bytes (labcomm2014_size_string CURRENT_VERSION) @
      string_bytes CURRENT_VERSION)"
    by (intro esends_seq esends_packed32 esends_string) (simp add: CURRENT_VERSION_def INT_MAX_def)
  then have body: "esends ?body version_packet"
    by (simp add: version_packet_def packet_bytes_def length_string_bytes CURRENT_VERSION_def INT_MAX_def)
  have "wp (andthen ?body (\<lambda>_. andthen (on_writer labcomm2014_writer_end) (\<lambda>_. ret ())))
      (\<lambda>_ e'. framed e e' \<and> safe (e_writer e') \<and>
        (w_error (e_writer e') = 0 \<longrightarrow> sent (e_writer e') = base (e_writer e) @ version_packet)) (e\<lparr>e_writer := w1\<rparr>)"
    unfolding wp_andthen [of ?body]
  proof (rule wp_mono [OF esendsD [OF body]], goal_cases)
    case (3 x e2)
    then have e2: "framed e e2" "e_acts e2 = acts" "appends w1 version_packet (e_writer e2)"
      using assms(1) by (auto dest: framedD)
    show ?case
      unfolding wp_andthen wp_on_writer e2(2)
      by (rule wp_mono [OF end_law [OF appends_safe [OF e2(3)]]])
        (use e2 1 in \<open>auto simp: wp_simps appends_def\<close>)
  qed (use 1 assms(1) in simp_all)
  then show ?case by (simp add: andthen_assoc)
qed

text \<open>Creating an encoder on a writer whose allocation makes it a sink.\<close>

lemma wp_encoder_new:
  assumes "plenty m"
    and "wp (labcomm2014_writer_alloc acts) (\<lambda>_ w'. safe w' \<and> base w' = pre)
           (w\<lparr>w_data := None, w_data_size := 0, w_count := 0, w_pos := 0, w_error := 0\<rparr>)"
  shows "wp (labcomm2014_encoder_new w acts) (\<lambda>eo _. \<exists>e. eo = Some e \<and> enc_inv acts safe e \<and>
      e_scheduler e = [] \<and> (\<forall>t. enc_get t e = signature_array_init) \<and> (\<forall>t i. enc_marks t e i = 0) \<and>
      (w_error (e_writer e) = 0 \<longrightarrow> sent (e_writer e) = pre @ version_packet)) m"
proof -
  let ?m = "m\<lparr>mem_calls := Suc (mem_calls m), mem_live := mem_live m + 1\<rparr>"
  let ?e = "\<lparr>e_writer = w\<lparr>w_data := None, w_data_size := 0, w_count := 0, w_pos := 0, w_error := 0\<rparr>,
     e_acts = acts, e_memory = ?m, e_scheduler = [], e_registered = signature_array_init,
     e_sample_ref = signature_array_init, e_typedefs = signature_array_init\<rparr>"
  have tables: "enc_get t \<lparr>e_writer = x, e_acts = acts, e_memory = ?m, e_scheduler = [],
      e_registered = signature_array_init, e_sample_ref = signature_array_init,
      e_typedefs = signature_array_init\<rparr> = signature_array_init" for t x
    by (cases t) simp_all
  have "wp (andthen (on_writer labcomm2014_writer_alloc) (\<lambda>_. write_version))
      (\<lambda>_ e'. framed ?e e' \<and> safe (e_writer e') \<and>
        (w_error (e_writer e') = 0 \<longrightarrow> sent (e_writer e') = pre @ version_packet)) ?e"
    unfolding wp_andthen wp_on_writer
    using assms(2)
    by (auto simp: framed_def tables elim!: wp_mono intro!: wp_mono [OF wp_write_version])
  then obtain e' where run: "andthen (on_writer labcomm2014_writer_alloc) (\<lambda>_. write_version) ?e = Some (Inr ((), e'))"
    and e': "framed ?e e'" "safe (e_writer e')"
      "w_error (e_writer e') = 0 \<longrightarrow> sent (e_writer e') = pre @ version_packet"
    by (auto elim!: wpE)
  have "enc_inv acts safe e' \<and> e_scheduler e' = [] \<and> (\<forall>t. enc_get t e' = signature_array_init) \<and> (\<forall>t i. enc_marks t e' i = 0)"
    using e'(1,2) assms(1) by (simp add: enc_inv_def enc_marks_def framed_def tables)
  then show ?thesis
    using assms(1) run e'(3)
    by (simp add: labcomm2014_encoder_new_def internal_encoder_new_def wp_def prog_simps memory_defs Let_def)
qed

end

end
