(* ===== verification/LC_BaseProps.thy ===== *)
theory LC_BaseProps
  imports LC_FdWriter LC_FdReader LC_SigArray LC_Packets
begin

text \<open>
  Properties of the base components: the wire formats, the file descriptor reader and writer, the
  dynamic buffer writer, the signatures, the signature arrays and the ioctl words.
\<close>

section \<open>Examples\<close>

text \<open>A memory that grants every request, one that grants none, and a reader over a list of chunks.\<close>

definition generous :: memory where
  "generous = \<lparr>mem_grant = (\<lambda>_ _. True), mem_calls = 0, mem_live = 0\<rparr>"

definition stingy :: memory where
  "stingy = \<lparr>mem_grant = (\<lambda>_ _. False), mem_calls = 0, mem_live = 0\<rparr>"

definition chunk_reader :: "byte list list \<Rightarrow> byte list list fd_reader" where
  "chunk_reader cs = \<lparr>r_memory = generous, r_data = Some (replicate 2 0), r_data_size = 2, r_count = 0, r_pos = 0,
     r_error = 0, fr_dev = cs, fr_close_fd_on_free = False\<rparr>"

lemma plenty_generous [simp]: "plenty generous"
  by (simp add: plenty_def generous_def)

lemma chunk_reader_ok [simp]:
  "fdr_ok (chunk_reader cs)" "r_error (chunk_reader cs) = 0" "r_memory (chunk_reader cs) = generous"
  "fd_unread chunk_pending (chunk_reader cs) = chunk_pending cs"
  by (simp_all add: chunk_reader_def fdr_ok_def fd_unread_def)

section \<open>Wire formats\<close>

text \<open>
  The packed 32-bit format is lossless: the loop of \<^verbatim>\<open>labcomm2014_read_packed32\<close> over the bytes
  of \<^verbatim>\<open>labcomm2014_write_packed32\<close> gives the number back and stops exactly behind it, for every
  number and whatever follows; the number takes between 1 and 5 bytes, so that \<^verbatim>\<open>tmp[5]\<close> is never
  overrun, and \<^verbatim>\<open>labcomm2014_size_packed32\<close> is the number of bytes written.
\<close>

theorem packed32_roundtrip:
  "unpack32 0 (packed32_bytes d @ rest) = Some (d, rest) \<and> length (packed32_groups d) \<le> 5 \<and>
   1 \<le> length (packed32_bytes d) \<and> labcomm2014_size_packed32 d = int (length (packed32_bytes d))"
  using length_packed32_groups_5 length_packed32_bytes_bounds by simp

lemma unread_memory: "fd_unread pending (r\<lparr>r_memory := m\<rparr>) = fd_unread pending r"
  by (simp add: fd_unread_def split: option.split)

context posix_read
begin

lemma fd_ready: "fdr_ok r \<Longrightarrow> r_error r = 0 \<Longrightarrow> fdr.ready (fd_unread pending r) (r_memory r) r"
  by (simp add: fdr.ready_def)

lemma fd_readyD: "fdr.ready s m r \<Longrightarrow> fd_unread pending r = s \<and> r_error r = 0 \<and> fdr_ok r \<and> r_memory r = m"
  by (simp add: fdr.ready_def)

lemma fd_packed32:
  assumes "fdr_ok r" and "r_error r = 0" and "fd_unread pending r = packed32_bytes x @ s"
  shows "wp (labcomm2014_read_packed32 [fdr_action sys_read sys_close])
    (\<lambda>y r'. y = x \<and> fd_unread pending r' = s \<and> r_error r' = 0 \<and> fdr_ok r') r"
  by (rule wp_mono [OF fdr.wp_read_packed32])
    (use assms in \<open>auto simp: fdr.ready_def\<close>)

lemma fd_scalar:
  assumes "fdr_ok r" and "r_error r = 0" and "fd_unread pending r = be_bytes n x @ s" and "LENGTH('a) \<le> 8 * n"
  shows "wp (read_scalar [fdr_action sys_read sys_close] n)
    (\<lambda>y r'. y = (x :: 'a::len word) \<and> fd_unread pending r' = s \<and> r_error r' = 0) r"
  by (rule wp_mono [OF fdr.wp_read_scalar])
    (use assms in \<open>auto simp: fdr.ready_def\<close>)

lemma fd_string:
  assumes "fdr_ok r" and "r_error r = 0" and "plenty (r_memory r)"
    and "fd_unread pending r = packed32_bytes (u32_of_int (int (length str))) @ str @ s"
    and "int (length str) < INT_MAX"
  shows "wp (labcomm2014_read_string [fdr_action sys_read sys_close])
    (\<lambda>y r'. y = Some (c_string str) \<and> fd_unread pending r' = s \<and> r_error r' = 0 \<and>
       mem_live (r_memory r') = mem_live (r_memory r) + 1) r"
  by (rule wp_mono [OF fdr.wp_read_string])
    (use assms in \<open>auto simp: fdr.ready_def\<close>)

lemma fd_string_negative:
  assumes "fdr_ok r" and "r_error r = 0"
    and "fd_unread pending r = packed32_bytes x @ s" and "x = 0x7fffffff \<or> 2 ^ 31 \<le> uint x"
  defines "granted \<equiv> mem_grant (r_memory r) (mem_calls (r_memory r)) (nat ((uint x + 1 - 2 ^ 32) mod 2 ^ 64))"
  shows "if x = 0x7fffffff \<or> x = 0xffffffff \<and> granted
     then labcomm2014_read_string [fdr_action sys_read sys_close :: ('d fdr_ext, 'v) reader_action] r = Some (Inl Undef)
     else wp (labcomm2014_read_string [fdr_action sys_read sys_close :: ('d fdr_ext, 'v) reader_action])
       (\<lambda>y r'. y = (if granted then Some [] else None) \<and> fd_unread pending r' = s \<and> r_error r' = 0 \<and>
          mem_live (r_memory r') = mem_live (r_memory r) + (if granted then 1 else 0)) r"
proof -
  have "fdr.ready (packed32_bytes x @ s) (r_memory r) r" using assms(1-3) by (simp add: fdr.ready_def)
  from fdr.wp_read_packed32 [OF this, of sys_close] obtain r'
    where r': "labcomm2014_read_packed32 [fdr_action sys_read sys_close :: ('d fdr_ext, 'v) reader_action] r = Some (Inr (x, r'))"
      "fdr.ready s (r_memory r) r'" by (auto elim!: wpE)
  then have m: "r_memory r' = r_memory r" "fd_unread pending r' = s" "r_error r' = 0" by (auto simp: fdr.ready_def)
  show ?thesis
  proof (cases "x = 0x7fffffff")
    case True
    then have "int_of_u32 x = INT_MAX" by (simp add: int_of_u32_def INT_MAX_def)
    with True r'(1) show ?thesis by (simp add: labcomm2014_read_string_def Let_def prog_simps)
  next
    case False
    with assms(4) have "2 ^ 31 \<le> uint x" by simp
    then have "uint x div 2 ^ 31 = 1" and u: "uint x < 2 ^ 32" using uint_lt2p [of x] by simp_all
    then have neg: "int_of_u32 x = uint x - 2 ^ 32"
      by (simp add: int_of_u32_def sint_uint signed_take_bit_eq_take_bit_minus bit_iff_odd take_bit_int_eq_self)
    have all: "x = 0xffffffff \<longleftrightarrow> uint x = 0xffffffff"
      by (simp add: word_uint_eq_iff)
    show ?thesis
      using False r'(1) m neg all assms(3) \<open>2 ^ 31 \<le> uint x\<close> u
      by (simp add: labcomm2014_read_string_def Let_def prog_simps memory_defs granted_def wp_def size_t_of_int_def INT_MAX_def c_string_def
        unread_memory)
  qed
qed

end

text \<open>
  Claim C7. Reading a packed number through a file descriptor reader, on any device that behaves like a
  POSIX descriptor: however the bytes are cut into pieces, the number is returned, no error is set
  and exactly its bytes are consumed.
\<close>

theorem fd_read_packed32:
  assumes "posix_read sys_read pending" and "fdr_ok r" and "r_error r = 0"
    and "fd_unread pending r = packed32_bytes x @ s"
  shows "wp (labcomm2014_read_packed32 [fdr_action sys_read sys_close])
    (\<lambda>y r'. y = x \<and> fd_unread pending r' = s \<and> r_error r' = 0 \<and> fdr_ok r') r"
  by (rule posix_read.fd_packed32 [OF assms])

theorem fd_read_packed32_witness:
  "wp (labcomm2014_read_packed32 [fdr_action chunk_read id])
    (\<lambda>y r'. y = 300 \<and> fd_unread chunk_pending r' = [7] \<and> r_error r' = 0 \<and> fdr_ok r')
    (chunk_reader [[0x82], [0x2c, 7]])"
proof -
  have "packed32_groups 300 = [0x2c, 2]"
    by (simp add: packed32_groups.simps [of 300] packed32_groups.simps [of 2] drop_bit_eq_div)
  then have "packed32_bytes 300 = [0x82, 0x2c]" by (simp add: packed32_bytes_eq)
  then show ?thesis
    by (intro fd_read_packed32 chunks.posix_read_axioms) (simp_all add: chunk_pending_def)
qed

text \<open>A record with a field of each scalar type, written and read field by field.\<close>

type_synonym scalars = "byte \<times> byte \<times> 16 word \<times> 32 word \<times> 64 word \<times> 32 word \<times> 64 word"

fun write_scalars :: "('z, 'v) writer_action list \<Rightarrow> scalars \<Rightarrow> ('z writer_scheme, int) prog" where
  "write_scalars acts (t, b, h, i, l, f, d) =
     andthen (labcomm2014_write_boolean acts t) (\<lambda>err. if err \<noteq> 0 then ret err else
     andthen (labcomm2014_write_byte acts b) (\<lambda>err. if err \<noteq> 0 then ret err else
     andthen (labcomm2014_write_short acts h) (\<lambda>err. if err \<noteq> 0 then ret err else
     andthen (labcomm2014_write_int acts i) (\<lambda>err. if err \<noteq> 0 then ret err else
     andthen (labcomm2014_write_long acts l) (\<lambda>err. if err \<noteq> 0 then ret err else
     andthen (labcomm2014_write_float acts f) (\<lambda>err. if err \<noteq> 0 then ret err else
     labcomm2014_write_double acts d))))))"

definition read_scalars :: "('z, 'v) reader_action list \<Rightarrow> ('z reader_scheme, scalars) prog" where
  "read_scalars acts =
     andthen (labcomm2014_read_boolean acts) (\<lambda>t.
     andthen (labcomm2014_read_byte acts) (\<lambda>b.
     andthen (labcomm2014_read_short acts) (\<lambda>h.
     andthen (labcomm2014_read_int acts) (\<lambda>i.
     andthen (labcomm2014_read_long acts) (\<lambda>l.
     andthen (labcomm2014_read_float acts) (\<lambda>f.
     andthen (labcomm2014_read_double acts) (\<lambda>d.
     ret (t, b, h, i, l, f, d))))))))"

fun scalars_bytes :: "scalars \<Rightarrow> byte list" where
  "scalars_bytes (t, b, h, i, l, f, d) = be_bytes 1 t @ be_bytes 1 b @ be_bytes 2 h @ be_bytes 4 i @
     be_bytes 8 l @ be_bytes 4 f @ be_bytes 8 d"

lemmas scalar_defs = labcomm2014_write_boolean_def labcomm2014_write_byte_def labcomm2014_write_short_def
  labcomm2014_write_int_def labcomm2014_write_long_def labcomm2014_write_float_def labcomm2014_write_double_def
  labcomm2014_read_boolean_def labcomm2014_read_byte_def labcomm2014_read_short_def
  labcomm2014_read_int_def labcomm2014_read_long_def labcomm2014_read_float_def labcomm2014_read_double_def

context writer_sink
begin

lemma writes_scalars: "writes (write_scalars acts x) (scalars_bytes x)"
proof (cases x)
  case (fields t b h i l f d)
  show ?thesis
    unfolding fields write_scalars.simps scalars_bytes.simps scalar_defs
    by (intro writes_seq writes_loop)
qed

end

context reader_source
begin

lemma wp_read_scalars:
  assumes "ready (scalars_bytes x @ s) m r"
  shows "wp (read_scalars acts) (\<lambda>y r'. y = x \<and> ready s m r') r"
proof (cases x)
  case (fields t b h i l f d)
  note step = wp_mono [OF wp_read_scalar]
  from assms show ?thesis
    unfolding fields read_scalars_def scalar_defs wp_andthen
    by (auto simp: wp_ret intro!: step)
qed

end

context posix_write
begin

lemma fd_scalars_sent:
  assumes "fdw_safe w" and "fd_stream delivered w = []"
  shows "wp (andthen (write_scalars [fdw_action sys_write wclose] x) (\<lambda>_. fdw_flush sys_write))
    (\<lambda>_ w'. w_error w' = 0 \<longrightarrow> delivered (fw_dev w') = scalars_bytes x) w"
  unfolding wp_andthen
  by (rule wp_mono [OF fdw.writesD [OF fdw.writes_scalars assms(1)]], rule wp_mono [OF wp_fdw_flush])
    (use assms(2) in \<open>auto simp: fdw.appends_def fd_sent_def\<close>)

end

context posix_read
begin

lemma fd_scalars_read:
  assumes "fdr_ok r" and "r_error r = 0" and "fd_unread pending r = scalars_bytes x @ s"
  shows "wp (read_scalars [fdr_action sys_read rclose])
    (\<lambda>y r'. y = x \<and> fd_unread pending r' = s \<and> r_error r' = 0) r"
  by (rule wp_mono [OF fdr.wp_read_scalars])
    (use assms in \<open>auto simp: fdr.ready_def\<close>)

end

text \<open>Big-endian bytes, as the number whose digits they are.\<close>

definition big_endian :: "nat \<Rightarrow> int \<Rightarrow> byte list" where
  "big_endian n v = map (\<lambda>k. word_of_int (v div 256 ^ (n - Suc k) mod 256)) [0..<n]"

lemma take_bit_uint: "take_bit LENGTH('a) (uint (x :: 'a::len word)) = uint x"
  by (rule take_bit_int_eq_self) simp_all

lemma big_endian_be_bytes: "be_bytes n (x :: 'a::len word) = big_endian n (uint x)"
proof (rule nth_equalityI)
  fix k assume "k < length (be_bytes n x)"
  then have k: "k < n" by simp
  then have "rev [0..<n] ! k = n - Suc k" by (simp add: rev_nth)
  moreover have "(ucast (drop_bit (8 * m) x) :: byte) = word_of_int (uint x div 256 ^ m mod 256)" for m
  proof (rule word_uint_eqI)
    have "uint (drop_bit (8 * m) x) = uint x div 256 ^ m"
      by (simp only: unsigned_drop_bit_eq) (simp only: drop_bit_eq_div take_bit_uint power_mult, simp)
    then show "uint (ucast (drop_bit (8 * m) x) :: byte) = uint (word_of_int (uint x div 256 ^ m mod 256) :: byte)"
      by (simp add: unsigned_ucast_eq uint_word_of_int take_bit_eq_mod)
  qed
  ultimately show "be_bytes n x ! k = big_endian n (uint x) ! k"
    using k by (simp add: be_bytes_def big_endian_def)
qed (simp add: big_endian_def)

fun scalars_layout :: "scalars \<Rightarrow> byte list" where
  "scalars_layout (t, b, h, i, l, f, d) = big_endian 1 (uint t) @ big_endian 1 (uint b) @ big_endian 2 (uint h) @
     big_endian 4 (uint i) @ big_endian 8 (uint l) @ big_endian 4 (uint f) @ big_endian 8 (uint d)"

lemma scalars_layout_bytes: "scalars_bytes x = scalars_layout x"
  by (cases x) (simp add: big_endian_be_bytes)

text \<open>
  Claim C30. The format of the scalars, stated on the bytes: what the writing functions of one value of every
  scalar type send through a file descriptor writer, on any POSIX descriptor and when the writer is without
  error after the final flush, are the digits of these values to the base 256, the most significant first, in 1,
  1, 2, 4, 8, 4 and 8 bytes; and the reading functions, on a reader that receives such digits (cut into
  pieces in any way), return the values they stand for, bit for bit, and consume exactly these bytes.
\<close>

theorem fd_scalars_roundtrip:
  assumes "posix_write sys_write delivered" and "posix_read sys_read pending"
    and "fdw_safe w" and "fd_stream delivered w = []"
    and "fdr_ok r" and "r_error r = 0" and "fd_unread pending r = scalars_layout y @ s"
  shows "wp (andthen (write_scalars [fdw_action sys_write wclose] x) (\<lambda>_. fdw_flush sys_write))
      (\<lambda>_ w'. w_error w' = 0 \<longrightarrow> delivered (fw_dev w') = scalars_layout x) w \<and>
    wp (read_scalars [fdr_action sys_read rclose]) (\<lambda>z r'. z = y \<and> fd_unread pending r' = s \<and> r_error r' = 0) r"
  using posix_write.fd_scalars_sent [OF assms(1,3,4), of wclose x] posix_read.fd_scalars_read [OF assms(2,5,6), of y s rclose] assms(7)
  by (simp add: scalars_layout_bytes)

text \<open>A writer with a buffer of four bytes on a scripted device, and the outcome of a run on it.\<close>

definition script_writer :: "int list \<Rightarrow> script_dev fd_writer" where
  "script_writer rs = \<lparr>w_memory = generous, w_data = Some (replicate 4 0), w_data_size = 4, w_count = 4, w_pos = 0,
     w_error = 0, fw_dev = \<lparr>sd_out = [], sd_script = rs\<rparr>, fw_close_fd_on_free = False\<rparr>"

definition outcome :: "(stop + 'a \<times> script_dev fd_writer) option \<Rightarrow> ('a \<times> int \<times> byte list) option" where
  "outcome x = (case x of Some (Inr (y, w)) \<Rightarrow> Some (y, w_error w, sd_out (fw_dev w)) | _ \<Rightarrow> None)"

lemma outcomeD: "outcome x = Some (y, e, bs) \<Longrightarrow> \<exists>w. x = Some (Inr (y, w)) \<and> w_error w = e \<and> sd_out (fw_dev w) = bs"
  by (auto simp: outcome_def split: option.splits sum.splits)

lemma script_writer_safe [simp]: "fdw_safe (script_writer rs)" "fd_stream sd_out (script_writer rs) = []"
  by (simp_all add: script_writer_def fdw_safe_def fd_stream_def EALREADY_def)

theorem fd_scalars_roundtrip_witness:
  "wp (andthen (write_scalars [fdw_action script_write id :: (_, unit) writer_action] (1, 2, 3, 4, 5, 6, 7))
      (\<lambda>_. fdw_flush script_write))
    (\<lambda>_ w. w_error w = 0 \<and> sd_out (fw_dev w) =
        [1, 2, 0, 3, 0, 0, 0, 4, 0, 0, 0, 0, 0, 0, 0, 5, 0, 0, 0, 6, 0, 0, 0, 0, 0, 0, 0, 7]) (script_writer [1, 2]) \<and>
   wp (read_scalars [fdr_action chunk_read id :: (_, unit) reader_action])
    (\<lambda>y r'. y = (1, 2, 3, 4, 5, 6, 0x700000000000008) \<and> fd_unread chunk_pending r' = [] \<and> r_error r' = 0)
    (chunk_reader [[1, 2, 0, 3, 0, 0, 0, 4, 0, 0, 0, 0, 0], [0, 0, 5, 0, 0, 0, 6, 7, 0, 0, 0, 0, 0, 0, 8]])"
proof -
  have error: "map_option (fst \<circ> snd) (outcome (andthen (write_scalars [fdw_action script_write id :: (_, unit) writer_action]
          (1, 2, 3, 4, 5, 6, 7)) (\<lambda>_. fdw_flush script_write) (script_writer [1, 2]))) = Some 0"
    by code_simp
  have layout: "scalars_layout (1, 2, 3, 4, 5, 6, 7) =
      [1, 2, 0, 3, 0, 0, 0, 4, 0, 0, 0, 0, 0, 0, 0, 5, 0, 0, 0, 6, 0, 0, 0, 0, 0, 0, 0, 7]"
    "scalars_layout (1, 2, 3, 4, 5, 6, 0x700000000000008) =
      [1, 2, 0, 3, 0, 0, 0, 4, 0, 0, 0, 0, 0, 0, 0, 5, 0, 0, 0, 6, 7, 0, 0, 0, 0, 0, 0, 8]"
    by code_simp+
  have both: "wp (andthen (write_scalars [fdw_action script_write id :: (_, unit) writer_action] (1, 2, 3, 4, 5, 6, 7))
      (\<lambda>_. fdw_flush script_write)) (\<lambda>_ w'. w_error w' = 0 \<longrightarrow> sd_out (fw_dev w') = scalars_layout (1, 2, 3, 4, 5, 6, 7))
      (script_writer [1, 2]) \<and>
    wp (read_scalars [fdr_action chunk_read id :: (_, unit) reader_action])
      (\<lambda>z r'. z = (1, 2, 3, 4, 5, 6, 0x700000000000008) \<and> fd_unread chunk_pending r' = [] \<and> r_error r' = 0)
      (chunk_reader [[1, 2, 0, 3, 0, 0, 0, 4, 0, 0, 0, 0, 0], [0, 0, 5, 0, 0, 0, 6, 7, 0, 0, 0, 0, 0, 0, 8]])"
    by (rule fd_scalars_roundtrip [OF script.posix_write_axioms chunks.posix_read_axioms script_writer_safe])
      (simp_all add: chunk_pending_def layout del: scalars_layout.simps)
  with error show ?thesis by (auto simp: wp_def layout outcome_def simp del: scalars_layout.simps split: option.splits sum.splits)
qed

text \<open>
  Claim C35. \<^verbatim>\<open>labcomm2014_read_string\<close> on every length of 0x7fffffff or more that a peer can send, on every device,
  with every allocator and for every stream that starts with such a length.  For 0x7fffffff the computation of
  \<^verbatim>\<open>length + 1\<close> overflows.  A larger length is a negative \<^verbatim>\<open>int\<close>, so that a block of \<^verbatim>\<open>length + 1\<close> taken
  modulo \<open>2 ^ 64\<close> bytes is asked for: if it is refused, the result is NULL; if it is granted, the result is the empty
  string and all characters stay on the stream, except for 0xffffffff, where the terminating
  NUL is written into a block of 0 bytes, which is undefined.
\<close>

theorem fd_read_string_hostile_length:
  fixes sys_close :: "'d \<Rightarrow> 'd"
  assumes "posix_read sys_read pending" and "fdr_ok r" and "r_error r = 0"
    and "fd_unread pending r = packed32_bytes x @ s" and "x = 0x7fffffff \<or> 2 ^ 31 \<le> uint x"
    and "granted \<longleftrightarrow> mem_grant (r_memory r) (mem_calls (r_memory r)) (nat ((uint x + 1 - 2 ^ 32) mod 2 ^ 64))"
  shows "if x = 0x7fffffff \<or> x = 0xffffffff \<and> granted
     then labcomm2014_read_string [fdr_action sys_read sys_close :: ('d fdr_ext, 'v) reader_action] r = Some (Inl Undef)
     else wp (labcomm2014_read_string [fdr_action sys_read sys_close :: ('d fdr_ext, 'v) reader_action])
       (\<lambda>y r'. y = (if granted then Some [] else None) \<and> fd_unread pending r' = s \<and> r_error r' = 0 \<and>
          mem_live (r_memory r') = mem_live (r_memory r) + (if granted then 1 else 0)) r"
  unfolding assms(6) by (rule posix_read.fd_string_negative [OF assms(1-5)])

lemma packed32_bytes_max: "packed32_bytes 0xffffffff = [0x8f, 0xff, 0xff, 0xff, 0x7f]"
  "packed32_bytes 0x80000002 = [0x88, 0x80, 0x80, 0x80, 0x02]"
  by code_simp+

theorem fd_read_string_hostile_length_witness:
  "labcomm2014_read_string [fdr_action chunk_read id] (chunk_reader [[0x8f, 0xff], [0xff, 0xff, 0x7f]]) = Some (Inl Undef) \<and>
   wp (labcomm2014_read_string [fdr_action chunk_read id]) (\<lambda>y r'. y = Some [] \<and> fd_unread chunk_pending r' = [0x61, 0x62])
     (chunk_reader [[0x88, 0x80], [0x80, 0x80, 0x02, 0x61], [0x62]])"
proof
  show "labcomm2014_read_string [fdr_action chunk_read id] (chunk_reader [[0x8f, 0xff], [0xff, 0xff, 0x7f]]) = Some (Inl Undef)"
    using fd_read_string_hostile_length [OF chunks.posix_read_axioms, where x = "0xffffffff" and s = "[]" and granted = True
        and r = "chunk_reader [[0x8f, 0xff], [0xff, 0xff, 0x7f]]" and sys_close = id]
    by (simp add: chunk_pending_def packed32_bytes_max)
  show "wp (labcomm2014_read_string [fdr_action chunk_read id]) (\<lambda>y r'. y = Some [] \<and> fd_unread chunk_pending r' = [0x61, 0x62])
     (chunk_reader [[0x88, 0x80], [0x80, 0x80, 0x02, 0x61], [0x62]])"
    using fd_read_string_hostile_length [OF chunks.posix_read_axioms, where x = "0x80000002" and s = "[0x61, 0x62]" and granted = True
        and r = "chunk_reader [[0x88, 0x80], [0x80, 0x80, 0x02, 0x61], [0x62]]" and sys_close = id]
    by (simp add: chunk_pending_def packed32_bytes_max) (auto elim: wp_mono)
qed

text \<open>
  A string of any length below \<^verbatim>\<open>INT_MAX\<close> that was written by \<^verbatim>\<open>labcomm2014_write_string\<close> is read
  back up to its first NUL; the call allocates exactly one block.
\<close>

theorem fd_read_string:
  assumes "posix_read sys_read pending" and "fdr_ok r" and "r_error r = 0" and "plenty (r_memory r)"
    and "fd_unread pending r = packed32_bytes (u32_of_int (int (length str))) @ str @ s"
    and "int (length str) < INT_MAX"
  shows "wp (labcomm2014_read_string [fdr_action sys_read sys_close])
    (\<lambda>y r'. y = Some (takeWhile (\<lambda>b. b \<noteq> 0) str) \<and> fd_unread pending r' = s \<and> r_error r' = 0 \<and>
       mem_live (r_memory r') = mem_live (r_memory r) + 1) r"
  using posix_read.fd_string [OF assms] by (simp add: c_string_def)

theorem fd_read_string_witness:
  "wp (labcomm2014_read_string [fdr_action chunk_read id])
    (\<lambda>y r'. y = Some [0x61, 0x62] \<and> fd_unread chunk_pending r' = [1] \<and> r_error r' = 0 \<and> mem_live (r_memory r') = 1)
    (chunk_reader [[3, 0x61], [0x62, 0, 1]])"
proof -
  have "packed32_bytes (u32_of_int (int (length [0x61, 0x62, 0 :: byte]))) = [3]" by code_simp
  then show ?thesis
    using fd_read_string [OF chunks.posix_read_axioms, of "chunk_reader [[3, 0x61], [0x62, 0, 1]]" "[0x61, 0x62, 0]" "[1]" id]
    by (simp add: chunk_pending_def INT_MAX_def) (simp add: generous_def)
qed

section \<open>Writers\<close>

text \<open>
  Claim C17. Flushing the file descriptor writer on any POSIX descriptor: it returns (every partial write
  makes progress), the writer stays usable, and when \<^verbatim>\<open>w->error\<close> is 0 afterwards then the whole buffer
  was delivered, in order and behind what was delivered before, however many partial writes it took.
\<close>

theorem fd_flush_delivers:
  assumes "posix_write sys_write delivered" and "fdw_safe w"
  shows "wp (fdw_flush sys_write) (\<lambda>err w'. fdw_safe w' \<and> err = w_error w' \<and> w_pos w' = 0 \<and>
    (w_error w' = 0 \<longrightarrow> delivered (fw_dev w') = fd_stream delivered w)) w"
proof (rule wp_mono [OF wp_conj [OF posix_write.wp_fdw_flush [OF assms]]])
  show "wp (fdw_flush sys_write) (\<lambda>_ w'. w_pos w' = 0) w"
    using assms(2) by (auto simp: wp_def fdw_flush_def fdw_safe_def Let_def split: option.splits prod.splits)
qed (auto simp: fd_sent_def)

theorem fd_flush_delivers_witness:
  "wp (fdw_flush script_write) (\<lambda>err w'. fdw_safe w' \<and> err = w_error w' \<and> w_pos w' = 0 \<and>
    (w_error w' = 0 \<longrightarrow> sd_out (fw_dev w') = [5, 6, 7]))
    ((script_writer [1, 1])\<lparr>w_data := Some [5, 6, 7, 8], w_pos := 3\<rparr>)"
  using fd_flush_delivers [OF script.posix_write_axioms, of "(script_writer [1, 1])\<lparr>w_data := Some [5, 6, 7, 8], w_pos := 3\<rparr>"]
  by (simp add: script_writer_def fdw_safe_def fd_stream_def EALREADY_def numeral_eq_Suc)

text \<open>
  The dynamic buffer writer after a failed reallocation: \<^verbatim>\<open>dyn_flush\<close> has enlarged \<^verbatim>\<open>count\<close> already,
  so the unchecked store of the signature loops of the encoder goes beyond the end of the block.
\<close>

theorem dyn_unchecked_overrun:
  assumes "w_data w = Some d" and "w_pos w = length d" and "w_count w = length d"
    and "\<not> mem_grant (w_memory w) (mem_calls (w_memory w)) (w_data_size w + 1000)"
  shows "write_byte_unchecked [dyn_action] b w = Some (Inl Undef)"
  using assms
  by (simp add: write_byte_unchecked_def dyn_defs prog_simps memory_defs store_byte_def Let_def)

theorem dyn_unchecked_overrun_witness:
  "write_byte_unchecked [dyn_action] 0 (\<lparr>w_memory = stingy, w_data = Some [1, 2], w_data_size = 2, w_count = 2,
     w_pos = 2, w_error = 0\<rparr> :: writer) = Some (Inl Undef)"
  using dyn_unchecked_overrun [of "\<lparr>w_memory = stingy, w_data = Some [1, 2], w_data_size = 2, w_count = 2,
     w_pos = 2, w_error = 0\<rparr> :: writer" "[1, 2]" 0]
  by (simp add: stingy_def)

section \<open>Signatures\<close>

text \<open>
  \<^verbatim>\<open>labcomm2014_signature_dump\<close> of well-formed tree data writes the flattened signature, cut at the
  length of the buffer and never beyond it; it returns true exactly when the signature has at least as
  many bytes as the buffer.
\<close>

theorem signature_dump_flatten:
  assumes "tree_wf td"
  shows "labcomm2014_signature_dump td len = (len \<le> length (flatten td), take len (flatten td))"
  using sig_dump_checked_eq [OF assms, of "[]" len] by (simp add: labcomm2014_signature_dump_def)

definition inner_sig :: "unit signature" where
  "inner_sig = Signature [0x69] (\<lambda>_. 4) 1 [0x23] 65 [SigBytes [0x23]]"

definition outer_tree :: "unit signature_data list" where
  "outer_tree = [SigBytes [0x11, 0x02], SigRef inner_sig, SigBytes [0x20]]"

lemma outer_tree_wf [simp]: "tree_wf outer_tree" "flatten outer_tree = [0x11, 0x02, 0x23, 0x20]"
  by (simp_all add: outer_tree_def inner_sig_def)

theorem signature_dump_flatten_witness:
  "labcomm2014_signature_dump outer_tree 3 = (True, [0x11, 0x02, 0x23])"
  using signature_dump_flatten [of outer_tree 3] by simp

text \<open>
  \<^verbatim>\<open>labcomm2014_signature_cmp\<close> decides equality of the flattened signatures, however they are
  divided into references, but only for signatures of less than 512 bytes: longer ones are different
  from everything, themselves included.
\<close>

theorem signature_cmp_flatten:
  assumes "tree_wf td1" and "tree_wf td2"
  shows "labcomm2014_signature_cmp td1 td2 \<longleftrightarrow> flatten td1 = flatten td2 \<and> length (flatten td1) < 512"
  using sig_dump_checked_eq [OF assms(1), of "[]" 512] sig_dump_checked_eq [OF assms(2), of "[]" 512]
  by (auto simp: labcomm2014_signature_cmp_def labcomm2014_signature_dump_def)

theorem signature_cmp_flatten_witness:
  "labcomm2014_signature_cmp outer_tree [SigBytes [0x11, 0x02, 0x23], SigBytes [0x20]]"
  using signature_cmp_flatten [of outer_tree "[SigBytes [0x11, 0x02, 0x23], SigBytes [0x20]]"] by simp

text \<open>
  Claim C31. \<^verbatim>\<open>map_signature\<close> calls its function in order on exactly the bytes of the flattened signature when it
  flattens, following every reference, and otherwise on the bytes of its own tree data, with each
  reference in its place as one call with the byte 0 and the signature it refers to, which is not followed.
\<close>

theorem map_signature_flatten:
  assumes "tree_wf (sig_treedata s)"
  shows "map_signature f s True = map_bytes f (flatten (sig_treedata s)) \<and>
    map_signature f s False = map_items f (tree_items (sig_treedata s))"
  unfolding map_signature_def by (intro conjI map_treedata_flatten [OF assms] map_treedata_items)

theorem map_signature_flatten_witness:
  "map_signature (\<lambda>b _. modify (\<lambda>bs. bs @ [b])) (Signature [] (\<lambda>_. 0) 4 [] 64 outer_tree) True [] =
     Some (Inr ((), [0x11, 0x02, 0x23, 0x20])) \<and>
   map_signature (\<lambda>b t. modify (\<lambda>bs. bs @ [(b, map_option sig_index t)])) (Signature [] (\<lambda>_. 0) 4 [] 64 outer_tree) False [] =
     Some (Inr ((), [(0x11, None), (0x02, None), (0, Some 65), (0x20, None)]))"
  using map_signature_flatten [of "Signature [] (\<lambda>_. 0) 4 [] 64 outer_tree" "\<lambda>b _. modify (\<lambda>bs. bs @ [b])"]
    map_signature_flatten [of "Signature [] (\<lambda>_. 0) 4 [] 64 outer_tree" "\<lambda>b t. modify (\<lambda>bs. bs @ [(b, map_option sig_index t)])"]
  by (simp add: prog_simps) (simp add: outer_tree_def inner_sig_def prog_simps)

text \<open>Giving an index to each signature of a list.\<close>

fun set_local_indices :: "'v signature list \<Rightarrow> (int, 'v signature list) prog" where
  "set_local_indices [] = ret []"
| "set_local_indices (s # ss) =
     andthen (labcomm2014_set_local_index s) (\<lambda>t.
     andthen (set_local_indices ss) (\<lambda>ts. ret (t # ts)))"

lemma sig_index_set [simp]: "sig_index (set_sig_index i s) = i"
  by (cases s) simp

lemma set_local_indices_run:
  "\<forall>s\<in>set ss. sig_index s = 0 \<Longrightarrow> i + int (length ss) \<le> INT_MAX \<Longrightarrow>
     set_local_indices ss i =
       Some (Inr (map2 (\<lambda>k s. set_sig_index (i + int k) s) [0..<length ss] ss, i + int (length ss)))"
proof (induction ss arbitrary: i)
  case Nil
  then show ?case by (simp add: prog_simps)
next
  case (Cons s ss)
  have "labcomm2014_set_local_index s i = Some (Inr (set_sig_index i s, i + 1))"
    using Cons.prems by (simp add: labcomm2014_set_local_index_def prog_simps)
  moreover have "map2 (\<lambda>k s. set_sig_index (i + int k) s) [0..<Suc (length ss)] (s # ss) =
      set_sig_index i s # map2 (\<lambda>k s. set_sig_index (i + 1 + int k) s) [0..<length ss] ss"
    by (auto simp: upt_conv_Cons map_Suc_upt [symmetric] zip_map1 add.assoc simp del: upt_Suc)
  ultimately show ?case
    using Cons.prems Cons.IH [of "i + 1"] by (simp add: andthen_run ret_apply del: upt_Suc)
qed

text \<open>
  Claim C32. Indices are given out one after the other from the first user index on: giving indices to fresh
  signatures never fails, every one gets its own index, none of them is reserved, and asking for it
  returns it; giving an index to a signature that has one stops the program with the fatal error
  that the index is set already, whatever the next index would be.
\<close>

theorem local_indices_distinct:
  assumes "\<forall>s\<in>set ss. sig_index s = 0" and "initial_local_index + int (length ss) \<le> INT_MAX"
  shows "wp (set_local_indices ss) (\<lambda>ts i'. length ts = length ss \<and> i' = initial_local_index + int (length ss) \<and>
      distinct (map sig_index ts) \<and>
      (\<forall>t\<in>set ts. LABCOMM_USER \<le> sig_index t \<and> sig_index t < i' \<and>
        labcomm2014_get_local_index (Some t) u = Some (Inr (sig_index t, u)) \<and>
        (\<forall>k. labcomm2014_set_local_index t k = Some (Inl (Exit LABCOMM2014_ERROR_SIGNATURE_ALREADY_SET))))) initial_local_index"
proof -
  let ?ts = "map2 (\<lambda>k s. set_sig_index (initial_local_index + int k) s) [0..<length ss] ss"
  have idx: "map sig_index ?ts = map (\<lambda>k. initial_local_index + int k) [0..<length ss]"
    by (rule nth_equalityI) simp_all
  have "distinct (map sig_index ?ts)"
    unfolding idx by (simp add: distinct_map inj_on_def)
  moreover have "LABCOMM_USER \<le> sig_index t \<and> sig_index t < initial_local_index + int (length ss)" if "t \<in> set ?ts" for t
  proof -
    from that have "sig_index t \<in> set (map sig_index ?ts)" by (simp only: set_map imageI)
    then show ?thesis unfolding idx by (auto simp: initial_local_index_def)
  qed
  ultimately show ?thesis
    using set_local_indices_run [OF assms]
    by (auto simp: wp_def labcomm2014_get_local_index_def labcomm2014_set_local_index_def labcomm2014_error_fatal_global_def
        prog_simps tag_defs initial_local_index_def)
qed

theorem local_indices_distinct_witness:
  "wp (set_local_indices [Signature [] (\<lambda>_::unit. 0) 0 [] 0 [], Signature [1] (\<lambda>_. 0) 0 [] 0 []])
    (\<lambda>ts i'. length ts = 2 \<and> i' = 66 \<and> distinct (map sig_index ts) \<and>
      (\<forall>t\<in>set ts. LABCOMM_USER \<le> sig_index t \<and> sig_index t < i' \<and>
        labcomm2014_get_local_index (Some t) () = Some (Inr (sig_index t, ())) \<and>
        (\<forall>k. labcomm2014_set_local_index t k = Some (Inl (Exit LABCOMM2014_ERROR_SIGNATURE_ALREADY_SET))))) initial_local_index"
  using local_indices_distinct [of "[Signature [] (\<lambda>_::unit. 0) 0 [] 0 [], Signature [1] (\<lambda>_. 0) 0 [] 0 []]" "()"]
  by (simp add: initial_local_index_def tag_defs INT_MAX_def numeral_2_eq_2)

section \<open>Signature arrays\<close>

text \<open>
  Claim C8. \<^verbatim>\<open>labcomm2014_signature_array_ref\<close> implements a total map from indices to elements, initially
  zero everywhere: for every allocator it returns; when it gives a pointer, the index is inside of the
  array and every element (also those moved to a new block) is unchanged, when it gives NULL, the
  allocation failed; and the number of live blocks changes exactly by the blocks the array owns, so
  the old block is freed.
\<close>

theorem signature_array_ref_refines:
  assumes "sa_ok a" and "sa_room sz i a"
  shows "wp (labcomm2014_signature_array_ref z sz i)
    (\<lambda>ok (m', a'). (ok \<longrightarrow> sa_ok a' \<and> sa_in i a' \<and> sa_lookup z a' = sa_lookup z a \<and>
                          (\<forall>v. sa_lookup z (sa_set i v a') = (sa_lookup z a)(i := v))) \<and>
        (\<not> ok \<longrightarrow> sa_data a' = None \<and> \<not> plenty m) \<and>
        mem_live m' - owned a' = mem_live m - owned a) (m, a)"
  by (rule wp_mono [OF wp_signature_array_ref [OF assms, where m = m and z = z]])
    (auto simp: sa_lookup_set split: if_splits)

definition small_array :: "int sigarr" where
  "small_array = \<lparr>sa_first = 64, sa_last = 65, sa_data = Some [7]\<rparr>"

lemma small_array_ok [simp]: "sa_ok small_array" "sa_room 4 66 small_array"
  by (simp_all add: small_array_def sa_ok_def sa_room_def INT_MAX_def)

theorem signature_array_ref_refines_witness:
  "wp (labcomm2014_signature_array_ref 0 4 66)
    (\<lambda>ok (m', a'). (ok \<longrightarrow> sa_ok a' \<and> sa_in 66 a' \<and> sa_lookup 0 a' = sa_lookup 0 small_array \<and>
                          (\<forall>v. sa_lookup 0 (sa_set 66 v a') = (sa_lookup 0 small_array)(66 := v))) \<and>
        (\<not> ok \<longrightarrow> sa_data a' = None \<and> \<not> plenty generous) \<and>
        mem_live m' - owned a' = mem_live generous - owned small_array)
     (generous, small_array)"
  by (rule signature_array_ref_refines) simp_all

section \<open>Ioctl words\<close>

text \<open>
  The fields of an ioctl action word do not overlap: whatever fits in the fields of
  \<^verbatim>\<open>LABCOMM_IOC\<close> is given back by the five extraction macros.
\<close>

theorem ioctl_word_fields:
  assumes "sig < 2" and "dir < 4" and "ty < 256" and "nr < 256" and "sz < 8192"
  shows "LABCOMM_IOC_SIG (LABCOMM_IOC sig dir ty nr sz) = sig \<and>
    LABCOMM_IOC_DIR (LABCOMM_IOC sig dir ty nr sz) = dir \<and>
    LABCOMM_IOC_TYPE (LABCOMM_IOC sig dir ty nr sz) = ty \<and>
    LABCOMM_IOC_NR (LABCOMM_IOC sig dir ty nr sz) = nr \<and>
    LABCOMM_IOC_SIZE (LABCOMM_IOC sig dir ty nr sz) = sz"
  using ioc_fields [of sig dir ty nr sz] assms by simp

theorem ioctl_word_fields_witness:
  "LABCOMM_IOC_SIZE (LABCOMM_IOC LABCOMM_IOC_USESIG LABCOMM_IOC_WRITE 2 9 4) = 4"
  using ioctl_word_fields [of LABCOMM_IOC_USESIG LABCOMM_IOC_WRITE 2 9 4]
  by (simp add: LABCOMM_IOC_USESIG_def LABCOMM_IOC_WRITE_def)

end
