(* ===== verification/LC_EncoderProps.thy ===== *)
theory LC_EncoderProps
  imports LC_EncoderSpec LC_BaseProps
begin

text \<open>
  Properties of the encoder on the file descriptor writer and on the dynamic buffer writer.
\<close>

section \<open>On a file descriptor\<close>

context posix_write
begin

lemma fd_register:
  assumes "enc_inv [fdw_action sys_write sys_close] fdw_safe e" and "0 < sig_index s"
    and "sa_room 4 (sig_index s) (enc_get t e)" and "enc_marks t e (sig_index s) = 0"
    and "fdw.esends sys_close (body (sig_index s)) bs"
  shows "wp (register_once t s body) (\<lambda>result e'. enc_inv [fdw_action sys_write sys_close] fdw_safe e' \<and>
      enc_marks t e' = (enc_marks t e)(sig_index s := 1) \<and>
      e_scheduler e' = e_scheduler e @ [WriterLock, WriterUnlock] \<and> result = w_error (e_writer e') \<and>
      (result = 0 \<longrightarrow> fd_sent delivered (e_writer e') = fd_sent delivered (e_writer e) @ bs)) e"
  by (rule wp_mono [OF fdw.wp_register_once [where body = body, OF assms(1-3,5)]]) (use assms(4) in auto)

lemmas fd_definition = fdw.esends_definition and fd_type_def = fdw.esends_type_def

lemma fd_encode:
  assumes "enc_inv [fdw_action sys_write sys_close] fdw_safe e" and "0 < sig_index s"
    and "enc_marks Registered e (sig_index s) \<noteq> 0"
    and "fdw.writes (encode [fdw_action sys_write sys_close] v) bs" and "sig_encoded_size s v = int (length bs)"
  shows "wp (do_encode s encode v) (\<lambda>result e'. enc_inv [fdw_action sys_write sys_close] fdw_safe e' \<and>
      e_scheduler e' = e_scheduler e @ [WriterLock, WriterUnlock] \<and>
      (w_error (e_writer e') = 0 \<longrightarrow> result = 0 \<and>
        fd_sent delivered (e_writer e') = fd_sent delivered (e_writer e) @ packet_bytes (sig_index s) bs)) e"
  by (rule wp_mono [OF fdw.wp_do_encode [where encode = encode and v = v, OF assms(1,2,4,5)]]) (use assms(3) in auto)

lemma fd_encoder_new:
  assumes "plenty m" and "plenty (w_memory w)"
  shows "wp (labcomm2014_encoder_new w [fdw_action sys_write sys_close]) (\<lambda>eo _. \<exists>e. eo = Some e \<and>
      enc_inv [fdw_action sys_write sys_close] fdw_safe e \<and> (\<forall>t. enc_get t e = signature_array_init) \<and> (\<forall>t i. enc_marks t e i = 0) \<and>
      (w_error (e_writer e) = 0 \<longrightarrow> fd_sent delivered (e_writer e) = fd_sent delivered w @ version_packet)) m"
proof -
  let ?w = "w\<lparr>w_data := None, w_data_size := 0, w_count := 0, w_pos := 0, w_error := 0\<rparr>"
  have "wp fdw_alloc (\<lambda>_ w'. fdw_safe w' \<and> fd_sent delivered w' = fd_sent delivered w) ?w"
    by (rule wp_mono [OF fdw_alloc_safe]) (use assms(2) in \<open>auto simp: fd_sent_def\<close>)
  then show ?thesis
    by (intro wp_mono [OF fdw.wp_encoder_new [OF assms(1)]]) auto
qed

end

text \<open>
  A new encoder on any POSIX descriptor: when the writer is without error, exactly the version
  packet was delivered, no index is registered and the encoder satisfies its invariant.
\<close>

theorem encoder_new_sends_version:
  assumes "posix_write sys_write delivered" and "plenty m" and "plenty (w_memory w)"
  shows "wp (labcomm2014_encoder_new w [fdw_action sys_write sys_close]) (\<lambda>eo _. \<exists>e. eo = Some e \<and>
      enc_inv [fdw_action sys_write sys_close] fdw_safe e \<and> (\<forall>t i. enc_marks t e i = 0) \<and>
      (w_error (e_writer e) = 0 \<longrightarrow> delivered (fw_dev (e_writer e)) = delivered (fw_dev w) @ version_packet)) m"
  by (rule wp_mono [OF posix_write.fd_encoder_new [OF assms]]) (auto simp: fd_sent_def)

theorem encoder_new_sends_version_witness:
  "wp (labcomm2014_encoder_new (script_writer [5]) [fdw_action script_write id :: (_, unit) writer_action])
    (\<lambda>eo _. \<exists>e. eo = Some e \<and> enc_inv [fdw_action script_write id] fdw_safe e \<and> (\<forall>t i. enc_marks t e i = 0) \<and>
      (w_error (e_writer e) = 0 \<longrightarrow> sd_out (fw_dev (e_writer e)) = [] @ version_packet)) generous"
  using encoder_new_sends_version [OF script.posix_write_axioms, of generous "script_writer [5]" id]
  by (simp add: script_writer_def)

text \<open>
  Claim C4. Registering a sample on any POSIX descriptor: the function returns, the index is marked, the
  writer lock is taken and released once, and the result 0 means that exactly one definition packet
  was delivered: the tag, the length of what follows, the index, the name and the signature.
\<close>

theorem sample_register_delivers:
  assumes "posix_write sys_write delivered" and "enc_inv [fdw_action sys_write sys_close] fdw_safe e"
    and "sig_ok s" and "sa_room 4 (sig_index s) (e_registered e)" and "enc_marks Registered e (sig_index s) = 0"
  shows "wp (do_sample_register s) (\<lambda>result e'. enc_inv [fdw_action sys_write sys_close] fdw_safe e' \<and>
      enc_marks Registered e' = (enc_marks Registered e)(sig_index s := 1) \<and>
      e_scheduler e' = e_scheduler e @ [WriterLock, WriterUnlock] \<and> result = w_error (e_writer e') \<and>
      (result = 0 \<longrightarrow> delivered (fw_dev (e_writer e')) = delivered (fw_dev (e_writer e)) @
         packet_bytes LABCOMM_SAMPLE_DEF (definition_payload (sig_index s) (sig_name s) (sig_signature s)))) e"
  unfolding do_sample_register_def
  by (rule wp_mono [OF posix_write.fd_register [OF assms(1,2)]])
    (use assms(3-5) posix_write.fd_definition [OF assms(1)] in \<open>auto simp: sig_ok_def fd_sent_def\<close>)

text \<open>An encoder over a scripted device, and a small signature: the type int, of index 64.\<close>

definition demo_encoder :: "int list \<Rightarrow> (script_dev fdw_ext, 32 word) encoder" where
  "demo_encoder rs = \<lparr>e_writer = script_writer rs, e_acts = [fdw_action script_write id], e_memory = generous,
     e_scheduler = [], e_registered = signature_array_init, e_sample_ref = signature_array_init,
     e_typedefs = signature_array_init\<rparr>"

definition int_sig :: "32 word signature" where
  "int_sig = Signature [0x61, 0x62] (\<lambda>_. 4) 1 [0x23] 64 [SigBytes [0x23]]"

definition encode_int :: "('z, 32 word) encode_function" where
  "encode_int acts v = labcomm2014_write_int acts v"

lemma demo_encoder_inv [simp]: "enc_inv [fdw_action script_write id] fdw_safe (demo_encoder rs)"
proof -
  have "sa_ok (enc_get t (demo_encoder rs))" for t by (cases t) (simp_all add: demo_encoder_def)
  then show ?thesis by (simp add: enc_inv_def demo_encoder_def)
qed

lemma demo_encoder_tables [simp]: "enc_get t (demo_encoder rs) = signature_array_init" "enc_marks t (demo_encoder rs) i = 0"
  by (cases t; simp add: demo_encoder_def enc_marks_def)+

lemma int_sig_simps [simp]: "sig_index int_sig = 64" "sig_name int_sig = [0x61, 0x62]" "sig_signature int_sig = [0x23]"
  "sig_size int_sig = 1" "sig_encoded_size int_sig v = 4" "sig_treedata int_sig = [SigBytes [0x23]]"
  by (simp_all add: int_sig_def)

lemma int_sig_ok [simp]: "sig_ok int_sig"
proof -
  have "length (definition_payload 64 [0x61, 0x62] [0x23]) = 8" by code_simp
  then show ?thesis by (simp add: sig_ok_def INT_MAX_def)
qed

lemma room_64 [simp]: "sa_room 4 64 signature_array_init" "sa_room 40 64 signature_array_init"
  by (simp_all add: sa_room_def signature_array_init_def INT_MAX_def)

theorem sample_register_delivers_witness:
  "wp (do_sample_register int_sig) (\<lambda>result e'. enc_inv [fdw_action script_write id] fdw_safe e' \<and>
      enc_marks Registered e' = (enc_marks Registered (demo_encoder [3, 1]))(64 := 1) \<and>
      e_scheduler e' = [WriterLock, WriterUnlock] \<and> result = w_error (e_writer e') \<and>
      (result = 0 \<longrightarrow> sd_out (fw_dev (e_writer e')) =
         packet_bytes LABCOMM_SAMPLE_DEF (definition_payload 64 [0x61, 0x62] [0x23]))) (demo_encoder [3, 1])"
proof -
  have "e_registered (demo_encoder [3, 1]) = signature_array_init" "e_scheduler (demo_encoder [3, 1]) = []"
    "sd_out (fw_dev (e_writer (demo_encoder [3, 1]))) = []"
    by (simp_all add: demo_encoder_def script_writer_def)
  with sample_register_delivers [OF script.posix_write_axioms, of id "demo_encoder [3, 1]" int_sig]
  show ?thesis by simp
qed

text \<open>
  A second registration, reference registration or type registration of the same index is refused
  with \<^verbatim>\<open>-EINVAL\<close>, whatever the writer is: not a byte is written, no table changes, and the lock is
  released.
\<close>

theorem register_twice_refused:
  assumes "plenty (e_memory e)" and "sa_ok (enc_get t e)" and "0 < sig_index s"
    and "sa_room 4 (sig_index s) (enc_get t e)" and "enc_marks t e (sig_index s) \<noteq> 0"
    and "(t, f) \<in> {(Registered, do_sample_register s), (SampleRef, enc_do_ref_register s), (Typedefs, do_type_register s)}"
  shows "wp f (\<lambda>result e'. result = - EINVAL \<and> e_writer e' = e_writer e \<and> (\<forall>t. enc_marks t e' = enc_marks t e) \<and>
      e_scheduler e' = e_scheduler e @ [WriterLock, WriterUnlock]) e"
proof -
  let ?e0 = "e\<lparr>e_scheduler := e_scheduler e @ [WriterLock]\<rparr>"
  from assms(6) obtain body where f: "f = register_once t s body"
    by (auto simp: do_sample_register_def enc_do_ref_register_def do_type_register_def internal_reg_type_def)
  note deref = wp_table_deref [of ?e0 t "sig_index s"]
  have "wp (on_table t (sa_deref 0 4 (sig_index s))) (\<lambda>x e'. x \<noteq> 0 \<and> e_writer e' = e_writer e \<and>
      (\<forall>t. enc_marks t e' = enc_marks t e) \<and> e_scheduler e' = e_scheduler e @ [WriterLock]) ?e0"
    by (rule wp_mono [OF deref]) (use assms(1-5) in \<open>auto simp: enc_marks_def enc_get_put\<close>)
  with assms(3) show ?thesis
    unfolding f by (auto simp: register_once_def wp_simps enc_marks_def elim!: wp_mono)
qed

text \<open>An encoder in which the index 64 is registered already.\<close>

definition registered_encoder :: "int list \<Rightarrow> (script_dev fdw_ext, 32 word) encoder" where
  "registered_encoder rs = (demo_encoder rs)\<lparr>e_registered := \<lparr>sa_first = 64, sa_last = 65, sa_data = Some [1]\<rparr>\<rparr>"

lemma registered_encoder_simps [simp]:
  "enc_inv [fdw_action script_write id] fdw_safe (registered_encoder rs)"
  "enc_marks Registered (registered_encoder rs) 64 = 1"
  "sa_room 4 64 (e_registered (registered_encoder rs))" "sa_ok (e_registered (registered_encoder rs))"
  "plenty (e_memory (registered_encoder rs))" "e_scheduler (registered_encoder rs) = []"
  "e_writer (registered_encoder rs) = script_writer rs"
proof -
  have "sa_ok (enc_get t (registered_encoder rs))" for t
    by (cases t) (simp_all add: registered_encoder_def demo_encoder_def, simp add: sa_ok_def INT_MAX_def)
  from this this [of Registered] show "enc_inv [fdw_action script_write id] fdw_safe (registered_encoder rs)"
    "sa_ok (e_registered (registered_encoder rs))"
    by (simp_all add: enc_inv_def registered_encoder_def demo_encoder_def)
qed (simp_all add: registered_encoder_def demo_encoder_def enc_marks_def sa_lookup_def sa_room_def INT_MAX_def)

theorem register_twice_refused_witness:
  "wp (do_sample_register int_sig) (\<lambda>result e'. result = - EINVAL \<and> e_writer e' = script_writer [] \<and>
      (\<forall>t. enc_marks t e' = enc_marks t (registered_encoder [])) \<and> e_scheduler e' = [WriterLock, WriterUnlock])
    (registered_encoder [])"
  using register_twice_refused [of "registered_encoder []" Registered int_sig "do_sample_register int_sig"]
  by simp

text \<open>
  Claim C3. Sending a sample of a registered type on any POSIX descriptor, for every generated \<open>encode\<close>
  function that writes the bytes \<open>bs\<close> of the value (or sets the error) and whose \<^verbatim>\<open>encoded_size\<close> is their
  number: the function returns, and when the writer is without error afterwards the result is 0 and
  exactly the packet of the sample was delivered: its index, the length of the value and the value.
  \<^verbatim>\<open>labcomm2014_internal_sizeof\<close> gives the number of these bytes, and overflows when an \<^verbatim>\<open>int\<close> does not hold it.
\<close>

theorem encode_delivers:
  assumes "posix_write sys_write delivered" and "enc_inv [fdw_action sys_write sys_close] fdw_safe e"
    and "0 < sig_index s" and "enc_marks Registered e (sig_index s) \<noteq> 0"
    and "writer_sink.writes fdw_safe (fd_stream delivered) (encode [fdw_action sys_write sys_close] v) bs"
    and "sig_encoded_size s v = int (length bs)"
  shows "wp (do_encode s encode v) (\<lambda>result e'. enc_inv [fdw_action sys_write sys_close] fdw_safe e' \<and>
      e_scheduler e' = e_scheduler e @ [WriterLock, WriterUnlock] \<and>
      (w_error (e_writer e') = 0 \<longrightarrow> result = 0 \<and>
        delivered (fw_dev (e_writer e')) = delivered (fw_dev (e_writer e)) @ packet_bytes (sig_index s) bs)) e \<and>
    labcomm2014_internal_sizeof s v e =
      (if int (length (packet_bytes (sig_index s) bs)) \<le> INT_MAX
       then Some (Inr (int (length (packet_bytes (sig_index s) bs)), e)) else Some (Inl Undef))"
proof (rule conjI)
  have "INT_MIN \<le> int (length (packet_bytes (sig_index s) bs))" by (simp add: INT_MIN_def)
  moreover have "labcomm2014_internal_sizeof s v e = c_int (int (length (packet_bytes (sig_index s) bs))) e"
    by (simp add: labcomm2014_internal_sizeof_def assms(6) packet_bytes_def number_bytes_def Let_def add.assoc)
  ultimately show "labcomm2014_internal_sizeof s v e = (if int (length (packet_bytes (sig_index s) bs)) \<le> INT_MAX
      then Some (Inr (int (length (packet_bytes (sig_index s) bs)), e)) else Some (Inl Undef))"
    by (simp add: c_int_def prog_simps)
qed (use posix_write.fd_encode [where encode = encode and v = v, OF assms] in \<open>simp add: fd_sent_def\<close>)

lemma encode_int_writes:
  "writer_sink.writes fdw_safe (fd_stream sd_out)
     (encode_int [fdw_action script_write id :: (_, 32 word) writer_action] v) (be_bytes 4 v)"
  unfolding encode_int_def labcomm2014_write_int_def by (rule script.fdw.writes_loop)

theorem encode_delivers_witness:
  "wp (do_encode int_sig encode_int 7) (\<lambda>result e'. enc_inv [fdw_action script_write id] fdw_safe e' \<and>
      e_scheduler e' = [WriterLock, WriterUnlock] \<and>
      (w_error (e_writer e') = 0 \<longrightarrow> result = 0 \<and>
        sd_out (fw_dev (e_writer e')) = packet_bytes 64 (be_bytes 4 (7 :: 32 word)))) (registered_encoder [2]) \<and>
    labcomm2014_internal_sizeof int_sig 7 (registered_encoder [2]) = Some (Inr (6, registered_encoder [2]))"
proof -
  have "length (packet_bytes 64 (be_bytes 4 (7 :: 32 word))) = 6" by code_simp
  with encode_delivers [OF script.posix_write_axioms, of id "registered_encoder [2]" int_sig encode_int 7,
      OF _ _ _ encode_int_writes]
  show ?thesis by (simp add: script_writer_def INT_MAX_def)
qed

text \<open>A writer with room for sixteen bytes.\<close>

definition big_writer :: "int list \<Rightarrow> script_dev fd_writer" where
  "big_writer rs = (script_writer rs)\<lparr>w_data := Some (replicate 16 0), w_data_size := 16, w_count := 16\<rparr>"

text \<open>
  A writer without error on the device \<open>dev\<close>, whose buffer of \<open>n\<close> bytes holds \<open>bs\<close>; and functions that put
  bytes in a buffer that has room for them.
\<close>

definition holding :: "nat \<Rightarrow> 'd \<Rightarrow> byte list \<Rightarrow> 'd fd_writer \<Rightarrow> bool" where
  "holding n dev bs w \<longleftrightarrow> (\<exists>d. w_data w = Some d \<and> length d = n \<and> w_count w = n \<and> w_pos w = length bs \<and>
     take (length bs) d = bs \<and> w_error w = 0 \<and> fw_dev w = dev)"

definition fills :: "('d fd_writer, int) prog \<Rightarrow> byte list \<Rightarrow> bool" where
  "fills m bs \<longleftrightarrow> (\<forall>n dev pre w. holding n dev pre w \<longrightarrow> length (pre @ bs) \<le> n \<longrightarrow>
     wp m (\<lambda>result w'. result = 0 \<and> holding n dev (pre @ bs) w') w)"

lemma fillsD: "fills m bs \<Longrightarrow> holding n dev pre w \<Longrightarrow> length (pre @ bs) \<le> n \<Longrightarrow>
    wp m (\<lambda>result w'. result = 0 \<and> holding n dev (pre @ bs) w') w"
  by (simp add: fills_def)

lemma wp_store_held:
  assumes "holding n dev pre w" and "length pre < n"
  shows "wp (write_byte_checked acts b) (\<lambda>result w'. result = 0 \<and> holding n dev (pre @ [b]) w') w"
  using assms by (auto simp: write_byte_checked_def store_byte_def put_buffer_def holding_def wp_def prog_simps
      take_Suc_conv_app_nth)

lemma fills_loop: "fills (write_loop acts bs) bs"
proof (induction bs)
  case (Cons b bs)
  show ?case
    unfolding fills_def write_loop.simps wp_andthen
  proof (intro allI impI)
    fix n dev pre and w :: "'a fd_writer"
    assume w: "holding n dev pre w" "length (pre @ b # bs) \<le> n"
    then have "length pre < n" by simp
    from wp_store_held [OF w(1) this, of acts b]
    show "wp (write_byte_checked acts b) (\<lambda>x. wp (if x \<noteq> 0 then ret x else write_loop acts bs)
        (\<lambda>result w'. result = 0 \<and> holding n dev (pre @ b # bs) w')) w"
      using w(2) fillsD [OF Cons.IH, of n dev "pre @ [b]"] by (auto elim!: wp_mono)
  qed
qed (simp add: fills_def wp_ret)

lemma fills_packed32: "fills (labcomm2014_write_packed32 acts x) (packed32_bytes x)"
  unfolding labcomm2014_write_packed32_def by (rule fills_loop)

lemma wp_flush_refused:
  assumes "holding n dev bs w" and "bs \<noteq> []" and "sys_write dev bs = (r, eno, dev')" and "r < 0"
  shows "wp (fdw_flush sys_write) (\<lambda>_ w'. w_error w' = - eno \<and> fw_dev w' = dev' \<and> w_pos w' = 0) w"
  using assms by (auto simp: fdw_flush_def wp_def holding_def Let_def flush_loop.simps [of _ bs])

text \<open>
  Claim C34. A sample can be lost although \<^verbatim>\<open>do_encode\<close> returns 0: the result of \<^verbatim>\<open>labcomm2014_writer_end\<close> is
  not looked at.  For every registered signature, every value and every generated function that puts the bytes
  of the value in the buffer, on a file descriptor writer that is without error and whose buffer has room for
  the packet: if the device refuses the packet when it is written at the end, the result is 0, \<^verbatim>\<open>w->error\<close> holds the error of the
  device, and the buffer is empty, so the packet is not kept for another try.
\<close>

theorem encode_reports_success_for_lost_sample:
  assumes "e_acts e = [fdw_action sys_write sys_close]" and "0 < sig_index s"
    and "sa_ok (e_registered e)" and "enc_marks Registered e (sig_index s) \<noteq> 0"
    and "fills (encode [fdw_action sys_write sys_close] v) bs" and "sig_encoded_size s v = int (length bs)"
    and "w_data (e_writer e) = Some d" and "w_count (e_writer e) = length d" and "w_error (e_writer e) = 0"
    and "length (packet_bytes (sig_index s) bs) \<le> length d"
    and "sys_write (fw_dev (e_writer e)) (packet_bytes (sig_index s) bs) = (r, eno, dev')" and "r < 0"
  shows "wp (do_encode s encode v) (\<lambda>result e'. result = 0 \<and> w_error (e_writer e') = - eno \<and>
    fw_dev (e_writer e') = dev' \<and> w_pos (e_writer e') = 0) e"
proof -
  let ?acts = "[fdw_action sys_write sys_close]" and ?hold = "holding (length d) (fw_dev (e_writer e))"
  let ?i = "number_bytes (sig_index s)" and ?n = "number_bytes (int (length bs))"
  have start: "wp (fdw_start i sg v) (\<lambda>result w'. result = 0 \<and> ?hold [] w') (e_writer e)" for i v and sg :: "'b signature option"
    using assms(7-9) by (simp add: fdw_start_def wp_simps holding_def)
  have room: "length ([] @ ?i) \<le> length d" "length (?i @ ?n) \<le> length d" "length ((?i @ ?n) @ bs) \<le> length d"
    using assms(10) by (simp_all add: packet_bytes_def)
  have packet: "packet_bytes (sig_index s) bs = (?i @ ?n) @ bs" by (simp add: packet_bytes_def)
  have one: "wp (labcomm2014_write_packed32 ?acts (u32_of_int (sig_index s))) (\<lambda>result w'. result = 0 \<and> ?hold ?i w') w"
    if "?hold [] w" for w
    using fillsD [OF fills_packed32 that, of "u32_of_int (sig_index s)" ?acts] room(1) by (simp add: number_bytes_def)
  have two: "wp (labcomm2014_write_packed32 ?acts (u32_of_int (int (length bs)))) (\<lambda>result w'. result = 0 \<and> ?hold (?i @ ?n) w') w"
    if "?hold ?i w" for w
    using fillsD [OF fills_packed32 that, of "u32_of_int (int (length bs))" ?acts] room(2) by (simp add: number_bytes_def)
  note three = fillsD [OF assms(5) _ room(3)]
  have four: "wp (fdw_flush sys_write) (\<lambda>_ w'. w_error w' = - eno \<and> fw_dev w' = dev' \<and> w_pos w' = 0) w"
    if "?hold ((?i @ ?n) @ bs) w" for w
    by (rule wp_flush_refused [OF that]) (use assms(11,12) in \<open>simp_all add: packet number_bytes_def\<close>)
  have reg: "enc_marks Registered e (sig_index s) = sa_lookup 0 (e_registered e) (sig_index s)"
    by (simp add: enc_marks_def)
  have sent: "wp (labcomm2014_write_packed32 ?acts (u32_of_int (sig_index s))) (\<lambda>_.
      wp (labcomm2014_write_packed32 ?acts (u32_of_int (int (length bs)))) (\<lambda>x w.
        (x \<noteq> 0 \<longrightarrow> wp (fdw_flush sys_write) (\<lambda>_ _. False) w) \<and>
        (x = 0 \<longrightarrow> wp (encode ?acts v) (\<lambda>x. wp (fdw_flush sys_write)
           (\<lambda>_ w. x = 0 \<and> w_error w = - eno \<and> fw_dev w = dev' \<and> w_pos w = 0)) w))) w" if "?hold [] w" for w
    by (rule wp_mono [OF one [OF that]], rule wp_mono [OF two], simp)
      (auto intro!: wp_mono [OF three] wp_mono [OF four])
  show ?thesis
    using assms(2,4,6)
    unfolding do_encode_def wp_andthen wp_get_local_index Let_def
    by (simp add: wp_simps assms(1,3) reg [symmetric])
      (rule wp_mono [OF start], simp add: wp_simps EALREADY_def assms(1) sent)
qed

theorem encode_reports_success_for_lost_sample_witness:
  "wp (do_encode int_sig encode_int 7) (\<lambda>result e'. result = 0 \<and> w_error (e_writer e') = - EPIPE \<and>
      sd_out (fw_dev (e_writer e')) = [] \<and> w_pos (e_writer e') = 0) ((registered_encoder [])\<lparr>e_writer := big_writer [- 1]\<rparr>)"
proof -
  let ?e = "(registered_encoder [])\<lparr>e_writer := big_writer [- 1]\<rparr>"
  have "length (packet_bytes 64 (be_bytes 4 (7 :: 32 word))) = 6" by code_simp
  moreover have "enc_marks Registered ?e 64 = 1" "e_acts ?e = [fdw_action script_write id]" "sa_ok (e_registered ?e)"
    using registered_encoder_simps(2,4) [of "[]"] registered_encoder_simps(1) [of "[]"]
    by (simp_all add: enc_marks_def enc_inv_def)
  moreover have "fills (encode_int [fdw_action script_write id :: (_, 32 word) writer_action] 7) (be_bytes 4 (7 :: 32 word))"
    unfolding encode_int_def labcomm2014_write_int_def by (rule fills_loop)
  ultimately show ?thesis
    by (intro wp_mono [OF encode_reports_success_for_lost_sample [where bs = "be_bytes 4 (7 :: 32 word)" and sys_write = script_write
          and r = "- 1" and eno = EPIPE and dev' = "\<lparr>sd_out = [], sd_script = []\<rparr>" and d = "replicate 16 0"]])
      (simp_all add: big_writer_def script_writer_def script_write_def)
qed

text \<open>
  Claim C10. Registering a type on any POSIX descriptor: the result 0 means that exactly one type definition
  packet was delivered, in which references to other types are sent as their indices; the two walks
  over the tree data, the one that computes the size (\<^verbatim>\<open>calc_sig_encoded_size\<close>) and the one that writes
  (\<^verbatim>\<open>do_write_signature\<close>), agree, so that both length fields are exact.
\<close>

theorem type_register_delivers:
  assumes "posix_write sys_write delivered" and "enc_inv [fdw_action sys_write sys_close] fdw_safe e"
    and "0 < sig_index s" and "sa_room 4 (sig_index s) (e_typedefs e)" and "enc_marks Typedefs e (sig_index s) = 0"
    and "tree_indexed s" and "int (length (type_def_payload s)) \<le> INT_MAX"
  shows "wp (do_type_register s) (\<lambda>result e'. enc_inv [fdw_action sys_write sys_close] fdw_safe e' \<and>
      enc_marks Typedefs e' = (enc_marks Typedefs e)(sig_index s := 1) \<and>
      e_scheduler e' = e_scheduler e @ [WriterLock, WriterUnlock] \<and> result = w_error (e_writer e') \<and>
      (result = 0 \<longrightarrow> delivered (fw_dev (e_writer e')) = delivered (fw_dev (e_writer e)) @
         packet_bytes LABCOMM_TYPE_DEF (definition_payload (sig_index s) (sig_name s) (tree_bytes s)))) e"
  unfolding do_type_register_def internal_reg_type_def
  by (rule wp_mono [OF posix_write.fd_register [OF assms(1,2)]])
    (use assms(3-7) posix_write.fd_type_def [OF assms(1)] in \<open>auto simp: type_def_payload_def fd_sent_def\<close>)

text \<open>A structure with a field of the type \<open>int_sig\<close>, to which it refers.\<close>

definition struct_sig :: "32 word signature" where
  "struct_sig = Signature [0x73] (\<lambda>_. 4) 4 [0x11, 0x01, 0x00, 0x23] 300 [SigBytes [0x11, 0x01, 0x00], SigRef int_sig]"

lemma struct_sig_simps [simp]: "sig_index struct_sig = 300" "sig_name struct_sig = [0x73]" "tree_indexed struct_sig"
  "tree_bytes struct_sig = [0x11, 0x01, 0x00, 0x40]"
  by (simp_all add: struct_sig_def tree_indexed_def tree_bytes_def item_bytes_def number_bytes_small)

theorem type_register_delivers_witness:
  "wp (do_type_register struct_sig) (\<lambda>result e'. enc_inv [fdw_action script_write id] fdw_safe e' \<and>
      enc_marks Typedefs e' = (enc_marks Typedefs (demo_encoder [3, 1]))(300 := 1) \<and>
      e_scheduler e' = [WriterLock, WriterUnlock] \<and> result = w_error (e_writer e') \<and>
      (result = 0 \<longrightarrow> sd_out (fw_dev (e_writer e')) =
         packet_bytes LABCOMM_TYPE_DEF (definition_payload 300 [0x73] [0x11, 0x01, 0x00, 0x40]))) (demo_encoder [3, 1])"
proof -
  have "length (definition_payload 300 [0x73] [0x11, 0x01, 0x00, 0x40]) = 11" by code_simp
  moreover have "e_typedefs (demo_encoder [3, 1]) = signature_array_init" "e_scheduler (demo_encoder [3, 1]) = []"
    "sd_out (fw_dev (e_writer (demo_encoder [3, 1]))) = []" "sa_room 4 300 (signature_array_init :: int sigarr)"
    by (simp_all add: demo_encoder_def script_writer_def sa_room_def signature_array_init_def INT_MAX_def)
  ultimately show ?thesis
    using type_register_delivers [OF script.posix_write_axioms, of id "demo_encoder [3, 1]" struct_sig]
    by (simp add: type_def_payload_def INT_MAX_def)
qed

text \<open>
  A sample of an unregistered type is refused with \<^verbatim>\<open>-EINVAL\<close>, whatever the writer is and whatever
  the encode function does: nothing is written and nothing changes but the lock calls.
\<close>

theorem encode_unregistered_refused:
  assumes "sa_ok (e_registered e)" and "sig_index s \<noteq> 0" and "enc_marks Registered e (sig_index s) = 0"
  shows "do_encode s encode v e =
    Some (Inr (- EINVAL, e\<lparr>e_scheduler := e_scheduler e @ [WriterLock, WriterUnlock]\<rparr>))"
proof -
  have "signature_array_get (sig_index s) 0 (e_registered e) x = Some (Inr (0, x))" for x :: "('a, 'b) encoder"
    using wp_signature_array_get [OF assms(1), of "sig_index s" 0 "\<lambda>y x'. y = 0 \<and> x' = x" x] assms(3)
    by (auto simp: enc_marks_def wp_def)
  with assms(2) show ?thesis
    by (simp add: do_encode_def labcomm2014_get_local_index_def enc_call_def Let_def prog_simps)
qed

theorem encode_unregistered_refused_witness:
  "do_encode int_sig encode_int 7 (demo_encoder []) =
    Some (Inr (- EINVAL, (demo_encoder [])\<lparr>e_scheduler := [WriterLock, WriterUnlock]\<rparr>))"
proof -
  have "e_registered (demo_encoder []) = signature_array_init" "e_scheduler (demo_encoder []) = []"
    by (simp_all add: demo_encoder_def)
  with encode_unregistered_refused [of "demo_encoder []" int_sig encode_int 7] show ?thesis by simp
qed

section \<open>In a dynamic buffer\<close>

text \<open>
  On a dynamic buffer writer with enough memory a registration always succeeds: the result is 0 and
  the buffer holds exactly the definition packet.
\<close>

theorem dyn_sample_register:
  assumes "enc_inv [dyn_action] dyn_safe e" and "sig_ok s" and "sa_room 4 (sig_index s) (e_registered e)"
    and "enc_marks Registered e (sig_index s) = 0"
  shows "wp (do_sample_register s) (\<lambda>result e'. enc_inv [dyn_action] dyn_safe e' \<and> result = 0 \<and>
      dyn_stream (e_writer e') =
        packet_bytes LABCOMM_SAMPLE_DEF (definition_payload (sig_index s) (sig_name s) (sig_signature s))) e"
proof -
  have "0 < sig_index s" using assms(2) by (simp add: sig_ok_def)
  note reg = dynw.wp_register_once [OF assms(1) this, of Registered "\<lambda>i. write_definition LABCOMM_SAMPLE_DEF i s"]
  show ?thesis
    unfolding do_sample_register_def
    by (rule wp_mono [OF reg [OF _ dynw.esends_definition [OF assms(2)]]])
      (use assms(3,4) in \<open>auto simp: enc_inv_def dyn_safe_def\<close>)
qed

definition dyn_encoder :: "(unit, 32 word) encoder" where
  "dyn_encoder = \<lparr>e_writer = \<lparr>w_memory = generous, w_data = Some (replicate 1000 0), w_data_size = 1000, w_count = 1000,
     w_pos = 0, w_error = 0\<rparr>, e_acts = [dyn_action], e_memory = generous, e_scheduler = [],
     e_registered = signature_array_init, e_sample_ref = signature_array_init, e_typedefs = signature_array_init\<rparr>"

lemma dyn_encoder_inv: "enc_inv [dyn_action] dyn_safe dyn_encoder" "enc_marks Registered dyn_encoder i = 0"
  "sa_room 4 64 (e_registered dyn_encoder)"
proof -
  have "sa_ok (enc_get t dyn_encoder)" for t by (cases t) (simp_all add: dyn_encoder_def)
  then show "enc_inv [dyn_action] dyn_safe dyn_encoder" by (simp add: enc_inv_def dyn_encoder_def dyn_safe_def)
qed (simp_all add: dyn_encoder_def enc_marks_def)

theorem dyn_sample_register_witness:
  "wp (do_sample_register int_sig) (\<lambda>result e'. enc_inv [dyn_action] dyn_safe e' \<and> result = 0 \<and>
      dyn_stream (e_writer e') = packet_bytes LABCOMM_SAMPLE_DEF (definition_payload 64 [0x61, 0x62] [0x23])) dyn_encoder"
  using dyn_sample_register [OF dyn_encoder_inv(1), of int_sig] by (simp add: dyn_encoder_inv(2,3))

end
