(* ===== verification/LC_DecoderProps.thy ===== *)
theory LC_DecoderProps
  imports LC_DecoderSamples LC_EncoderProps
begin

text \<open>
  Properties of the decoder on a file descriptor reader, for every device that behaves like a POSIX
  descriptor, however it cuts the stream into pieces.
\<close>

text \<open>The reader is without error and \<open>s\<close> is still to come.\<close>

definition fd_ready :: "('d \<Rightarrow> byte list) \<Rightarrow> byte list \<Rightarrow> 'd fd_reader \<Rightarrow> bool" where
  "fd_ready pending s r \<longleftrightarrow> fdr_ok r \<and> r_error r = 0 \<and> fd_unread pending r = s"

context posix_read
begin

lemma ready_iff: "fdr.ready s m r \<longleftrightarrow> fd_ready pending s r \<and> r_memory r = m"
  by (auto simp: fdr.ready_def fd_ready_def)

lemma ready_fd: "fd_ready pending s r \<Longrightarrow> fdr.ready s (r_memory r) r"
  by (simp add: ready_iff)

lemmas fd_version = fdr.wp_decode_version_packet
  and fd_no_version = fdr.wp_decode_no_version
  and fd_sample_def = fdr.wp_decode_sample_def
  and fd_sample_def_unmatched = fdr.decode_sample_def_unmatched
  and fd_sample = fdr.wp_decode_sample
  and fd_unknown = fdr.wp_decode_unknown
  and fd_reserved = fdr.wp_decode_reserved
  and fd_run_samples = fdr.wp_run_samples
  and fd_register_sample = fdr.wp_register_sample

end

section \<open>An example decoder\<close>

text \<open>The generated decode function of the type int: it reads the value and calls the handler.\<close>

definition decode_int :: "('z, 32 word) decode_function" where
  "decode_int acts handle =
     andthen (on_feed_reader (labcomm2014_read_int acts)) (\<lambda>v.
     andthen (gets (\<lambda>(r, c). r_error r)) (\<lambda>err.
     if err < 0 then ret () else handle (Sample v)))"

definition int_entry :: "('z, 32 word) sample_entry" where
  "int_entry = \<lparr>se_remote_index = 0, se_signature = Some int_sig, se_decode = Some decode_int,
     se_handler = Some 1, se_context = 2\<rparr>"

definition demo_decoder :: "bool \<Rightarrow> byte list list \<Rightarrow> (byte list list fdr_ext, 32 word) decoder" where
  "demo_decoder ok cs = \<lparr>d_reader = chunk_reader cs, d_acts = [fdr_action chunk_read id], d_memory = generous,
     d_scheduler = [], d_reader_allocated = True, d_version_ok = ok,
     d_local = \<lparr>sa_first = 64, sa_last = 65, sa_data = Some [int_entry]\<rparr>,
     d_remote_to_local = signature_array_init, d_local_ref = signature_array_init,
     d_remote_to_local_ref = signature_array_init, d_calls = []\<rparr>"

lemma demo_decoder_simps [simp]:
  "d_version_ok (demo_decoder ok cs) = ok" "d_reader (demo_decoder ok cs) = chunk_reader cs"
  "d_remote_to_local (demo_decoder ok cs) = signature_array_init" "d_calls (demo_decoder ok cs) = []"
  "d_scheduler (demo_decoder ok cs) = []" "sa_indices (d_local (demo_decoder ok cs)) = [64]"
  "entry_at (demo_decoder ok cs) = (\<lambda>_. no_entry)(64 := int_entry)" "local_of (demo_decoder ok cs) = (\<lambda>_. 0)"
  "se_signature (int_entry :: (byte list list fdr_ext, 32 word) sample_entry) = Some int_sig"
  by (auto simp: demo_decoder_def entry_at_def local_of_def sa_lookup_def fun_eq_iff sa_indices_def upto.simps
      int_entry_def signature_array_init_def)

lemma demo_decoder_inv [simp]: "dec_inv [fdr_action chunk_read id] (demo_decoder ok cs)"
proof -
  have "se_signature (entry_at (demo_decoder ok cs) i) = Some s \<Longrightarrow> sig_sized s" for i s
    by (auto simp: no_entry_def sig_sized_def split: if_splits)
  moreover have "sa_ok (d_local (demo_decoder ok cs))"
    by (simp add: demo_decoder_def sa_ok_def INT_MAX_def)
  ultimately show ?thesis by (simp add: dec_inv_def) (simp add: demo_decoder_def)
qed

lemma chunk_reader_ready: "fd_ready chunk_pending (chunk_pending cs) (chunk_reader cs)"
  by (simp add: fd_ready_def)

section \<open>The version\<close>

text \<open>
  Claim C9. The version handshake: the packet with the current version opens the stream with the result
  \<^verbatim>\<open>LABCOMM_VERSION\<close>, a packet with any other version is answered by \<^verbatim>\<open>-ECONNRESET\<close>; in both cases exactly
  the packet is consumed, the string is freed again, no handler is called and no table changes.
\<close>

theorem version_handshake:
  assumes "posix_read sys_read pending" and "dec_inv [fdr_action sys_read sys_close] d"
    and "fd_ready pending (packet_bytes LABCOMM_VERSION (string_bytes v) @ s) (d_reader d)"
    and "plenty (r_memory (d_reader d))" and "int (length (string_bytes v)) \<le> INT_MAX" and "0 \<notin> set v"
  shows "wp do_decode_one (\<lambda>result d'. dec_inv [fdr_action sys_read sys_close] d' \<and>
      fd_ready pending s (d_reader d') \<and> stray d' = stray d \<and> d_calls d' = d_calls d \<and> same_tables d d' \<and>
      (if v = CURRENT_VERSION then result = LABCOMM_VERSION \<and> d_version_ok d'
       else result = - ECONNRESET \<and> d_version_ok d' = d_version_ok d)) d"
  by (rule wp_mono [OF posix_read.fd_version [OF assms(1,2) posix_read.ready_fd [OF assms(1,3)] assms(4-6)]])
    (auto simp: posix_read.ready_iff [OF assms(1)])

theorem version_handshake_witness:
  "wp do_decode_one (\<lambda>result d'. dec_inv [fdr_action chunk_read id] d' \<and>
      fd_ready chunk_pending [9] (d_reader d') \<and> stray d' = stray (demo_decoder False [version_packet, [9]]) \<and>
      d_calls d' = [] \<and> same_tables (demo_decoder False [version_packet, [9]]) d' \<and> result = LABCOMM_VERSION \<and> d_version_ok d') (demo_decoder False [version_packet, [9]])"
proof -
  have len: "int (length (string_bytes CURRENT_VERSION)) \<le> INT_MAX" and nul: "0 \<notin> set CURRENT_VERSION"
    by code_simp+
  have "fd_ready chunk_pending (packet_bytes LABCOMM_VERSION (string_bytes CURRENT_VERSION) @ [9])
      (d_reader (demo_decoder False [version_packet, [9]]))"
    using chunk_reader_ready [of "[version_packet, [9]]"] by (simp add: chunk_pending_def version_packet_def)
  from version_handshake [OF chunks.posix_read_axioms demo_decoder_inv this _ len nul] show ?thesis by simp
qed

text \<open>
  Claim C11. Before the version was accepted, every packet with another tag is refused with
  \<^verbatim>\<open>-ECONNRESET\<close>: no handler is called and no table is touched.
\<close>

theorem refused_before_version:
  assumes "posix_read sys_read pending" and "dec_inv [fdr_action sys_read sys_close] d" and "\<not> d_version_ok d"
    and "fd_ready pending (packet_bytes tag bs @ s) (d_reader d)" and "int (length bs) \<le> INT_MAX"
    and "INT_MIN \<le> tag" and "tag \<le> INT_MAX" and "tag \<noteq> LABCOMM_VERSION"
  shows "wp do_decode_one (\<lambda>result d'. result = - ECONNRESET \<and> (\<exists>r. d' = d\<lparr>d_reader := r\<rparr>)) d"
  by (rule posix_read.fd_no_version [OF assms(1-3) posix_read.ready_fd [OF assms(1,4)] assms(5-8)])

theorem refused_before_version_witness:
  "wp do_decode_one (\<lambda>result d'. result = - ECONNRESET \<and>
      (\<exists>r. d' = (demo_decoder False [packet_bytes 64 [1]])\<lparr>d_reader := r\<rparr>)) (demo_decoder False [packet_bytes 64 [1]])"
  by (rule refused_before_version [OF chunks.posix_read_axioms demo_decoder_inv, where tag = 64 and bs = "[1]" and s = "[]"])
    (simp_all add: fd_ready_def chunk_pending_def INT_MAX_def INT_MIN_def tag_defs)

section \<open>Definitions\<close>

text \<open>
  Claim C5. A received sample definition whose name and signature are those of the registered sample \<open>i\<close>
  binds the remote index to \<open>i\<close> in both directions: exactly the packet is consumed, the result is the
  remote index, nothing else in the decoder changes, every block allocated on the way is freed and
  the data lock is taken and released once.
\<close>

theorem sample_def_binds:
  assumes "posix_read sys_read pending" and "dec_inv [fdr_action sys_read sys_close] d" and "d_version_ok d"
    and "plenty (r_memory (d_reader d))"
    and "fd_ready pending (packet_bytes LABCOMM_SAMPLE_DEF (definition_payload ri name sig) @ s) (d_reader d)"
    and "def_fits ri name sig" and "sa_room 4 ri (d_remote_to_local d)" and "first_match name sig d = Some i"
  shows "wp do_decode_one (\<lambda>result d'. result = ri \<and> binds ri i d d' \<and> dec_inv [fdr_action sys_read sys_close] d' \<and>
      stray d' = stray d \<and> d_scheduler d' = d_scheduler d @ [DataLock, DataUnlock] \<and>
      fd_ready pending s (d_reader d')) d"
  by (rule wp_mono [OF posix_read.fd_sample_def [OF assms(1-4) posix_read.ready_fd [OF assms(1,5)] assms(6-8)]])
    (auto simp: posix_read.ready_iff [OF assms(1)])

lemma demo_match: "first_match [0x61, 0x62] [0x23] (demo_decoder ok cs) = Some 64"
  by (simp add: first_match_def entry_matches_def)

lemma demo_fits: "def_fits 70 [0x61, 0x62] [0x23]"
  by code_simp

lemma room_70 [simp]: "sa_room 4 70 (signature_array_init :: int sigarr)"
  by (simp add: sa_room_def signature_array_init_def INT_MAX_def)

abbreviation "demo_def \<equiv> packet_bytes LABCOMM_SAMPLE_DEF (definition_payload 70 [0x61, 0x62] [0x23])"

theorem sample_def_binds_witness:
  "wp do_decode_one (\<lambda>result d'. result = 70 \<and> binds 70 64 (demo_decoder True [demo_def]) d' \<and>
      dec_inv [fdr_action chunk_read id] d' \<and> stray d' = stray (demo_decoder True [demo_def]) \<and>
      d_scheduler d' = [DataLock, DataUnlock] \<and> fd_ready chunk_pending [] (d_reader d')) (demo_decoder True [demo_def])"
proof -
  have "fd_ready chunk_pending (demo_def @ []) (d_reader (demo_decoder True [demo_def]))"
    by (simp add: fd_ready_def chunk_pending_def)
  from sample_def_binds [OF chunks.posix_read_axioms demo_decoder_inv _ _ this demo_fits _ demo_match] show ?thesis
    by simp
qed

text \<open>
  A received sample definition that matches no registered sample does not return an error to the
  caller: when some sample is registered, \<^verbatim>\<open>labcomm2014_error_warning\<close> ends the process; when none ever was,
  \<^verbatim>\<open>handle_sample_def\<close> returns a variable that was never set.
\<close>

theorem sample_def_unmatched_stops:
  assumes "posix_read sys_read pending" and "dec_inv [fdr_action sys_read sys_close] d" and "d_version_ok d"
    and "plenty (r_memory (d_reader d))"
    and "fd_ready pending (packet_bytes LABCOMM_SAMPLE_DEF (definition_payload ri name sig) @ s) (d_reader d)"
    and "def_fits ri name sig" and "first_match name sig d = None"
  shows "do_decode_one d = Some (Inl (if sa_indices (d_local d) = [] then Undef
           else Exit LABCOMM2014_ERROR_DEC_NO_REG_SIGNATURE))"
  by (rule posix_read.fd_sample_def_unmatched [OF assms(1-4) posix_read.ready_fd [OF assms(1,5)] assms(6,7)])

theorem sample_def_unmatched_stops_witness:
  "do_decode_one (demo_decoder True [packet_bytes LABCOMM_SAMPLE_DEF (definition_payload 70 [0x63] [0x23])]) =
     Some (Inl (Exit LABCOMM2014_ERROR_DEC_NO_REG_SIGNATURE))"
proof -
  let ?p = "packet_bytes LABCOMM_SAMPLE_DEF (definition_payload 70 [0x63] [0x23])"
  have r: "fd_ready chunk_pending (?p @ []) (d_reader (demo_decoder True [?p]))"
    by (simp add: fd_ready_def chunk_pending_def)
  have fits: "def_fits 70 [0x63] [0x23]" by code_simp
  have "first_match [0x63] [0x23] (demo_decoder True [?p]) = None"
    by (simp add: first_match_def entry_matches_def)
  from sample_def_unmatched_stops [OF chunks.posix_read_axioms demo_decoder_inv _ _ r fits this] show ?thesis by simp
qed

section \<open>Samples\<close>

text \<open>
  Claim C6. A received sample whose remote index is bound to the registered sample \<open>i\<close>, for every generated
  decode function that reads the bytes of the value: the handler of \<open>i\<close> is called exactly once, with
  the value and the registered context, exactly the packet is consumed, and the result is \<open>i\<close>.
\<close>

theorem sample_calls_handler:
  assumes "posix_read sys_read pending" and "dec_inv [fdr_action sys_read sys_close] d" and "d_version_ok d"
    and "fd_ready pending (packet_bytes ri bs @ s) (d_reader d)" and "int (length bs) \<le> INT_MAX"
    and "LABCOMM_USER \<le> ri" and "ri \<le> INT_MAX" and "local_of d ri = i" and "i \<noteq> 0"
    and "se_decode (entry_at d i) = Some f" and "se_handler (entry_at d i) = Some h"
    and "reader_source.decodes [fdr_action sys_read sys_close] fdr_ok (fd_unread pending) f v bs"
  shows "wp do_decode_one (\<lambda>result d'. result = i \<and> fd_ready pending s (d_reader d') \<and>
      dec_inv [fdr_action sys_read sys_close] d' \<and>
      d_calls d' = d_calls d @ [\<lparr>hc_handler = h, hc_context = se_context (entry_at d i), hc_value = v\<rparr>] \<and>
      entry_at d' = entry_at d \<and> local_of d' = local_of d \<and> stray d' = stray d \<and>
      d_scheduler d' = d_scheduler d @ [DataLock, DataUnlock]) d"
  by (rule wp_mono [OF posix_read.fd_sample [OF assms(1-3) posix_read.ready_fd [OF assms(1,4)] assms(5-12)]])
    (auto simp: posix_read.ready_iff [OF assms(1)])

text \<open>The decode function of the type int meets the assumption.\<close>

lemma decode_int_decodes:
  "reader_source.decodes [fdr_action chunk_read id] fdr_ok (fd_unread chunk_pending) decode_int (Sample v) (be_bytes 4 v)"
  unfolding chunks.fdr.decodes_def
proof (intro allI impI)
  fix handle :: "32 word handled \<Rightarrow> ((byte list list fdr_ext, 32 word) feed, unit) prog"
    and Q s m c and r :: "byte list list fd_reader"
  assume r: "chunks.fdr.ready (be_bytes 4 v @ s) m r"
    and call: "\<forall>r'. chunks.fdr.ready s m r' \<longrightarrow> wp (handle (Sample v)) Q (r', c)"
  have "wp (labcomm2014_read_int [fdr_action chunk_read id :: (_, 32 word) reader_action]) (\<lambda>y r'. y = v \<and> chunks.fdr.ready s m r') r"
    unfolding labcomm2014_read_int_def by (rule chunks.fdr.wp_read_scalar [OF r]) simp
  then show "wp (decode_int [fdr_action chunk_read id] handle) Q (r, c)"
    unfolding decode_int_def on_feed_reader_def wp_andthen wp_zoom wp_gets fst_conv
    by (rule wp_mono) (use call in \<open>auto simp: chunks.fdr.ready_def\<close>)
qed

definition bound_decoder :: "byte list list \<Rightarrow> (byte list list fdr_ext, 32 word) decoder" where
  "bound_decoder cs = (demo_decoder True cs)\<lparr>d_remote_to_local := \<lparr>sa_first = 70, sa_last = 71, sa_data = Some [64]\<rparr>\<rparr>"

lemma bound_decoder_simps [simp]:
  "d_version_ok (bound_decoder cs)" "d_reader (bound_decoder cs) = chunk_reader cs" "d_calls (bound_decoder cs) = []"
  "d_scheduler (bound_decoder cs) = []" "entry_at (bound_decoder cs) = (\<lambda>_. no_entry)(64 := int_entry)"
  "local_of (bound_decoder cs) = (\<lambda>_. 0)(70 := 64)"
  by (auto simp: bound_decoder_def entry_at_def local_of_def fun_eq_iff sa_lookup_def)
    (auto simp: demo_decoder_def)

lemma bound_decoder_inv [simp]: "dec_inv [fdr_action chunk_read id] (bound_decoder cs)"
  using demo_decoder_inv [of True cs]
  by (simp add: dec_inv_def entry_at_def bound_decoder_def) (simp add: sa_ok_def INT_MAX_def)

lemma int_entry_simps [simp]:
  "se_decode (int_entry :: ('z, 32 word) sample_entry) = Some decode_int"
  "se_handler (int_entry :: ('z, 32 word) sample_entry) = Some 1"
  "se_context (int_entry :: ('z, 32 word) sample_entry) = 2"
  by (simp_all add: int_entry_def)

theorem sample_calls_handler_witness:
  "wp do_decode_one (\<lambda>result d'. result = 64 \<and> fd_ready chunk_pending [] (d_reader d') \<and>
      dec_inv [fdr_action chunk_read id] d' \<and>
      d_calls d' = [\<lparr>hc_handler = 1, hc_context = 2, hc_value = Sample 7\<rparr>] \<and>
      entry_at d' = (\<lambda>_. no_entry)(64 := int_entry) \<and> local_of d' = (\<lambda>_. 0)(70 := 64) \<and>
      stray d' = stray (bound_decoder [packet_bytes 70 (be_bytes 4 (7 :: 32 word))]) \<and>
      d_scheduler d' = [DataLock, DataUnlock]) (bound_decoder [packet_bytes 70 (be_bytes 4 (7 :: 32 word))])"
proof -
  let ?p = "packet_bytes 70 (be_bytes 4 (7 :: 32 word))"
  have r: "fd_ready chunk_pending (?p @ []) (d_reader (bound_decoder [?p]))"
    by (simp add: fd_ready_def chunk_pending_def)
  from sample_calls_handler [OF chunks.posix_read_axioms bound_decoder_inv _ r, of 64, OF _ _ _ _ _ _ _ _ decode_int_decodes]
  show ?thesis by (simp add: tag_defs INT_MAX_def)
qed

text \<open>
  Claim C2. \<^verbatim>\<open>labcomm2014_decoder_run\<close> over a stream of any number of samples of one type returns at the end
  of the stream, and until then the handler was called with every value of the stream, in order, and
  with nothing else; no memory is lost.
\<close>

theorem run_delivers_samples_in_order:
  assumes "posix_read sys_read pending" and "dec_inv [fdr_action sys_read sys_close] d" and "d_version_ok d"
    and "fd_ready pending (concat (map (\<lambda>v. packet_bytes ri (enc v)) vs)) (d_reader d)"
    and "\<forall>v\<in>set vs. int (length (enc v)) \<le> INT_MAX \<and>
           reader_source.decodes [fdr_action sys_read sys_close] fdr_ok (fd_unread pending) f (Sample v) (enc v)"
    and "LABCOMM_USER \<le> ri" and "ri \<le> INT_MAX" and "local_of d ri = i" and "0 < i"
    and "se_decode (entry_at d i) = Some f" and "se_handler (entry_at d i) = Some h" and "se_context (entry_at d i) = ctx"
  shows "wp labcomm2014_decoder_run (\<lambda>_ d'.
      d_calls d' = d_calls d @ map (\<lambda>v. \<lparr>hc_handler = h, hc_context = ctx, hc_value = Sample v\<rparr>) vs \<and>
      stray d' = stray d) d"
  by (rule posix_read.fd_run_samples [OF assms(1-3) posix_read.ready_fd [OF assms(1,4)] assms(5-12)])

theorem run_delivers_samples_in_order_witness:
  "wp labcomm2014_decoder_run (\<lambda>_ d'. d_calls d' =
        [\<lparr>hc_handler = 1, hc_context = 2, hc_value = Sample 7\<rparr>, \<lparr>hc_handler = 1, hc_context = 2, hc_value = Sample 8\<rparr>] \<and>
      stray d' = stray (bound_decoder [packet_bytes 70 (be_bytes 4 (7 :: 32 word)), packet_bytes 70 (be_bytes 4 (8 :: 32 word))]))
    (bound_decoder [packet_bytes 70 (be_bytes 4 (7 :: 32 word)), packet_bytes 70 (be_bytes 4 (8 :: 32 word))])"
proof -
  let ?d = "bound_decoder [packet_bytes 70 (be_bytes 4 (7 :: 32 word)), packet_bytes 70 (be_bytes 4 (8 :: 32 word))]"
  have "fd_ready chunk_pending (concat (map (\<lambda>v. packet_bytes 70 (be_bytes 4 v)) [7, 8 :: 32 word])) (d_reader ?d)"
    by (simp add: fd_ready_def chunk_pending_def)
  from run_delivers_samples_in_order [OF chunks.posix_read_axioms bound_decoder_inv _ this, of decode_int 64 1 2]
  show ?thesis by (simp add: tag_defs INT_MAX_def decode_int_decodes)
qed

section \<open>Other packets\<close>

text \<open>
  Claim C33. A sample whose index was never defined is answered by \<^verbatim>\<open>-ENOENT\<close> and calls no handler, but its
  payload is not skipped: it stays in the reader, where the next call takes it for the start of a
  packet.
\<close>

theorem unknown_sample_keeps_payload:
  assumes "posix_read sys_read pending" and "dec_inv [fdr_action sys_read sys_close] d" and "d_version_ok d"
    and "fd_ready pending (packet_bytes ri bs @ s) (d_reader d)" and "int (length bs) \<le> INT_MAX"
    and "LABCOMM_USER \<le> ri" and "ri \<le> INT_MAX" and "local_of d ri = 0" and "sa_room 4 ri (d_remote_to_local d)"
  shows "wp do_decode_one (\<lambda>result d'. result = - ENOENT \<and> fd_ready pending (bs @ s) (d_reader d') \<and>
      d_calls d' = d_calls d) d"
  by (rule wp_mono [OF posix_read.fd_unknown [OF assms(1-3) posix_read.ready_fd [OF assms(1,4)] assms(5-9)]])
    (auto simp: posix_read.ready_iff [OF assms(1)])

theorem unknown_sample_keeps_payload_witness:
  "wp do_decode_one (\<lambda>result d'. result = - ENOENT \<and> fd_ready chunk_pending [1, 2] (d_reader d') \<and> d_calls d' = [])
    (demo_decoder True [packet_bytes 70 [1, 2]])"
proof -
  have "fd_ready chunk_pending (packet_bytes 70 [1, 2] @ []) (d_reader (demo_decoder True [packet_bytes 70 [1, 2]]))"
    by (simp add: fd_ready_def chunk_pending_def)
  from unknown_sample_keeps_payload [OF chunks.posix_read_axioms demo_decoder_inv _ this] show ?thesis
    by (simp add: tag_defs INT_MAX_def)
qed

text \<open>
  A packet with a reserved tag that has no meaning is skipped: exactly the announced number of bytes
  is consumed, the result is the tag, and nothing but the reader changes.
\<close>

theorem reserved_tag_skipped:
  assumes "posix_read sys_read pending" and "dec_inv [fdr_action sys_read sys_close] d" and "d_version_ok d"
    and "fd_ready pending (packet_bytes tag bs @ s) (d_reader d)" and "int (length bs) \<le> INT_MAX"
    and "LABCOMM_TYPE_BINDING < tag" and "tag < LABCOMM_PRAGMA"
  shows "wp do_decode_one (\<lambda>result d'. result = tag \<and> (\<exists>r. d' = d\<lparr>d_reader := r\<rparr> \<and> fd_ready pending s r)) d"
  by (rule wp_mono [OF posix_read.fd_reserved [OF assms(1-3) posix_read.ready_fd [OF assms(1,4)] assms(5-7)]])
    (auto simp: posix_read.ready_iff [OF assms(1)])

theorem reserved_tag_skipped_witness:
  "wp do_decode_one (\<lambda>result d'. result = 9 \<and>
      (\<exists>r. d' = (demo_decoder True [packet_bytes 9 [1, 2], [3]])\<lparr>d_reader := r\<rparr> \<and> fd_ready chunk_pending [3] r))
    (demo_decoder True [packet_bytes 9 [1, 2], [3]])"
proof -
  have "fd_ready chunk_pending (packet_bytes 9 [1, 2] @ [3]) (d_reader (demo_decoder True [packet_bytes 9 [1, 2], [3]]))"
    by (simp add: fd_ready_def chunk_pending_def)
  from reserved_tag_skipped [OF chunks.posix_read_axioms demo_decoder_inv _ this] show ?thesis
    by (simp add: tag_defs INT_MAX_def)
qed

end
