(* ===== verification/LC_Session.thy ===== *)
theory LC_Session
  imports LC_DecoderProps
begin

text \<open>
  A whole session: an encoder that announces a type and sends samples of it, and a decoder that has
  registered the type and runs until the end of the stream.
\<close>

fun encode_all :: "'v signature \<Rightarrow> ('z, 'v) encode_function \<Rightarrow> 'v list \<Rightarrow> (('z, 'v) encoder, unit) prog" where
  "encode_all s encode [] = ret ()"
| "encode_all s encode (v # vs) = andthen (do_encode s encode v) (\<lambda>_. encode_all s encode vs)"

definition send_session :: "'v signature \<Rightarrow> ('z, 'v) encode_function \<Rightarrow> 'v list \<Rightarrow> (('z, 'v) encoder, unit) prog" where
  "send_session s encode vs = andthen (do_sample_register s) (\<lambda>_. encode_all s encode vs)"

text \<open>The bytes of the session.\<close>

definition session_bytes :: "'v signature \<Rightarrow> ('v \<Rightarrow> byte list) \<Rightarrow> 'v list \<Rightarrow> byte list" where
  "session_bytes s enc vs = version_packet @
     packet_bytes LABCOMM_SAMPLE_DEF (definition_payload (sig_index s) (sig_name s) (sig_signature s)) @
     concat (map (\<lambda>v. packet_bytes (sig_index s) (enc v)) vs)"

section \<open>The sender\<close>

context posix_write
begin

lemma wp_encode_all:
  assumes "enc_inv [fdw_action sys_write sys_close] fdw_safe e" and "0 < sig_index s"
    and "enc_marks Registered e (sig_index s) \<noteq> 0"
    and "\<forall>v\<in>set vs. fdw.writes (encode [fdw_action sys_write sys_close] v) (enc v) \<and>
           sig_encoded_size s v = int (length (enc v))"
  shows "wp (encode_all s encode vs) (\<lambda>_ e'. w_error (e_writer e') = 0 \<longrightarrow> w_error (e_writer e) = 0 \<and>
      fd_sent delivered (e_writer e') = fd_sent delivered (e_writer e) @
        concat (map (\<lambda>v. packet_bytes (sig_index s) (enc v)) vs)) e"
  using assms
proof (induction vs arbitrary: e)
  case Nil
  then show ?case by (simp add: wp_simps)
next
  case (Cons v vs)
  have v: "fdw.writes (encode [fdw_action sys_write sys_close] v) (enc v)" "sig_encoded_size s v = int (length (enc v))"
    using Cons.prems(4) by simp_all
  note one = fdw.wp_do_encode [where encode = encode and v = v, OF Cons.prems(1,2) v]
  show ?case
    unfolding encode_all.simps wp_andthen
  proof (rule wp_mono [OF one], elim conjE, goal_cases)
    case (1 result e1)
    then have "enc_marks Registered e1 (sig_index s) \<noteq> 0" using Cons.prems(3) by simp
    from Cons.IH [OF 1(1) Cons.prems(2) this] Cons.prems(4)
    have "wp (encode_all s encode vs) (\<lambda>_ e'. w_error (e_writer e') = 0 \<longrightarrow> w_error (e_writer e1) = 0 \<and>
        fd_sent delivered (e_writer e') = fd_sent delivered (e_writer e1) @
          concat (map (\<lambda>v. packet_bytes (sig_index s) (enc v)) vs)) e1" by simp
    then show ?case by (rule wp_mono) (use 1 Cons.prems(3) in auto)
  qed
qed

lemma wp_send_session:
  assumes "enc_inv [fdw_action sys_write sys_close] fdw_safe e" and "sig_ok s"
    and "sa_room 4 (sig_index s) (e_registered e)" and "enc_marks Registered e (sig_index s) = 0"
    and "\<forall>v\<in>set vs. fdw.writes (encode [fdw_action sys_write sys_close] v) (enc v) \<and>
           sig_encoded_size s v = int (length (enc v))"
  shows "wp (send_session s encode vs) (\<lambda>_ e'. w_error (e_writer e') = 0 \<longrightarrow> w_error (e_writer e) = 0 \<and>
      fd_sent delivered (e_writer e') = fd_sent delivered (e_writer e) @
        packet_bytes LABCOMM_SAMPLE_DEF (definition_payload (sig_index s) (sig_name s) (sig_signature s)) @
        concat (map (\<lambda>v. packet_bytes (sig_index s) (enc v)) vs)) e"
proof -
  have pos: "0 < sig_index s" using assms(2) by (simp add: sig_ok_def)
  have room: "sa_room 4 (sig_index s) (enc_get Registered e)" using assms(3) by simp
  note reg = fdw.wp_register_once [where body = "\<lambda>i. write_definition LABCOMM_SAMPLE_DEF i s", OF assms(1) pos room
      fdw.esends_definition [OF assms(2)]]
  show ?thesis
    unfolding send_session_def do_sample_register_def wp_andthen
  proof (rule wp_mono [OF reg], elim conjE, goal_cases)
    case (1 result e1)
    then have "enc_marks Registered e1 (sig_index s) \<noteq> 0" using assms(4) by simp
    from wp_encode_all [where encode = encode and enc = enc, OF 1(1) pos this assms(5)] show ?case
      by (rule wp_mono) (use 1 assms(4) in auto)
  qed
qed

lemma wp_new_session:
  assumes "plenty m" and "plenty (w_memory w)" and "delivered (fw_dev w) = []"
    and "sig_ok s" and "LABCOMM_USER \<le> sig_index s" and "0 \<notin> set (sig_name s)"
    and "sa_room 4 (sig_index s) signature_array_init"
    and "\<forall>v\<in>set vs. fdw.writes (encode [fdw_action sys_write sys_close] v) (enc v) \<and>
           sig_encoded_size s v = int (length (enc v))"
  shows "wp (labcomm2014_encoder_new w [fdw_action sys_write sys_close]) (\<lambda>eo _. \<exists>e. eo = Some e \<and>
      wp (send_session s encode vs) (\<lambda>_ e'. w_error (e_writer e') = 0 \<longrightarrow>
        delivered (fw_dev (e_writer e')) = session_bytes s enc vs) e) m"
proof (rule wp_mono [OF fd_encoder_new [OF assms(1,2)]], elim exE conjE, goal_cases)
  case (1 eo m' e)
  have "enc_get Registered e = signature_array_init" using 1(3) by blast
  then have room: "sa_room 4 (sig_index s) (e_registered e)"
    using assms(7) by (simp add: sa_room_def signature_array_init_def)
  note send = wp_send_session [where encode = encode and enc = enc and vs = vs, OF 1(2) assms(4) room _ assms(8)]
  have "wp (send_session s encode vs) (\<lambda>_ e'. w_error (e_writer e') = 0 \<longrightarrow>
      delivered (fw_dev (e_writer e')) = session_bytes s enc vs) e"
    by (rule wp_mono [OF send]) (use 1(4,5) assms(3) in \<open>auto simp: session_bytes_def fd_sent_def\<close>)
  then show ?case using 1(1) by blast
qed

end

section \<open>The receiver\<close>

text \<open>The application side of the decoder: it registers its type and runs the decoder.\<close>

definition receive_session ::
    "'v signature \<Rightarrow> ('z, 'v) decode_function \<Rightarrow> nat \<Rightarrow> nat \<Rightarrow> (('z, 'v) decoder, unit) prog" where
  "receive_session t f h ctx = andthen (do_register_sample t f h ctx) (\<lambda>_. labcomm2014_decoder_run)"

lemma first_match_unique:
  assumes "entry_matches name sig (entry_at d i)" and "\<And>j. entry_matches name sig (entry_at d j) \<Longrightarrow> j = i"
  shows "first_match name sig d = Some i"
proof -
  have "sa_in i (d_local d)"
    using assms(1) by (auto simp: entry_at_def entry_matches_def sa_lookup_def sa_in_def no_entry_def split: if_splits option.splits)
  then have "i \<in> set (sa_indices (d_local d))" by (simp add: sa_indices_in)
  with assms show ?thesis
    unfolding first_match_def
    by (metis (mono_tags, lifting) find_None_iff find_Some_iff2 not_None_eq)
qed

context posix_read
begin

lemma wp_receive_session:
  assumes "dec_inv [fdr_action sys_read sys_close] d" and "plenty (r_memory (d_reader d))"
    and "fd_ready pending (session_bytes s enc vs) (d_reader d)"
    and "def_fits (sig_index s) (sig_name s) (sig_signature s)" and "LABCOMM_USER \<le> sig_index s"
    and "sa_room 4 (sig_index s) (d_remote_to_local d)"
    and "first_match (sig_name s) (sig_signature s) d = Some i" and "0 < i"
    and "se_decode (entry_at d i) = Some f" and "se_handler (entry_at d i) = Some h" and "se_context (entry_at d i) = ctx"
    and "\<forall>v\<in>set vs. int (length (enc v)) \<le> INT_MAX \<and> fdr.decodes sys_close f (Sample v) (enc v)"
  shows "wp labcomm2014_decoder_run (\<lambda>_ d'.
      d_calls d' = d_calls d @ map (\<lambda>v. \<lparr>hc_handler = h, hc_context = ctx, hc_value = Sample v\<rparr>) vs \<and>
      stray d' = stray d) d"
proof -
  let ?acts = "[fdr_action sys_read sys_close]" and ?ri = "sig_index s"
  let ?samples = "concat (map (\<lambda>v. packet_bytes ?ri (enc v)) vs)"
  let ?def = "packet_bytes LABCOMM_SAMPLE_DEF (definition_payload ?ri (sig_name s) (sig_signature s))"
  have ver: "int (length (string_bytes CURRENT_VERSION)) \<le> INT_MAX" "0 \<notin> set CURRENT_VERSION" by code_simp+
  have r: "fdr.ready (packet_bytes LABCOMM_VERSION (string_bytes CURRENT_VERSION) @ ?def @ ?samples)
      (r_memory (d_reader d)) (d_reader d)"
    using assms(3) by (simp add: ready_iff session_bytes_def version_packet_def)
  show ?thesis
  proof (rule fdr.wp_decoder_run, rule wp_mono [OF fdr.wp_decode_version_packet [OF assms(1) r assms(2) ver]], goal_cases)
    case (1 result d1)
    let ?m1 = "r_memory (d_reader d1)"
    have d1: "dec_inv ?acts d1" "d_version_ok d1" "plenty ?m1" "0 < result" "stray d1 = stray d" "d_calls d1 = d_calls d"
      and r1: "fdr.ready (?def @ ?samples) ?m1 (d_reader d1)"
      and same: "entry_at d1 = entry_at d" "d_local d1 = d_local d" "d_remote_to_local d1 = d_remote_to_local d"
        "local_of d1 = local_of d"
      using 1 assms(2) by (auto simp: tag_defs fdr.ready_def same_tables_def entry_at_def local_of_def)
    have match: "first_match (sig_name s) (sig_signature s) d1 = Some i" and room: "sa_room 4 ?ri (d_remote_to_local d1)"
      using assms(6,7) same by (simp_all add: first_match_def)
    have "wp labcomm2014_decoder_run (\<lambda>_ d'.
        d_calls d' = d_calls d @ map (\<lambda>v. \<lparr>hc_handler = h, hc_context = ctx, hc_value = Sample v\<rparr>) vs \<and>
        stray d' = stray d) d1"
    proof (rule fdr.wp_decoder_run, rule wp_mono [OF fdr.wp_decode_sample_def [OF d1(1-3) r1 assms(4) room match]], goal_cases)
      case (1 result d2)
      let ?m2 = "r_memory (d_reader d2)"
      have r2: "fdr.ready ?samples ?m2 (d_reader d2)" and "0 < result" and d2: "dec_inv ?acts d2" "d_version_ok d2"
        "local_of d2 ?ri = i" "se_decode (entry_at d2 i) = Some f" "se_handler (entry_at d2 i) = Some h"
        "se_context (entry_at d2 i) = ctx" "d_calls d2 = d_calls d" "stray d2 = stray d"
        using 1 d1 same assms(5,9-11) by (auto simp: binds_def fdr.ready_def tag_defs)
      moreover have "?ri \<le> INT_MAX" using assms(4) by (simp add: def_fits_def)
      ultimately show ?case
        using fdr.wp_run_samples [OF d2(1,2) r2 assms(12,5) _ d2(3) assms(8) d2(4-6)] by simp
    qed
    then show ?case using d1(4) by simp
  qed
qed

text \<open>Creating a decoder and registering the first sample, which allocates the buffer of the reader.\<close>

lemma fd_decoder_new:
  assumes "plenty m"
  shows "wp (labcomm2014_decoder_new r acts) (\<lambda>dd _. \<exists>m'. plenty m' \<and> dd = Some
      \<lparr>d_reader = r\<lparr>r_data := None, r_data_size := 0, r_count := 0, r_pos := 0, r_error := 0\<rparr>,
       d_acts = acts, d_memory = m', d_scheduler = [], d_reader_allocated = False, d_version_ok = False,
       d_local = signature_array_init, d_remote_to_local = signature_array_init,
       d_local_ref = signature_array_init, d_remote_to_local_ref = signature_array_init, d_calls = []\<rparr>) m"
  using assms by (auto simp: labcomm2014_decoder_new_def wp_simps)

lemma wp_first_register:
  assumes "\<not> d_reader_allocated d" and "d_acts d = [fdr_action sys_read sys_close]"
    and "plenty (r_memory (d_reader d))" and "r_error (d_reader d) = 0" and "0 < sig_index t" and "sig_sized t"
    and "sa_room entry_size (sig_index t) (d_local d)"
    and "\<And>r. dec_inv [fdr_action sys_read sys_close] (d\<lparr>d_reader := r, d_reader_allocated := True\<rparr>)"
  shows "wp (do_register_sample t f h ctx) (\<lambda>result d'. result = sig_index t \<and>
      dec_inv [fdr_action sys_read sys_close] d' \<and> plenty (r_memory (d_reader d')) \<and>
      fd_ready pending (pending (fr_dev (d_reader d))) (d_reader d') \<and>
      entry_at d' = (entry_at d)(sig_index t := \<lparr>se_remote_index = 0, se_signature = Some t, se_decode = Some f,
                                                 se_handler = Some h, se_context = ctx\<rparr>) \<and>
      d_remote_to_local d' = d_remote_to_local d \<and> d_calls d' = d_calls d) d"
proof -
  have "wp fdr_alloc (\<lambda>_ r. fdr_ok r \<and> r_error r = 0 \<and> fr_dev r = fr_dev (d_reader d) \<and> r_count r = 0 \<and>
      plenty (r_memory r)) (d_reader d)"
    by (rule wp_mono [OF fdr_alloc_ok [OF assms(3,4)]]) (use assms(3) in auto)
  then obtain n r where run: "fdr_alloc (d_reader d) = Some (Inr (n, r))"
    and r: "fdr_ok r" "r_error r = 0" "fr_dev r = fr_dev (d_reader d)" "r_count r = 0" "plenty (r_memory r)"
    by (auto elim!: wpE)
  let ?d = "d\<lparr>d_reader := r, d_reader_allocated := True\<rparr>"
  have alloc: "reader_alloc d = Some (Inr ((), ?d))"
    using assms(1,2) run by (simp add: reader_alloc_def on_reader_def prog_simps)
  have "do_register_sample t f h ctx d = do_register_sample t f h ctx ?d"
    by (simp add: do_register_sample_def andthen_run [of reader_alloc, OF alloc]
        andthen_run [of reader_alloc, OF reader_alloc_run])
  moreover have "fd_ready pending (pending (fr_dev (d_reader d))) r"
    using r by (auto simp: fd_ready_def fd_unread_def split: option.splits)
  ultimately show ?thesis
    using fdr.wp_register_sample [of sys_close ?d t f h ctx, OF assms(8) _ assms(5,6)] r assms(7)
    by (auto simp: wp_def entry_at_def)
qed

lemma wp_fresh_session:
  fixes s t :: "'v signature"
  assumes "plenty m" and "plenty (r_memory r)" and "pending (fr_dev r) = session_bytes s enc vs"
    and "sig_ok s" and "LABCOMM_USER \<le> sig_index s" and "0 \<notin> set (sig_name s)"
    and "sa_room 4 (sig_index s) signature_array_init"
    and "sig_name t = sig_name s" and "sig_signature t = sig_signature s" and "sig_sized t" and "0 < sig_index t"
    and "sa_room entry_size (sig_index t) signature_array_init"
    and "\<forall>v\<in>set vs. int (length (enc v)) \<le> INT_MAX \<and> fdr.decodes sys_close f (Sample v) (enc v)"
  shows "wp (labcomm2014_decoder_new r [fdr_action sys_read sys_close]) (\<lambda>dd _. \<exists>d. dd = Some d \<and>
      wp (receive_session t f h ctx) (\<lambda>_ d'.
        d_calls d' = map (\<lambda>v. \<lparr>hc_handler = h, hc_context = ctx, hc_value = Sample v\<rparr>) vs) d) m"
proof (rule wp_mono [OF fd_decoder_new [OF assms(1)]], elim exE conjE, goal_cases)
  case (1 dd m1 m')
  let ?d = "\<lparr>d_reader = r\<lparr>r_data := None, r_data_size := 0, r_count := 0, r_pos := 0, r_error := 0\<rparr>,
     d_acts = [fdr_action sys_read sys_close :: (_, 'v) reader_action], d_memory = m', d_scheduler = [], d_reader_allocated = False,
     d_version_ok = False, d_local = signature_array_init, d_remote_to_local = signature_array_init,
     d_local_ref = signature_array_init, d_remote_to_local_ref = signature_array_init, d_calls = []\<rparr>"
  have empty: "entry_at (?d\<lparr>d_reader := ra, d_reader_allocated := ba\<rparr>) = (\<lambda>_. no_entry)" for ra ba
    by (simp add: entry_at_def fun_eq_iff)
  have inv: "dec_inv [fdr_action sys_read sys_close] (?d\<lparr>d_reader := r', d_reader_allocated := True\<rparr>)" for r'
    using 1(1) empty [of True r'] by (simp add: dec_inv_def no_entry_def)
  have "wp (receive_session t f h ctx) (\<lambda>_ d'.
        d_calls d' = map (\<lambda>v. \<lparr>hc_handler = h, hc_context = ctx, hc_value = Sample v\<rparr>) vs) ?d"
    unfolding receive_session_def wp_andthen
  proof (rule wp_mono [OF wp_first_register [where sys_close = sys_close]], goal_cases)
    case (9 result d1)
    then have entries: "entry_at d1 = (\<lambda>_. no_entry)(sig_index t := \<lparr>se_remote_index = 0, se_signature = Some t,
        se_decode = Some f, se_handler = Some h, se_context = ctx\<rparr>)"
      and d1: "dec_inv [fdr_action sys_read sys_close] d1" "plenty (r_memory (d_reader d1))"
        "fd_ready pending (session_bytes s enc vs) (d_reader d1)" "d_calls d1 = []"
        "d_remote_to_local d1 = signature_array_init"
      using empty [of False "d_reader ?d"] assms(3) by simp_all
    have match: "first_match (sig_name s) (sig_signature s) d1 = Some (sig_index t)"
      by (rule first_match_unique)
        (use assms(8,9) in \<open>auto simp: entries entry_matches_def no_entry_def split: if_splits option.splits\<close>)
    have fits: "def_fits (sig_index s) (sig_name s) (sig_signature s)"
      using assms(4,6) by (auto simp: def_fits_def sig_ok_def INT_MIN_def ENOENT_def)
    have room: "sa_room 4 (sig_index s) (d_remote_to_local d1)" using assms(7) d1(5) by (simp add: sa_room_def signature_array_init_def)
    show ?case
      by (rule wp_mono [OF wp_receive_session [where f = f and h = h and ctx = ctx and enc = enc and vs = vs,
              OF d1(1-3) fits assms(5) room match assms(11)]])
        (use entries d1(4) assms(13) in auto)
  qed (use assms(2,10-12) inv in \<open>auto simp: sa_room_def signature_array_init_def\<close>)
  then show ?case using 1(2) by auto
qed

end

end
