(* ===== verification/LC_Renaming.thy ===== *)
theory LC_Renaming
  imports LC_SigArray LC_Signature LC_Scheduler
begin

text \<open>
  The renaming registry (\<^verbatim>\<open>labcomm2014_renaming_registry.c\<close>, \<^verbatim>\<open>labcomm2014_renaming.c\<close>): it makes
  renamed copies of signatures and shares them, with a use count, among the encoders and decoders
  that ask for the same new name of the same base signature.

  The structures are linked by pointers and freed one by one, so they live in an explicit store:
  \<^verbatim>\<open>struct registry\<close> objects in \<open>rr_entries\<close> and \<^verbatim>\<open>struct labcomm2014_renaming_rename\<close> objects in
  \<open>rr_renames\<close>, by address.  Access to an object that is not (or no longer) there is undefined
  behaviour.  A pointer to a signature is the (constant) signature itself.  The static variables
  \<^verbatim>\<open>base\<close> and \<^verbatim>\<open>renamed\<close> of \<^verbatim>\<open>labcomm2014_renaming_rename_new\<close> are assigned before they are used and
  are modelled as local ones.
\<close>

section \<open>Renaming functions\<close>

text \<open>
  \<^verbatim>\<open>length\<close> is an \<^verbatim>\<open>int\<close>; copying more than the block holds is undefined.  The names are the bytes
  before the NUL.
\<close>

type_synonym rename_function = "cstring \<Rightarrow> (memory, cstring option) prog"

definition labcomm2014_renaming_prefix :: "cstring \<Rightarrow> rename_function" where
  "labcomm2014_renaming_prefix prefix name =
     (let len = int_of_u32 (u32_of_int (int (length name) + int (length prefix) + 1)) in
      andthen (labcomm2014_memory_alloc 0 (size_t_of_int len)) (\<lambda>ok.
      if \<not> ok then ret None
      else if size_t_of_int len < length prefix + length name + 1 then stop Undef
      else ret (Some (prefix @ name))))"

definition labcomm2014_renaming_suffix :: "cstring \<Rightarrow> rename_function" where
  "labcomm2014_renaming_suffix suffix name = labcomm2014_renaming_prefix name suffix"

section \<open>The store\<close>

record 'v registry_entry =
  re_base :: "nat option"
  re_signature :: "'v signature"
  re_rename :: "nat option"

record 'v rename =
  rn_next :: "nat option"
  rn_use_count :: int
  rn_base :: nat
  rn_signature :: "'v signature"

text \<open>\<open>rr_local_index\<close> is the static variable \<^verbatim>\<open>local_index\<close> of \<^verbatim>\<open>labcomm2014.c\<close>.\<close>

record 'v renaming_registry =
  rr_memory :: memory
  rr_scheduler :: "sched_call list"
  rr_registry :: "nat option sigarr"
  rr_entries :: "nat \<Rightarrow> 'v registry_entry option"
  rr_renames :: "nat \<Rightarrow> 'v rename option"
  rr_fresh :: nat
  rr_local_index :: int

type_synonym ('v, 'a) reg_prog = "('v renaming_registry, 'a) prog"

definition reg_call :: "sched_call \<Rightarrow> ('v, unit) reg_prog" where
  "reg_call c = modify (\<lambda>r. r\<lparr>rr_scheduler := rr_scheduler r @ [c]\<rparr>)"

definition on_rrmemory :: "(memory, 'a) prog \<Rightarrow> ('v, 'a) reg_prog" where
  "on_rrmemory = zoom rr_memory (\<lambda>m r. r\<lparr>rr_memory := m\<rparr>)"

definition on_rrtable :: "(memory \<times> nat option sigarr, 'a) prog \<Rightarrow> ('v, 'a) reg_prog" where
  "on_rrtable = zoom (\<lambda>r. (rr_memory r, rr_registry r)) (\<lambda>(m, t) r. r\<lparr>rr_memory := m, rr_registry := t\<rparr>)"

definition entry_get :: "nat \<Rightarrow> ('v, 'v registry_entry) reg_prog" where
  "entry_get a = (\<lambda>r. case rr_entries r a of None \<Rightarrow> Some (Inl Undef) | Some e \<Rightarrow> Some (Inr (e, r)))"

definition rename_get :: "nat \<Rightarrow> ('v, 'v rename) reg_prog" where
  "rename_get x = (\<lambda>r. case rr_renames r x of None \<Rightarrow> Some (Inl Undef) | Some n \<Rightarrow> Some (Inr (n, r)))"

definition entry_put :: "nat \<Rightarrow> 'v registry_entry \<Rightarrow> ('v, unit) reg_prog" where
  "entry_put a e = modify (\<lambda>r. r\<lparr>rr_entries := (rr_entries r)(a := Some e)\<rparr>)"

definition rename_put :: "nat \<Rightarrow> 'v rename \<Rightarrow> ('v, unit) reg_prog" where
  "rename_put x n = modify (\<lambda>r. r\<lparr>rr_renames := (rr_renames r)(x := Some n)\<rparr>)"

definition fresh_address :: "('v, nat) reg_prog" where
  "fresh_address = andthen (gets rr_fresh) (\<lambda>a. andthen (modify (\<lambda>r. r\<lparr>rr_fresh := Suc a\<rparr>)) (\<lambda>_. ret a))"

text \<open>
  The variable \<^verbatim>\<open>l\<close> of the list traversals holds the address of a link: the field \<^verbatim>\<open>rename\<close> of a
  registry entry or the field \<^verbatim>\<open>next\<close> of a rename.  \<open>find_link\<close> is the loop
  \<^verbatim>\<open>for (l = ... ; *l ; l = &(*l)->next) if (...) break\<close>; it would not end on a cyclic list.
\<close>

datatype link = BaseLink nat | NextLink nat

primrec read_link :: "link \<Rightarrow> ('v, nat option) reg_prog" where
  "read_link (BaseLink b) = andthen (entry_get b) (\<lambda>e. ret (re_rename e))"
| "read_link (NextLink x) = andthen (rename_get x) (\<lambda>n. ret (rn_next n))"

primrec write_link :: "link \<Rightarrow> nat option \<Rightarrow> ('v, unit) reg_prog" where
  "write_link (BaseLink b) p = andthen (entry_get b) (\<lambda>e. entry_put b (e\<lparr>re_rename := p\<rparr>))"
| "write_link (NextLink x) p = andthen (rename_get x) (\<lambda>n. rename_put x (n\<lparr>rn_next := p\<rparr>))"

partial_function (option) find_link ::
    "(nat \<Rightarrow> 'v rename \<Rightarrow> bool) \<Rightarrow> link \<Rightarrow> 'v renaming_registry \<Rightarrow> (stop + link \<times> 'v renaming_registry) option" where
  "find_link found l r =
     andthen (read_link l) (\<lambda>p r.
       case p of None \<Rightarrow> ret l r
       | Some x \<Rightarrow> andthen (rename_get x) (\<lambda>n r.
           if found x n then ret l r else find_link found (NextLink x) r) r) r"

section \<open>Operations\<close>

definition registry_new :: "'v signature \<Rightarrow> nat option \<Rightarrow> ('v, nat option) reg_prog" where
  "registry_new s base =
     andthen (labcomm2014_get_local_index (Some s)) (\<lambda>index.
     if index \<le> 0 then andthen (labcomm2014_error_warning LABCOMM2014_ERROR_MEMORY) (\<lambda>_. ret None)
     else andthen (on_rrtable (labcomm2014_signature_array_ref None 8 index)) (\<lambda>ok.
       if \<not> ok then ret None
       else andthen (gets (\<lambda>r. sa_at index (rr_registry r))) (\<lambda>known.
         if known \<noteq> None then ret known
         else andthen (on_rrtable (labcomm2014_signature_array_ref None 8 index)) (\<lambda>ok.
           if \<not> ok then ret None
           else andthen (on_rrmemory (labcomm2014_memory_alloc 0 24)) (\<lambda>ok.
             if \<not> ok then ret None
             else andthen fresh_address (\<lambda>a.
                  andthen (entry_put a \<lparr>re_base = base, re_signature = s, re_rename = None\<rparr>) (\<lambda>_.
                  andthen (modify (\<lambda>r. r\<lparr>rr_registry := sa_set index (Some a) (rr_registry r)\<rparr>)) (\<lambda>_.
                  ret (Some a)))))))))"

definition count_use :: "nat \<Rightarrow> ('v, unit) reg_prog" where
  "count_use x =
     andthen (rename_get x) (\<lambda>n.
     andthen (c_int (rn_use_count n + 1)) (\<lambda>c. rename_put x (n\<lparr>rn_use_count := c\<rparr>)))"

text \<open>A new rename of the base entry \<open>b\<close>, entered at the link \<open>l\<close>.\<close>

definition create_rename :: "nat \<Rightarrow> link \<Rightarrow> cstring \<Rightarrow> ('v, nat option) reg_prog" where
  "create_rename b l new_name =
     andthen (on_rrmemory (labcomm2014_memory_alloc 0 120)) (\<lambda>ok.
     if \<not> ok then andthen (on_rrmemory (labcomm2014_memory_free 0 True)) (\<lambda>_. ret None)
     else andthen fresh_address (\<lambda>x.
          andthen (entry_get b) (\<lambda>e.
          andthen (zoom rr_local_index (\<lambda>i r. r\<lparr>rr_local_index := i\<rparr>)
                    (labcomm2014_set_local_index
                      (Signature new_name (sig_encoded_size (re_signature e)) (sig_size (re_signature e))
                        (sig_signature (re_signature e)) 0 [SigRef (re_signature e)]))) (\<lambda>s.
          andthen (registry_new s (Some b)) (\<lambda>renamed.
          if renamed = None then andthen (on_rrmemory (labcomm2014_memory_free 0 True)) (\<lambda>_. ret None)
          else andthen (rename_put x \<lparr>rn_next = None, rn_use_count = 0, rn_base = b, rn_signature = s\<rparr>) (\<lambda>_.
               andthen (write_link l (Some x)) (\<lambda>_.
               andthen (count_use x) (\<lambda>_. ret (Some x)))))))))"

definition rename_locked :: "'v signature \<Rightarrow> rename_function \<Rightarrow> ('v, nat option) reg_prog" where
  "rename_locked s rename_func =
     andthen (registry_new s None) (\<lambda>base.
     case base of None \<Rightarrow> ret None
     | Some b0 \<Rightarrow>
         andthen (entry_get b0) (\<lambda>e.
         let b = (case re_base e of None \<Rightarrow> b0 | Some b \<Rightarrow> b) in
         andthen (on_rrmemory (rename_func (sig_name s))) (\<lambda>name.
         case name of None \<Rightarrow> ret None
         | Some new_name \<Rightarrow>
             andthen (find_link (\<lambda>_ n. sig_name (rn_signature n) = new_name) (BaseLink b)) (\<lambda>l.
             andthen (read_link l) (\<lambda>p.
             case p of
               None \<Rightarrow> create_rename b l new_name
             | Some x \<Rightarrow> andthen (count_use x) (\<lambda>_.
                        andthen (on_rrmemory (labcomm2014_memory_free 0 True)) (\<lambda>_. ret (Some x))))))))"

definition labcomm2014_renaming_rename_new :: "'v signature \<Rightarrow> rename_function \<Rightarrow> ('v, nat option) reg_prog" where
  "labcomm2014_renaming_rename_new s rename_func =
     andthen (reg_call DataLock) (\<lambda>_.
     andthen (rename_locked s rename_func) (\<lambda>result.
     andthen (reg_call DataUnlock) (\<lambda>_. ret result)))"

text \<open>\<^verbatim>\<open>free(*registry); *registry = NULL\<close> for the entry of a signature.\<close>

definition drop_entry :: "'v signature \<Rightarrow> ('v, unit) reg_prog" where
  "drop_entry s =
     andthen (labcomm2014_get_local_index (Some s)) (\<lambda>index.
     andthen (on_rrtable (sa_deref None 8 index)) (\<lambda>p.
     andthen (on_rrmemory (labcomm2014_memory_free 0 (p \<noteq> None))) (\<lambda>_.
     modify (\<lambda>r. r\<lparr>rr_entries := (case p of None \<Rightarrow> rr_entries r | Some a \<Rightarrow> (rr_entries r)(a := None)),
                   rr_registry := sa_set index None (rr_registry r)\<rparr>))))"

definition delete_rename :: "nat \<Rightarrow> 'v rename \<Rightarrow> ('v, unit) reg_prog" where
  "delete_rename x n =
     andthen (find_link (\<lambda>y _. y = x) (BaseLink (rn_base n))) (\<lambda>l.
     andthen (write_link l (rn_next n)) (\<lambda>_.
     andthen (entry_get (rn_base n)) (\<lambda>e.
     andthen (if re_rename e = None then drop_entry (re_signature e) else ret ()) (\<lambda>_.
     andthen (drop_entry (rn_signature n)) (\<lambda>_.
     andthen (on_rrmemory (labcomm2014_memory_free 0 True)) (\<lambda>_.
     andthen (on_rrmemory (labcomm2014_memory_free 0 True)) (\<lambda>_.
     modify (\<lambda>r. r\<lparr>rr_renames := (rr_renames r)(x := None)\<rparr>))))))))"

definition labcomm2014_renaming_rename_free :: "nat \<Rightarrow> ('v, unit) reg_prog" where
  "labcomm2014_renaming_rename_free x =
     andthen (reg_call DataLock) (\<lambda>_.
     andthen (rename_get x) (\<lambda>n.
     andthen (c_int (rn_use_count n - 1)) (\<lambda>c.
     andthen (rename_put x (n\<lparr>rn_use_count := c\<rparr>)) (\<lambda>_.
     andthen (if c = 0 then delete_rename x (n\<lparr>rn_use_count := c\<rparr>) else ret ()) (\<lambda>_.
     reg_call DataUnlock)))))"

definition labcomm2014_renaming_rename_signature :: "nat \<Rightarrow> ('v, 'v signature) reg_prog" where
  "labcomm2014_renaming_rename_signature x = andthen (rename_get x) (\<lambda>n. ret (rn_signature n))"

definition labcomm2014_renaming_registry_new :: "int \<Rightarrow> (memory, 'v renaming_registry option) prog" where
  "labcomm2014_renaming_registry_new local_index =
     andthen (labcomm2014_memory_alloc 0 40) (\<lambda>ok.
     gets (\<lambda>m. if \<not> ok then None
               else Some \<lparr>rr_memory = m, rr_scheduler = [], rr_registry = signature_array_init,
                          rr_entries = (\<lambda>_. None), rr_renames = (\<lambda>_. None), rr_fresh = 0,
                          rr_local_index = local_index\<rparr>))"

definition labcomm2014_renaming_registry_free :: "('v, unit) reg_prog" where
  "labcomm2014_renaming_registry_free =
     andthen (on_rrtable signature_array_free) (\<lambda>_.
     on_rrmemory (labcomm2014_memory_free 0 True))"

end
