(* ===== verification/LC_RenamingSpec.thy ===== *)
theory LC_RenamingSpec
  imports LC_Renaming
begin

text \<open>
  What the registry promises: the linked lists are well formed and every rename in use is found
  again under its base signature and its name, with its number of users; a rename that is freed by
  its last user disappears with everything allocated for it.
\<close>

section \<open>Linked lists of renames\<close>

text \<open>The list from the pointer \<open>p\<close> to the pointer \<open>q\<close>.\<close>

fun seg :: "(nat \<Rightarrow> 'v rename option) \<Rightarrow> nat option \<Rightarrow> nat list \<Rightarrow> nat option \<Rightarrow> bool" where
  "seg h p [] q \<longleftrightarrow> p = q"
| "seg h p (x # xs) q \<longleftrightarrow> p = Some x \<and> (\<exists>n. h x = Some n \<and> seg h (rn_next n) xs q)"

lemma seg_append: "seg h p (xs @ ys) q \<longleftrightarrow> (\<exists>m. seg h p xs m \<and> seg h m ys q)"
  by (induction xs arbitrary: p) auto

lemma seg_cong: "(\<And>x. x \<in> set xs \<Longrightarrow> h' x = h x) \<Longrightarrow> seg h' p xs q = seg h p xs q"
  by (induction xs arbitrary: p) auto

lemma seg_upd_other [simp]: "x \<notin> set xs \<Longrightarrow> seg (h(x := v)) p xs q = seg h p xs q"
  by (rule seg_cong) auto

lemma seg_nexts:
  assumes "\<And>x. x \<in> set xs \<Longrightarrow> map_option rn_next (h' x) = map_option rn_next (h x)"
  shows "seg h' p xs q = seg h p xs q"
  using assms
proof (induction xs arbitrary: p)
  case (Cons x xs)
  from Cons.prems [of x] have "map_option rn_next (h' x) = map_option rn_next (h x)" by simp
  then show ?case using Cons.IH Cons.prems by (cases "h x"; cases "h' x") auto
qed simp

text \<open>The link behind the elements \<open>ys\<close> of the list that starts at the link \<open>l\<close>.\<close>

definition link_after :: "link \<Rightarrow> nat list \<Rightarrow> link" where
  "link_after l ys = (if ys = [] then l else NextLink (last ys))"

lemma link_after_Cons [simp]: "link_after (NextLink x) ys = link_after l (x # ys)"
  by (simp add: link_after_def)

lemma rename_get_run: "rr_renames r x = Some n \<Longrightarrow> rename_get x r = Some (Inr (n, r))"
  by (simp add: rename_get_def)

lemma entry_get_run: "rr_entries r b = Some e \<Longrightarrow> entry_get b r = Some (Inr (e, r))"
  by (simp add: entry_get_def)

lemma read_next: "rr_renames r x = Some n \<Longrightarrow> read_link (NextLink x) r = Some (Inr (rn_next n, r))"
  by (simp add: andthen_run rename_get_run ret_apply)

lemma find_link_run:
  assumes "read_link l r = Some (Inr (p, r))" and "seg (rr_renames r) p xs None"
  shows "find_link f l r = Some (Inr (link_after l (takeWhile (\<lambda>x. \<not> f x (the (rr_renames r x))) xs), r))"
  using assms
proof (induction xs arbitrary: l p)
  case Nil
  then show ?case by (subst find_link.simps) (simp add: andthen_run ret_apply link_after_def)
next
  case (Cons x xs)
  from Cons.prems(2) obtain n where n: "p = Some x" "rr_renames r x = Some n" "seg (rr_renames r) (rn_next n) xs None"
    by auto
  note rec = Cons.IH [OF read_next [OF n(2)] n(3)]
  show ?case
    by (subst find_link.simps)
      (use Cons.prems(1) n in \<open>simp add: andthen_run rename_get_run ret_apply rec link_after_def\<close>)
qed

lemma read_link_after:
  assumes "read_link l r = Some (Inr (p, r))" and "seg (rr_renames r) p ys q"
  shows "read_link (link_after l ys) r = Some (Inr (q, r))"
proof (cases ys rule: rev_cases)
  case Nil
  with assms show ?thesis by (simp add: link_after_def)
next
  case (snoc zs y)
  with assms(2) obtain n where "rr_renames r y = Some n" "rn_next n = q" by (auto simp: seg_append)
  then show ?thesis using snoc read_next [of r y n] by (simp add: link_after_def)
qed

section \<open>Invariant\<close>

text \<open>
  The data of the objects apart from the links between them, and the invariant over these data, the
  table \<open>L\<close> and the lists \<open>ch\<close> of the base entries.
\<close>

definition entry_core :: "'v renaming_registry \<Rightarrow> nat \<Rightarrow> (nat option \<times> 'v signature) option" where
  "entry_core r a = map_option (\<lambda>e. (re_base e, re_signature e)) (rr_entries r a)"

definition rename_core :: "'v renaming_registry \<Rightarrow> nat \<Rightarrow> (int \<times> nat \<times> 'v signature) option" where
  "rename_core r x = map_option (\<lambda>n. (rn_use_count n, rn_base n, rn_signature n)) (rr_renames r x)"

abbreviation reg_lookup :: "'v renaming_registry \<Rightarrow> int \<Rightarrow> nat option" where
  "reg_lookup r \<equiv> sa_lookup None (rr_registry r)"

definition renamed_copy :: "'v signature \<Rightarrow> 'v signature \<Rightarrow> bool" where
  "renamed_copy s t \<longleftrightarrow> sig_signature t = sig_signature s \<and> sig_size t = sig_size s \<and>
     sig_encoded_size t = sig_encoded_size s \<and> sig_treedata t = [SigRef s]"

type_synonym 'v entry_cores = "nat \<Rightarrow> (nat option \<times> 'v signature) option"
type_synonym 'v rename_cores = "nat \<Rightarrow> (int \<times> nat \<times> 'v signature) option"

text \<open>Every entry is in the table under the index of its signature, and nothing else is.\<close>

definition table_ok :: "(int \<Rightarrow> nat option) \<Rightarrow> 'v entry_cores \<Rightarrow> bool" where
  "table_ok L E \<longleftrightarrow> (\<forall>i a. L i = Some a \<longrightarrow> (\<exists>b s. E a = Some (b, s) \<and> sig_index s = i)) \<and>
     (\<forall>a b s. E a = Some (b, s) \<longrightarrow> L (sig_index s) = Some a)"

definition fresh_ok :: "'v entry_cores \<Rightarrow> 'v rename_cores \<Rightarrow> nat \<Rightarrow> int \<Rightarrow> bool" where
  "fresh_ok E H fr li \<longleftrightarrow> (\<forall>a b s. E a = Some (b, s) \<longrightarrow> a < fr \<and> 0 < sig_index s \<and> sig_index s < li) \<and>
     (\<forall>x h. H x = Some h \<longrightarrow> x < fr)"

text \<open>The list of a base entry holds exactly its renames, once each.\<close>

definition lists_ok :: "(nat \<Rightarrow> nat list) \<Rightarrow> 'v rename_cores \<Rightarrow> bool" where
  "lists_ok ch H \<longleftrightarrow> (\<forall>b. distinct (ch b) \<and> (\<forall>x. x \<in> set (ch b) \<longleftrightarrow> (\<exists>c s. H x = Some (c, b, s))))"

text \<open>A rename is in use, its base is a base, it is a copy of it and it has an entry of its own.\<close>

definition uses_ok :: "'v rename_cores \<Rightarrow> bool" where
  "uses_ok H \<longleftrightarrow> (\<forall>x c b s. H x = Some (c, b, s) \<longrightarrow> 0 < c \<and> c \<le> INT_MAX)"

definition bases_ok :: "'v entry_cores \<Rightarrow> 'v rename_cores \<Rightarrow> bool" where
  "bases_ok E H \<longleftrightarrow> (\<forall>x c b s. H x = Some (c, b, s) \<longrightarrow> (\<exists>s0. E b = Some (None, s0) \<and> renamed_copy s0 s))"

definition own_ok :: "'v entry_cores \<Rightarrow> 'v rename_cores \<Rightarrow> bool" where
  "own_ok E H \<longleftrightarrow> (\<forall>a b s. E a = Some (Some b, s) \<longrightarrow> (\<exists>x c. H x = Some (c, b, s))) \<and>
     (\<forall>x c b s. H x = Some (c, b, s) \<longrightarrow> (\<exists>a. E a = Some (Some b, s)))"

definition names_ok :: "'v rename_cores \<Rightarrow> bool" where
  "names_ok H \<longleftrightarrow> (\<forall>x y c d b s t. H x = Some (c, b, s) \<longrightarrow> H y = Some (d, b, t) \<longrightarrow> sig_name s = sig_name t \<longrightarrow> x = y)"

definition reg_shape ::
    "(nat \<Rightarrow> nat list) \<Rightarrow> (int \<Rightarrow> nat option) \<Rightarrow> 'v entry_cores \<Rightarrow> 'v rename_cores \<Rightarrow> nat \<Rightarrow> int \<Rightarrow> bool" where
  "reg_shape ch L E H fr li \<longleftrightarrow> table_ok L E \<and> fresh_ok E H fr li \<and> lists_ok ch H \<and> uses_ok H \<and>
     bases_ok E H \<and> own_ok E H \<and> names_ok H"

definition reg_chains :: "(nat \<Rightarrow> nat list) \<Rightarrow> 'v renaming_registry \<Rightarrow> bool" where
  "reg_chains ch r \<longleftrightarrow> (\<forall>b e. rr_entries r b = Some e \<longrightarrow> seg (rr_renames r) (re_rename e) (ch b) None)"

text \<open>The memory grants every request; the table is healthy and its window ends below the next index.\<close>

definition reg_healthy :: "'v renaming_registry \<Rightarrow> bool" where
  "reg_healthy r \<longleftrightarrow> plenty (rr_memory r) \<and> sa_ok (rr_registry r) \<and>
     0 \<le> sa_first (rr_registry r) \<and> sa_last (rr_registry r) \<le> rr_local_index r"

definition reg_ok :: "(nat \<Rightarrow> nat list) \<Rightarrow> 'v renaming_registry \<Rightarrow> bool" where
  "reg_ok ch r \<longleftrightarrow> reg_healthy r \<and> reg_chains ch r \<and>
     reg_shape ch (reg_lookup r) (entry_core r) (rename_core r) (rr_fresh r) (rr_local_index r)"

definition reg_inv :: "'v renaming_registry \<Rightarrow> bool" where
  "reg_inv r \<longleftrightarrow> (\<exists>ch. reg_ok ch r)"

lemma core_simps [simp]:
  "entry_core (r\<lparr>rr_memory := m\<rparr>) = entry_core r" "rename_core (r\<lparr>rr_memory := m\<rparr>) = rename_core r"
  "entry_core (r\<lparr>rr_scheduler := cs\<rparr>) = entry_core r" "rename_core (r\<lparr>rr_scheduler := cs\<rparr>) = rename_core r"
  "entry_core (r\<lparr>rr_renames := H\<rparr>) = entry_core r" "rename_core (r\<lparr>rr_entries := E\<rparr>) = rename_core r"
  "entry_core (r\<lparr>rr_registry := t\<rparr>) = entry_core r" "rename_core (r\<lparr>rr_registry := t\<rparr>) = rename_core r"
  by (simp_all add: entry_core_def rename_core_def fun_eq_iff)

lemma rename_core_cong: "rr_renames r' = rr_renames r \<Longrightarrow> rename_core r' = rename_core r"
  by (simp add: rename_core_def fun_eq_iff)

lemma core_drop:
  "rename_core (r\<lparr>rr_renames := (rr_renames r)(x := None)\<rparr>) = (rename_core r)(x := None)"
  "rr_entries r' = (rr_entries r)(a := None) \<Longrightarrow> entry_core r' = (entry_core r)(a := None)"
  "rr_entries r' = rr_entries r \<Longrightarrow> entry_core r' = entry_core r"
  by (auto simp: rename_core_def entry_core_def fun_eq_iff)

lemma reg_ok_other [simp]:
  "reg_ok ch (r\<lparr>rr_scheduler := cs\<rparr>) = reg_ok ch r"
  "reg_ok ch r \<Longrightarrow> plenty m \<Longrightarrow> reg_ok ch (r\<lparr>rr_memory := m\<rparr>)"
  "reg_ok ch r \<Longrightarrow> plenty (rr_memory r)"
  by (simp_all add: reg_ok_def reg_healthy_def reg_chains_def)

text \<open>The live blocks that do not belong to the objects and the table: an entry is one block, a rename and its name two.\<close>

definition reg_stray :: "'v renaming_registry \<Rightarrow> int" where
  "reg_stray r = mem_live (rr_memory r) - owned (rr_registry r) -
     int (card (dom (entry_core r))) - 2 * int (card (dom (rename_core r)))"

section \<open>The shape is kept\<close>

lemma table_okI:
  "(\<And>i a. L i = Some a \<Longrightarrow> \<exists>b s. E a = Some (b, s) \<and> sig_index s = i) \<Longrightarrow>
   (\<And>a b s. E a = Some (b, s) \<Longrightarrow> L (sig_index s) = Some a) \<Longrightarrow> table_ok L E"
  by (simp add: table_ok_def)

lemma table_okD:
  assumes "table_ok L E"
  shows "L i = Some a \<Longrightarrow> \<exists>b s. E a = Some (b, s) \<and> sig_index s = i"
    and "E a = Some (b, s) \<Longrightarrow> L (sig_index s) = Some a"
    and "E a = Some (b, s) \<Longrightarrow> E a' = Some (b', s') \<Longrightarrow> sig_index s = sig_index s' \<Longrightarrow> a = a'"
proof -
  show "L i = Some a \<Longrightarrow> \<exists>b s. E a = Some (b, s) \<and> sig_index s = i"
    and entry: "\<And>a b s. E a = Some (b, s) \<Longrightarrow> L (sig_index s) = Some a"
    using assms by (auto simp: table_ok_def)
  then show "E a = Some (b, s) \<Longrightarrow> E a' = Some (b', s') \<Longrightarrow> sig_index s = sig_index s' \<Longrightarrow> a = a'"
    by (metis option.inject)
qed

lemma own_okI:
  "(\<And>a b s. E a = Some (Some b, s) \<Longrightarrow> \<exists>x c. H x = Some (c, b, s)) \<Longrightarrow>
   (\<And>x c b s. H x = Some (c, b, s) \<Longrightarrow> \<exists>a. E a = Some (Some b, s)) \<Longrightarrow> own_ok E H"
  by (simp add: own_ok_def)

lemma own_okD:
  assumes "own_ok E H"
  shows "E a = Some (Some b, s) \<Longrightarrow> \<exists>x c. H x = Some (c, b, s)"
    and "H x = Some (c, b, s) \<Longrightarrow> \<exists>a. E a = Some (Some b, s)"
  using assms by (auto simp: own_ok_def)

lemma fresh_okD:
  assumes "fresh_ok E H fr li" and "fr \<le> a"
  shows "E a = None" and "H a = None"
proof -
  show "E a = None" using assms by (cases "E a") (fastforce simp: fresh_ok_def)+
  show "H a = None" using assms by (cases "H a") (fastforce simp: fresh_ok_def)+
qed

lemma shape_fresh:
  assumes "reg_shape ch L E H fr li"
  shows "E fr = None" and "H fr = None" and "H (Suc fr) = None" and "ch fr = []" and "L li = None"
proof -
  have fr: "fresh_ok E H fr li" and "bases_ok E H" and "lists_ok ch H" and "table_ok L E"
    using assms by (simp_all add: reg_shape_def)
  then show E: "E fr = None" and "H fr = None" and "H (Suc fr) = None" by (simp_all add: fresh_okD)
  have "x \<notin> set (ch fr)" for x using \<open>bases_ok E H\<close> \<open>lists_ok ch H\<close> E by (fastforce simp: bases_ok_def lists_ok_def)
  then show "ch fr = []" by (cases "ch fr") auto
  show "L li = None"
    using fr \<open>table_ok L E\<close> by (cases "L li") (fastforce simp: fresh_ok_def table_ok_def)+
qed

lemma shape_parts:
  assumes "reg_shape ch L E H fr li"
  shows "table_ok L E" "fresh_ok E H fr li" "lists_ok ch H" "uses_ok H" "bases_ok E H" "own_ok E H" "names_ok H"
  using assms by (simp_all add: reg_shape_def)

text \<open>A new entry in the table: at a fresh address and a fresh index.\<close>

lemma table_ok_add:
  assumes "table_ok L E" and "E a = None" and "L (sig_index s) = None"
  shows "table_ok (L(sig_index s := Some a)) (E(a := Some (b, s)))"
proof (rule table_okI)
  fix i a' assume "(L(sig_index s := Some a)) i = Some a'"
  then show "\<exists>b' s'. (E(a := Some (b, s))) a' = Some (b', s') \<and> sig_index s' = i"
    using table_okD(1) [OF assms(1), of i a'] assms(2) by (cases "i = sig_index s") auto
next
  fix a' b' s' assume "(E(a := Some (b, s))) a' = Some (b', s')"
  then show "(L(sig_index s := Some a)) (sig_index s') = Some a'"
    using table_okD(2) [OF assms(1), of a' b' s'] assms(3) by (cases "a' = a") auto
qed

lemma table_ok_drop:
  assumes "table_ok L E" and "E a = Some (b, s)"
  shows "table_ok (L(sig_index s := None)) (E(a := None))"
proof (rule table_okI)
  fix i a' assume i: "(L(sig_index s := None)) i = Some a'"
  then obtain b' s' where "E a' = Some (b', s')" "sig_index s' = i" "i \<noteq> sig_index s"
    using table_okD(1) [OF assms(1), of i a'] by (auto split: if_splits)
  then show "\<exists>b s. (E(a := None)) a' = Some (b, s) \<and> sig_index s = i" using assms(2) by auto
next
  fix a' b' s' assume "(E(a := None)) a' = Some (b', s')"
  then have "a' \<noteq> a" "E a' = Some (b', s')" by (auto split: if_splits)
  then show "(L(sig_index s := None)) (sig_index s') = Some a'"
    using table_okD(2) [OF assms(1), of a' b' s'] table_okD(3) [OF assms(1) _ assms(2), of a' b' s'] by simp blast
qed

text \<open>A new base entry.\<close>

lemma shape_new_base:
  assumes "reg_shape ch L E H fr li" and "L (sig_index s) = None" and "0 < sig_index s" and "sig_index s < li"
  shows "reg_shape ch (L(sig_index s := Some fr)) (E(fr := Some (None, s))) H (Suc fr) li"
proof -
  note F = shape_fresh [OF assms(1)] and P = shape_parts [OF assms(1)]
  have keep: "E a = Some c \<Longrightarrow> (E(fr := Some (None, s))) a = Some c" for a c using F(1) by auto
  have "fresh_ok (E(fr := Some (None, s))) H (Suc fr) li"
    using P(2) assms(3,4) by (auto simp: fresh_ok_def less_Suc_eq)
  moreover have "bases_ok (E(fr := Some (None, s))) H"
    using P(5) keep unfolding bases_ok_def by blast
  moreover have "own_ok (E(fr := Some (None, s))) H"
  proof (rule own_okI)
    show "\<exists>x c. H x = Some (c, b, t)" if "(E(fr := Some (None, s))) a = Some (Some b, t)" for a b t
      using that own_okD(1) [OF P(6)] by (auto split: if_splits)
    show "\<exists>a. (E(fr := Some (None, s))) a = Some (Some b, t)" if "H x = Some (c, b, t)" for x c b t
      using own_okD(2) [OF P(6) that] keep by blast
  qed
  ultimately show ?thesis
    using P table_ok_add [OF P(1) F(1) assms(2)] by (simp add: reg_shape_def)
qed

text \<open>A new rename \<open>fr\<close> of the base \<open>b\<close>, with its entry \<open>Suc fr\<close>.\<close>

lemma shape_new_rename:
  assumes "reg_shape ch L E H fr li" and "E b = Some (None, s0)" and "renamed_copy s0 s" and "sig_index s = li"
    and "\<And>x c t. H x = Some (c, b, t) \<Longrightarrow> sig_name t \<noteq> sig_name s" and "0 < li"
  shows "reg_shape (ch(b := ch b @ [fr])) (L(li := Some (Suc fr))) (E(Suc fr := Some (Some b, s)))
    (H(fr := Some (1, b, s))) (Suc (Suc fr)) (li + 1)"
proof -
  let ?E = "E(Suc fr := Some (Some b, s))" and ?H = "H(fr := Some (1, b, s))"
  note F = shape_fresh [OF assms(1)] and P = shape_parts [OF assms(1)]
  have E: "E (Suc fr) = None" using fresh_okD(1) [OF P(2), of "Suc fr"] by simp
  have keep: "E a = Some c \<Longrightarrow> ?E a = Some c" "H a = Some h \<Longrightarrow> ?H a = Some h" for a c h using E F(2) by auto
  have "table_ok (L(li := Some (Suc fr))) ?E"
    using table_ok_add [OF P(1) E, of s "Some b"] F(5) assms(4) by simp
  moreover have "fresh_ok ?E ?H (Suc (Suc fr)) (li + 1)"
    using P(2) assms(4,6) by (fastforce simp: fresh_ok_def less_Suc_eq)
  moreover have "lists_ok (ch(b := ch b @ [fr])) ?H"
    using P(3) F(2) by (auto simp: lists_ok_def)
  moreover have "uses_ok ?H" using P(4) by (auto simp: uses_ok_def INT_MAX_def)
  moreover have "bases_ok ?E ?H"
    unfolding bases_ok_def
  proof (intro allI impI)
    fix x c d t assume "?H x = Some (c, d, t)"
    then have "\<exists>s0. E d = Some (None, s0) \<and> renamed_copy s0 t"
      using P(5) assms(2,3) by (auto simp: bases_ok_def split: if_splits)
    then show "\<exists>s0. ?E d = Some (None, s0) \<and> renamed_copy s0 t" using keep(1) by blast
  qed
  moreover have "own_ok ?E ?H"
  proof (rule own_okI)
    show "\<exists>x c. ?H x = Some (c, d, t)" if "?E a = Some (Some d, t)" for a d t
    proof (cases "a = Suc fr")
      case True
      with that show ?thesis by (intro exI [of _ fr]) simp
    next
      case False
      with that have "E a = Some (Some d, t)" by simp
      then obtain x c where "H x = Some (c, d, t)" using own_okD(1) [OF P(6)] by blast
      then show ?thesis using keep(2) by blast
    qed
    show "\<exists>a. ?E a = Some (Some d, t)" if "?H x = Some (c, d, t)" for x c d t
    proof (cases "x = fr")
      case True
      with that show ?thesis by (intro exI [of _ "Suc fr"]) simp
    next
      case False
      with that have "H x = Some (c, d, t)" by simp
      then obtain a where "E a = Some (Some d, t)" using own_okD(2) [OF P(6)] by blast
      then show ?thesis using keep(1) by blast
    qed
  qed
  moreover have "names_ok ?H"
    using P(7) assms(5) unfolding names_ok_def by (auto split: if_splits) metis+
  ultimately show ?thesis by (simp add: reg_shape_def)
qed

text \<open>Another number of uses.\<close>

lemma shape_use:
  assumes "reg_shape ch L E H fr li" and "H x = Some (c, b, s)" and "0 < c'" and "c' \<le> INT_MAX"
  shows "reg_shape ch L E (H(x := Some (c', b, s))) fr li"
proof -
  let ?H = "H(x := Some (c', b, s))"
  note P = shape_parts [OF assms(1)]
  have old: "?H y = Some (k, d, t) \<Longrightarrow> \<exists>k. H y = Some (k, d, t)" for y k d t using assms(2) by (auto split: if_splits)
  have keep: "H y = Some (k, d, t) \<Longrightarrow> \<exists>k. ?H y = Some (k, d, t)" for y k d t using assms(2) by auto
  have "fresh_ok E ?H fr li" using P(2) assms(2) by (auto simp: fresh_ok_def)
  moreover have "lists_ok ch ?H" using P(3) assms(2) by (auto simp: lists_ok_def)
  moreover have "uses_ok ?H" using P(4) assms(3,4) by (auto simp: uses_ok_def)
  moreover have "bases_ok E ?H" using P(5) assms(2) by (auto simp: bases_ok_def)
  moreover have "own_ok E ?H"
  proof (rule own_okI)
    show "\<exists>y k. ?H y = Some (k, d, t)" if "E a = Some (Some d, t)" for a d t
      using own_okD(1) [OF P(6) that] keep by blast
    show "\<exists>a. E a = Some (Some d, t)" if "?H y = Some (k, d, t)" for y k d t
      using old [OF that] own_okD(2) [OF P(6)] by blast
  qed
  moreover have "names_ok ?H"
    unfolding names_ok_def
  proof (intro allI impI)
    fix y z k l d t u assume "?H y = Some (k, d, t)" "?H z = Some (l, d, u)" "sig_name t = sig_name u"
    then show "y = z" using old [of y k d t] old [of z l d u] P(7) by (auto simp: names_ok_def)
  qed
  ultimately show ?thesis using P by (simp add: reg_shape_def)
qed

text \<open>A rename and its entry disappear.\<close>

lemma shape_drop_rename:
  assumes "reg_shape ch L E H fr li" and "H x = Some (c, b, s)" and "E a = Some (Some b, s)"
  shows "reg_shape (ch(b := remove1 x (ch b))) (L(sig_index s := None)) (E(a := None)) (H(x := None)) fr li"
proof -
  note P = shape_parts [OF assms(1)]
  have "fresh_ok (E(a := None)) (H(x := None)) fr li" using P(2) by (auto simp: fresh_ok_def)
  moreover have "lists_ok (ch(b := remove1 x (ch b))) (H(x := None))"
    using P(3) assms(2) by (auto simp: lists_ok_def)
  moreover have "uses_ok (H(x := None))" using P(4) by (auto simp: uses_ok_def)
  moreover have "bases_ok (E(a := None)) (H(x := None))"
    using P(5) assms(3) by (fastforce simp: bases_ok_def)
  moreover have "own_ok (E(a := None)) (H(x := None))"
  proof (rule own_okI)
    fix a' d t assume "(E(a := None)) a' = Some (Some d, t)"
    then have a': "a' \<noteq> a" "E a' = Some (Some d, t)" by (auto split: if_splits)
    then obtain y k where y: "H y = Some (k, d, t)" using own_okD(1) [OF P(6)] by blast
    moreover have "y \<noteq> x" using a' y assms(2,3) table_okD(3) [OF P(1)] by fastforce
    ultimately show "\<exists>x' c. (H(x := None)) x' = Some (c, d, t)" by auto
  next
    fix y k d t assume "(H(x := None)) y = Some (k, d, t)"
    then have y: "y \<noteq> x" "H y = Some (k, d, t)" by (auto split: if_splits)
    then obtain a' where a': "E a' = Some (Some d, t)" using own_okD(2) [OF P(6)] by blast
    moreover have "a' \<noteq> a" using a' y assms(2,3) P(7) unfolding names_ok_def by (metis option.inject prod.inject)
    ultimately show "\<exists>a'. (E(a := None)) a' = Some (Some d, t)" by auto
  qed
  moreover have "names_ok (H(x := None))" using P(7) by (auto simp: names_ok_def)
  ultimately show ?thesis using table_ok_drop [OF P(1) assms(3)] by (simp add: reg_shape_def)
qed

text \<open>A base without renames disappears.\<close>

lemma shape_drop_base:
  assumes "reg_shape ch L E H fr li" and "E b = Some (None, s)" and "ch b = []"
  shows "reg_shape ch (L(sig_index s := None)) (E(b := None)) H fr li"
proof -
  note P = shape_parts [OF assms(1)]
  have none: "H x \<noteq> Some (c, b, t)" for x c t using P(3) assms(3) by (force simp: lists_ok_def)
  have "fresh_ok (E(b := None)) H fr li" using P(2) by (auto simp: fresh_ok_def)
  moreover have "bases_ok (E(b := None)) H" using P(5) none by (fastforce simp: bases_ok_def)
  moreover have "own_ok (E(b := None)) H"
  proof (rule own_okI)
    show "\<exists>x c. H x = Some (c, d, t)" if "(E(b := None)) a = Some (Some d, t)" for a d t
      using that own_okD(1) [OF P(6)] by (auto split: if_splits)
    show "\<exists>a. (E(b := None)) a = Some (Some d, t)" if "H x = Some (c, d, t)" for x c d t
    proof -
      from own_okD(2) [OF P(6) that] obtain a where "E a = Some (Some d, t)" ..
      then show ?thesis using assms(2) by (intro exI [of _ a]) auto
    qed
  qed
  ultimately show ?thesis using P table_ok_drop [OF P(1) assms(2)] by (simp add: reg_shape_def)
qed

lemma shape_no_list: "reg_shape ch L E H fr li \<Longrightarrow> E a = None \<Longrightarrow> ch a = []"
proof (rule ccontr)
  assume shape: "reg_shape ch L E H fr li" and "E a = None" and "ch a \<noteq> []"
  then obtain x where "x \<in> set (ch a)" by (cases "ch a") auto
  then obtain c s where "H x = Some (c, a, s)" using shape_parts(3) [OF shape] by (auto simp: lists_ok_def)
  then show False using shape_parts(5) [OF shape] \<open>E a = None\<close> by (fastforce simp: bases_ok_def)
qed

lemma shape_finite:
  assumes "reg_shape ch L E H fr li"
  shows "finite (dom E)" and "finite (dom H)"
proof -
  have "dom E \<subseteq> {..<fr}" "dom H \<subseteq> {..<fr}"
    using shape_parts(2) [OF assms] by (auto simp: fresh_ok_def)
  then show "finite (dom E)" "finite (dom H)" by (auto intro: finite_subset)
qed

section \<open>Building blocks\<close>

lemma wp_entry_get [wp_simps]:
  "wp (entry_get a) Q r \<longleftrightarrow> (\<exists>e. rr_entries r a = Some e \<and> Q e r)"
  by (auto simp: wp_def entry_get_def split: option.splits)

lemma wp_rename_get [wp_simps]:
  "wp (rename_get x) Q r \<longleftrightarrow> (\<exists>n. rr_renames r x = Some n \<and> Q n r)"
  by (auto simp: wp_def rename_get_def split: option.splits)

lemmas reg_step_defs = entry_put_def rename_put_def fresh_address_def reg_call_def on_rrmemory_def

lemma signature_array_ref_inside:
  assumes "sa_ok a" and "sa_in i a"
  shows "labcomm2014_signature_array_ref z sz i (m, a) = Some (Inr (True, (m, a)))"
proof -
  from assms have "\<not> (sa_first a = 0 \<and> sa_last a = 0)" "\<not> i < sa_first a" "\<not> sa_last a \<le> i"
    by (auto simp: sa_in_def)
  moreover from assms obtain d where "sa_data a = Some d"
    by (auto simp: sa_ok_def sa_in_def split: option.splits)
  ultimately show ?thesis by (simp add: labcomm2014_signature_array_ref_def prog_simps)
qed

text \<open>The blocks in use apart from the table; and a step that changes the memory and the table only.\<close>

abbreviation reg_live :: "'v renaming_registry \<Rightarrow> int" where
  "reg_live r \<equiv> mem_live (rr_memory r) - owned (rr_registry r)"

definition reg_frame :: "'v renaming_registry \<Rightarrow> 'v renaming_registry \<Rightarrow> bool" where
  "reg_frame r r' \<longleftrightarrow> rr_scheduler r' = rr_scheduler r \<and> rr_entries r' = rr_entries r \<and>
     rr_renames r' = rr_renames r \<and> rr_fresh r' = rr_fresh r \<and> rr_local_index r' = rr_local_index r"

definition indices_fit :: "'v renaming_registry \<Rightarrow> bool" where
  "indices_fit r \<longleftrightarrow> 8 * (rr_local_index r + 1) \<le> INT_MAX"

lemma signature_array_ref_window:
  assumes "sa_ok a" and "sa_room sz i a" and "0 \<le> sa_first a" and "sa_last a \<le> n" and "0 \<le> i" and "i < n"
  shows "wp (labcomm2014_signature_array_ref z sz i) (\<lambda>_ (m', a'). 0 \<le> sa_first a' \<and> sa_last a' \<le> n) (m, a)"
  using wp_signature_array_ref [OF assms(1,2), of z m] assms(3-6)
  by (auto simp: labcomm2014_signature_array_ref_def wp_simps Let_def split: if_splits option.splits)

lemma wp_rrtable_ref:
  assumes "reg_healthy r" and "0 < i" and "i < rr_local_index r" and "8 * rr_local_index r \<le> INT_MAX"
  shows "wp (on_rrtable (labcomm2014_signature_array_ref None 8 i)) (\<lambda>ok r'. ok \<and> reg_frame r r' \<and> reg_healthy r' \<and>
      sa_in i (rr_registry r') \<and> reg_lookup r' = reg_lookup r \<and> reg_live r' = reg_live r) r"
proof -
  have ok: "sa_ok (rr_registry r)" and room: "sa_room 8 i (rr_registry r)"
    using assms by (auto simp: reg_healthy_def sa_room_def max_def min_def)
  show ?thesis
    unfolding on_rrtable_def wp_zoom
    by (rule wp_mono [OF wp_conj [OF wp_signature_array_ref [OF ok room, where z = None and m = "rr_memory r"]
            signature_array_ref_window [OF ok room, where n = "rr_local_index r"]]])
      (use assms in \<open>auto simp: reg_healthy_def reg_frame_def\<close>)
qed

lemma sa_set_first [simp]: "sa_first (sa_set i v a) = sa_first a" "sa_last (sa_set i v a) = sa_last a"
  by (simp_all add: sa_set_def)

text \<open>Finding or making the entry of a signature.\<close>

lemma wp_registry_new:
  assumes "reg_healthy r" and "0 < sig_index s" and "sig_index s < rr_local_index r" and "8 * rr_local_index r \<le> INT_MAX"
  shows "wp (registry_new s base) (\<lambda>res r'. reg_healthy r' \<and>
      (case reg_lookup r (sig_index s) of
         Some a \<Rightarrow> res = Some a \<and> reg_frame r r' \<and> reg_lookup r' = reg_lookup r \<and> reg_live r' = reg_live r
       | None \<Rightarrow> res = Some (rr_fresh r) \<and>
           reg_frame (r\<lparr>rr_fresh := Suc (rr_fresh r), rr_entries := (rr_entries r)
             (rr_fresh r := Some \<lparr>re_base = base, re_signature = s, re_rename = None\<rparr>)\<rparr>) r' \<and>
           reg_lookup r' = (reg_lookup r)(sig_index s := Some (rr_fresh r)) \<and> reg_live r' = reg_live r + 1)) r"
proof -
  let ?i = "sig_index s"
  have again: "wp (on_rrtable (labcomm2014_signature_array_ref None 8 ?i)) Q r' \<longleftrightarrow> Q True r'"
    if "reg_healthy r'" "sa_in ?i (rr_registry r')" for r' :: "'a renaming_registry" and Q
    using signature_array_ref_inside [of "rr_registry r'" ?i None 8] that
    by (auto simp: on_rrtable_def wp_def zoom_apply reg_healthy_def)
  show ?thesis
    unfolding registry_new_def
    using assms(2)
    by (simp add: wp_simps labcomm2014_get_local_index_def)
      (rule wp_mono [OF wp_rrtable_ref [OF assms(1-4)]],
       auto simp: wp_simps again sa_at_lookup [where z = None] reg_step_defs sa_lookup_set Let_def
         reg_frame_def reg_healthy_def split: option.splits)
qed

text \<open>Writing a link inside of the list of a base entry.\<close>

definition reg_relinked :: "'v renaming_registry \<Rightarrow> 'v renaming_registry \<Rightarrow> bool" where
  "reg_relinked r r' \<longleftrightarrow> rr_memory r' = rr_memory r \<and> rr_registry r' = rr_registry r \<and>
     rr_scheduler r' = rr_scheduler r \<and> rr_fresh r' = rr_fresh r \<and> rr_local_index r' = rr_local_index r \<and>
     entry_core r' = entry_core r \<and> rename_core r' = rename_core r"

lemma wp_write_link:
  assumes "rr_entries r b = Some e" and "seg (rr_renames r) (re_rename e) ys p" and "distinct ys"
  shows "wp (write_link (link_after (BaseLink b) ys) q) (\<lambda>_ r'.
      reg_relinked r r' \<and>
      (\<exists>e'. rr_entries r' b = Some e' \<and> re_signature e' = re_signature e \<and> re_base e' = re_base e \<and>
        seg (rr_renames r') (re_rename e') ys q \<and> re_rename e' = (if ys = [] then q else re_rename e)) \<and>
      (\<forall>b'. b' \<noteq> b \<longrightarrow> rr_entries r' b' = rr_entries r b') \<and>
      (\<forall>x. x \<notin> set ys \<longrightarrow> rr_renames r' x = rr_renames r x)) r"
proof (cases ys rule: rev_cases)
  case Nil
  with assms show ?thesis
    by (auto simp: link_after_def wp_simps reg_step_defs reg_relinked_def entry_core_def rename_core_def fun_eq_iff)
next
  case (snoc zs y)
  with assms(2) obtain n where n: "rr_renames r y = Some n" "seg (rr_renames r) (re_rename e) zs (Some y)"
    by (auto simp: seg_append)
  let ?H = "(rr_renames r)(y := Some (n\<lparr>rn_next := q\<rparr>))"
  have "seg ?H (re_rename e) zs (Some y)"
    using n(2) assms(3) snoc by (subst seg_cong [where h = "rr_renames r"]) auto
  then have "seg ?H (re_rename e) ys q" using snoc by (auto simp: seg_append)
  then show ?thesis
    using assms(1) n(1) snoc
    by (auto simp: link_after_def wp_simps reg_step_defs reg_relinked_def entry_core_def rename_core_def fun_eq_iff)
qed

text \<open>The lists of the other base entries are not touched.\<close>

lemma reg_chains_upd:
  assumes "reg_chains ch r" and "lists_ok ch (rename_core r)"
    and "rr_entries r' b = Some e'" and "seg (rr_renames r') (re_rename e') xs None"
    and "\<And>b' e. b' \<noteq> b \<Longrightarrow> rr_entries r' b' = Some e \<Longrightarrow> rr_entries r b' = Some e \<or> re_rename e = None \<and> ch b' = []"
    and "\<And>x. x \<notin> set (ch b) \<Longrightarrow> rr_renames r x \<noteq> None \<Longrightarrow>
           map_option rn_next (rr_renames r' x) = map_option rn_next (rr_renames r x)"
  shows "reg_chains (ch(b := xs)) r'"
  unfolding reg_chains_def
proof (intro allI impI)
  fix b' e assume e: "rr_entries r' b' = Some e"
  show "seg (rr_renames r') (re_rename e) ((ch(b := xs)) b') None"
  proof (cases "b' = b")
    case True
    then show ?thesis using e assms(3,4) by simp
  next
    case False
    then have "seg (rr_renames r) (re_rename e) (ch b') None"
      using e assms(1) assms(5) [of b' e] by (auto simp: reg_chains_def)
    moreover have "map_option rn_next (rr_renames r' x) = map_option rn_next (rr_renames r x)" if "x \<in> set (ch b')" for x
    proof -
      from that assms(2) obtain c s where "rename_core r x = Some (c, b', s)" by (auto simp: lists_ok_def)
      then have "x \<notin> set (ch b)" "rr_renames r x \<noteq> None"
        using False assms(2) by (auto simp: lists_ok_def rename_core_def)
      then show ?thesis by (rule assms(6))
    qed
    ultimately show ?thesis
      using False seg_nexts [of "ch b'" "rr_renames r'" "rr_renames r" "re_rename e" None] by simp
  qed
qed

section \<open>Creating a rename\<close>

definition copy_of :: "'v signature \<Rightarrow> cstring \<Rightarrow> int \<Rightarrow> 'v signature" where
  "copy_of s name i = Signature name (sig_encoded_size s) (sig_size s) (sig_signature s) i [SigRef s]"

lemma copy_of_simps [simp]:
  "sig_name (copy_of s nm i) = nm" "sig_index (copy_of s nm i) = i" "renamed_copy s (copy_of s nm i)"
  by (simp_all add: copy_of_def renamed_copy_def)

lemma wp_create_rename:
  assumes "reg_ok ch r" and "rr_entries r b = Some e" and "re_base e = None"
    and "\<And>x c t. rename_core r x = Some (c, b, t) \<Longrightarrow> sig_name t \<noteq> nm"
    and "indices_fit r" and "0 < rr_local_index r"
  shows "wp (create_rename b (link_after (BaseLink b) (ch b)) nm) (\<lambda>res r'. res = Some (rr_fresh r) \<and>
      reg_ok (ch(b := ch b @ [rr_fresh r])) r' \<and> rr_local_index r' = rr_local_index r + 1 \<and>
      rename_core r' = (rename_core r)(rr_fresh r := Some (1, b, copy_of (re_signature e) nm (rr_local_index r))) \<and>
      entry_core r' = (entry_core r)(Suc (rr_fresh r) := Some (Some b, copy_of (re_signature e) nm (rr_local_index r))) \<and>
      reg_live r' = reg_live r + 2 \<and> rr_scheduler r' = rr_scheduler r) r"
proof -
  let ?x = "rr_fresh r" and ?li = "rr_local_index r"
  let ?s = "copy_of (re_signature e) nm ?li"
  from assms(1) have mem: "reg_healthy r" and chains: "reg_chains ch r"
    and shape: "reg_shape ch (reg_lookup r) (entry_core r) (rename_core r) ?x ?li"
    by (simp_all add: reg_ok_def)
  note P = shape_parts [OF shape] and F = shape_fresh [OF shape]
  let ?n = "\<lparr>rn_next = None, rn_use_count = 0, rn_base = b, rn_signature = ?s\<rparr>"
  have free: "rr_entries r (Suc ?x) = None" "rr_renames r ?x = None"
    using fresh_okD(1) [OF P(2), of "Suc ?x"] F(2) by (simp_all add: entry_core_def rename_core_def)
  have b: "entry_core r b = Some (None, re_signature e)" using assms(2,3) by (simp add: entry_core_def)
  have grown: "reg_shape (ch(b := ch b @ [?x])) ((reg_lookup r)(?li := Some (Suc ?x)))
      ((entry_core r)(Suc ?x := Some (Some b, ?s))) ((rename_core r)(?x := Some (1, b, ?s))) (Suc (Suc ?x)) (?li + 1)"
    by (rule shape_new_rename [OF shape b]) (use assms(4,6) in auto)
  have distinct: "distinct (ch b)" and x_new: "?x \<notin> set (ch b)"
    using P(3) F(2) by (auto simp: lists_ok_def)
  let ?m = "rr_memory r\<lparr>mem_calls := Suc (mem_calls (rr_memory r)), mem_live := mem_live (rr_memory r) + 1\<rparr>"
  let ?r1 = "r\<lparr>rr_memory := ?m, rr_fresh := Suc ?x, rr_local_index := ?li + 1\<rparr>"
  have none: "reg_lookup r ?li = None" by (rule F(5))
  have "wp (registry_new ?s (Some b)) (\<lambda>res r2. res = Some (Suc ?x) \<and> reg_healthy r2 \<and>
      rr_scheduler r2 = rr_scheduler r \<and> rr_renames r2 = rr_renames r \<and>
      rr_entries r2 = (rr_entries r)(Suc ?x := Some \<lparr>re_base = Some b, re_signature = ?s, re_rename = None\<rparr>) \<and>
      rr_fresh r2 = Suc (Suc ?x) \<and> rr_local_index r2 = ?li + 1 \<and>
      reg_lookup r2 = (reg_lookup r)(?li := Some (Suc ?x)) \<and> reg_live r2 = reg_live r + 2) ?r1"
    by (rule wp_mono [OF wp_registry_new])
      (use mem assms(5,6) none in \<open>auto simp: reg_healthy_def reg_frame_def indices_fit_def split: option.splits\<close>)
  moreover have "wp (andthen (rename_put ?x ?n) (\<lambda>_. andthen (write_link (link_after (BaseLink b) (ch b)) (Some ?x)) (\<lambda>_.
        andthen (count_use ?x) (\<lambda>_. ret (Some ?x))))) (\<lambda>res r'. res = Some ?x \<and>
        reg_ok (ch(b := ch b @ [?x])) r' \<and> rr_local_index r' = ?li + 1 \<and>
        rename_core r' = (rename_core r)(?x := Some (1, b, ?s)) \<and>
        entry_core r' = (entry_core r)(Suc ?x := Some (Some b, ?s)) \<and>
        reg_live r' = reg_live r + 2 \<and> rr_scheduler r' = rr_scheduler r) r2"
    if r2: "reg_healthy r2" "rr_scheduler r2 = rr_scheduler r" "rr_renames r2 = rr_renames r"
      "rr_entries r2 = (rr_entries r)(Suc ?x := Some \<lparr>re_base = Some b, re_signature = ?s, re_rename = None\<rparr>)"
      "rr_fresh r2 = Suc (Suc ?x)" "rr_local_index r2 = ?li + 1"
      "reg_lookup r2 = (reg_lookup r)(?li := Some (Suc ?x))" "reg_live r2 = reg_live r + 2" for r2
  proof -
    let ?r3 = "r2\<lparr>rr_renames := (rr_renames r2)(?x := Some ?n)\<rparr>"
    have e: "rr_entries ?r3 b = Some e" using assms(2) r2(4) free by auto
    have "seg (rr_renames r) (re_rename e) (ch b) None" using chains assms(2) by (simp add: reg_chains_def)
    then have sg: "seg (rr_renames ?r3) (re_rename e) (ch b) None"
      using x_new r2(3) by (subst seg_cong [where h = "rr_renames r"]) auto
    have cores: "rename_core ?r3 = (rename_core r)(?x := Some (0, b, ?s))"
      "entry_core ?r3 = (entry_core r)(Suc ?x := Some (Some b, ?s))"
      using r2(3,4) by (auto simp: rename_core_def entry_core_def fun_eq_iff)
    show ?thesis
      unfolding wp_andthen rename_put_def wp_modify
    proof (rule wp_mono [OF wp_write_link [OF e sg distinct]], goal_cases)
      case (1 u r4)
      then obtain e' where e': "rr_entries r4 b = Some e'" "seg (rr_renames r4) (re_rename e') (ch b) (Some ?x)" by blast
      have n4: "rr_renames r4 ?x = Some ?n" using 1 x_new by auto
      let ?r5 = "r4\<lparr>rr_renames := (rr_renames r4)(?x := Some (?n\<lparr>rn_use_count := 1\<rparr>))\<rparr>"
      have core5: "rename_core ?r5 = (rename_core r)(?x := Some (1, b, ?s))" "entry_core ?r5 = entry_core r4"
        using 1 cores by (auto simp: reg_relinked_def rename_core_def entry_core_def fun_eq_iff)
      have "seg (rr_renames ?r5) (re_rename e') (ch b @ [?x]) None"
        using e'(2) x_new by (auto simp: seg_append)
      then have "reg_chains (ch(b := ch b @ [?x])) ?r5"
        by (rule reg_chains_upd [OF chains P(3), rotated])
          (use e'(1) 1 r2(3,4) free shape_no_list [OF shape, of "Suc ?x"] in
            \<open>auto simp: entry_core_def split: if_splits\<close>)
      moreover have "reg_shape (ch(b := ch b @ [?x])) (reg_lookup ?r5) (entry_core ?r5) (rename_core ?r5)
          (rr_fresh ?r5) (rr_local_index ?r5)"
        using grown 1 core5 cores r2(5-7)
        by (simp add: reg_relinked_def)
      ultimately show ?case
        using 1 core5 cores r2 n4
        by (simp add: count_use_def wp_simps rename_put_def reg_ok_def reg_relinked_def reg_healthy_def
            INT_MIN_def INT_MAX_def)
    qed
  qed
  ultimately show ?thesis
    unfolding create_rename_def copy_of_def
    using mem assms(2,5)
    by (auto simp: wp_simps reg_step_defs labcomm2014_set_local_index_def reg_healthy_def indices_fit_def INT_MAX_def
        elim!: wp_mono)
qed

text \<open>Accounting of the blocks.\<close>

lemma card_dom_add: "finite (dom f) \<Longrightarrow> f x = None \<Longrightarrow> card (dom (f(x := Some v))) = Suc (card (dom f))"
  by (simp add: card_insert_if domIff)

lemma dom_replace: "f x \<noteq> None \<Longrightarrow> dom (f(x := Some v)) = dom f"
  by auto

lemma card_dom_drop: "finite (dom f) \<Longrightarrow> f x = Some v \<Longrightarrow> int (card (dom (f(x := None)))) = int (card (dom f)) - 1"
  using card.remove [of "dom f" x] by (simp add: domI)

lemma wp_base_entry:
  assumes "reg_ok ch r" and "0 < sig_index s" and "sig_index s < rr_local_index r" and "indices_fit r"
  shows "wp (registry_new s None) (\<lambda>res r'. \<exists>a e. res = Some a \<and> reg_ok ch r' \<and> rr_entries r' a = Some e \<and>
      sig_index (re_signature e) = sig_index s \<and> (reg_lookup r (sig_index s) = None \<longrightarrow> re_base e = None \<and> re_signature e = s) \<and>
      (reg_lookup r (sig_index s) = None \<or> rr_entries r a = Some e) \<and>
      a = (case reg_lookup r (sig_index s) of None \<Rightarrow> rr_fresh r | Some a \<Rightarrow> a) \<and>
      rename_core r' = rename_core r \<and> rr_local_index r' = rr_local_index r \<and> rr_scheduler r' = rr_scheduler r \<and>
      reg_stray r' = reg_stray r) r"
proof -
  let ?fr = "rr_fresh r"
  have h: "reg_healthy r" and chains: "reg_chains ch r"
    and shape: "reg_shape ch (reg_lookup r) (entry_core r) (rename_core r) ?fr (rr_local_index r)"
    using assms(1) by (simp_all add: reg_ok_def)
  note P = shape_parts [OF shape] and F = shape_fresh [OF shape]
  have fit: "8 * rr_local_index r \<le> INT_MAX" using assms(4) by (simp add: indices_fit_def)
  show ?thesis
  proof (cases "reg_lookup r (sig_index s)")
    case None
    show ?thesis
    proof (rule wp_mono [OF wp_registry_new [OF h assms(2,3) fit]], goal_cases)
      case (1 res r')
      let ?e = "\<lparr>re_base = None, re_signature = s, re_rename = None\<rparr>"
      have r': "reg_healthy r'" "res = Some ?fr" "rr_entries r' = (rr_entries r)(?fr := Some ?e)"
        "rr_renames r' = rr_renames r" "rr_fresh r' = Suc ?fr" "rr_local_index r' = rr_local_index r"
        "rr_scheduler r' = rr_scheduler r" "reg_lookup r' = (reg_lookup r)(sig_index s := Some ?fr)"
        "reg_live r' = reg_live r + 1"
        using 1 None by (simp_all add: reg_frame_def)
      have core: "entry_core r' = (entry_core r)(?fr := Some (None, s))" "rename_core r' = rename_core r"
        using r'(3,4) by (auto simp: entry_core_def rename_core_def fun_eq_iff)
      have "reg_chains ch r'"
        using chains r'(3,4) F(4) by (auto simp: reg_chains_def)
      then have "reg_ok ch r'"
        using shape_new_base [OF shape None assms(2,3)] r'(1,5,6,8) core by (simp add: reg_ok_def)
      then show ?case
        using r' core None F(1) card_dom_add [OF shape_finite(1) [OF shape] F(1), of "(None, s)"]
        by (simp add: reg_stray_def)
    qed
  next
    case (Some a)
    then obtain b t where a: "entry_core r a = Some (b, t)" "sig_index t = sig_index s"
      using table_okD(1) [OF P(1)] by blast
    then obtain e where e: "rr_entries r a = Some e" "re_signature e = t" by (auto simp: entry_core_def)
    show ?thesis
    proof (rule wp_mono [OF wp_registry_new [OF h assms(2,3) fit]], goal_cases)
      case (1 res r')
      then have r': "reg_healthy r'" "res = Some a" "reg_frame r r'" "reg_lookup r' = reg_lookup r" "reg_live r' = reg_live r"
        using Some by simp_all
      then have core: "entry_core r' = entry_core r" "rename_core r' = rename_core r"
        by (auto simp: entry_core_def rename_core_def reg_frame_def fun_eq_iff)
      have "reg_ok ch r'" using r' core chains shape by (simp add: reg_ok_def reg_frame_def reg_chains_def)
      then show ?case using r' core e a(2) Some by (simp add: reg_frame_def reg_stray_def)
    qed
  qed
qed

text \<open>The base entry of an entry.\<close>

lemma base_entry:
  assumes "reg_ok ch r" and "rr_entries r a = Some e"
  obtains b eb where "b = (case re_base e of None \<Rightarrow> a | Some b \<Rightarrow> b)" and "rr_entries r b = Some eb"
    and "re_base eb = None" and "re_base e = None \<longrightarrow> eb = e"
    and "re_base e \<noteq> None \<longrightarrow> renamed_copy (re_signature eb) (re_signature e)"
proof (cases "re_base e")
  case None
  with assms that [of a e] show ?thesis by simp
next
  case (Some b)
  from assms(1) have shape: "reg_shape ch (reg_lookup r) (entry_core r) (rename_core r) (rr_fresh r) (rr_local_index r)"
    by (simp add: reg_ok_def)
  note P = shape_parts [OF shape]
  have "entry_core r a = Some (Some b, re_signature e)" using assms(2) Some by (simp add: entry_core_def)
  then obtain x c where "rename_core r x = Some (c, b, re_signature e)" using own_okD(1) [OF P(6)] by blast
  then obtain s0 where "entry_core r b = Some (None, s0)" "renamed_copy s0 (re_signature e)"
    using P(5) by (fastforce simp: bases_ok_def)
  then show ?thesis using Some that [of b] by (auto simp: entry_core_def)
qed

section \<open>Using a rename once more\<close>

definition uses_fit :: "'v renaming_registry \<Rightarrow> bool" where
  "uses_fit r \<longleftrightarrow> (\<forall>x c b t. rename_core r x = Some (c, b, t) \<longrightarrow> c < INT_MAX)"

text \<open>Another use count keeps the invariant.\<close>

lemma reg_ok_use:
  assumes "reg_ok ch r" and "rr_renames r x = Some n" and "0 < c" and "c \<le> INT_MAX"
    and r': "r' = r\<lparr>rr_renames := (rr_renames r)(x := Some (n\<lparr>rn_use_count := c\<rparr>))\<rparr>"
  shows "reg_ok ch r'" and "rename_core r' = (rename_core r)(x := Some (c, rn_base n, rn_signature n))"
proof -
  show core: "rename_core r' = (rename_core r)(x := Some (c, rn_base n, rn_signature n))"
    by (auto simp: r' rename_core_def fun_eq_iff)
  have entries: "entry_core r' = entry_core r" by (simp add: r' entry_core_def fun_eq_iff)
  have shape: "reg_shape ch (reg_lookup r) (entry_core r) (rename_core r) (rr_fresh r) (rr_local_index r)"
    and chains: "reg_chains ch r" and "reg_healthy r"
    using assms(1) by (simp_all add: reg_ok_def)
  have "seg (rr_renames r') p xs q = seg (rr_renames r) p xs q" for p xs q
    by (rule seg_nexts) (use assms(2) in \<open>auto simp: r'\<close>)
  then have "reg_chains ch r'" using chains by (simp add: reg_chains_def r')
  moreover have "rename_core r x = Some (rn_use_count n, rn_base n, rn_signature n)"
    using assms(2) by (simp add: rename_core_def)
  ultimately show "reg_ok ch r'"
    using shape_use [OF shape _ assms(3,4)] core entries \<open>reg_healthy r\<close> by (simp add: reg_ok_def reg_healthy_def r')
qed

lemma wp_count_use:
  assumes "reg_ok ch r" and "uses_fit r" and "rr_renames r x = Some n"
  shows "wp (count_use x) (\<lambda>_ r'. r' = r\<lparr>rr_renames := (rr_renames r)(x := Some (n\<lparr>rn_use_count := rn_use_count n + 1\<rparr>))\<rparr> \<and>
      reg_ok ch r' \<and> rename_core r' = (rename_core r)(x := Some (rn_use_count n + 1, rn_base n, rn_signature n))) r"
proof -
  have core: "rename_core r x = Some (rn_use_count n, rn_base n, rn_signature n)" using assms(3) by (simp add: rename_core_def)
  moreover have "uses_ok (rename_core r)" using assms(1) by (simp add: reg_ok_def reg_shape_def)
  ultimately have "0 < rn_use_count n" "rn_use_count n < INT_MAX"
    using assms(2) unfolding uses_ok_def uses_fit_def by blast+
  then show ?thesis
    using reg_ok_use [OF assms(1,3) _ _ refl, of "rn_use_count n + 1"] assms(3)
    by (simp add: count_use_def wp_simps rename_put_def INT_MIN_def)
qed

text \<open>
  Two signatures of one type, and the base entry of a signature (as it will be when it is not known
  yet).
\<close>

definition same_type :: "'v signature \<Rightarrow> 'v signature \<Rightarrow> bool" where
  "same_type s t \<longleftrightarrow> sig_signature t = sig_signature s \<and> sig_size t = sig_size s \<and> sig_encoded_size t = sig_encoded_size s"

definition base_address :: "'v renaming_registry \<Rightarrow> 'v signature \<Rightarrow> nat" where
  "base_address r s = (case reg_lookup r (sig_index s) of
     None \<Rightarrow> rr_fresh r
   | Some a \<Rightarrow> (case entry_core r a of Some (Some b, _) \<Rightarrow> b | _ \<Rightarrow> a))"

text \<open>
  From \<open>r\<close> to \<open>r'\<close> the rename \<open>x\<close> of the base \<open>b\<close> under the name \<open>nm\<close> got one more use: it was known
  already, or no rename of the base had this name and it is new, with the next index.
\<close>

definition one_more_use :: "nat \<Rightarrow> 'v signature \<Rightarrow> cstring \<Rightarrow> nat \<Rightarrow> 'v renaming_registry \<Rightarrow> 'v renaming_registry \<Rightarrow> bool" where
  "one_more_use b s nm x r r' \<longleftrightarrow>
     (\<exists>c t. rename_core r' = (rename_core r)(x := Some (c, b, t)) \<and> sig_name t = nm \<and> same_type s t \<and>
        (rename_core r x = Some (c - 1, b, t) \<and> rr_local_index r' = rr_local_index r \<or>
         (\<forall>y d u. rename_core r y = Some (d, b, u) \<longrightarrow> sig_name u \<noteq> nm) \<and> c = 1 \<and> rename_core r x = None \<and>
         sig_index t = rr_local_index r \<and> rr_local_index r' = rr_local_index r + 1))"

lemma base_address_cong:
  "rr_registry r' = rr_registry r \<Longrightarrow> rr_fresh r' = rr_fresh r \<Longrightarrow> entry_core r' = entry_core r \<Longrightarrow>
   base_address r' s = base_address r s"
  by (simp add: base_address_def split: option.split)

lemma scheduler_simps [simp]:
  "reg_stray (r\<lparr>rr_scheduler := cs\<rparr>) = reg_stray r"
  "reg_inv (r\<lparr>rr_scheduler := cs\<rparr>) = reg_inv r" "uses_fit (r\<lparr>rr_scheduler := cs\<rparr>) = uses_fit r"
  "indices_fit (r\<lparr>rr_scheduler := cs\<rparr>) = indices_fit r"
  "one_more_use b s nm x (r\<lparr>rr_scheduler := cs\<rparr>) r' = one_more_use b s nm x r r'"
  "one_more_use b s nm x r (r'\<lparr>rr_scheduler := cs\<rparr>) = one_more_use b s nm x r r'"
  by (simp_all add: reg_stray_def reg_inv_def uses_fit_def indices_fit_def one_more_use_def)

lemma base_address_scheduler [simp]: "base_address (r\<lparr>rr_scheduler := cs\<rparr>) s = base_address r s"
  by (rule base_address_cong) simp_all

text \<open>What a renaming function promises.\<close>

locale renamer =
  fixes rename_func :: rename_function
    and new_name :: "cstring \<Rightarrow> cstring"
    and fits :: "cstring \<Rightarrow> bool"
  assumes rename_law: "plenty m \<Longrightarrow> fits name \<Longrightarrow>
    wp (rename_func name) (\<lambda>res m'. res = Some (new_name name) \<and> plenty m' \<and> mem_live m' = mem_live m + 1) m"
begin

lemma wp_rename_func:
  assumes "reg_ok ch r" and "fits name"
  shows "wp (on_rrmemory (rename_func name)) (\<lambda>res r'. res = Some (new_name name) \<and> reg_ok ch r' \<and>
      (\<exists>m. r' = r\<lparr>rr_memory := m\<rparr> \<and> mem_live m = mem_live (rr_memory r) + 1)) r"
  unfolding on_rrmemory_def wp_zoom
  by (rule wp_mono [OF rename_law [OF _ assms(2)]])
    (use assms(1) in \<open>auto simp: reg_ok_def reg_healthy_def reg_chains_def entry_core_def [abs_def] rename_core_def [abs_def]\<close>)

text \<open>
  The rename is found again or made.  The use count, the number of live blocks and the next index
  are accounted for.
\<close>

lemma wp_use_or_create:
  assumes "reg_ok ch r" and "uses_fit r" and "indices_fit r" and "0 < rr_local_index r"
    and "rr_entries r b = Some e" and "re_base e = None"
  shows "wp (andthen (find_link (\<lambda>_ n. sig_name (rn_signature n) = nm) (BaseLink b)) (\<lambda>l.
             andthen (read_link l) (\<lambda>p.
             case p of
               None \<Rightarrow> create_rename b l nm
             | Some x \<Rightarrow> andthen (count_use x) (\<lambda>_.
                        andthen (on_rrmemory (labcomm2014_memory_free 0 True)) (\<lambda>_. ret (Some x))))))
    (\<lambda>res r'. \<exists>x. res = Some x \<and> reg_inv r' \<and> one_more_use b (re_signature e) nm x r r' \<and>
      rr_scheduler r' = rr_scheduler r \<and> reg_stray r' = reg_stray r - 1) r" (is "wp _ ?Q r")
proof -
  have shape: "reg_shape ch (reg_lookup r) (entry_core r) (rename_core r) (rr_fresh r) (rr_local_index r)"
    and chains: "reg_chains ch r"
    using assms(1) by (simp_all add: reg_ok_def)
  note P = shape_parts [OF shape] and F = shape_fresh [OF shape]
  let ?f = "\<lambda>_ n. sig_name (rn_signature n) = nm"
  let ?ys = "takeWhile (\<lambda>x. \<not> sig_name (rn_signature (the (rr_renames r x))) = nm) (ch b)"
  let ?zs = "dropWhile (\<lambda>x. \<not> sig_name (rn_signature (the (rr_renames r x))) = nm) (ch b)"
  have read: "read_link (BaseLink b) r = Some (Inr (re_rename e, r))"
    using assms(5) by (simp add: andthen_run [OF entry_get_run] ret_apply)
  have sg: "seg (rr_renames r) (re_rename e) (ch b) None" using chains assms(5) by (simp add: reg_chains_def)
  then obtain q where q: "seg (rr_renames r) (re_rename e) ?ys q" "seg (rr_renames r) q ?zs None"
    using seg_append [of "rr_renames r" "re_rename e" ?ys ?zs None] by auto
  note run = find_link_run [OF read sg, of ?f] and read' = read_link_after [OF read q(1)]
  have member: "x \<in> set (ch b) \<longleftrightarrow> (\<exists>n. rr_renames r x = Some n \<and> rn_base n = b)" for x
    using P(3) by (auto simp: lists_ok_def rename_core_def)
  have step: "wp (andthen (find_link ?f (BaseLink b)) (\<lambda>l. andthen (read_link l) (\<lambda>p. g p l))) Q r \<longleftrightarrow>
      wp (g q (link_after (BaseLink b) ?ys)) Q r" for g :: "nat option \<Rightarrow> link \<Rightarrow> ('a, nat option) reg_prog" and Q
    by (simp add: wp_def andthen_apply run read')
  show ?thesis
    unfolding step
  proof (cases ?zs)
    case Nil
    then have all: "\<And>x. x \<in> set (ch b) \<Longrightarrow> sig_name (rn_signature (the (rr_renames r x))) \<noteq> nm" by auto
    then have whole: "?ys = ch b" by (simp add: takeWhile_eq_all_conv)
    have none: "sig_name t \<noteq> nm" if "rename_core r x = Some (c, b, t)" for x c t
      using that all [of x] member [of x] by (auto simp: rename_core_def)
    have "q = None" using q(2) Nil by simp
    have fin: "finite (dom (rename_core r))" "finite (dom (entry_core r))" by (rule shape_finite [OF shape])+
    have free: "entry_core r (Suc (rr_fresh r)) = None" using fresh_okD(1) [OF P(2), of "Suc (rr_fresh r)"] by simp
    show "wp (case q of None \<Rightarrow> create_rename b (link_after (BaseLink b) ?ys) nm
        | Some x \<Rightarrow> andthen (count_use x) (\<lambda>_. andthen (on_rrmemory (labcomm2014_memory_free 0 True)) (\<lambda>_. ret (Some x)))) ?Q r"
      unfolding \<open>q = None\<close> whole option.case
      by (rule wp_mono [OF wp_create_rename [OF assms(1,5,6) none assms(3,4)]])
        (use none F(2) card_dom_add [OF fin(1) F(2)] card_dom_add [OF fin(2) free] in
          \<open>auto simp: reg_inv_def reg_stray_def one_more_use_def same_type_def copy_of_def\<close>)
  next
    case (Cons x zs)
    then have x: "x \<in> set (ch b)" "sig_name (rn_signature (the (rr_renames r x))) = nm"
      using dropWhile_eq_Cons_conv [of "\<lambda>x. \<not> sig_name (rn_signature (the (rr_renames r x))) = nm" "ch b" x zs]
      by (auto dest: arg_cong [where f = set])
    then obtain n where n: "rr_renames r x = Some n" "rn_base n = b" "sig_name (rn_signature n) = nm"
      using member [of x] by auto
    have core: "rename_core r x = Some (rn_use_count n, b, rn_signature n)" using n by (simp add: rename_core_def)
    then have copy: "same_type (re_signature e) (rn_signature n)"
      using P(5) assms(5,6) by (fastforce simp: bases_ok_def entry_core_def same_type_def renamed_copy_def)
    have "q = Some x" using q(2) Cons by simp
    have dm: "insert x (dom (rename_core r)) = dom (rename_core r)" using core by auto
    show "wp (case q of None \<Rightarrow> create_rename b (link_after (BaseLink b) ?ys) nm
        | Some x \<Rightarrow> andthen (count_use x) (\<lambda>_. andthen (on_rrmemory (labcomm2014_memory_free 0 True)) (\<lambda>_. ret (Some x)))) ?Q r"
      unfolding \<open>q = Some x\<close> option.case wp_andthen
      by (rule wp_mono [OF wp_count_use [OF assms(1,2) n(1)]])
        (use core copy n assms(1) dm in \<open>auto simp: wp_simps on_rrmemory_def reg_inv_def reg_stray_def one_more_use_def
           intro!: exI [of _ ch] exI [of _ "rn_use_count n + 1"]\<close>)
  qed
qed

text \<open>
  The result of a renaming: a rename with the new name and the type of the signature, found again if
  the base signature has one of this name, made otherwise.
\<close>

lemma wp_rename_locked:
  assumes "reg_inv r" and "uses_fit r" and "indices_fit r" and "fits (sig_name s)"
    and "0 < sig_index s" and "sig_index s < rr_local_index r"
    and "\<And>a b t. entry_core r a = Some (b, t) \<Longrightarrow> sig_index t = sig_index s \<Longrightarrow> t = s"
  shows "wp (rename_locked s rename_func)
    (\<lambda>res r'. \<exists>x. res = Some x \<and> reg_inv r' \<and> one_more_use (base_address r s) s (new_name (sig_name s)) x r r' \<and>
      rr_scheduler r' = rr_scheduler r \<and> reg_stray r' = reg_stray r) r"
proof -
  obtain ch where ok: "reg_ok ch r" using assms(1) by (auto simp: reg_inv_def)
  show ?thesis
    unfolding rename_locked_def wp_andthen
  proof (rule wp_mono [OF wp_base_entry [OF ok assms(5,6,3)]], elim exE conjE, goal_cases)
    case (1 res r1 a e)
    note r1 = 1(1-4) 1(8-11) 1(7) 1(5) 1(6)
    have "re_signature e = s"
    proof (cases "reg_lookup r (sig_index s) = None")
      case True
      then show ?thesis using r1(10) by simp
    next
      case False
      then have "entry_core r a = Some (re_base e, re_signature e)" using r1(11) by (auto simp: entry_core_def)
      then show ?thesis using r1(4) by (rule assms(7))
    qed
    obtain b eb where b: "b = (case re_base e of None \<Rightarrow> a | Some b \<Rightarrow> b)" "rr_entries r1 b = Some eb"
      "re_base eb = None" "re_base e = None \<longrightarrow> eb = e" "re_base e \<noteq> None \<longrightarrow> renamed_copy (re_signature eb) (re_signature e)"
      by (rule base_entry [OF r1(2,3)])
    have addr: "b = base_address r s"
      using b(1) r1(9-11) by (auto simp: base_address_def entry_core_def split: option.splits)
    have ty: "same_type s t" if "same_type (re_signature eb) t" for t
      using that b(4,5) \<open>re_signature e = s\<close> by (cases "re_base e") (auto simp: same_type_def renamed_copy_def)
    have call: "wp (on_rrmemory (rename_func (sig_name s))) (\<lambda>res r2. res = Some (new_name (sig_name s)) \<and> reg_ok ch r2 \<and>
        rename_core r2 = rename_core r \<and> rr_entries r2 = rr_entries r1 \<and> rr_local_index r2 = rr_local_index r \<and>
        rr_scheduler r2 = rr_scheduler r \<and> reg_stray r2 = reg_stray r + 1) r1"
      by (rule wp_mono [OF wp_rename_func [OF r1(2) assms(4)]]) (use r1 in \<open>auto simp: reg_stray_def\<close>)
    show ?case
      unfolding r1(1) option.case wp_andthen wp_entry_get
    proof (intro exI [of _ e] conjI r1(3), unfold Let_def wp_andthen, rule wp_mono [OF call], elim conjE, goal_cases)
      case (1 res r2)
      have "uses_fit r2" "indices_fit r2" "0 < rr_local_index r2" "rr_entries r2 b = Some eb"
        using 1 assms(2,3,5,6) b(2) by (simp_all add: uses_fit_def indices_fit_def)
      from wp_use_or_create [OF 1(2) this b(3), of "new_name (sig_name s)"] show ?case
        unfolding 1(1) option.case b(1) [symmetric]
        by (rule wp_mono) (use 1 addr ty in \<open>auto simp: one_more_use_def\<close>)
    qed
  qed
qed

lemma wp_rename_new:
  assumes "reg_inv r" and "uses_fit r" and "indices_fit r" and "fits (sig_name s)"
    and "0 < sig_index s" and "sig_index s < rr_local_index r"
    and "\<And>a b t. entry_core r a = Some (b, t) \<Longrightarrow> sig_index t = sig_index s \<Longrightarrow> t = s"
  shows "wp (labcomm2014_renaming_rename_new s rename_func) (\<lambda>res r'. \<exists>x. res = Some x \<and> reg_inv r' \<and>
      one_more_use (base_address r s) s (new_name (sig_name s)) x r r' \<and>
      rr_scheduler r' = rr_scheduler r @ [DataLock, DataUnlock] \<and> reg_stray r' = reg_stray r) r"
proof -
  let ?r = "r\<lparr>rr_scheduler := rr_scheduler r @ [DataLock]\<rparr>"
  have "wp (rename_locked s rename_func) (\<lambda>res r'. \<exists>x. res = Some x \<and> reg_inv r' \<and>
      one_more_use (base_address ?r s) s (new_name (sig_name s)) x ?r r' \<and>
      rr_scheduler r' = rr_scheduler ?r \<and> reg_stray r' = reg_stray ?r) ?r"
    by (rule wp_rename_locked) (use assms in simp_all)
  then show ?thesis
    unfolding labcomm2014_renaming_rename_new_def reg_call_def wp_andthen wp_modify wp_ret
    by (rule wp_mono) auto
qed

end

section \<open>Giving a rename back\<close>

lemma wp_drop_entry:
  assumes "reg_healthy r" and "0 < sig_index s" and "reg_lookup r (sig_index s) = Some a"
  shows "wp (drop_entry s) (\<lambda>_ r'. reg_healthy r' \<and> rr_entries r' = (rr_entries r)(a := None) \<and>
      reg_lookup r' = (reg_lookup r)(sig_index s := None) \<and> reg_live r' = reg_live r - 1 \<and>
      rr_renames r' = rr_renames r \<and> rr_fresh r' = rr_fresh r \<and> rr_local_index r' = rr_local_index r \<and>
      rr_scheduler r' = rr_scheduler r) r"
proof -
  have ok: "sa_ok (rr_registry r)" and inside: "sa_in (sig_index s) (rr_registry r)"
    using assms(1,3) sa_lookup_outside [of "sig_index s" "rr_registry r" None] by (auto simp: reg_healthy_def)
  have "wp (on_rrtable (sa_deref None 8 (sig_index s))) Q r \<longleftrightarrow> Q (Some a) r" for Q
    using sa_deref_inside [OF ok inside, of None 8 "rr_memory r"] assms(3)
    by (auto simp: on_rrtable_def wp_def zoom_apply)
  then show ?thesis
    using assms(1,2) sa_lookup_set [OF ok inside]
    by (simp add: drop_entry_def labcomm2014_get_local_index_def wp_simps on_rrmemory_def reg_healthy_def)
qed

lemma reg_chains_fewer:
  assumes "reg_chains ch r" and "rr_renames r' = rr_renames r"
    and "\<And>b e. rr_entries r' b = Some e \<Longrightarrow> rr_entries r b = Some e"
  shows "reg_chains ch r'"
  using assms by (auto simp: reg_chains_def)

text \<open>What is known of a rename in use: its place in the list of its base, and its own entry.\<close>

lemma rename_parts:
  assumes "reg_ok ch r" and "rr_renames r x = Some n"
  obtains e ys zs a where "rr_entries r (rn_base n) = Some e" and "re_base e = None"
    and "ch (rn_base n) = ys @ x # zs" and "x \<notin> set ys" and "x \<notin> set zs" and "distinct (ys @ zs)"
    and "seg (rr_renames r) (re_rename e) ys (Some x)" and "seg (rr_renames r) (rn_next n) zs None"
    and "entry_core r a = Some (Some (rn_base n), rn_signature n)"
    and "reg_lookup r (sig_index (rn_signature n)) = Some a" and "a \<noteq> rn_base n"
proof -
  have shape: "reg_shape ch (reg_lookup r) (entry_core r) (rename_core r) (rr_fresh r) (rr_local_index r)"
    and chains: "reg_chains ch r" using assms(1) by (simp_all add: reg_ok_def)
  note P = shape_parts [OF shape]
  have core: "rename_core r x = Some (rn_use_count n, rn_base n, rn_signature n)"
    using assms(2) by (simp add: rename_core_def)
  then obtain s0 where "entry_core r (rn_base n) = Some (None, s0)" using P(5) unfolding bases_ok_def by blast
  then obtain e where e: "rr_entries r (rn_base n) = Some e" "re_base e = None" by (auto simp: entry_core_def)
  have "x \<in> set (ch (rn_base n))" and dist: "distinct (ch (rn_base n))"
    using core P(3) by (auto simp: lists_ok_def)
  then obtain ys zs where xs: "ch (rn_base n) = ys @ x # zs" by (auto dest: split_list)
  have "seg (rr_renames r) (re_rename e) (ys @ x # zs) None"
    using chains e(1) xs unfolding reg_chains_def by metis
  then have segs: "seg (rr_renames r) (re_rename e) ys (Some x)" "seg (rr_renames r) (rn_next n) zs None"
    using assms(2) by (auto simp: seg_append)
  obtain a where a: "entry_core r a = Some (Some (rn_base n), rn_signature n)"
    using own_okD(2) [OF P(6) core] by blast
  moreover have "reg_lookup r (sig_index (rn_signature n)) = Some a" by (rule table_okD(2) [OF P(1) a])
  moreover have "a \<noteq> rn_base n" using a e by (auto simp: entry_core_def)
  ultimately show ?thesis using that [OF e xs _ _ _ segs] dist xs by auto
qed

lemma takeWhile_before: "x \<notin> set ys \<Longrightarrow> takeWhile (\<lambda>y. y \<noteq> x) (ys @ x # zs) = ys"
  by (induction ys) auto

lemma wp_delete_rename:
  assumes "reg_ok ch r0" and "rr_renames r0 x = Some n" and n': "n' = n\<lparr>rn_use_count := 0\<rparr>"
    and r: "r = r0\<lparr>rr_renames := (rr_renames r0)(x := Some n')\<rparr>"
  shows "wp (delete_rename x n') (\<lambda>_ r'. reg_inv r' \<and> rename_core r' = (rename_core r0)(x := None) \<and>
      rr_scheduler r' = rr_scheduler r0 \<and> rr_local_index r' = rr_local_index r0 \<and> reg_stray r' = reg_stray r0) r"
proof -
  let ?b = "rn_base n" and ?s = "rn_signature n"
  obtain e ys zs a where e: "rr_entries r0 ?b = Some e" "re_base e = None"
    and xs: "ch ?b = ys @ x # zs" "x \<notin> set ys" "x \<notin> set zs" "distinct (ys @ zs)"
    and segs: "seg (rr_renames r0) (re_rename e) ys (Some x)" "seg (rr_renames r0) (rn_next n) zs None"
    and a: "entry_core r0 a = Some (Some ?b, ?s)" "reg_lookup r0 (sig_index ?s) = Some a" "a \<noteq> ?b"
    by (rule rename_parts [OF assms(1,2)])
  have segs': "seg (rr_renames r) (re_rename e) ys (Some x)" "seg (rr_renames r) (rn_next n) zs None"
    using segs xs by (simp_all add: r)
  then have whole: "seg (rr_renames r) (re_rename e) (ys @ x # zs) None" by (simp add: seg_append r n')
  have read: "read_link (BaseLink ?b) r = Some (Inr (re_rename e, r))"
    using e(1) by (simp add: andthen_run [OF entry_get_run] ret_apply r)
  have "find_link (\<lambda>y _. y = x) (BaseLink ?b) r = Some (Inr (link_after (BaseLink ?b) ys, r))"
    using find_link_run [OF read whole, of "\<lambda>y _. y = x"] takeWhile_before [OF xs(2)] by simp
  then have find: "wp (find_link (\<lambda>y _. y = x) (BaseLink ?b)) Q r \<longleftrightarrow> Q (link_after (BaseLink ?b) ys) r" for Q
    by (simp add: wp_def)
  have shape: "reg_shape ch (reg_lookup r0) (entry_core r0) (rename_core r0) (rr_fresh r0) (rr_local_index r0)"
    and chains: "reg_chains ch r0" and healthy: "reg_healthy r0" using assms(1) by (simp_all add: reg_ok_def)
  note P = shape_parts [OF shape]
  have core: "rename_core r0 x = Some (rn_use_count n, ?b, ?s)" using assms(2) by (simp add: rename_core_def)
  have core_r: "entry_core r = entry_core r0" "(rename_core r)(x := None) = (rename_core r0)(x := None)"
    by (auto simp: r rename_core_def fun_eq_iff)
  have base: "entry_core r0 ?b = Some (None, re_signature e)" using e by (simp add: entry_core_def)
  have i0: "reg_lookup r0 (sig_index (re_signature e)) = Some ?b" "0 < sig_index (re_signature e)" "0 < sig_index ?s"
    using table_okD(2) [OF P(1) base] P(2) base a(1) by (auto simp: fresh_ok_def)
  have neq: "sig_index ?s \<noteq> sig_index (re_signature e)" using table_okD(3) [OF P(1) a(1) base] a(3) by blast
  have ch': "ch(?b := remove1 x (ch ?b)) = ch(?b := ys @ zs)" using xs by (simp add: remove1_append)
  note shape1 = shape_drop_rename [OF shape core a(1), unfolded ch']
  have shape2: "reg_shape (ch(?b := ys @ zs)) ((reg_lookup r0)(sig_index (re_signature e) := None, sig_index ?s := None))
      ((entry_core r0)(?b := None, a := None)) ((rename_core r0)(x := None)) (rr_fresh r0) (rr_local_index r0)"
    if "ys @ zs = []"
    using shape_drop_base [OF shape1, of ?b "re_signature e"] base a(3) that neq by (simp add: fun_upd_twist)
  have e_r: "rr_entries r ?b = Some e" using e(1) by (simp add: r)
  have dist: "distinct ys" using xs(4) by simp
  have n'_simps: "rn_base n' = ?b" "rn_next n' = rn_next n" "rn_signature n' = ?s" by (simp_all add: n')
  show ?thesis
    unfolding delete_rename_def n'_simps wp_andthen find
  proof (rule wp_mono [OF wp_write_link [OF e_r segs'(1) dist]], elim exE conjE, goal_cases)
    case (1 u r2 e')
    let ?r3 = "r2\<lparr>rr_renames := (rr_renames r2)(x := None)\<rparr>"
    have links: "reg_relinked r r2" "rr_entries r2 ?b = Some e'" "re_signature e' = re_signature e"
      "seg (rr_renames r2) (re_rename e') ys (rn_next n)"
      and others: "\<And>b'. b' \<noteq> ?b \<Longrightarrow> rr_entries r2 b' = rr_entries r b'"
        "\<And>y. y \<notin> set ys \<Longrightarrow> rr_renames r2 y = rr_renames r y"
      using 1 by blast+
    have "seg (rr_renames r2) (rn_next n) zs None"
      using segs'(2) others(2) xs(4) by (subst seg_cong [of zs "rr_renames r2" "rr_renames r"]) auto
    then have list: "seg (rr_renames ?r3) (re_rename e') (ys @ zs) None"
      using links(4) xs(2,3) by (auto simp: seg_append)
    have chains3: "reg_chains (ch(?b := ys @ zs)) ?r3"
      by (rule reg_chains_upd [OF chains P(3), of ?r3 ?b e', OF _ list]) (use links(2) others xs in \<open>auto simp: r\<close>)
    have last: "re_rename e' = None \<longleftrightarrow> ys @ zs = []" using list by (cases "ys @ zs") auto
    have core3: "entry_core r2 = entry_core r0" "rename_core ?r3 = (rename_core r0)(x := None)"
      using links(1) core_r by (simp_all add: reg_relinked_def core_drop(1))
    have r2: "reg_healthy r2" "reg_lookup r2 = reg_lookup r0" "reg_live r2 = reg_live r0"
      "rr_fresh r2 = rr_fresh r0" "rr_local_index r2 = rr_local_index r0" "rr_scheduler r2 = rr_scheduler r0"
      using links(1) healthy by (simp_all add: reg_relinked_def reg_healthy_def r)
    let ?i0 = "sig_index (re_signature e)"
    have base_step: "wp (if re_rename e' = None then drop_entry (re_signature e') else ret ()) (\<lambda>_ r4.
        reg_healthy r4 \<and> rr_renames r4 = rr_renames r2 \<and> rr_fresh r4 = rr_fresh r0 \<and>
        rr_local_index r4 = rr_local_index r0 \<and> rr_scheduler r4 = rr_scheduler r0 \<and>
        (if ys @ zs = [] then rr_entries r4 = (rr_entries r2)(?b := None) \<and>
           reg_lookup r4 = (reg_lookup r0)(?i0 := None) \<and> reg_live r4 = reg_live r0 - 1
         else rr_entries r4 = rr_entries r2 \<and> reg_lookup r4 = reg_lookup r0 \<and> reg_live r4 = reg_live r0)) r2"
      unfolding last links(3)
      using wp_drop_entry [OF r2(1), of "re_signature e" ?b] i0 r2 by (auto simp: wp_ret elim!: wp_mono)
    show ?case
      unfolding wp_entry_get
    proof (intro exI [of _ e'] conjI links(2), rule wp_mono [OF base_step], elim conjE, goal_cases)
      case (1 u r4)
      have a4: "reg_lookup r4 (sig_index ?s) = Some a" using 1(6) a(2) neq by (auto split: if_splits)
      show ?case
      proof (rule wp_mono [OF wp_drop_entry [OF 1(1) i0(3) a4]], elim conjE, goal_cases)
        case prems: (1 v r5)
        let ?f = "\<lambda>m. r5\<lparr>rr_memory := m, rr_renames := (rr_renames r5)(x := None)\<rparr>"
        have chains5: "reg_chains (ch(?b := ys @ zs)) (?f m)" for m
          by (rule reg_chains_fewer [OF chains3]) (use 1 prems in \<open>auto split: if_splits\<close>)
        have ren: "rename_core (?f m) = (rename_core r0)(x := None)" for m
          using rename_core_cong [of "?f m" ?r3] core3(2) 1 prems by simp
        have ent4: "entry_core r4 = (if ys @ zs = [] then (entry_core r0)(?b := None) else entry_core r0)"
          using 1(6) core3(1) core_drop(2,3) [of r4 r2] by auto
        have ent: "entry_core (?f m) = (entry_core r4)(a := None)" for m
          using core_drop(2) [of r5 r4 a] prems by simp
        have cards: "int (card (dom ((rename_core r0)(x := None)))) = int (card (dom (rename_core r0))) - 1"
          "int (card (dom ((entry_core r4)(a := None)))) = int (card (dom (entry_core r0))) - (if ys @ zs = [] then 2 else 1)"
          using card_dom_drop [OF shape_finite(2) [OF shape] core] card_dom_drop [OF shape_finite(1) [OF shape] base]
            card_dom_drop [OF shape_finite(1) [OF shape] a(1)] a(3) shape_finite(1) [OF shape]
            card_dom_drop [of "(entry_core r0)(?b := None)" a "(Some ?b, ?s)"] a(1) ent4
          by (auto simp del: fun_upd_apply) (simp add: a(3))
        have "reg_shape (ch(?b := ys @ zs)) (reg_lookup r5) ((entry_core r4)(a := None)) ((rename_core r0)(x := None))
            (rr_fresh r5) (rr_local_index r5)"
          using shape1 shape2 prems 1 ent4 by (auto split: if_splits)
        then show ?case
          using chains5 ren ent cards prems 1
          by (auto simp: wp_simps on_rrmemory_def reg_inv_def reg_ok_def reg_healthy_def reg_stray_def
              intro!: exI [of _ "ch(?b := ys @ zs)"])
      qed
    qed
  qed
qed

text \<open>
  One use less: the rename is kept while it is in use, and disappears with its entry, its name and,
  when it was the last one, the entry of its base otherwise.
\<close>

lemma wp_rename_free:
  assumes "reg_inv r" and "rename_core r x = Some (c, b, t)"
  shows "wp (labcomm2014_renaming_rename_free x) (\<lambda>_ r'. reg_inv r' \<and>
      rename_core r' = (rename_core r)(x := (if c = 1 then None else Some (c - 1, b, t))) \<and>
      rr_scheduler r' = rr_scheduler r @ [DataLock, DataUnlock] \<and> rr_local_index r' = rr_local_index r \<and>
      reg_stray r' = reg_stray r) r"
proof -
  let ?r = "r\<lparr>rr_scheduler := rr_scheduler r @ [DataLock]\<rparr>"
  obtain ch where ok: "reg_ok ch ?r" using assms(1) by (auto simp: reg_inv_def)
  obtain n where n: "rr_renames ?r x = Some n" "rn_use_count n = c" "rn_base n = b" "rn_signature n = t"
    using assms(2) by (auto simp: rename_core_def)
  have "uses_ok (rename_core r)" using ok by (simp add: reg_ok_def reg_shape_def)
  then have c: "0 < c" "c \<le> INT_MAX" using assms(2) unfolding uses_ok_def by blast+
  have del: "wp (delete_rename x (n\<lparr>rn_use_count := 0\<rparr>)) (\<lambda>_ r'. reg_inv r' \<and> rename_core r' = (rename_core r)(x := None) \<and>
      rr_scheduler r' = rr_scheduler r @ [DataLock] \<and> rr_local_index r' = rr_local_index r \<and> reg_stray r' = reg_stray r)
      (?r\<lparr>rr_renames := (rr_renames ?r)(x := Some (n\<lparr>rn_use_count := 0\<rparr>))\<rparr>)"
    using wp_delete_rename [OF ok n(1) refl refl] by simp
  show ?thesis
  proof (cases "c = 1")
    case True
    with n c del show ?thesis
      by (auto simp: labcomm2014_renaming_rename_free_def wp_simps reg_call_def rename_put_def INT_MIN_def
          elim!: wp_mono)
  next
    case False
    with c have "0 < c - 1" "c - 1 \<le> INT_MAX" by auto
    note kept = reg_ok_use [OF ok [unfolded reg_ok_other(1)] n(1) [simplified] this refl]
    have "insert x (dom (rename_core r)) = dom (rename_core r)" using assms(2) by auto
    with False n c kept show ?thesis
      by (auto simp: labcomm2014_renaming_rename_free_def wp_simps reg_call_def rename_put_def INT_MIN_def
          reg_inv_def reg_stray_def)
  qed
qed

section \<open>The renaming functions of the library\<close>

lemma renaming_prefix_run:
  assumes "plenty m" and "int (length prefix) + int (length name) < INT_MAX"
  shows "wp (labcomm2014_renaming_prefix prefix name)
    (\<lambda>res m'. res = Some (prefix @ name) \<and> plenty m' \<and> mem_live m' = mem_live m + 1) m"
proof -
  have "int_of_u32 (u32_of_int (int (length name) + int (length prefix) + 1)) = int (length prefix) + int (length name) + 1"
    using assms(2) by (simp add: INT_MIN_def)
  then show ?thesis
    using assms by (simp add: labcomm2014_renaming_prefix_def wp_simps Let_def nat_add_distrib)
qed

interpretation prefix: renamer "labcomm2014_renaming_prefix p" "\<lambda>name. p @ name"
  "\<lambda>name. int (length p) + int (length name) < INT_MAX" for p
  by unfold_locales (rule renaming_prefix_run)

interpretation suffix: renamer "labcomm2014_renaming_suffix p" "\<lambda>name. name @ p"
  "\<lambda>name. int (length name) + int (length p) < INT_MAX" for p
  by unfold_locales (auto simp: labcomm2014_renaming_suffix_def intro: renaming_prefix_run)

end
