(* ===== verification/LC_RenamingCoders.thy ===== *)
theory LC_RenamingCoders
  imports LC_RenamingSpec LC_Session
begin

text \<open>
  The renaming encoder and decoder (\<^verbatim>\<open>labcomm2014_renaming_encoder.c\<close>,
  \<^verbatim>\<open>labcomm2014_renaming_decoder.c\<close>): wrappers that replace the signatures they are given by renamed
  ones and pass the calls on to the next encoder or decoder.

  What a wrapper uses of the next encoder are the function pointers of \<^verbatim>\<open>struct labcomm2014_encoder\<close>,
  its memory and its scheduler: the record \<open>encoder_methods\<close> over the state \<open>'n\<close> of the next encoder
  (\<open>decoder_methods\<close> for decoders).  The tables \<open>core_encoder\<close> and \<open>core_decoder\<close> are those that
  \<^verbatim>\<open>internal_encoder_new\<close> and \<^verbatim>\<open>labcomm2014_decoder_new\<close> fill in; a wrapper has a table of the same
  kind, so wrappers can be stacked.
\<close>

section \<open>Method tables\<close>

record 'n base_methods =
  bm_call :: "sched_call \<Rightarrow> ('n, unit) prog"
  bm_memory :: "'n \<Rightarrow> memory"
  bm_set_memory :: "memory \<Rightarrow> 'n \<Rightarrow> 'n"

record ('n, 'f, 'v) encoder_methods = "'n base_methods" +
  em_type_register :: "'v signature \<Rightarrow> ('n, int) prog"
  em_type_bind :: "'v signature \<Rightarrow> bool \<Rightarrow> ('n, int) prog"
  em_sample_register :: "'v signature \<Rightarrow> ('n, int) prog"
  em_ref_register :: "'v signature \<Rightarrow> ('n, int) prog"
  em_encode :: "'v signature \<Rightarrow> 'f \<Rightarrow> 'v \<Rightarrow> ('n, int) prog"
  em_ioctl :: "'v signature option \<Rightarrow> u32 \<Rightarrow> int list \<Rightarrow> ('n, int \<times> ioctl_out) prog"
  em_sample_ref_to_index :: "'v signature option \<Rightarrow> ('n, int) prog"
  em_ref_get :: "'v signature \<Rightarrow> ('n, 'v signature option) prog"

definition core_encoder :: "(('z, 'v) encoder, ('z, 'v) encode_function, 'v) encoder_methods" where
  "core_encoder =
     \<lparr>bm_call = enc_call, bm_memory = e_memory, bm_set_memory = (\<lambda>m e. e\<lparr>e_memory := m\<rparr>),
      em_type_register = do_type_register, em_type_bind = do_type_bind,
      em_sample_register = do_sample_register, em_ref_register = enc_do_ref_register, em_encode = do_encode,
      em_ioctl = enc_do_ioctl, em_sample_ref_to_index = do_sample_ref_to_index,
      em_ref_get = (\<lambda>s. ret (enc_do_ref_get s))\<rparr>"

record ('n, 'f, 'v) decoder_methods = "'n base_methods" +
  dm_decode_one :: "('n, int) prog"
  dm_sample_register :: "'v signature \<Rightarrow> 'f \<Rightarrow> nat \<Rightarrow> nat \<Rightarrow> ('n, int) prog"
  dm_ref_register :: "'v signature \<Rightarrow> ('n, int) prog"
  dm_ioctl :: "'v signature option \<Rightarrow> u32 \<Rightarrow> int list \<Rightarrow> ('n, int \<times> ioctl_out) prog"
  dm_index_to_sample_ref :: "int \<Rightarrow> ('n, 'v signature option) prog"
  dm_ref_get :: "'v signature \<Rightarrow> ('n, 'v signature option) prog"

definition core_decoder :: "(('z, 'v) decoder, ('z, 'v) decode_function, 'v) decoder_methods" where
  "core_decoder =
     \<lparr>bm_call = dec_call, bm_memory = d_memory, bm_set_memory = (\<lambda>m d. d\<lparr>d_memory := m\<rparr>),
      dm_decode_one = do_decode_one, dm_sample_register = do_register_sample,
      dm_ref_register = dec_do_ref_register, dm_ioctl = dec_do_ioctl,
      dm_index_to_sample_ref = do_index_to_sample_ref, dm_ref_get = (\<lambda>s. ret (dec_do_ref_get s))\<rparr>"

section \<open>The table of renamed signatures\<close>

text \<open>
  The state of a wrapper: the next coder, the registry and the table of the renames in use.  The
  encoder and the decoder differ in the lock they take.
\<close>

record ('n, 'v) renaming_coder =
  rc_next :: 'n
  rc_registry :: "'v renaming_registry"
  rc_renamed :: "nat option sigarr"

definition rc_on_next :: "('n, 'a) prog \<Rightarrow> (('n, 'v) renaming_coder, 'a) prog" where
  "rc_on_next = zoom rc_next (\<lambda>n c. c\<lparr>rc_next := n\<rparr>)"

definition rc_on_registry :: "('v, 'a) reg_prog \<Rightarrow> (('n, 'v) renaming_coder, 'a) prog" where
  "rc_on_registry = zoom rc_registry (\<lambda>r c. c\<lparr>rc_registry := r\<rparr>)"

definition rc_on_table :: "('n, 'm) base_methods_scheme \<Rightarrow> (memory \<times> nat option sigarr, 'a) prog \<Rightarrow>
    (('n, 'v) renaming_coder, 'a) prog" where
  "rc_on_table bm = zoom (\<lambda>c. (bm_memory bm (rc_next c), rc_renamed c))
     (\<lambda>(m, t) c. c\<lparr>rc_next := bm_set_memory bm m (rc_next c), rc_renamed := t\<rparr>)"

definition get_renamed_under ::
    "sched_call \<times> sched_call \<Rightarrow> ('n, 'm) base_methods_scheme \<Rightarrow> 'v signature option \<Rightarrow>
     (('n, 'v) renaming_coder, nat option) prog" where
  "get_renamed_under locks bm so =
     andthen (labcomm2014_get_local_index so) (\<lambda>index.
     andthen (rc_on_next (bm_call bm (fst locks))) (\<lambda>_.
     andthen (gets rc_renamed) (\<lambda>renamed.
     andthen (signature_array_get index None renamed) (\<lambda>result.
     andthen (rc_on_next (bm_call bm (snd locks))) (\<lambda>_. ret result)))))"

definition set_renamed_under ::
    "sched_call \<times> sched_call \<Rightarrow> ('n, 'm) base_methods_scheme \<Rightarrow> rename_function \<Rightarrow> 'v signature \<Rightarrow>
     (('n, 'v) renaming_coder, nat option) prog" where
  "set_renamed_under locks bm rename_func s =
     andthen (get_renamed_under locks bm (Some s)) (\<lambda>result.
     if result \<noteq> None then ret result
     else andthen (labcomm2014_get_local_index (Some s)) (\<lambda>index.
          andthen (rc_on_registry (labcomm2014_renaming_rename_new s rename_func)) (\<lambda>entry.
          case entry of None \<Rightarrow> ret None
          | Some x \<Rightarrow>
              andthen (rc_on_next (bm_call bm (fst locks))) (\<lambda>_.
              andthen (rc_on_table bm (labcomm2014_signature_array_ref None 8 index)) (\<lambda>ok.
              andthen
               (if \<not> ok then andthen (rc_on_registry (labcomm2014_renaming_rename_free x)) (\<lambda>_. ret None)
                else andthen (gets (\<lambda>c. sa_at index (rc_renamed c))) (\<lambda>old.
                     if old \<noteq> None then andthen (rc_on_registry (labcomm2014_renaming_rename_free x)) (\<lambda>_. ret old)
                     else andthen (modify (\<lambda>c. c\<lparr>rc_renamed := sa_set index (Some x) (rc_renamed c)\<rparr>)) (\<lambda>_.
                          ret (Some x)))) (\<lambda>result.
              andthen (rc_on_next (bm_call bm (snd locks))) (\<lambda>_. ret result)))))))"

text \<open>\<^verbatim>\<open>labcomm2014_renaming_rename_signature(renamed)\<close>; the source does not look whether \<^verbatim>\<open>renamed\<close> is NULL.\<close>

definition rc_signature :: "nat option \<Rightarrow> (('n, 'v) renaming_coder, 'v signature) prog" where
  "rc_signature renamed = (case renamed of None \<Rightarrow> stop Undef
     | Some x \<Rightarrow> rc_on_registry (labcomm2014_renaming_rename_signature x))"

fun free_renamed :: "int list \<Rightarrow> (('n, 'v) renaming_coder, unit) prog" where
  "free_renamed [] = ret ()"
| "free_renamed (i # is) =
     andthen (gets rc_renamed) (\<lambda>renamed.
     andthen (signature_array_get i None renamed) (\<lambda>r.
     andthen (case r of None \<Rightarrow> ret () | Some x \<Rightarrow> rc_on_registry (labcomm2014_renaming_rename_free x)) (\<lambda>_.
     free_renamed is)))"

definition rc_do_free :: "('n, 'm) base_methods_scheme \<Rightarrow> (('n, 'v) renaming_coder, unit) prog" where
  "rc_do_free bm =
     andthen (gets rc_renamed) (\<lambda>renamed.
     andthen (free_renamed (sa_indices renamed)) (\<lambda>_.
     andthen (rc_on_table bm signature_array_free) (\<lambda>_.
     rc_on_next (zoom (bm_memory bm) (bm_set_memory bm) (labcomm2014_memory_free 0 True)))))"

definition rc_new :: "('n, 'm) base_methods_scheme \<Rightarrow> nat \<Rightarrow> 'v renaming_registry \<Rightarrow> ('n, ('n, 'v) renaming_coder option) prog" where
  "rc_new bm sz registry =
     andthen (zoom (bm_memory bm) (bm_set_memory bm) (labcomm2014_memory_alloc 0 sz)) (\<lambda>ok.
     gets (\<lambda>n. if \<not> ok then None
               else Some \<lparr>rc_next = n, rc_registry = registry, rc_renamed = signature_array_init\<rparr>))"

section \<open>The renaming encoder\<close>

definition rne_get_renamed :: "('n, 'f, 'v) encoder_methods \<Rightarrow> 'v signature option \<Rightarrow>
    (('n, 'v) renaming_coder, nat option) prog" where
  "rne_get_renamed em so = get_renamed_under (WriterLock, WriterUnlock) em so"

definition rne_set_renamed :: "('n, 'f, 'v) encoder_methods \<Rightarrow> rename_function \<Rightarrow> 'v signature \<Rightarrow>
    (('n, 'v) renaming_coder, nat option) prog" where
  "rne_set_renamed em rename_func s = set_renamed_under (WriterLock, WriterUnlock) em rename_func s"

definition rne_type_register :: "('n, 'f, 'v) encoder_methods \<Rightarrow> 'v signature \<Rightarrow> (('n, 'v) renaming_coder, int) prog" where
  "rne_type_register em s =
     andthen (rne_get_renamed em (Some s)) (\<lambda>renamed.
     if renamed \<noteq> None then
       andthen (rc_on_next (em_type_register em s)) (\<lambda>_.
       andthen (rc_signature renamed) (\<lambda>t. rc_on_next (em_type_register em t)))
     else rc_on_next (em_type_register em s))"

definition rne_type_bind :: "('n, 'f, 'v) encoder_methods \<Rightarrow> 'v signature \<Rightarrow> bool \<Rightarrow> (('n, 'v) renaming_coder, int) prog" where
  "rne_type_bind em s has_deps =
     andthen (rne_get_renamed em (Some s)) (\<lambda>renamed.
     if renamed \<noteq> None then andthen (rc_signature renamed) (\<lambda>t. rc_on_next (em_type_bind em t True))
     else rc_on_next (em_type_bind em s has_deps))"

definition rne_sample_register :: "('n, 'f, 'v) encoder_methods \<Rightarrow> rename_function \<Rightarrow> 'v signature \<Rightarrow>
    (('n, 'v) renaming_coder, int) prog" where
  "rne_sample_register em rename_func s =
     andthen (rne_set_renamed em rename_func s) (\<lambda>renamed.
     andthen (rc_signature renamed) (\<lambda>t. rc_on_next (em_sample_register em t)))"

definition rne_ref_register :: "('n, 'f, 'v) encoder_methods \<Rightarrow> rename_function \<Rightarrow> 'v signature \<Rightarrow>
    (('n, 'v) renaming_coder, int) prog" where
  "rne_ref_register em rename_func s =
     andthen (rne_set_renamed em rename_func s) (\<lambda>renamed.
     andthen (rc_signature renamed) (\<lambda>t. rc_on_next (em_ref_register em t)))"

definition rne_encode :: "('n, 'f, 'v) encoder_methods \<Rightarrow> 'v signature \<Rightarrow> 'f \<Rightarrow> 'v \<Rightarrow> (('n, 'v) renaming_coder, int) prog" where
  "rne_encode em s encode v =
     andthen (rne_get_renamed em (Some s)) (\<lambda>renamed.
     if renamed = None then ret (- EINVAL)
     else andthen (rc_signature renamed) (\<lambda>t. rc_on_next (em_encode em t encode v)))"

text \<open>An ioctl without signature is \<open>None\<close>; its index is 0.\<close>

definition rne_ioctl :: "('n, 'f, 'v) encoder_methods \<Rightarrow> 'v signature option \<Rightarrow> u32 \<Rightarrow> int list \<Rightarrow>
    (('n, 'v) renaming_coder, int \<times> ioctl_out) prog" where
  "rne_ioctl em so action args =
     andthen (rne_get_renamed em so) (\<lambda>renamed.
     if renamed \<noteq> None then andthen (rc_signature renamed) (\<lambda>t. rc_on_next (em_ioctl em (Some t) action args))
     else rc_on_next (em_ioctl em so action args))"

definition rne_sample_ref_to_index :: "('n, 'f, 'v) encoder_methods \<Rightarrow> 'v signature option \<Rightarrow>
    (('n, 'v) renaming_coder, int) prog" where
  "rne_sample_ref_to_index em ref = rc_on_next (em_sample_ref_to_index em ref)"

definition rne_ref_get :: "('n, 'f, 'v) encoder_methods \<Rightarrow> 'v signature \<Rightarrow> (('n, 'v) renaming_coder, 'v signature option) prog" where
  "rne_ref_get em s =
     andthen (rne_get_renamed em (Some s)) (\<lambda>renamed.
     if renamed = None then rc_on_next (em_ref_get em s)
     else andthen (rc_signature renamed) (\<lambda>t. rc_on_next (em_ref_get em t)))"

definition rne_free :: "('n, 'f, 'v) encoder_methods \<Rightarrow> (('n, 'v) renaming_coder, unit) prog" where
  "rne_free em = rc_do_free em"

definition labcomm2014_renaming_encoder_new ::
    "('n, 'f, 'v) encoder_methods \<Rightarrow> 'v renaming_registry \<Rightarrow> ('n, ('n, 'v) renaming_coder option) prog" where
  "labcomm2014_renaming_encoder_new em registry = rc_new em 160 registry"

text \<open>The table of the wrapper.\<close>

definition renaming_encoder :: "('n, 'f, 'v) encoder_methods \<Rightarrow> rename_function \<Rightarrow>
    (('n, 'v) renaming_coder, 'f, 'v) encoder_methods" where
  "renaming_encoder em rename_func =
     \<lparr>bm_call = (\<lambda>c. rc_on_next (bm_call em c)), bm_memory = (\<lambda>c. bm_memory em (rc_next c)),
      bm_set_memory = (\<lambda>m c. c\<lparr>rc_next := bm_set_memory em m (rc_next c)\<rparr>),
      em_type_register = rne_type_register em, em_type_bind = rne_type_bind em,
      em_sample_register = rne_sample_register em rename_func, em_ref_register = rne_ref_register em rename_func,
      em_encode = rne_encode em, em_ioctl = rne_ioctl em,
      em_sample_ref_to_index = rne_sample_ref_to_index em, em_ref_get = rne_ref_get em\<rparr>"

section \<open>The renaming decoder\<close>

definition rnd_get_renamed :: "('n, 'f, 'v) decoder_methods \<Rightarrow> 'v signature option \<Rightarrow>
    (('n, 'v) renaming_coder, nat option) prog" where
  "rnd_get_renamed dm so = get_renamed_under (DataLock, DataUnlock) dm so"

definition rnd_set_renamed :: "('n, 'f, 'v) decoder_methods \<Rightarrow> rename_function \<Rightarrow> 'v signature \<Rightarrow>
    (('n, 'v) renaming_coder, nat option) prog" where
  "rnd_set_renamed dm rename_func s = set_renamed_under (DataLock, DataUnlock) dm rename_func s"

definition rnd_sample_register :: "('n, 'f, 'v) decoder_methods \<Rightarrow> rename_function \<Rightarrow> 'v signature \<Rightarrow> 'f \<Rightarrow> nat \<Rightarrow> nat \<Rightarrow>
    (('n, 'v) renaming_coder, int) prog" where
  "rnd_sample_register dm rename_func s decode handler context =
     andthen (rnd_set_renamed dm rename_func s) (\<lambda>renamed.
     andthen (rc_signature renamed) (\<lambda>t. rc_on_next (dm_sample_register dm t decode handler context)))"

definition rnd_ref_register :: "('n, 'f, 'v) decoder_methods \<Rightarrow> rename_function \<Rightarrow> 'v signature \<Rightarrow>
    (('n, 'v) renaming_coder, int) prog" where
  "rnd_ref_register dm rename_func s =
     andthen (rnd_set_renamed dm rename_func s) (\<lambda>renamed.
     andthen (rc_signature renamed) (\<lambda>t. rc_on_next (dm_ref_register dm t)))"

text \<open>The ioctl of a signature that was not renamed dereferences NULL.\<close>

definition rnd_ioctl :: "('n, 'f, 'v) decoder_methods \<Rightarrow> 'v signature option \<Rightarrow> u32 \<Rightarrow> int list \<Rightarrow>
    (('n, 'v) renaming_coder, int \<times> ioctl_out) prog" where
  "rnd_ioctl dm so action args =
     andthen (rnd_get_renamed dm so) (\<lambda>renamed.
     andthen (rc_signature renamed) (\<lambda>t. rc_on_next (dm_ioctl dm (Some t) action args)))"

definition rnd_decode_one :: "('n, 'f, 'v) decoder_methods \<Rightarrow> (('n, 'v) renaming_coder, int) prog" where
  "rnd_decode_one dm = rc_on_next (dm_decode_one dm)"

definition rnd_index_to_sample_ref :: "('n, 'f, 'v) decoder_methods \<Rightarrow> int \<Rightarrow>
    (('n, 'v) renaming_coder, 'v signature option) prog" where
  "rnd_index_to_sample_ref dm index = rc_on_next (dm_index_to_sample_ref dm index)"

definition rnd_ref_get :: "('n, 'f, 'v) decoder_methods \<Rightarrow> 'v signature \<Rightarrow> (('n, 'v) renaming_coder, 'v signature option) prog" where
  "rnd_ref_get dm s =
     andthen (rnd_get_renamed dm (Some s)) (\<lambda>renamed.
     if renamed = None then rc_on_next (dm_ref_get dm s)
     else andthen (rc_signature renamed) (\<lambda>t. rc_on_next (dm_ref_get dm t)))"

definition rnd_free :: "('n, 'f, 'v) decoder_methods \<Rightarrow> (('n, 'v) renaming_coder, unit) prog" where
  "rnd_free dm = rc_do_free dm"

definition labcomm2014_renaming_decoder_new ::
    "('n, 'f, 'v) decoder_methods \<Rightarrow> 'v renaming_registry \<Rightarrow> ('n, ('n, 'v) renaming_coder option) prog" where
  "labcomm2014_renaming_decoder_new dm registry = rc_new dm 168 registry"

section \<open>What the wrappers rely on\<close>

text \<open>
  The next coder: taking a lock and using the memory keep its invariant, and do not change what its
  client sees of it (\<open>view\<close>).
\<close>

abbreviation renamed :: "('n, 'v) renaming_coder \<Rightarrow> int \<Rightarrow> nat option" where
  "renamed c \<equiv> sa_lookup None (rc_renamed c)"

definition rc_inv :: "('n \<Rightarrow> bool) \<Rightarrow> ('n, 'v) renaming_coder \<Rightarrow> bool" where
  "rc_inv safe c \<longleftrightarrow> safe (rc_next c) \<and> reg_inv (rc_registry c) \<and> sa_ok (rc_renamed c) \<and>
     (\<forall>i x. renamed c i = Some x \<longrightarrow> rename_core (rc_registry c) x \<noteq> None)"

lemma wp_ret_fun: "wp (ret x) Q = Q x"
  by (simp add: fun_eq_iff wp_ret)

locale next_coder =
  fixes bm :: "('n, 'm) base_methods_scheme"
    and inv :: "'n \<Rightarrow> bool"
    and view :: "'n \<Rightarrow> 'w"
  assumes call_law: "inv n \<Longrightarrow> wp (bm_call bm c) (\<lambda>_ n'. inv n' \<and> view n' = view n) n"
    and memory_law: "inv n \<Longrightarrow> plenty (bm_memory bm n)"
    and set_memory_law: "inv n \<Longrightarrow> plenty m \<Longrightarrow> inv (bm_set_memory bm m n) \<and> view (bm_set_memory bm m n) = view n"
begin

definition rc_kept :: "('n, 'v) renaming_coder \<Rightarrow> ('n, 'v) renaming_coder \<Rightarrow> bool" where
  "rc_kept c c' \<longleftrightarrow> inv (rc_next c') \<and> view (rc_next c') = view (rc_next c) \<and>
     rc_registry c' = rc_registry c \<and> rc_renamed c' = rc_renamed c"

lemma rc_kept_trans: "rc_kept a b \<Longrightarrow> rc_kept b c \<Longrightarrow> rc_kept a c"
  by (simp add: rc_kept_def)

lemma rc_inv_kept: "rc_inv inv c \<Longrightarrow> rc_kept c c' \<Longrightarrow> rc_inv inv c'"
  by (simp add: rc_inv_def rc_kept_def)

lemma wp_lock: "inv (rc_next c) \<Longrightarrow> wp (rc_on_next (bm_call bm l)) (\<lambda>_. rc_kept c) c"
  unfolding rc_on_next_def wp_zoom
  by (rule wp_mono [OF call_law]) (auto simp: rc_kept_def)

lemma wp_get_renamed:
  assumes "rc_inv inv c" and "sig_index s \<noteq> 0"
  shows "wp (get_renamed_under locks bm (Some s)) (\<lambda>res c'. res = renamed c (sig_index s) \<and> rc_kept c c') c"
proof -
  have inv: "inv (rc_next c)" and ok: "sa_ok (rc_renamed c)" using assms(1) by (simp_all add: rc_inv_def)
  have locked: "rc_renamed c' = rc_renamed c \<and> wp (rc_on_next (bm_call bm (snd locks))) (\<lambda>_. rc_kept c) c'"
    if "rc_kept c c'" for c'
    using that by (auto simp: rc_kept_def intro!: wp_mono [OF wp_lock])
  have index: "labcomm2014_get_local_index (Some s) = ret (sig_index s)"
    using assms(2) by (simp add: labcomm2014_get_local_index_def)
  show ?thesis
    unfolding get_renamed_under_def index andthen_ret wp_andthen
    by (rule wp_mono [OF wp_lock [OF inv]]) (auto dest!: locked simp: wp_simps wp_ret_fun ok)
qed

lemma wp_grow_renamed:
  assumes "rc_inv inv c" and "sa_room 8 i (rc_renamed c)"
  shows "wp (rc_on_table bm (labcomm2014_signature_array_ref None 8 i)) (\<lambda>ok c'. ok \<and> rc_inv inv c' \<and>
    view (rc_next c') = view (rc_next c) \<and> rc_registry c' = rc_registry c \<and> sa_in i (rc_renamed c') \<and>
    renamed c' = renamed c) c"
proof -
  have inv: "inv (rc_next c)" and ok: "sa_ok (rc_renamed c)" using assms(1) by (simp_all add: rc_inv_def)
  note set = set_memory_law [OF inv] and mem = memory_law [OF inv]
  show ?thesis
    unfolding rc_on_table_def wp_zoom
    by (rule wp_mono [OF wp_signature_array_ref [OF ok assms(2), where m = "bm_memory bm (rc_next c)" and z = None]])
      (use assms(1) mem set in \<open>auto simp: rc_inv_def\<close>)
qed

text \<open>The rename of a signature that has none yet.\<close>

lemma wp_set_renamed:
  assumes "rc_inv inv c" and "renamed c (sig_index s) = None" and "sa_room 8 (sig_index s) (rc_renamed c)" and "0 < sig_index s"
    and new: "wp (labcomm2014_renaming_rename_new s rename_func) (\<lambda>res r'. \<exists>x. res = Some x \<and> reg_inv r' \<and> P x r' \<and>
      (\<forall>y. rename_core (rc_registry c) y \<noteq> None \<longrightarrow> rename_core r' y \<noteq> None) \<and> rename_core r' x \<noteq> None) (rc_registry c)"
  shows "wp (set_renamed_under locks bm rename_func s) (\<lambda>res c'. \<exists>x. res = Some x \<and> rc_inv inv c' \<and>
      view (rc_next c') = view (rc_next c) \<and> P x (rc_registry c') \<and>
      renamed c' = (renamed c)(sig_index s := Some x)) c"
proof -
  let ?i = "sig_index s"
  have "sa_ok (rc_renamed c)" using assms(1) by (simp add: rc_inv_def)
  have index: "labcomm2014_get_local_index (Some s) = ret ?i"
    using assms(4) by (simp add: labcomm2014_get_local_index_def)
  show ?thesis
    unfolding set_renamed_under_def wp_andthen
  proof (rule wp_mono [OF wp_get_renamed [OF assms(1)]], use assms(4) in simp, elim conjE, goal_cases)
    case (1 res c1)
    have c1: "rc_inv inv c1" by (rule rc_inv_kept [OF assms(1) 1(2)])
    have reg: "wp (rc_on_registry (labcomm2014_renaming_rename_new s rename_func)) (\<lambda>res c2. \<exists>x. res = Some x \<and>
        rc_inv inv c2 \<and> view (rc_next c2) = view (rc_next c) \<and> P x (rc_registry c2) \<and> rc_renamed c2 = rc_renamed c \<and>
        rename_core (rc_registry c2) x \<noteq> None) c1"
      unfolding rc_on_registry_def wp_zoom
      using 1(2) c1 by (auto simp: rc_kept_def rc_inv_def intro!: wp_mono [OF new])
    show ?case
      unfolding 1(1) assms(2) index andthen_ret simp_thms if_False wp_andthen
    proof (rule wp_mono [OF reg], elim exE conjE, goal_cases)
      case (1 res c2 x)
      show ?case
        unfolding 1(1) option.case wp_andthen
      proof (rule wp_mono [OF wp_lock], use 1(2) in \<open>simp add: rc_inv_def\<close>, goal_cases)
        case (1 u c3)
        have "rc_inv inv c3" "sa_room 8 ?i (rc_renamed c3)"
          using rc_inv_kept [OF \<open>rc_inv inv c2\<close> 1] 1 \<open>rc_renamed c2 = rc_renamed c\<close> assms(3) by (simp_all add: rc_kept_def)
        from wp_grow_renamed [OF this] show ?case
        proof (rule wp_mono, elim conjE, goal_cases)
          case (1 ok c4)
          note c2 = \<open>rc_kept c2 c3\<close> \<open>view (rc_next c2) = _\<close> \<open>P x _\<close> \<open>rc_renamed c2 = _\<close> \<open>rename_core (rc_registry c2) x \<noteq> None\<close>
          have old: "sa_at ?i (rc_renamed c4) = None"
            using 1 c2 assms(2) by (simp add: sa_at_lookup [of _ _ None] rc_inv_def rc_kept_def)
          have "sa_ok (rc_renamed c4)" "inv (rc_next c4)" using 1 by (simp_all add: rc_inv_def)
          then show ?case
            using 1 old by (simp add: wp_ret_fun wp_simps)
              (rule wp_mono [OF wp_lock], use 1 c2 in \<open>auto simp: rc_kept_def rc_inv_def sa_lookup_set\<close>)
        qed
      qed
    qed
  qed
qed

text \<open>A signature that was renamed already keeps its rename.\<close>

lemma wp_set_renamed_again:
  assumes "rc_inv inv c" and "renamed c (sig_index s) = Some x" and "sig_index s \<noteq> 0"
  shows "wp (set_renamed_under locks bm rename_func s) (\<lambda>res c'. res = Some x \<and> rc_kept c c') c"
  unfolding set_renamed_under_def wp_andthen
  by (rule wp_mono [OF wp_get_renamed [OF assms(1,3)]]) (use assms(2) in \<open>auto simp: wp_simps\<close>)

end

lemma wp_rc_signature:
  assumes "rename_core (rc_registry c) x = Some (n, b, t)"
  shows "wp (rc_signature (Some x)) Q c \<longleftrightarrow> Q t c"
  using assms by (auto simp: wp_def rc_signature_def rc_on_registry_def labcomm2014_renaming_rename_signature_def
      rename_get_def rename_core_def prog_simps)

section \<open>The next coders of the library\<close>

interpretation renc: next_coder core_encoder "enc_inv acts safe" "\<lambda>e. (e_writer e, \<lambda>t. enc_get t e)" for acts safe
proof unfold_locales
  fix e :: "('a, 'b) encoder" and c m assume inv: "enc_inv acts safe e"
  show "wp (bm_call core_encoder c) (\<lambda>_ e'. enc_inv acts safe e' \<and>
      (e_writer e', \<lambda>t. enc_get t e') = (e_writer e, \<lambda>t. enc_get t e)) e"
    using inv by (simp add: core_encoder_def enc_inv_def wp_enc_call)
qed (auto simp: core_encoder_def enc_inv_def fun_eq_iff)

interpretation rdec: next_coder core_decoder "dec_inv acts"
  "\<lambda>d. (d_reader d, d_acts d, d_reader_allocated d, d_version_ok d, d_local d, d_remote_to_local d, d_local_ref d,
    d_remote_to_local_ref d, d_calls d)" for acts
  by unfold_locales (auto simp: core_decoder_def dec_inv_def entry_at_def local_of_def fun_eq_iff dec_call_def wp_simps)

section \<open>A first rename\<close>

text \<open>
  The registry can rename the signature: the indices and use counts are far from the limits of an
  \<^verbatim>\<open>int\<close>, and the index of the signature is not that of another one.
\<close>

definition renameable :: "'v renaming_registry \<Rightarrow> 'v signature \<Rightarrow> bool" where
  "renameable r s \<longleftrightarrow> uses_fit r \<and> indices_fit r \<and> 0 < sig_index s \<and> sig_index s < rr_local_index r \<and>
     (\<forall>a b t. entry_core r a = Some (b, t) \<longrightarrow> sig_index t = sig_index s \<longrightarrow> t = s)"

definition new_rename :: "'v renaming_registry \<Rightarrow> 'v signature \<Rightarrow> cstring \<Rightarrow> bool" where
  "new_rename r s nm \<longleftrightarrow> (\<forall>y d u. rename_core r y = Some (d, base_address r s, u) \<longrightarrow> sig_name u \<noteq> nm)"

locale renaming_client = next_coder + renamer
begin

lemma wp_first_rename:
  assumes "rc_inv inv c" and "renamed c (sig_index s) = None" and "sa_room 8 (sig_index s) (rc_renamed c)"
    and "renameable (rc_registry c) s" and "fits (sig_name s)"
    and "new_rename (rc_registry c) s (new_name (sig_name s))"
  shows "wp (set_renamed_under locks bm rename_func s) (\<lambda>res c'. \<exists>x b t. res = Some x \<and> rc_inv inv c' \<and>
      view (rc_next c') = view (rc_next c) \<and> renamed c' = (renamed c)(sig_index s := Some x) \<and>
      rename_core (rc_registry c') = (rename_core (rc_registry c))(x := Some (1, b, t)) \<and>
      rename_core (rc_registry c') x = Some (1, b, t) \<and> sig_name t = new_name (sig_name s) \<and> same_type s t \<and>
      sig_index t = rr_local_index (rc_registry c)) c"
proof -
  let ?r = "rc_registry c"
  let ?P = "\<lambda>x r'. \<exists>b t. rename_core r' = (rename_core ?r)(x := Some (1, b, t)) \<and> sig_name t = new_name (sig_name s) \<and> same_type s t \<and>
    sig_index t = rr_local_index ?r"
  have r: "reg_inv ?r" "uses_fit ?r" "indices_fit ?r" "0 < sig_index s" "sig_index s < rr_local_index ?r"
    "\<And>a b t. entry_core ?r a = Some (b, t) \<Longrightarrow> sig_index t = sig_index s \<Longrightarrow> t = s"
    using assms(1,4) by (auto simp: rc_inv_def renameable_def)
  have "wp (labcomm2014_renaming_rename_new s rename_func) (\<lambda>res r'. \<exists>x. res = Some x \<and> reg_inv r' \<and> ?P x r' \<and>
      (\<forall>y. rename_core ?r y \<noteq> None \<longrightarrow> rename_core r' y \<noteq> None) \<and> rename_core r' x \<noteq> None) ?r"
    by (rule wp_mono [OF wp_rename_new [OF r(1-3) assms(5) r(4-6)]])
      (use assms(6) in \<open>fastforce simp: one_more_use_def new_rename_def\<close>)+
  from wp_set_renamed [OF assms(1-3) r(4) this] show ?thesis
    by (rule wp_mono) auto
qed

end

interpretation prefix_enc: renaming_client core_encoder "enc_inv acts safe" "\<lambda>e. (e_writer e, \<lambda>t. enc_get t e)"
  "labcomm2014_renaming_prefix p" "\<lambda>name. p @ name" "\<lambda>name. int (length p) + int (length name) < INT_MAX" for acts safe p
  ..

interpretation prefix_dec: renaming_client core_decoder "dec_inv acts"
  "\<lambda>d. (d_reader d, d_acts d, d_reader_allocated d, d_version_ok d, d_local d, d_remote_to_local d, d_local_ref d,
    d_remote_to_local_ref d, d_calls d)"
  "labcomm2014_renaming_prefix p" "\<lambda>name. p @ name" "\<lambda>name. int (length p) + int (length name) < INT_MAX" for acts p
  ..

end
