(* ===== verification/LC_RenamingProps.thy ===== *)
theory LC_RenamingProps
  imports LC_RenamingCoders
begin

text \<open>
  Properties of the renaming registry and of the renaming encoder and decoder, over the encoder on a
  file descriptor and the decoder of the library.
\<close>

section \<open>The registry\<close>

lemma wp_rename_with_prefix:
  assumes "reg_inv r" and "renameable r s" and "int (length p) + int (length (sig_name s)) < INT_MAX"
  shows "wp (labcomm2014_renaming_rename_new s (labcomm2014_renaming_prefix p)) (\<lambda>res r'. \<exists>x. res = Some x \<and> reg_inv r' \<and>
      one_more_use (base_address r s) s (p @ sig_name s) x r r' \<and>
      rr_scheduler r' = rr_scheduler r @ [DataLock, DataUnlock] \<and> reg_stray r' = reg_stray r) r"
  by (rule prefix.wp_rename_new) (use assms in \<open>auto simp: renameable_def\<close>)

lemma wp_first_prefix:
  assumes "reg_inv r" and "renameable r s" and "int (length p) + int (length (sig_name s)) < INT_MAX"
    and "new_rename r s (p @ sig_name s)"
  shows "wp (labcomm2014_renaming_rename_new s (labcomm2014_renaming_prefix p)) (\<lambda>res r'. \<exists>x t. res = Some x \<and> reg_inv r' \<and>
      rename_core r' = (rename_core r)(x := Some (1, base_address r s, t)) \<and> rename_core r x = None \<and>
      sig_name t = p @ sig_name s \<and> same_type s t \<and> sig_index t = rr_local_index r \<and>
      rr_local_index r' = rr_local_index r + 1 \<and>
      rr_scheduler r' = rr_scheduler r @ [DataLock, DataUnlock] \<and> reg_stray r' = reg_stray r) r"
  by (rule wp_mono [OF wp_rename_with_prefix [OF assms(1-3)]])
    (use assms(4) in \<open>fastforce simp: one_more_use_def new_rename_def\<close>)

text \<open>A fresh registry and the signature \<open>int_sig\<close> of index 64; the next free index is 65.\<close>

definition demo_registry :: "32 word renaming_registry" where
  "demo_registry = \<lparr>rr_memory = generous, rr_scheduler = [], rr_registry = signature_array_init,
     rr_entries = (\<lambda>_. None), rr_renames = (\<lambda>_. None), rr_fresh = 0, rr_local_index = 65\<rparr>"

lemma demo_registry_simps [simp]:
  "rename_core demo_registry = (\<lambda>_. None)" "entry_core demo_registry = (\<lambda>_. None)" "rr_local_index demo_registry = 65"
  "rr_scheduler demo_registry = []" "rr_memory demo_registry = generous"
  "renameable demo_registry int_sig" "new_rename demo_registry s nm"
  "base_address demo_registry s = 0"
proof -
  show core: "rename_core demo_registry = (\<lambda>_. None)" "entry_core demo_registry = (\<lambda>_. None)"
    by (simp_all add: demo_registry_def rename_core_def entry_core_def fun_eq_iff)
  then show "renameable demo_registry int_sig" "new_rename demo_registry s nm"
    by (simp_all add: renameable_def uses_fit_def indices_fit_def INT_MAX_def new_rename_def)
      (simp_all add: demo_registry_def)
qed (simp_all add: demo_registry_def base_address_def)

lemma demo_registry_inv [simp]: "reg_inv demo_registry"
proof -
  have "reg_ok (\<lambda>_. []) demo_registry"
    by (simp add: reg_ok_def reg_healthy_def reg_chains_def reg_shape_def table_ok_def fresh_ok_def lists_ok_def uses_ok_def
        bases_ok_def own_ok_def names_ok_def) (simp add: demo_registry_def signature_array_init_def sa_ok_def sa_lookup_def)
  then show ?thesis by (auto simp: reg_inv_def)
qed

text \<open>
  Claim C19. Renaming a signature with a prefix: the call returns a rename of the signature's base whose name
  has the prefix and whose type is that of the signature.  It is the rename that the base already has
  under this name, with one more use, or, when there is none, a new one with the next free index and
  one use.  Every other rename is untouched, every block that was allocated belongs to an object of the
  registry or to its table, and the lock is taken and released once.
\<close>

theorem rename_found_or_made:
  assumes "reg_inv r" and "renameable r s" and "int (length p) + int (length (sig_name s)) < INT_MAX"
  shows "wp (labcomm2014_renaming_rename_new s (labcomm2014_renaming_prefix p)) (\<lambda>res r'. \<exists>x c t. res = Some x \<and> reg_inv r' \<and>
      rename_core r' = (rename_core r)(x := Some (c, base_address r s, t)) \<and> sig_name t = p @ sig_name s \<and> same_type s t \<and>
      (rename_core r x = Some (c - 1, base_address r s, t) \<and> rr_local_index r' = rr_local_index r \<or>
       new_rename r s (p @ sig_name s) \<and> rename_core r x = None \<and> c = 1 \<and>
       sig_index t = rr_local_index r \<and> rr_local_index r' = rr_local_index r + 1) \<and>
      rr_scheduler r' = rr_scheduler r @ [DataLock, DataUnlock] \<and> reg_stray r' = reg_stray r) r"
  by (rule wp_mono [OF wp_rename_with_prefix [OF assms]])
    (unfold one_more_use_def new_rename_def, elim exE conjE, intro exI conjI, assumption+, blast, assumption+)

theorem rename_found_or_made_witness:
  "wp (labcomm2014_renaming_rename_new int_sig (labcomm2014_renaming_prefix [0x70])) (\<lambda>res r'. \<exists>x t. res = Some x \<and>
      rename_core r' = (\<lambda>_. None)(x := Some (1, 0, t)) \<and> sig_name t = [0x70, 0x61, 0x62] \<and> sig_index t = 65 \<and>
      rr_local_index r' = 66) demo_registry"
  by (rule wp_mono [OF rename_found_or_made [of demo_registry int_sig "[0x70]"]]) (auto simp: INT_MAX_def)

text \<open>
  Claim C20. A rename that is made and given back by its only user leaves nothing behind: the renames in use are
  those of before and so is the number of blocks that belong to no object; only the index stays used up.
\<close>

theorem rename_then_free:
  assumes "reg_inv r" and "renameable r s" and "int (length p) + int (length (sig_name s)) < INT_MAX"
    and "new_rename r s (p @ sig_name s)"
  shows "wp (labcomm2014_renaming_rename_new s (labcomm2014_renaming_prefix p)) (\<lambda>res r1. \<exists>x t. res = Some x \<and>
      rename_core r1 = (rename_core r)(x := Some (1, base_address r s, t)) \<and> sig_name t = p @ sig_name s \<and>
      same_type s t \<and> sig_index t = rr_local_index r \<and>
      wp (labcomm2014_renaming_rename_free x) (\<lambda>_ r2. reg_inv r2 \<and> rename_core r2 = rename_core r \<and>
        reg_stray r2 = reg_stray r \<and> rr_local_index r2 = rr_local_index r + 1 \<and>
        rr_scheduler r2 = rr_scheduler r @ [DataLock, DataUnlock, DataLock, DataUnlock]) r1) r"
proof (rule wp_mono [OF wp_first_prefix [OF assms]], elim exE conjE, goal_cases)
  case (1 res r1 x t)
  then have "rename_core r1 x = Some (1, base_address r s, t)" by simp
  from wp_rename_free [OF 1(2) this]
  have "wp (labcomm2014_renaming_rename_free x) (\<lambda>_ r2. reg_inv r2 \<and> rename_core r2 = rename_core r \<and>
        reg_stray r2 = reg_stray r \<and> rr_local_index r2 = rr_local_index r + 1 \<and>
        rr_scheduler r2 = rr_scheduler r @ [DataLock, DataUnlock, DataLock, DataUnlock]) r1"
    by (rule wp_mono) (use 1 in \<open>auto simp: fun_eq_iff\<close>)
  then show ?case using 1 by blast
qed

theorem rename_then_free_witness:
  "wp (labcomm2014_renaming_rename_new int_sig (labcomm2014_renaming_prefix [0x70])) (\<lambda>res r1. \<exists>x. res = Some x \<and>
      wp (labcomm2014_renaming_rename_free x) (\<lambda>_ r2. reg_inv r2 \<and> rename_core r2 = (\<lambda>_. None) \<and>
        reg_stray r2 = reg_stray demo_registry \<and> rr_local_index r2 = 66) r1) demo_registry"
  by (rule wp_mono [OF rename_then_free [of demo_registry int_sig "[0x70]"]])
    (auto simp: INT_MAX_def elim!: wp_mono)

section \<open>The renaming encoder\<close>

context posix_write
begin

lemmas fd_do_encode = fdw.wp_do_encode

end

lemma wp_rne_register:
  assumes "posix_write sys_write delivered"
    and "rc_inv (enc_inv [fdw_action sys_write sys_close] fdw_safe) c"
    and "renamed c (sig_index s) = None" and "sa_room 8 (sig_index s) (rc_renamed c)"
    and "renameable (rc_registry c) s" and "int (length p) + int (length (sig_name s)) < INT_MAX"
    and "new_rename (rc_registry c) s (p @ sig_name s)"
    and "li = rr_local_index (rc_registry c)" and "sig_sized s"
    and "int (length (definition_payload li (p @ sig_name s) (sig_signature s))) \<le> INT_MAX"
    and "sa_room 4 li (e_registered (rc_next c))" and "enc_marks Registered (rc_next c) li = 0"
  shows "wp (rne_sample_register core_encoder (labcomm2014_renaming_prefix p) s) (\<lambda>result c'. \<exists>x b t.
      rc_inv (enc_inv [fdw_action sys_write sys_close] fdw_safe) c' \<and> renamed c' (sig_index s) = Some x \<and>
      rename_core (rc_registry c') x = Some (1, b, t) \<and> sig_index t = li \<and> same_type s t \<and>
      enc_marks Registered (rc_next c') li = 1 \<and> result = w_error (e_writer (rc_next c')) \<and>
      (result = 0 \<longrightarrow> delivered (fw_dev (e_writer (rc_next c'))) = delivered (fw_dev (e_writer (rc_next c))) @
         packet_bytes LABCOMM_SAMPLE_DEF (definition_payload li (p @ sig_name s) (sig_signature s)))) c"
  unfolding rne_sample_register_def rne_set_renamed_def wp_andthen
proof (rule wp_mono [OF prefix_enc.wp_first_rename [OF assms(2-5) assms(6,7)]], elim exE conjE, goal_cases)
  case (1 res c1 x b t)
  let ?e = "rc_next c1"
  have e: "e_writer ?e = e_writer (rc_next c)" "\<And>t. enc_get t ?e = enc_get t (rc_next c)" 
    using 1(3) by (auto simp: fun_eq_iff)
  have "0 < li" "li < INT_MAX" using assms(5,8) by (simp_all add: renameable_def indices_fit_def INT_MAX_def)
  then have t: "sig_ok t" "sig_index t = li" "sig_signature t = sig_signature s" "0 < sig_index t" "sig_name t = p @ sig_name s"
    using 1(7-9) assms(8-10) by (simp_all add: sig_ok_def same_type_def sig_sized_def)
  have inv: "enc_inv [fdw_action sys_write sys_close] fdw_safe ?e" using 1(2) by (simp add: rc_inv_def)
  have room: "sa_room 4 (sig_index t) (enc_get Registered ?e)" "enc_marks Registered ?e (sig_index t) = 0"
    using assms(11,12) t(2) e(2) [of Registered] by (simp_all add: enc_marks_def)
  note reg = posix_write.fd_register [where body = "\<lambda>i. write_definition LABCOMM_SAMPLE_DEF i t",
      OF assms(1) inv t(4) room posix_write.fd_definition [OF assms(1) t(1)]]
  show ?case
    unfolding 1(1) wp_rc_signature [OF 1(6)] core_encoder_def encoder_methods.simps
      do_sample_register_def rc_on_next_def wp_zoom
    by (rule wp_mono [OF reg]) (use 1 e t in \<open>auto simp: rc_inv_def fd_sent_def\<close>)
qed

lemma wp_rne_encode:
  assumes "posix_write sys_write delivered"
    and "rc_inv (enc_inv [fdw_action sys_write sys_close] fdw_safe) c"
    and "renamed c (sig_index s) = Some x" and "0 < sig_index s" and "rename_core (rc_registry c) x = Some (n, b, t)"
    and "0 < sig_index t" and "enc_marks Registered (rc_next c) (sig_index t) \<noteq> 0"
    and "writer_sink.writes fdw_safe (fd_stream delivered) (encode [fdw_action sys_write sys_close] v) bs"
    and "sig_encoded_size t v = int (length bs)"
  shows "wp (rne_encode core_encoder s encode v) (\<lambda>result c'.
      rc_inv (enc_inv [fdw_action sys_write sys_close] fdw_safe) c' \<and>
      (w_error (e_writer (rc_next c')) = 0 \<longrightarrow> result = 0 \<and> w_error (e_writer (rc_next c)) = 0 \<and>
        delivered (fw_dev (e_writer (rc_next c'))) = delivered (fw_dev (e_writer (rc_next c))) @
          packet_bytes (sig_index t) bs)) c"
  unfolding rne_encode_def rne_get_renamed_def wp_andthen
proof (rule wp_mono [OF renc.wp_get_renamed [OF assms(2)]], use assms(4) in simp, elim conjE, goal_cases)
  case (1 res c1)
  let ?e = "rc_next c1"
  have c1: "rc_inv (enc_inv [fdw_action sys_write sys_close] fdw_safe) c1" by (rule renc.rc_inv_kept [OF assms(2) 1(2)])
  then have inv: "enc_inv [fdw_action sys_write sys_close] fdw_safe ?e" by (simp add: rc_inv_def)
  have e: "e_writer ?e = e_writer (rc_next c)" "\<And>t. enc_get t ?e = enc_get t (rc_next c)" "rc_registry c1 = rc_registry c"
    using 1(2) by (auto simp: renc.rc_kept_def fun_eq_iff)
  have core: "rename_core (rc_registry c1) x = Some (n, b, t)" using assms(5) e(3) by simp
  have marked: "enc_marks Registered ?e (sig_index t) \<noteq> 0" using assms(7) e(2) [of Registered] by (simp add: enc_marks_def)
  note enc = posix_write.fd_do_encode [where encode = encode and v = v, OF assms(1) inv assms(6,8,9)]
  show ?case
    using marked c1 e
    by (simp add: 1(1) assms(3) wp_andthen wp_rc_signature [OF core] core_encoder_def rc_on_next_def wp_zoom)
      (rule wp_mono [OF enc], auto simp: rc_inv_def fd_sent_def)
qed

text \<open>
  Claim C18. A sample that is registered and sent through the renaming encoder, over the encoder of the library on
  any POSIX descriptor: when the writer is without error afterwards, exactly two packets were delivered, the
  definition of the renamed sample (the name with the prefix, the signature of the original, the next free
  index) and the sample itself under the index of the rename.
\<close>

theorem renaming_encoder_sends_new_name:
  assumes "posix_write sys_write delivered"
    and "rc_inv (enc_inv [fdw_action sys_write sys_close] fdw_safe) c"
    and "renamed c (sig_index s) = None" and "sa_room 8 (sig_index s) (rc_renamed c)"
    and "renameable (rc_registry c) s" and "int (length p) + int (length (sig_name s)) < INT_MAX"
    and "new_rename (rc_registry c) s (p @ sig_name s)"
    and "li = rr_local_index (rc_registry c)" and "sig_sized s"
    and "int (length (definition_payload li (p @ sig_name s) (sig_signature s))) \<le> INT_MAX"
    and "sa_room 4 li (e_registered (rc_next c))" and "enc_marks Registered (rc_next c) li = 0"
    and "writer_sink.writes fdw_safe (fd_stream delivered) (encode [fdw_action sys_write sys_close] v) bs"
    and "sig_encoded_size s v = int (length bs)"
  shows "wp (rne_sample_register core_encoder (labcomm2014_renaming_prefix p) s) (\<lambda>_ c1.
      wp (rne_encode core_encoder s encode v) (\<lambda>result c'.
        rc_inv (enc_inv [fdw_action sys_write sys_close] fdw_safe) c' \<and>
        (w_error (e_writer (rc_next c')) = 0 \<longrightarrow> result = 0 \<and>
          delivered (fw_dev (e_writer (rc_next c'))) = delivered (fw_dev (e_writer (rc_next c))) @
            packet_bytes LABCOMM_SAMPLE_DEF (definition_payload li (p @ sig_name s) (sig_signature s)) @
            packet_bytes li bs)) c1) c"
proof (rule wp_mono [OF wp_rne_register [OF assms(1-12)]], elim exE conjE, goal_cases)
  case (1 result c1 x b t)
  have i: "0 < sig_index s" "0 < sig_index t" "enc_marks Registered (rc_next c1) (sig_index t) \<noteq> 0"
    "sig_encoded_size t v = int (length bs)"
    using 1 assms(5,8,14) by (simp_all add: renameable_def same_type_def)
  show ?case
    by (rule wp_mono [OF wp_rne_encode [where encode = encode and v = v,
            OF assms(1) 1(1,2) i(1) 1(3) i(2,3) assms(13) i(4)]]) (use 1 in auto)
qed

definition demo_renaming :: "int list \<Rightarrow> ((script_dev fdw_ext, 32 word) encoder, 32 word) renaming_coder" where
  "demo_renaming rs = \<lparr>rc_next = demo_encoder rs, rc_registry = demo_registry, rc_renamed = signature_array_init\<rparr>"

lemma demo_renaming_simps [simp]: "rc_next (demo_renaming rs) = demo_encoder rs"
  "rc_registry (demo_renaming rs) = demo_registry" "rc_renamed (demo_renaming rs) = signature_array_init"
  "rc_inv (enc_inv [fdw_action script_write id] fdw_safe) (demo_renaming rs)"
  by (simp_all add: demo_renaming_def rc_inv_def)

lemma room_renaming [simp]: "sa_room 8 64 signature_array_init" "sa_room 4 65 signature_array_init"
  "sa_room 40 65 \<lparr>sa_first = 64, sa_last = 65, sa_data = d\<rparr>"
  by (simp_all add: sa_room_def signature_array_init_def INT_MAX_def)

theorem renaming_encoder_sends_new_name_witness:
  "wp (rne_sample_register core_encoder (labcomm2014_renaming_prefix [0x70]) int_sig) (\<lambda>_ c1.
      wp (rne_encode core_encoder int_sig encode_int 7) (\<lambda>result c'.
        w_error (e_writer (rc_next c')) = 0 \<longrightarrow> result = 0 \<and>
          sd_out (fw_dev (e_writer (rc_next c'))) =
            packet_bytes LABCOMM_SAMPLE_DEF (definition_payload 65 [0x70, 0x61, 0x62] [0x23]) @
            packet_bytes 65 (be_bytes 4 (7 :: 32 word))) c1) (demo_renaming [3, 1])"
proof -
  have "length (definition_payload 65 [0x70, 0x61, 0x62] [0x23]) = 9" by code_simp
  moreover have "e_registered (demo_encoder [3, 1]) = signature_array_init" "sd_out (fw_dev (e_writer (demo_encoder [3, 1]))) = []"
    by (simp_all add: demo_encoder_def script_writer_def)
  ultimately show ?thesis
    by (intro wp_mono [OF renaming_encoder_sends_new_name [where encode = encode_int and v = 7 and s = int_sig
            and p = "[0x70]" and li = 65, OF script.posix_write_axioms, of id "demo_renaming [3, 1]",
            OF _ _ _ _ _ _ _ _ _ _ _ encode_int_writes]])
      (auto simp: INT_MAX_def sig_sized_def elim!: wp_mono)
qed

text \<open>
  A sample that was not registered with the renaming encoder is refused with \<^verbatim>\<open>-EINVAL\<close>: the next
  encoder is not asked to encode, its writer and tables stay as they are.
\<close>

theorem renaming_encode_unregistered:
  assumes "rc_inv (enc_inv acts safe) c" and "renamed c (sig_index s) = None" and "sig_index s \<noteq> 0"
  shows "wp (rne_encode core_encoder s encode v) (\<lambda>result c'. result = - EINVAL \<and> rc_inv (enc_inv acts safe) c' \<and>
      e_writer (rc_next c') = e_writer (rc_next c) \<and> (\<forall>t. enc_get t (rc_next c') = enc_get t (rc_next c)) \<and>
      rc_registry c' = rc_registry c \<and> rc_renamed c' = rc_renamed c) c"
proof -
  note keep = renc.rc_inv_kept [OF assms(1)]
  show ?thesis
    unfolding rne_encode_def rne_get_renamed_def wp_andthen
    by (rule wp_mono [OF renc.wp_get_renamed [OF assms(1,3)]])
      (use assms(2) keep in \<open>auto simp: wp_simps renc.rc_kept_def fun_eq_iff\<close>)
qed

theorem renaming_encode_unregistered_witness:
  "wp (rne_encode core_encoder int_sig encode_int 7) (\<lambda>result c'. result = - EINVAL \<and>
      e_writer (rc_next c') = script_writer []) (demo_renaming [])"
  by (rule wp_mono [OF renaming_encode_unregistered [of "[fdw_action script_write id]" fdw_safe]])
    (simp_all, simp add: demo_encoder_def)

section \<open>The renaming decoder\<close>

text \<open>
  Claim C21. Registering a sample with the renaming decoder, over the decoder of the library on any POSIX
  descriptor: the decoder gets an entry, at the next free index, for the sample of the prefixed name and of the
  type of the original, with the decode function, handler and context of the call.  Nothing else of the decoder
  changes but its memory and its log of lock calls: its reader, the version flag, the handler calls, the
  bindings, both tables of references and every other entry are as before; in the registry every other
  rename, and in the wrapper the rename of every other signature, is as before.
\<close>

theorem renaming_decoder_registers_new_name:
  assumes "posix_read sys_read pending" and "rc_inv (dec_inv [fdr_action sys_read sys_close]) c"
    and "fdr_ok (d_reader (rc_next c))"
    and "renamed c (sig_index s) = None" and "sa_room 8 (sig_index s) (rc_renamed c)"
    and "renameable (rc_registry c) s" and "int (length p) + int (length (sig_name s)) < INT_MAX"
    and "new_rename (rc_registry c) s (p @ sig_name s)"
    and "li = rr_local_index (rc_registry c)" and "sig_sized s" and "sa_room 40 li (d_local (rc_next c))"
  shows "wp (rnd_sample_register core_decoder (labcomm2014_renaming_prefix p) s f h ctx) (\<lambda>result c'.
      result = li \<and> rc_inv (dec_inv [fdr_action sys_read sys_close]) c' \<and>
      (\<exists>x b t. renamed c' = (renamed c)(sig_index s := Some x) \<and>
        rename_core (rc_registry c') = (rename_core (rc_registry c))(x := Some (1, b, t)) \<and>
        sig_name t = p @ sig_name s \<and> same_type s t \<and> sig_index t = li \<and>
        entry_at (rc_next c') = (entry_at (rc_next c))(li :=
          \<lparr>se_remote_index = 0, se_signature = Some t, se_decode = Some f, se_handler = Some h, se_context = ctx\<rparr>)) \<and>
      same_but_samples (rc_next c) (rc_next c')) c"
  unfolding rnd_sample_register_def rnd_set_renamed_def wp_andthen
proof (rule wp_mono [OF prefix_dec.wp_first_rename [OF assms(2,4-8)]], elim exE conjE, goal_cases)
  case (1 res c1 x b t)
  let ?d = "rc_next c1"
  have d: "d_reader ?d = d_reader (rc_next c)" "entry_at ?d = entry_at (rc_next c)" "d_local ?d = d_local (rc_next c)"
    using 1(3) by (auto simp: entry_at_def)
  have same: "same_but_samples (rc_next c) d'" if "same_but_samples ?d d'" for d'
    using 1(3) that by (cases "rc_next c1"; cases "rc_next c") (simp add: same_but_samples_def)
  have t: "0 < sig_index t" "sig_sized t" "sig_index t = li"
    using 1(8,9) assms(6,9,10) by (simp_all add: renameable_def sig_sized_def same_type_def)
  have inv: "dec_inv [fdr_action sys_read sys_close] ?d" using 1(2) by (simp add: rc_inv_def)
  have "fdr_ok (d_reader ?d)" "sa_room 40 (sig_index t) (d_local ?d)" using assms(3,11) d t by simp_all
  note reg = posix_read.fd_register_sample [OF assms(1) inv this(1) t(1,2) this(2)]
  show ?case
    unfolding 1(1) wp_rc_signature [OF 1(6)] core_decoder_def decoder_methods.simps rc_on_next_def wp_zoom
    by (rule wp_mono [OF reg]) (use 1 d t same in \<open>auto simp: rc_inv_def\<close>)
qed

theorem renaming_decoder_registers_new_name_witness:
  "wp (rnd_sample_register core_decoder (labcomm2014_renaming_prefix [0x70]) int_sig decode_int 3 4) (\<lambda>result c'. result = 65 \<and>
      (\<exists>t. sig_name t = [0x70, 0x61, 0x62] \<and> entry_at (rc_next c') 65 =
        \<lparr>se_remote_index = 0, se_signature = Some t, se_decode = Some decode_int, se_handler = Some 3, se_context = 4\<rparr>))
    \<lparr>rc_next = demo_decoder True [], rc_registry = demo_registry, rc_renamed = signature_array_init\<rparr>" (is "wp _ _ ?c")
proof -
  have "rc_inv (dec_inv [fdr_action chunk_read id]) ?c" by (simp add: rc_inv_def)
  moreover have "sa_room 40 65 (d_local (demo_decoder True []))" by (simp add: demo_decoder_def)
  ultimately show ?thesis
    by (intro wp_mono [OF renaming_decoder_registers_new_name [where s = int_sig and p = "[0x70]" and li = 65,
            OF chunks.posix_read_axioms, of id ?c]])
      (auto simp: INT_MAX_def sig_sized_def)
qed

end
