(* ===== verification/LC_Pthread.thy ===== *)
theory LC_Pthread
  imports LC_Scheduler LC_Memory "HOL-Library.Signed_Division"
begin

text \<open>
  The scheduler for POSIX threads (\<^verbatim>\<open>labcomm2014_pthread_scheduler.c\<close>), as one thread runs it.

  The two queues of deferred calls are circular doubly linked lists whose heads are part of the
  scheduler; the elements live in an explicit store, by address.  What the operating system answers
  (the clock, the results of the mutex calls, whether a wait without a time limit ends) is a function of
  the number of the call.  Other threads act while this one does not hold the data lock: what they did is
  applied when the lock is taken again, or when a wait ends.  It is a parameter of the operations, and so
  is what a deferred call does.
\<close>

section \<open>Times\<close>

record timespec =
  tv_sec :: int
  tv_nsec :: int

text \<open>The result of arithmetic on \<^verbatim>\<open>long\<close> and \<^verbatim>\<open>time_t\<close>, which must fit in 64 bits.\<close>

definition c_long :: "int \<Rightarrow> ('s, int) prog" where
  "c_long i = (if - (2 ^ 63) \<le> i \<and> i < 2 ^ 63 then ret i else stop Undef)"

definition timespec_add_usec :: "u32 \<Rightarrow> (timespec, unit) prog" where
  "timespec_add_usec usec =
     (let sec = uint (usec div 1000000); nsec = uint ((usec mod 1000000) * 1000) in
      andthen (gets tv_nsec) (\<lambda>n.
      andthen (c_long (n + nsec)) (\<lambda>n.
      andthen (modify (\<lambda>t. t\<lparr>tv_nsec := n\<rparr>)) (\<lambda>_.
      andthen (gets tv_sec) (\<lambda>s.
      andthen (c_long (sec + n sdiv 1000000000)) (\<lambda>d.
      andthen (c_long (s + d)) (\<lambda>s.
      andthen (modify (\<lambda>t. t\<lparr>tv_sec := s\<rparr>)) (\<lambda>_.
      modify (\<lambda>t. t\<lparr>tv_nsec := n smod 1000000000\<rparr>)))))))))"

definition timespec_compare :: "timespec \<Rightarrow> timespec \<Rightarrow> int" where
  "timespec_compare t1 t2 =
     (if tv_sec t1 = tv_sec t2 \<and> tv_nsec t1 = tv_nsec t2 then 0
      else if tv_sec t1 = 0 \<and> tv_nsec t1 = 0 then 1
      else if tv_sec t2 = 0 \<and> tv_nsec t2 = 0 then - 1
      else if tv_sec t1 < tv_sec t2 then - 1
      else if tv_sec t1 = tv_sec t2 then
        (if tv_nsec t1 < tv_nsec t2 then - 1 else if tv_nsec t1 = tv_nsec t2 then 0 else 1)
      else 1)"

section \<open>State\<close>

datatype node = DeferredHead | DelayedHead | Element nat

text \<open>
  An element: its links, its time (not initialised in the queue without delay) and the function to call
  with its context (not initialised in the heads).
\<close>

record 'f pthread_deferred =
  df_next :: node
  df_prev :: node
  df_when :: "timespec option"
  df_action :: "'f option"

record os =
  os_clock :: "nat \<Rightarrow> timespec"
  os_result :: "nat \<Rightarrow> int"
  os_wakes :: "nat \<Rightarrow> bool"
  os_errno :: int
  os_calls :: nat

text \<open>
  The mutexes are not recursive: \<open>True\<close> when this thread holds them.  \<open>ps_world\<close> is what the deferred
  calls work on.
\<close>

record ('f, 'w) pthread_scheduler =
  ps_memory :: memory
  ps_wakeup :: int
  ps_writer_mutex :: bool
  ps_data_mutex :: bool
  ps_running_deferred :: int
  ps_nodes :: "node \<Rightarrow> 'f pthread_deferred option"
  ps_fresh :: nat
  ps_os :: os
  ps_world :: 'w

type_synonym ('f, 'w, 'a) ps_prog = "(('f, 'w) pthread_scheduler, 'a) prog"

record ('f, 'w) environment =
  pe_others :: "nat \<Rightarrow> ('f, 'w) pthread_scheduler \<Rightarrow> ('f, 'w) pthread_scheduler"
  pe_action :: "'f \<Rightarrow> ('f, 'w, unit) ps_prog"

section \<open>System calls\<close>

definition count_call :: "(os, nat) prog" where
  "count_call = andthen (gets os_calls) (\<lambda>k. andthen (modify (\<lambda>x. x\<lparr>os_calls := Suc k\<rparr>)) (\<lambda>_. ret k))"

definition on_os :: "(os, 'a) prog \<Rightarrow> ('f, 'w, 'a) ps_prog" where
  "on_os = zoom ps_os (\<lambda>x s. s\<lparr>ps_os := x\<rparr>)"

definition on_psmemory :: "(memory, 'a) prog \<Rightarrow> ('f, 'w, 'a) ps_prog" where
  "on_psmemory = zoom ps_memory (\<lambda>m s. s\<lparr>ps_memory := m\<rparr>)"

definition clock_gettime :: "(os, timespec) prog" where
  "clock_gettime = andthen count_call (\<lambda>k. gets (\<lambda>x. os_clock x k))"

definition sys_result :: "(os, int) prog" where
  "sys_result = andthen count_call (\<lambda>k. gets (\<lambda>x. os_result x k))"

text \<open>Locking a mutex that the thread holds, and unlocking one that it does not hold, is undefined.\<close>

definition lock_writer_mutex :: "('f, 'w, int) ps_prog" where
  "lock_writer_mutex =
     andthen (on_os sys_result) (\<lambda>rc.
     if rc \<noteq> 0 then ret rc
     else andthen (gets ps_writer_mutex) (\<lambda>held.
          if held then stop Undef
          else andthen (modify (\<lambda>s. s\<lparr>ps_writer_mutex := True\<rparr>)) (\<lambda>_. ret 0)))"

definition unlock_writer_mutex :: "('f, 'w, int) ps_prog" where
  "unlock_writer_mutex =
     andthen (on_os sys_result) (\<lambda>rc.
     if rc \<noteq> 0 then ret rc
     else andthen (gets ps_writer_mutex) (\<lambda>held.
          if \<not> held then stop Undef
          else andthen (modify (\<lambda>s. s\<lparr>ps_writer_mutex := False\<rparr>)) (\<lambda>_. ret 0)))"

definition others_act :: "('f, 'w) environment \<Rightarrow> ('f, 'w, unit) ps_prog" where
  "others_act env = modify (\<lambda>s. (pe_others env (os_calls (ps_os s)) s)\<lparr>ps_data_mutex := True\<rparr>)"

definition lock_data_mutex :: "('f, 'w) environment \<Rightarrow> ('f, 'w, int) ps_prog" where
  "lock_data_mutex env =
     andthen (on_os sys_result) (\<lambda>rc.
     if rc \<noteq> 0 then ret rc
     else andthen (gets ps_data_mutex) (\<lambda>held.
          if held then stop Undef else andthen (others_act env) (\<lambda>_. ret 0)))"

definition unlock_data_mutex :: "('f, 'w, int) ps_prog" where
  "unlock_data_mutex =
     andthen (on_os sys_result) (\<lambda>rc.
     if rc \<noteq> 0 then ret rc
     else andthen (gets ps_data_mutex) (\<lambda>held.
          if \<not> held then stop Undef
          else andthen (modify (\<lambda>s. s\<lparr>ps_data_mutex := False\<rparr>)) (\<lambda>_. ret 0)))"

text \<open>
  \<^verbatim>\<open>pthread_cond_timedwait\<close> with a time and \<^verbatim>\<open>pthread_cond_wait\<close> without: the mutex is released while the
  thread waits.  A wait with a time limit ends; their results are not looked at.
\<close>

definition cond_wait :: "('f, 'w) environment \<Rightarrow> timespec option \<Rightarrow> ('f, 'w, unit) ps_prog" where
  "cond_wait env limit =
     andthen (gets ps_data_mutex) (\<lambda>held.
     if \<not> held then stop Undef
     else andthen (on_os (andthen count_call (\<lambda>k. gets (\<lambda>x. os_wakes x k)))) (\<lambda>wakes.
          if limit = None \<and> \<not> wakes then (\<lambda>_. None) else others_act env))"

section \<open>The locks of the scheduler\<close>

definition scheduler_data_lock :: "('f, 'w) environment \<Rightarrow> ('f, 'w, int) ps_prog" where
  "scheduler_data_lock env =
     andthen (lock_data_mutex env) (\<lambda>rc. if rc \<noteq> 0 then stop ExitPerror else ret 0)"

definition scheduler_data_unlock :: "('f, 'w, int) ps_prog" where
  "scheduler_data_unlock =
     andthen unlock_data_mutex (\<lambda>rc. if rc \<noteq> 0 then stop ExitPerror else ret 0)"

section \<open>Queues\<close>

definition node_get :: "node \<Rightarrow> ('f, 'w, 'f pthread_deferred) ps_prog" where
  "node_get x = (\<lambda>s. case ps_nodes s x of None \<Rightarrow> Some (Inl Undef) | Some n \<Rightarrow> Some (Inr (n, s)))"

definition node_put :: "node \<Rightarrow> 'f pthread_deferred \<Rightarrow> ('f, 'w, unit) ps_prog" where
  "node_put x n = modify (\<lambda>s. s\<lparr>ps_nodes := (ps_nodes s)(x := Some n)\<rparr>)"

definition set_next :: "node \<Rightarrow> node \<Rightarrow> ('f, 'w, unit) ps_prog" where
  "set_next x y = andthen (node_get x) (\<lambda>n. node_put x (n\<lparr>df_next := y\<rparr>))"

definition set_prev :: "node \<Rightarrow> node \<Rightarrow> ('f, 'w, unit) ps_prog" where
  "set_prev x y = andthen (node_get x) (\<lambda>n. node_put x (n\<lparr>df_prev := y\<rparr>))"

definition node_when :: "node \<Rightarrow> ('f, 'w, timespec) ps_prog" where
  "node_when x = andthen (node_get x) (\<lambda>n. case df_when n of None \<Rightarrow> stop Undef | Some t \<Rightarrow> ret t)"

definition queue_empty :: "node \<Rightarrow> ('f, 'w, bool) ps_prog" where
  "queue_empty queue = andthen (node_get queue) (\<lambda>n. ret (df_next n = queue))"

section \<open>Running deferred calls\<close>

definition run_action :: "('f, 'w) environment \<Rightarrow> node \<Rightarrow> ('f, 'w, int) ps_prog" where
  "run_action env element =
     andthen (node_get element) (\<lambda>n.
     andthen (set_next (df_prev n) (df_next n)) (\<lambda>_.
     andthen (node_get element) (\<lambda>n.
     andthen (set_prev (df_next n) (df_prev n)) (\<lambda>_.
     andthen scheduler_data_unlock (\<lambda>_.
     andthen (node_get element) (\<lambda>n.
     andthen (case df_action n of None \<Rightarrow> stop Undef | Some f \<Rightarrow> pe_action env f) (\<lambda>_.
     andthen (on_psmemory (labcomm2014_memory_free 1 True)) (\<lambda>_.
     andthen (modify (\<lambda>s. s\<lparr>ps_nodes := (ps_nodes s)(element := None)\<rparr>)) (\<lambda>_.
     andthen (scheduler_data_lock env) (\<lambda>_. ret 0))))))))))"

partial_function (option) run_all ::
    "('f, 'w) environment \<Rightarrow> ('f, 'w) pthread_scheduler \<Rightarrow> (stop + unit \<times> ('f, 'w) pthread_scheduler) option" where
  "run_all env s =
     andthen (queue_empty DeferredHead) (\<lambda>e s.
       if e then ret () s
       else andthen (node_get DeferredHead) (\<lambda>h.
            andthen (run_action env (df_next h)) (\<lambda>_ s. run_all env s)) s) s"

partial_function (option) run_due ::
    "('f, 'w) environment \<Rightarrow> timespec \<Rightarrow> ('f, 'w) pthread_scheduler \<Rightarrow> (stop + unit \<times> ('f, 'w) pthread_scheduler) option" where
  "run_due env now s =
     andthen (node_get DelayedHead) (\<lambda>h.
     andthen (node_when (df_next h)) (\<lambda>w s.
       if timespec_compare w now \<le> 0
       then andthen (run_action env (df_next h)) (\<lambda>_ s. run_due env now s) s
       else ret () s)) s"

definition run_deferred :: "('f, 'w) environment \<Rightarrow> ('f, 'w, int) ps_prog" where
  "run_deferred env =
     andthen (gets ps_running_deferred) (\<lambda>running.
     if running \<noteq> 0 then ret 0
     else andthen (modify (\<lambda>s. s\<lparr>ps_running_deferred := 1\<rparr>)) (\<lambda>_.
          andthen (run_all env) (\<lambda>_.
          andthen (queue_empty DelayedHead) (\<lambda>e.
          andthen (if e then ret ()
                   else andthen (on_os clock_gettime) (\<lambda>now. run_due env now)) (\<lambda>_.
          andthen (modify (\<lambda>s. s\<lparr>ps_running_deferred := 0\<rparr>)) (\<lambda>_. ret 0))))))"

section \<open>Operations\<close>

definition ps_run_locked :: "('f, 'w) environment \<Rightarrow> ('f, 'w, unit) ps_prog" where
  "ps_run_locked env =
     andthen (scheduler_data_lock env) (\<lambda>_.
     andthen (run_deferred env) (\<lambda>_.
     andthen scheduler_data_unlock (\<lambda>_. ret ())))"

definition scheduler_writer_lock :: "('f, 'w) environment \<Rightarrow> ('f, 'w, int) ps_prog" where
  "scheduler_writer_lock env =
     andthen (ps_run_locked env) (\<lambda>_.
     andthen lock_writer_mutex (\<lambda>rc.
     if rc \<noteq> 0 then gets (\<lambda>s. - os_errno (ps_os s)) else ret 0))"

definition scheduler_writer_unlock :: "('f, 'w) environment \<Rightarrow> ('f, 'w, int) ps_prog" where
  "scheduler_writer_unlock env =
     andthen unlock_writer_mutex (\<lambda>rc.
     if rc \<noteq> 0 then gets (\<lambda>s. - os_errno (ps_os s))
     else andthen (ps_run_locked env) (\<lambda>_. ret 0))"

definition time_new :: "('f, 'w, timespec option) ps_prog" where
  "time_new =
     andthen (on_psmemory (labcomm2014_memory_alloc 0 40)) (\<lambda>ok.
     if \<not> ok then ret None else andthen (on_os clock_gettime) (\<lambda>now. ret (Some now)))"

definition time_free :: "(memory, int) prog" where
  "time_free = andthen (labcomm2014_memory_free 0 True) (\<lambda>_. ret 0)"

definition time_add_usec :: "u32 \<Rightarrow> (timespec, int) prog" where
  "time_add_usec usec = andthen (timespec_add_usec usec) (\<lambda>_. ret 0)"

definition pthread_time_action :: "(memory \<times> timespec) time_action" where
  "pthread_time_action =
     \<lparr>tm_free = Some (zoom fst (\<lambda>m (_, t). (m, t)) time_free),
      tm_add_usec = Some (\<lambda>usec. zoom snd (\<lambda>t (m, _). (m, t)) (time_add_usec usec))\<rparr>"

definition scheduler_now :: "('f, 'w, timespec option) ps_prog" where
  "scheduler_now = time_new"

text \<open>The time until which to wait: that of the first delayed call or that of the caller.\<close>

definition sleep_limit :: "timespec option \<Rightarrow> ('f, 'w, timespec option) ps_prog" where
  "sleep_limit time =
     andthen (queue_empty DelayedHead) (\<lambda>e.
     if \<not> e then
       andthen (node_get DelayedHead) (\<lambda>h.
       andthen (node_when (df_next h)) (\<lambda>w.
       ret (case time of None \<Rightarrow> Some w | Some t \<Rightarrow> if timespec_compare t w < 0 then Some t else Some w)))
     else ret time)"

partial_function (option) sleep_loop ::
    "('f, 'w) environment \<Rightarrow> timespec option \<Rightarrow> ('f, 'w) pthread_scheduler \<Rightarrow>
     (stop + unit \<times> ('f, 'w) pthread_scheduler) option" where
  "sleep_loop env time s =
     andthen (run_deferred env) (\<lambda>_.
     andthen (on_os clock_gettime) (\<lambda>now.
     andthen (gets ps_wakeup) (\<lambda>wakeup s.
       if wakeup \<noteq> 0 \<or> (case time of None \<Rightarrow> False | Some t \<Rightarrow> timespec_compare t now \<le> 0)
       then modify (\<lambda>s. s\<lparr>ps_wakeup := 0\<rparr>) s
       else andthen (sleep_limit time) (\<lambda>limit.
            andthen (cond_wait env limit) (\<lambda>_ s. sleep_loop env time s)) s))) s"

definition scheduler_sleep :: "('f, 'w) environment \<Rightarrow> timespec option \<Rightarrow> ('f, 'w, int) ps_prog" where
  "scheduler_sleep env time =
     andthen (scheduler_data_lock env) (\<lambda>_.
     andthen (sleep_loop env time) (\<lambda>_.
     andthen scheduler_data_unlock (\<lambda>_. ret 0)))"

definition scheduler_wakeup :: "('f, 'w) environment \<Rightarrow> ('f, 'w, int) ps_prog" where
  "scheduler_wakeup env =
     andthen (scheduler_data_lock env) (\<lambda>_.
     andthen (modify (\<lambda>s. s\<lparr>ps_wakeup := 1\<rparr>)) (\<lambda>_.
     andthen (on_os sys_result) (\<lambda>_.
     andthen scheduler_data_unlock (\<lambda>_. ret 0))))"

partial_function (option) find_place ::
    "timespec \<Rightarrow> node \<Rightarrow> ('f, 'w) pthread_scheduler \<Rightarrow> (stop + node \<times> ('f, 'w) pthread_scheduler) option" where
  "find_place t insert_before s =
     andthen (node_when insert_before) (\<lambda>w s.
       if 0 \<le> timespec_compare t w
       then andthen (node_get insert_before) (\<lambda>n s. find_place t (df_next n) s) s
       else ret insert_before s) s"

text \<open>The four assignments that link a new element, of the given time and call, before a node.\<close>

definition link_before :: "node \<Rightarrow> node \<Rightarrow> timespec option \<Rightarrow> 'f \<Rightarrow> ('f, 'w, unit) ps_prog" where
  "link_before insert_before element w f =
     andthen (node_get insert_before) (\<lambda>b.
     andthen (node_put element \<lparr>df_next = insert_before, df_prev = df_prev b, df_when = w, df_action = Some f\<rparr>) (\<lambda>_.
     andthen (set_next (df_prev b) element) (\<lambda>_.
     set_prev insert_before element)))"

definition scheduler_enqueue :: "('f, 'w) environment \<Rightarrow> u32 \<Rightarrow> 'f \<Rightarrow> ('f, 'w, int) ps_prog" where
  "scheduler_enqueue env delay f =
     andthen (on_psmemory (labcomm2014_memory_alloc 1 48)) (\<lambda>ok.
     if \<not> ok then ret (- ENOMEM)
     else andthen (gets ps_fresh) (\<lambda>a.
          andthen (modify (\<lambda>s. s\<lparr>ps_fresh := Suc a\<rparr>)) (\<lambda>_.
          andthen (scheduler_data_lock env) (\<lambda>_.
          andthen (if delay = 0 then link_before DeferredHead (Element a) None f
                   else andthen (on_os clock_gettime) (\<lambda>now.
                        andthen (zoom (\<lambda>_. now) (\<lambda>_ s. s) (andthen (timespec_add_usec delay) (\<lambda>_. gets id))) (\<lambda>w.
                        andthen (node_get DelayedHead) (\<lambda>h.
                        andthen (find_place w (df_next h)) (\<lambda>insert_before.
                        link_before insert_before (Element a) (Some w) f))))) (\<lambda>_.
          andthen (on_os sys_result) (\<lambda>_.
          andthen scheduler_data_unlock (\<lambda>_. ret 0)))))))"

definition scheduler_free :: "(memory, int) prog" where
  "scheduler_free = andthen (labcomm2014_memory_free 0 True) (\<lambda>_. ret 0)"

definition pthread_scheduler_action ::
    "('f, 'w) environment \<Rightarrow> (('f, 'w) pthread_scheduler, timespec, 'f) scheduler_action" where
  "pthread_scheduler_action env =
     \<lparr>sc_free = Some (on_psmemory scheduler_free),
      sc_writer_lock = Some (scheduler_writer_lock env), sc_writer_unlock = Some (scheduler_writer_unlock env),
      sc_data_lock = Some (scheduler_data_lock env), sc_data_unlock = Some scheduler_data_unlock,
      sc_now = Some scheduler_now, sc_sleep = Some (scheduler_sleep env),
      sc_wakeup = Some (scheduler_wakeup env), sc_enqueue = Some (scheduler_enqueue env)\<rparr>"

text \<open>
  A new scheduler; its initial calls of the operating system may fail, and then everything is undone.
\<close>

definition new_heads :: "node \<Rightarrow> 'f pthread_deferred option" where
  "new_heads = [DeferredHead \<mapsto> \<lparr>df_next = DeferredHead, df_prev = DeferredHead, df_when = None, df_action = None\<rparr>,
     DelayedHead \<mapsto> \<lparr>df_next = DelayedHead, df_prev = DelayedHead, df_when = Some \<lparr>tv_sec = 0, tv_nsec = 0\<rparr>, df_action = None\<rparr>]"

definition labcomm2014_pthread_scheduler_new :: "'w \<Rightarrow> (memory \<times> os, ('f, 'w) pthread_scheduler option) prog" where
  "labcomm2014_pthread_scheduler_new world =
     (let sys = zoom snd (\<lambda>x (m, _). (m, x)) sys_result;
          free_scheduler = andthen (zoom fst (\<lambda>m (_, x). (m, x)) (labcomm2014_memory_free 0 True)) (\<lambda>_. ret None);
          destroy_writer_mutex = andthen sys (\<lambda>_. free_scheduler);
          destroy_data_mutex = andthen sys (\<lambda>_. destroy_writer_mutex)
      in andthen (zoom fst (\<lambda>m (_, x). (m, x)) (labcomm2014_memory_alloc 0 264)) (\<lambda>ok.
         if \<not> ok then ret None
         else andthen sys (\<lambda>rc. if rc \<noteq> 0 then free_scheduler
         else andthen sys (\<lambda>rc. if rc \<noteq> 0 then destroy_writer_mutex
         else andthen sys (\<lambda>rc. if rc \<noteq> 0 then destroy_data_mutex
         else gets (\<lambda>(m, x). Some
                \<lparr>ps_memory = m, ps_wakeup = 0, ps_writer_mutex = False, ps_data_mutex = False,
                 ps_running_deferred = 0, ps_nodes = new_heads, ps_fresh = 0, ps_os = x, ps_world = world\<rparr>))))))"

end
