(* ===== verification/LC_PthreadSpec.thy ===== *)
theory LC_PthreadSpec
  imports LC_Pthread
begin

text \<open>
  What the scheduler for POSIX threads promises: the queues are well formed circular lists, the delayed
  one sorted by time; deferred calls run once each, in order, without the data lock.
\<close>

section \<open>Circular lists\<close>

text \<open>The fields of the nodes, and what the assignments change of them.\<close>

definition nx :: "(node \<Rightarrow> 'f pthread_deferred option) \<Rightarrow> node \<Rightarrow> node option" where
  "nx h a = map_option df_next (h a)"

definition pv :: "(node \<Rightarrow> 'f pthread_deferred option) \<Rightarrow> node \<Rightarrow> node option" where
  "pv h a = map_option df_prev (h a)"

definition wh :: "(node \<Rightarrow> 'f pthread_deferred option) \<Rightarrow> node \<Rightarrow> timespec option" where
  "wh h a = Option.bind (h a) df_when"

definition ac :: "(node \<Rightarrow> 'f pthread_deferred option) \<Rightarrow> node \<Rightarrow> 'f option" where
  "ac h a = Option.bind (h a) df_action"

lemmas field_defs = nx_def pv_def wh_def ac_def

definition upd_next :: "node \<Rightarrow> node \<Rightarrow> (node \<Rightarrow> 'f pthread_deferred option) \<Rightarrow> node \<Rightarrow> 'f pthread_deferred option" where
  "upd_next a b h = h(a := map_option (\<lambda>n. n\<lparr>df_next := b\<rparr>) (h a))"

definition upd_prev :: "node \<Rightarrow> node \<Rightarrow> (node \<Rightarrow> 'f pthread_deferred option) \<Rightarrow> node \<Rightarrow> 'f pthread_deferred option" where
  "upd_prev a b h = h(a := map_option (\<lambda>n. n\<lparr>df_prev := b\<rparr>) (h a))"

lemma upd_fields [simp]:
  "nx (upd_next a b h) c = (if c = a \<and> h a \<noteq> None then Some b else nx h c)" "nx (upd_prev a b h) c = nx h c"
  "pv (upd_prev a b h) c = (if c = a \<and> h a \<noteq> None then Some b else pv h c)" "pv (upd_next a b h) c = pv h c"
  "wh (upd_next a b h) c = wh h c" "wh (upd_prev a b h) c = wh h c"
  "ac (upd_next a b h) c = ac h c" "ac (upd_prev a b h) c = ac h c"
  "upd_next a b h c = None \<longleftrightarrow> h c = None" "upd_prev a b h c = None \<longleftrightarrow> h c = None"
  by (cases "h a"; auto simp: field_defs upd_next_def upd_prev_def)+

lemma put_fields [simp]:
  "nx (h(a := Some n)) c = (if c = a then Some (df_next n) else nx h c)"
  "pv (h(a := Some n)) c = (if c = a then Some (df_prev n) else pv h c)"
  "wh (h(a := Some n)) c = (if c = a then df_when n else wh h c)"
  "ac (h(a := Some n)) c = (if c = a then df_action n else ac h c)"
  "nx (h(a := None)) c = (if c = a then None else nx h c)"
  "pv (h(a := None)) c = (if c = a then None else pv h c)"
  "wh (h(a := None)) c = (if c = a then None else wh h c)"
  "ac (h(a := None)) c = (if c = a then None else ac h c)"
  by (auto simp: field_defs)

lemma nx_node: "nx h a = Some b \<Longrightarrow> h a \<noteq> None" and pv_node: "pv h a = Some b \<Longrightarrow> h a \<noteq> None"
  by (auto simp: field_defs)

lemma wp_node_get [wp_simps]: "wp (node_get x) Q s \<longleftrightarrow> (\<exists>n. ps_nodes s x = Some n \<and> Q n s)"
  by (auto simp: node_get_def wp_def split: option.splits)

lemma wp_set_next [wp_simps]:
  "wp (set_next a b) Q s \<longleftrightarrow> ps_nodes s a \<noteq> None \<and> Q () (s\<lparr>ps_nodes := upd_next a b (ps_nodes s)\<rparr>)"
  by (auto simp: set_next_def wp_simps node_put_def upd_next_def)

lemma wp_set_prev [wp_simps]:
  "wp (set_prev a b) Q s \<longleftrightarrow> ps_nodes s a \<noteq> None \<and> Q () (s\<lparr>ps_nodes := upd_prev a b (ps_nodes s)\<rparr>)"
  by (auto simp: set_prev_def wp_simps node_put_def upd_prev_def)

lemma wp_node_when [wp_simps]: "wp (node_when x) Q s \<longleftrightarrow> (\<exists>t. wh (ps_nodes s) x = Some t \<and> Q t s)"
  by (auto simp: node_when_def wp_simps wh_def split: Option.bind_splits option.splits)

text \<open>Neighbours of a list of nodes point to each other.\<close>

fun linked :: "(node \<Rightarrow> 'f pthread_deferred option) \<Rightarrow> node list \<Rightarrow> bool" where
  "linked h (a # b # xs) \<longleftrightarrow> nx h a = Some b \<and> pv h b = Some a \<and> linked h (b # xs)"
| "linked h xs \<longleftrightarrow> True"

lemma linked_append:
  "xs \<noteq> [] \<Longrightarrow> ys \<noteq> [] \<Longrightarrow> linked h (xs @ ys) \<longleftrightarrow>
    linked h xs \<and> linked h ys \<and> nx h (last xs) = Some (hd ys) \<and> pv h (hd ys) = Some (last xs)"
proof (induction xs)
  case (Cons a xs)
  then show ?case by (cases xs; cases ys) auto
qed simp

lemma linked_cong:
  "(\<And>a. a \<in> set (butlast xs) \<Longrightarrow> nx h' a = nx h a) \<Longrightarrow> (\<And>a. a \<in> set (tl xs) \<Longrightarrow> pv h' a = pv h a) \<Longrightarrow>
   linked h' xs = linked h xs"
  by (induction h xs rule: linked.induct) auto

text \<open>The circular list with the head \<open>q\<close>.\<close>

definition ring :: "(node \<Rightarrow> 'f pthread_deferred option) \<Rightarrow> node \<Rightarrow> node list \<Rightarrow> bool" where
  "ring h q xs \<longleftrightarrow> linked h (q # xs @ [q]) \<and> distinct (q # xs)"

lemma ring_next: "ring h q xs \<Longrightarrow> nx h q = Some (hd (xs @ [q]))"
  by (cases xs) (auto simp: ring_def)

lemma ring_split: "ring h q (xs @ ys) \<longleftrightarrow> linked h (q # xs) \<and> linked h (ys @ [q]) \<and>
    nx h (last (q # xs)) = Some (hd (ys @ [q])) \<and> pv h (hd (ys @ [q])) = Some (last (q # xs)) \<and> distinct (q # xs @ ys)"
  using linked_append [of "q # xs" "ys @ [q]" h] by (simp add: ring_def)

lemma ring_cong:
  assumes "\<And>a. a \<in> insert q (set xs) \<Longrightarrow> nx h' a = nx h a \<and> pv h' a = pv h a"
  shows "ring h' q xs = ring h q xs"
proof -
  have "linked h' (q # xs @ [q]) = linked h (q # xs @ [q])"
    by (rule linked_cong) (use assms in \<open>auto simp: butlast_append\<close>)
  then show ?thesis by (simp add: ring_def)
qed

lemma linked_hd: "linked h (x # B) \<Longrightarrow> B \<noteq> [] \<Longrightarrow> nx h x = Some (hd B) \<and> pv h (hd B) = Some x \<and> linked h B"
  by (cases B) auto

lemma last_not_butlast: "distinct xs \<Longrightarrow> xs \<noteq> [] \<Longrightarrow> last xs \<notin> set (butlast xs)"
  by (induction xs rule: rev_induct) auto

text \<open>Take an element out of a circular list, and put one in.\<close>

lemma ring_unlink:
  assumes "ring h q (xs @ x # ys)"
  shows "nx h x = Some (hd (ys @ [q]))" and "pv h x = Some (last (q # xs))"
    and "h (last (q # xs)) \<noteq> None" and "h (hd (ys @ [q])) \<noteq> None"
    and "h' = upd_prev (hd (ys @ [q])) (last (q # xs)) (upd_next (last (q # xs)) (hd (ys @ [q])) h) \<Longrightarrow> ring h' q (xs @ ys)"
proof -
  let ?p = "last (q # xs)" and ?n = "hd (ys @ [q])"
  from assms have parts: "linked h (q # xs)" "linked h (x # ys @ [q])" "nx h ?p = Some x" "pv h x = Some ?p"
    "distinct (q # xs @ x # ys)" unfolding ring_split by simp_all
  from linked_hd [OF parts(2)] have n: "nx h x = Some ?n" "pv h ?n = Some x" "linked h (ys @ [q])" by simp_all
  show "nx h x = Some ?n" "pv h x = Some ?p" and node: "h ?p \<noteq> None" "h ?n \<noteq> None"
    using parts n nx_node pv_node by blast+
  have pq: "?p \<in> set (q # xs)" "?p \<notin> set (butlast (q # xs))"
    using parts(5) last_not_butlast [of "q # xs"] last_in_set [of "q # xs"] by simp_all
  have nq: "?n \<in> set (ys @ [q])" "?n \<notin> set (tl (ys @ [q]))" using parts(5) by (cases ys, auto)+
  show "ring h' q (xs @ ys)" if h': "h' = upd_prev ?n ?p (upd_next ?p ?n h)"
    unfolding ring_split
  proof (intro conjI)
    have "linked h' (q # xs) = linked h (q # xs)"
      by (rule linked_cong) (use pq nq parts(5) in \<open>auto simp: h'\<close>)
    with parts show "linked h' (q # xs)" by simp
    have "linked h' (ys @ [q]) = linked h (ys @ [q])"
      by (rule linked_cong) (use pq nq parts(5) in \<open>auto simp: h' butlast_append\<close>)
    with n show "linked h' (ys @ [q])" by simp
  qed (use parts(5) node in \<open>simp_all add: h' del: last.simps\<close>)
qed

lemma ring_link:
  assumes "ring h q (xs @ ys)" and "x \<notin> set (q # xs @ ys)"
    and h': "h' = upd_prev (hd (ys @ [q])) x (upd_next (last (q # xs)) x (h(x := Some n)))"
    and "df_next n = hd (ys @ [q])" and "df_prev n = last (q # xs)"
  shows "ring h' q (xs @ x # ys)"
proof -
  let ?p = "last (q # xs)" and ?b = "hd (ys @ [q])"
  from assms(1) have parts: "linked h (q # xs)" "linked h (ys @ [q])" "nx h ?p = Some ?b" "pv h ?b = Some ?p"
    "distinct (q # xs @ ys)" unfolding ring_split by simp_all
  have node: "h ?p \<noteq> None" "h ?b \<noteq> None" using parts nx_node pv_node by blast+
  have p: "?p \<in> set (q # xs)" "?p \<notin> set (butlast (q # xs))"
    using parts(5) last_not_butlast [of "q # xs"] last_in_set [of "q # xs"] by simp_all
  have b: "?b \<in> set (ys @ [q])" "?b \<notin> set (tl (ys @ [q]))" using parts(5) by (cases ys, auto)+
  have x: "x \<noteq> ?p" "x \<noteq> ?b" "x \<notin> set (q # xs)" "x \<notin> set (tl (ys @ [q]))" "x \<notin> set ys"
    using assms(2) p(1) b(1) by (auto dest: list.set_sel(2) [rotated])
  have "linked h' (q # xs) = linked h (q # xs)"
    by (rule linked_cong) (use p b parts(5) x in \<open>auto simp: h' dest: in_set_butlastD\<close>)
  moreover have "linked h' (ys @ [q]) = linked h (ys @ [q])"
    by (rule linked_cong) (use p b parts(5) x in \<open>auto simp: h' butlast_append\<close>)
  moreover have "nx h' ?p = Some x" "pv h' x = Some ?p" "nx h' x = Some ?b" "pv h' ?b = Some x"
    using node x assms(4,5) by (simp_all add: h' del: last.simps)
  ultimately show ?thesis
    unfolding ring_split using parts assms(2) by (cases "ys @ [q]") auto
qed

section \<open>Times\<close>

text \<open>A time in nanoseconds; the time zero stands for the end of time.\<close>

definition nanoseconds :: "timespec \<Rightarrow> int" where
  "nanoseconds t = tv_sec t * 1000000000 + tv_nsec t"

definition normal :: "timespec \<Rightarrow> bool" where
  "normal t \<longleftrightarrow> 0 \<le> tv_nsec t \<and> tv_nsec t < 1000000000"

definition real_time :: "timespec \<Rightarrow> bool" where
  "real_time t \<longleftrightarrow> \<not> (tv_sec t = 0 \<and> tv_nsec t = 0)"

definition earlier :: "timespec \<Rightarrow> timespec \<Rightarrow> bool" where
  "earlier t u \<longleftrightarrow> timespec_compare t u \<le> 0"

lemma earlier_trans: "real_time u \<Longrightarrow> earlier t u \<Longrightarrow> earlier u v \<Longrightarrow> earlier t v"
  by (auto simp: earlier_def timespec_compare_def real_time_def split: if_splits)

lemma earlier_total: "0 \<le> timespec_compare t u \<Longrightarrow> earlier u t" "\<not> 0 \<le> timespec_compare t u \<Longrightarrow> earlier t u"
  by (auto simp: earlier_def timespec_compare_def split: if_splits)

lemma end_of_time: "real_time t \<Longrightarrow> timespec_compare t \<lparr>tv_sec = 0, tv_nsec = 0\<rparr> = - 1"
  "real_time t \<Longrightarrow> timespec_compare \<lparr>tv_sec = 0, tv_nsec = 0\<rparr> t = 1"
  by (auto simp: timespec_compare_def real_time_def)

lemma compare_nanoseconds:
  assumes "normal t" and "normal u" and "real_time t" and "real_time u"
  shows "timespec_compare t u = sgn (nanoseconds t - nanoseconds u)"
  using assms by (auto simp: timespec_compare_def nanoseconds_def normal_def real_time_def)

lemma add_usec:
  assumes "normal t" and "0 \<le> tv_sec t" and "tv_sec t < 2 ^ 62"
  shows "wp (timespec_add_usec usec) (\<lambda>_ t'. normal t' \<and> tv_sec t \<le> tv_sec t' \<and> nanoseconds t' = nanoseconds t + 1000 * uint usec) t"
proof -
  have "uint usec < 2 ^ 32" using uint_lt2p [of usec] by simp
  then have u: "0 \<le> uint usec" "uint usec < 4294967296" by simp_all
  have d: "uint (usec div 1000000) = uint usec div 1000000" by (simp add: uint_div)
  have "uint (usec mod 1000000) = uint usec mod 1000000" by (simp add: uint_mod)
  moreover have "uint usec mod 1000000 * 1000 < 2 ^ 32" by (rule le_less_trans [of _ "999999 * 1000"]) auto
  ultimately have m: "uint (usec mod 1000000 * 1000) = uint usec mod 1000000 * 1000"
    by (simp add: uint_word_ariths take_bit_int_eq_self)
  define ud um where "ud = uint usec div 1000000" and "um = uint usec mod 1000000"
  have um: "0 \<le> um" "um < 1000000" and ud: "0 \<le> ud" "ud < 4295" and usec: "uint usec = ud * 1000000 + um"
    using u by (simp_all add: ud_def um_def pos_imp_zdiv_nonneg_iff)
  define n where "n = tv_nsec t + um * 1000"
  have n: "0 \<le> n" "n < 2000000000" using assms(1) um by (auto simp: normal_def n_def)
  define q r where "q = n div 1000000000" and "r = n mod 1000000000"
  have q: "0 \<le> q" "q \<le> 1" and r: "0 \<le> r" "r < 1000000000" and qr: "n = q * 1000000000 + r"
    using n by (auto simp: q_def r_def)
  have sd: "n sdiv 1000000000 = q" "n smod 1000000000 = r"
    using n(1) by (auto simp: signed_divide_int_def signed_modulo_int_def sgn_if q_def r_def)
  have sums: "ud + q < 4297" "tv_sec t + (ud + q) < 2 ^ 63" using ud q assms(3) by simp_all
  have "timespec_add_usec usec t = Some (Inr ((), t\<lparr>tv_sec := tv_sec t + (ud + q), tv_nsec := r\<rparr>))"
    using n ud q sums assms(2) d m
    by (simp add: timespec_add_usec_def c_long_def prog_simps Let_def ud_def [symmetric] um_def [symmetric] n_def [symmetric] sd)
  moreover have "nanoseconds (t\<lparr>tv_sec := tv_sec t + (ud + q), tv_nsec := r\<rparr>) = nanoseconds t + 1000 * uint usec"
    using qr by (simp add: nanoseconds_def usec n_def)
  ultimately show ?thesis
    using r ud q by (intro wp_run) (auto simp: normal_def)
qed

section \<open>The queues of a scheduler\<close>

text \<open>
  The scheduler has the queue \<open>xs\<close> of calls to be made at once and the queue \<open>ys\<close> of delayed ones, sorted
  by time; the head of the latter stands for the end of time.
\<close>

definition queues_in :: "(node \<Rightarrow> 'f pthread_deferred option) \<Rightarrow> nat \<Rightarrow> (nat \<times> 'f) list \<Rightarrow> (nat \<times> timespec \<times> 'f) list \<Rightarrow> bool" where
  "queues_in h fresh xs ys \<longleftrightarrow>
     ring h DeferredHead (map (Element \<circ> fst) xs) \<and> ring h DelayedHead (map (Element \<circ> fst) ys) \<and>
     set (map fst xs) \<inter> set (map fst ys) = {} \<and>
     (\<forall>(x, f)\<in>set xs. ac h (Element x) = Some f) \<and>
     (\<forall>(y, w, f)\<in>set ys. ac h (Element y) = Some f \<and> wh h (Element y) = Some w \<and> real_time w) \<and>
     wh h DelayedHead = Some \<lparr>tv_sec = 0, tv_nsec = 0\<rparr> \<and>
     sorted_wrt (\<lambda>a b. earlier (fst (snd a)) (fst (snd b))) ys \<and>
     (\<forall>x. h (Element x) \<noteq> None \<longrightarrow> x < fresh)"

definition unlink :: "node \<Rightarrow> node \<Rightarrow> node \<Rightarrow> (node \<Rightarrow> 'f pthread_deferred option) \<Rightarrow> node \<Rightarrow> 'f pthread_deferred option" where
  "unlink p x n h = (upd_prev n p (upd_next p n h))(x := None)"

lemma unlink_fields [simp]:
  "wh (unlink p x n h) c = (if c = x then None else wh h c)" "ac (unlink p x n h) c = (if c = x then None else ac h c)"
  "unlink p x n h c = None \<longleftrightarrow> c = x \<or> h c = None"
  by (simp_all add: unlink_def)

lemma ring_frame:
  assumes "ring h q xs" and "p \<notin> insert q (set xs)" and "n \<notin> insert q (set xs)" and "x \<notin> insert q (set xs)"
  shows "ring (unlink p x n h) q xs"
proof -
  have "ring (unlink p x n h) q xs = ring h q xs"
    by (rule ring_cong) (use assms in \<open>auto simp: unlink_def\<close>)
  then show ?thesis using assms(1) by simp
qed

lemma ring_drop:
  assumes "ring h q (x # xs)"
  shows "ring (unlink q x (hd (xs @ [q])) h) q xs" and "nx h q = Some x" and "nx h x = Some (hd (xs @ [q]))"
    and "pv h x = Some q" and "h q \<noteq> None" and "h (hd (xs @ [q])) \<noteq> None"
proof -
  note un = ring_unlink [of h q "[]" x xs, simplified, OF assms]
  show "nx h x = Some (hd (xs @ [q]))" "pv h x = Some q" "h q \<noteq> None" "h (hd (xs @ [q])) \<noteq> None"
    using un by auto
  show "nx h q = Some x" using ring_next [OF assms] by simp
  have "x \<notin> insert q (set xs)" using assms by (auto simp: ring_def)
  then have "ring (unlink q x (hd (xs @ [q])) h) q xs = ring (upd_prev (hd (xs @ [q])) q (upd_next q (hd (xs @ [q])) h)) q xs"
    by (intro ring_cong) (auto simp: unlink_def)
  then show "ring (unlink q x (hd (xs @ [q])) h) q xs" using un(5) [OF refl] by simp
qed

lemma queue_drop_first:
  assumes "queues_in h k ((x, f) # xs) ys"
  shows "queues_in (unlink DeferredHead (Element x) (hd (map (Element \<circ> fst) xs @ [DeferredHead])) h) k xs ys"
    (is "queues_in (unlink _ _ ?n h) k xs ys")
proof -
  have r: "ring h DeferredHead (Element x # map (Element \<circ> fst) xs)" and ys: "ring h DelayedHead (map (Element \<circ> fst) ys)"
    and dis: "set (map fst ((x, f) # xs)) \<inter> set (map fst ys) = {}"
    using assms by (simp_all add: queues_in_def)
  have n: "?n \<in> insert DeferredHead (Element ` fst ` set xs)" by (cases xs) auto
  have "x \<notin> fst ` set xs" using r by (auto simp: ring_def)
  then have "ring (unlink DeferredHead (Element x) ?n h) DelayedHead (map (Element \<circ> fst) ys)"
    using n dis by (intro ring_frame [OF ys]) (auto simp: image_image, force)
  then show ?thesis
    using assms ring_drop(1) [OF r] \<open>x \<notin> fst ` set xs\<close>
    by (auto simp: queues_in_def image_iff split: prod.splits)
qed

lemma delayed_drop_first:
  assumes "queues_in h k xs ((y, w, f) # ys)"
  shows "queues_in (unlink DelayedHead (Element y) (hd (map (Element \<circ> fst) ys @ [DelayedHead])) h) k xs ys"
    (is "queues_in (unlink _ _ ?n h) k xs ys")
proof -
  have r: "ring h DelayedHead (Element y # map (Element \<circ> fst) ys)" and xs: "ring h DeferredHead (map (Element \<circ> fst) xs)"
    and dis: "set (map fst xs) \<inter> set (map fst ((y, w, f) # ys)) = {}"
    using assms by (simp_all add: queues_in_def)
  have n: "?n \<in> insert DelayedHead (Element ` fst ` set ys)" by (cases ys) auto
  have "y \<notin> fst ` set ys" using r by (auto simp: ring_def)
  then have "ring (unlink DelayedHead (Element y) ?n h) DeferredHead (map (Element \<circ> fst) xs)"
    using n dis by (intro ring_frame [OF xs]) (auto simp: image_image, force)
  then show ?thesis
    using assms ring_drop(1) [OF r] \<open>y \<notin> fst ` set ys\<close>
    by (auto simp: queues_in_def image_iff split: prod.splits)
qed

section \<open>One thread\<close>

text \<open>
  A thread that is alone: other threads do nothing, and a deferred call has the effect \<open>eff\<close> on the world only.
\<close>

definition lone_thread :: "('f \<Rightarrow> 'w \<Rightarrow> 'w) \<Rightarrow> ('f, 'w) environment" where
  "lone_thread eff = \<lparr>pe_others = (\<lambda>_ s. s), pe_action = (\<lambda>f. modify (\<lambda>s. s\<lparr>ps_world := eff f (ps_world s)\<rparr>))\<rparr>"

definition os_ok :: "os \<Rightarrow> bool" where
  "os_ok x \<longleftrightarrow> (\<forall>k. os_result x k = 0)"

text \<open>From \<open>s\<close> to \<open>s'\<close> the calls \<open>fs\<close> were made, in this order, and their elements freed.\<close>

definition calls_made :: "('f \<Rightarrow> 'w \<Rightarrow> 'w) \<Rightarrow> 'f list \<Rightarrow> ('f, 'w) pthread_scheduler \<Rightarrow> ('f, 'w) pthread_scheduler \<Rightarrow> bool" where
  "calls_made eff fs s s' \<longleftrightarrow> ps_world s' = fold eff fs (ps_world s) \<and>
     mem_live (ps_memory s') = mem_live (ps_memory s) - int (length fs) \<and> mem_grant (ps_memory s') = mem_grant (ps_memory s) \<and>
     ps_writer_mutex s' = ps_writer_mutex s \<and> ps_data_mutex s' = ps_data_mutex s \<and>
     ps_running_deferred s' = ps_running_deferred s \<and> ps_fresh s' = ps_fresh s \<and>
     os_clock (ps_os s') = os_clock (ps_os s) \<and> os_result (ps_os s') = os_result (ps_os s)"

lemma calls_made_trans: "calls_made eff fs s t \<Longrightarrow> calls_made eff gs t u \<Longrightarrow> calls_made eff (fs @ gs) s u"
  by (simp add: calls_made_def)

lemma calls_made_refl [simp]: "calls_made eff [] s s"
  by (simp add: calls_made_def)

lemma wp_count_call [wp_simps]: "wp count_call Q x \<longleftrightarrow> Q (os_calls x) (x\<lparr>os_calls := Suc (os_calls x)\<rparr>)"
  by (simp add: count_call_def wp_simps)

lemma wp_sys_result: "os_ok x \<Longrightarrow> wp sys_result Q x \<longleftrightarrow> Q 0 (x\<lparr>os_calls := Suc (os_calls x)\<rparr>)"
  by (simp add: sys_result_def wp_simps os_ok_def)

lemma wp_clock_gettime [wp_simps]:
  "wp clock_gettime Q x \<longleftrightarrow> Q (os_clock x (os_calls x)) (x\<lparr>os_calls := Suc (os_calls x)\<rparr>)"
  by (simp add: clock_gettime_def wp_simps)

abbreviation one_call :: "('f, 'w) pthread_scheduler \<Rightarrow> ('f, 'w) pthread_scheduler" where
  "one_call s \<equiv> s\<lparr>ps_os := (ps_os s)\<lparr>os_calls := Suc (os_calls (ps_os s))\<rparr>\<rparr>"

lemma wp_data_unlock:
  "os_ok (ps_os s) \<Longrightarrow> ps_data_mutex s \<Longrightarrow> wp scheduler_data_unlock Q s \<longleftrightarrow> Q 0 ((one_call s)\<lparr>ps_data_mutex := False\<rparr>)"
  by (simp add: scheduler_data_unlock_def unlock_data_mutex_def wp_simps on_os_def wp_sys_result)

text \<open>
  What the proofs about deferred calls rely on: other threads leave the scheduler as it is, and a deferred call
  (made without the data lock while deferred calls are being run, and without the writer lock
  if it takes this lock itself) returns with the effect \<open>eff\<close> on the world.  It may use the scheduler for
  taking and releasing locks and for waking up, but leaves the queues as they are.
\<close>

locale quiet_thread =
  fixes env :: "('f, 'w) environment"
    and eff :: "'f \<Rightarrow> 'w \<Rightarrow> 'w"
    and uses_writer :: bool
  assumes others_law: "pe_others env k s = s"
    and action_law: "os_ok (ps_os s) \<Longrightarrow> \<not> ps_data_mutex s \<Longrightarrow> ps_running_deferred s \<noteq> 0 \<Longrightarrow>
      uses_writer \<longrightarrow> \<not> ps_writer_mutex s \<Longrightarrow>
      wp (pe_action env f) (\<lambda>_ s'. \<exists>k n. s' = s\<lparr>ps_world := eff f (ps_world s),
        ps_os := (ps_os s)\<lparr>os_calls := k\<rparr>, ps_wakeup := n\<rparr>) s"
begin

lemma wp_data_lock:
  "os_ok (ps_os s) \<Longrightarrow> \<not> ps_data_mutex s \<Longrightarrow>
   wp (scheduler_data_lock env) Q s \<longleftrightarrow> Q 0 ((one_call s)\<lparr>ps_data_mutex := True\<rparr>)"
  by (simp add: scheduler_data_lock_def lock_data_mutex_def wp_simps on_os_def wp_sys_result others_act_def others_law)

definition calling :: "('f, 'w) pthread_scheduler \<Rightarrow> bool" where
  "calling s \<longleftrightarrow> ps_data_mutex s \<and> os_ok (ps_os s) \<and> ps_running_deferred s \<noteq> 0 \<and> (uses_writer \<longrightarrow> \<not> ps_writer_mutex s)"

lemma calling_made: "calls_made eff fs s t \<Longrightarrow> calling t = calling s"
  by (auto simp: calling_def calls_made_def os_ok_def)

text \<open>The first element of a queue is taken out, called without the lock and freed.\<close>

lemma wp_run_action:
  assumes "ring (ps_nodes s) q (x # xs)" and "ac (ps_nodes s) x = Some f" and "calling s"
  shows "wp (run_action env x) (\<lambda>_ s'. calls_made eff [f] s s' \<and>
      ps_nodes s' = unlink q x (hd (xs @ [q])) (ps_nodes s)) s"
proof -
  let ?n = "hd (xs @ [q])"
  note drop = ring_drop [OF assms(1)]
  obtain e where e: "ps_nodes s x = Some e" "df_next e = ?n" "df_prev e = q" "df_action e = Some f"
    using drop(3,4) assms(2) by (auto simp: field_defs split: Option.bind_splits)
  have neq: "x \<noteq> q" "x \<noteq> ?n" using assms(1) by (cases xs; auto simp: ring_def)+
  have same: "upd_next q ?n (ps_nodes s) x = Some e" "upd_prev ?n q (upd_next q ?n (ps_nodes s)) x = Some e"
    using e neq by (simp_all add: upd_next_def upd_prev_def)
  have os: "os_ok ((ps_os s)\<lparr>os_calls := k\<rparr>)" for k using assms(3) by (simp add: calling_def os_ok_def)
  show ?thesis
    using e same drop(5,6) neq assms(3) os
    by (simp add: run_action_def wp_andthen wp_node_get wp_set_next wp_set_prev wp_data_unlock calling_def)
      (rule wp_mono [OF action_law], auto simp: wp_simps on_psmemory_def wp_data_lock unlink_def calls_made_def)
qed

end

abbreviation queues :: "('f, 'w) pthread_scheduler \<Rightarrow> (nat \<times> 'f) list \<Rightarrow> (nat \<times> timespec \<times> 'f) list \<Rightarrow> bool" where
  "queues s xs ys \<equiv> queues_in (ps_nodes s) (ps_fresh s) xs ys"

lemma queue_next:
  assumes "queues s xs ys"
  shows "nx (ps_nodes s) DeferredHead = Some (hd (map (Element \<circ> fst) xs @ [DeferredHead]))"
    and "nx (ps_nodes s) DelayedHead = Some (hd (map (Element \<circ> fst) ys @ [DelayedHead]))"
  using assms by (auto simp: queues_in_def dest: ring_next)

lemma wp_queue_empty:
  assumes "queues s xs ys"
  shows "wp (queue_empty DeferredHead) Q s \<longleftrightarrow> Q (xs = []) s" and "wp (queue_empty DelayedHead) Q s \<longleftrightarrow> Q (ys = []) s"
  using queue_next [OF assms] by (cases xs; cases ys; auto simp: queue_empty_def wp_simps nx_def)+

text \<open>The loops, unfolded once.\<close>

lemma run_all_unfold:
  "run_all env = andthen (queue_empty DeferredHead) (\<lambda>e. if e then ret ()
     else andthen (node_get DeferredHead) (\<lambda>h. andthen (run_action env (df_next h)) (\<lambda>_. run_all env)))"
  by (rule ext, subst run_all.simps) (rule arg_cong [where f = "\<lambda>f. andthen _ f _"], simp add: fun_eq_iff)

lemma run_due_unfold:
  "run_due env now = andthen (node_get DelayedHead) (\<lambda>h. andthen (node_when (df_next h)) (\<lambda>w.
     if timespec_compare w now \<le> 0 then andthen (run_action env (df_next h)) (\<lambda>_. run_due env now) else ret ()))"
  by (rule ext, subst run_due.simps)
    (rule arg_cong [where f = "\<lambda>f. andthen _ f _"], intro ext, rule arg_cong [where f = "\<lambda>f. andthen _ f _"], simp add: fun_eq_iff)

lemma find_place_unfold:
  "find_place t b = andthen (node_when b) (\<lambda>w. if 0 \<le> timespec_compare t w
     then andthen (node_get b) (\<lambda>n. find_place t (df_next n)) else ret b)"
  by (rule ext, subst find_place.simps) (rule arg_cong [where f = "\<lambda>f. andthen _ f _"], simp add: fun_eq_iff)

context quiet_thread
begin

lemma wp_run_all:
  assumes "queues s xs ys" and "calling s"
  shows "wp (run_all env) (\<lambda>_ s'. calls_made eff (map snd xs) s s' \<and> queues s' [] ys) s"
  using assms
proof (induction xs arbitrary: s)
  case Nil
  then show ?case
    by (subst run_all_unfold) (simp add: wp_andthen wp_queue_empty(1) [OF Nil(1)] wp_ret)
next
  case (Cons xf xs)
  obtain x f where xf: "xf = (x, f)" by (cases xf)
  have r: "ring (ps_nodes s) DeferredHead (Element x # map (Element \<circ> fst) xs)" and a: "ac (ps_nodes s) (Element x) = Some f"
    using Cons.prems(1) by (auto simp: queues_in_def xf)
  obtain h where h: "ps_nodes s DeferredHead = Some h" "df_next h = Element x"
    using ring_next [OF r] by (auto simp: nx_def)
  have "wp (andthen (run_action env (Element x)) (\<lambda>_. run_all env))
      (\<lambda>_ s'. calls_made eff (map snd (xf # xs)) s s' \<and> queues s' [] ys) s"
    unfolding wp_andthen
  proof (rule wp_mono [OF wp_run_action [OF r a Cons.prems(2)]], elim conjE, goal_cases)
    case (1 u s1)
    have "queues s1 xs ys"
      using queue_drop_first [OF Cons.prems(1) [unfolded xf]] 1 by (simp add: calls_made_def)
    from Cons.IH [OF this] show ?case
      by (rule wp_mono) (use 1 Cons.prems calling_made [OF 1(1)] calls_made_trans [OF 1(1)] in \<open>auto simp: calls_made_def xf\<close>)
  qed
  then show ?case
    using h by (subst run_all_unfold) (simp add: wp_andthen wp_queue_empty(1) [OF Cons.prems(1)] wp_node_get)
qed

end

definition due :: "timespec \<Rightarrow> nat \<times> timespec \<times> 'f \<Rightarrow> bool" where
  "due now y \<longleftrightarrow> earlier (fst (snd y)) now"

context quiet_thread
begin

lemma wp_run_due:
  assumes "queues s xs ys" and "calling s" and "real_time now"
  shows "wp (run_due env now) (\<lambda>_ s'. calls_made eff (map (snd \<circ> snd) (takeWhile (due now) ys)) s s' \<and>
      queues s' xs (dropWhile (due now) ys)) s"
  using assms(1,2)
proof (induction ys arbitrary: s)
  case Nil
  obtain h where "ps_nodes s DelayedHead = Some h" "df_next h = DelayedHead"
    using queue_next(2) [OF Nil(1)] by (auto simp: nx_def)
  moreover have "wh (ps_nodes s) DelayedHead = Some \<lparr>tv_sec = 0, tv_nsec = 0\<rparr>"
    using Nil(1) by (simp add: queues_in_def)
  ultimately show ?case
    using Nil end_of_time(2) [OF assms(3)]
    by (subst run_due_unfold) (simp add: wp_andthen wp_node_get wp_node_when wp_ret)
next
  case (Cons ywf ys)
  obtain y w f where ywf: "ywf = (y, w, f)" by (cases ywf)
  have r: "ring (ps_nodes s) DelayedHead (Element y # map (Element \<circ> fst) ys)"
    and a: "ac (ps_nodes s) (Element y) = Some f" "wh (ps_nodes s) (Element y) = Some w"
    using Cons.prems(1) by (auto simp: queues_in_def ywf)
  obtain h where h: "ps_nodes s DelayedHead = Some h" "df_next h = Element y"
    using ring_next [OF r] by (auto simp: nx_def)
  show ?case
  proof (cases "timespec_compare w now \<le> 0")
    case False
    then show ?thesis
      using h a Cons.prems(1)
      by (subst run_due_unfold) (simp add: wp_andthen wp_node_get wp_node_when wp_ret due_def earlier_def ywf)
  next
    case True
    have "wp (andthen (run_action env (Element y)) (\<lambda>_. run_due env now))
      (\<lambda>_ s'. calls_made eff (f # map (snd \<circ> snd) (takeWhile (due now) ys)) s s' \<and> queues s' xs (dropWhile (due now) ys)) s"
      unfolding wp_andthen
    proof (rule wp_mono [OF wp_run_action [OF r a(1) Cons.prems(2)]], elim conjE, goal_cases)
      case (1 u s1)
      have "queues s1 xs ys"
        using delayed_drop_first [OF Cons.prems(1) [unfolded ywf]] 1 by (simp add: calls_made_def)
      from Cons.IH [OF this] show ?case
        by (rule wp_mono) (use 1 Cons.prems calling_made [OF 1(1)] calls_made_trans [OF 1(1)] in \<open>auto simp: calls_made_def comp_def\<close>)
    qed
    then show ?thesis
      using h a True by (subst run_due_unfold) (simp add: wp_andthen wp_node_get wp_node_when due_def earlier_def ywf)
  qed
qed

end

text \<open>In a sorted queue the calls that are due come first.\<close>

lemma due_first:
  assumes "sorted_wrt (\<lambda>a b. earlier (fst (snd a)) (fst (snd b))) ys" and "\<forall>y\<in>set ys. real_time (fst (snd y))"
  shows "takeWhile (due now) ys = filter (due now) ys" and "dropWhile (due now) ys = filter (\<lambda>y. \<not> due now y) ys"
  using assms
proof (induction ys)
  case (Cons y ys)
  {
    case 1
    have "\<not> due now z" if "\<not> due now y" "z \<in> set ys" for z
      using that 1 earlier_trans [of "fst (snd z)" "fst (snd y)" now] by (auto simp: due_def)
    then show ?case using Cons.IH(1) 1 by (auto simp: filter_empty_conv)
  next
    case 2
    have "\<not> due now z" if "\<not> due now y" "z \<in> set ys" for z
      using that 2 earlier_trans [of "fst (snd z)" "fst (snd y)" now] by (auto simp: due_def)
    then show ?case using Cons.IH(2) 2 by (auto intro!: filter_True [symmetric])
  }
qed simp_all

context quiet_thread
begin

lemma wp_run_deferred:
  assumes "queues s xs ys" and "ps_data_mutex s" and "os_ok (ps_os s)" and "ps_running_deferred s = 0"
    and "uses_writer \<longrightarrow> \<not> ps_writer_mutex s" and "\<And>k. real_time (os_clock (ps_os s) k)"
  shows "wp (run_deferred env) (\<lambda>result s'. result = 0 \<and> (\<exists>k. let now = os_clock (ps_os s) k in
      calls_made eff (map snd xs @ map (snd \<circ> snd) (filter (due now) ys)) s s' \<and>
      queues s' [] (filter (\<lambda>y. \<not> due now y) ys))) s"
proof -
  let ?s = "s\<lparr>ps_running_deferred := 1\<rparr>"
  have sorted: "sorted_wrt (\<lambda>a b. earlier (fst (snd a)) (fst (snd b))) ys" "\<forall>y\<in>set ys. real_time (fst (snd y))"
    using assms(1) by (auto simp: queues_in_def)
  have "queues ?s xs ys" "calling ?s" using assms by (simp_all add: calling_def)
  note all = wp_run_all [OF this]
  have rest: "wp (andthen (queue_empty DelayedHead) (\<lambda>e.
          andthen (if e then ret () else andthen (on_os clock_gettime) (\<lambda>now. run_due env now)) (\<lambda>_.
          andthen (modify (\<lambda>s. s\<lparr>ps_running_deferred := 0\<rparr>)) (\<lambda>_. ret 0))))
      (\<lambda>result s'. result = 0 \<and> (\<exists>k. let now = os_clock (ps_os s) k in
      calls_made eff (map snd xs @ map (snd \<circ> snd) (filter (due now) ys)) s s' \<and>
      queues s' [] (filter (\<lambda>y. \<not> due now y) ys))) s1"
    if s1: "calls_made eff (map snd xs) ?s s1" "queues s1 [] ys" for s1
  proof (cases "ys = []")
    case True
    then show ?thesis
      using s1 assms(4) by (simp add: wp_andthen wp_queue_empty [OF s1(2)] wp_simps calls_made_def)
  next
    case False
    let ?now = "os_clock (ps_os s1) (os_calls (ps_os s1))"
    have c: "os_clock (ps_os s1) = os_clock (ps_os s)" using s1(1) by (simp add: calls_made_def)
    have "queues (one_call s1) [] ys" "calling (one_call s1)" "real_time ?now"
      using s1 assms by (simp_all add: calling_def calls_made_def os_ok_def)
    note due = wp_run_due [OF this]
    show ?thesis
      using False
      by (simp add: wp_andthen wp_queue_empty [OF s1(2)] on_os_def wp_zoom wp_clock_gettime wp_modify wp_ret)
        (rule wp_mono [OF due], simp add: wp_simps, rule exI [of _ "os_calls (ps_os s1)"],
         use s1 assms(4) c in \<open>auto simp: due_first [OF sorted] Let_def calls_made_def\<close>)
  qed
  show ?thesis
    unfolding run_deferred_def
    by (simp add: wp_andthen wp_gets assms(4) wp_modify)
      (rule wp_mono [OF all], erule conjE, drule (1) rest, simp add: wp_andthen)
qed

end

text \<open>The thread that is alone is such a thread.\<close>

interpretation lone: quiet_thread "lone_thread eff" eff False for eff :: "'f \<Rightarrow> 'w \<Rightarrow> 'w"
proof
  show "wp (pe_action (lone_thread eff) f) (\<lambda>_ s'. \<exists>k n. s' = s\<lparr>ps_world := eff f (ps_world s),
      ps_os := (ps_os s)\<lparr>os_calls := k\<rparr>, ps_wakeup := n\<rparr>) s" for f and s :: "('f, 'w) pthread_scheduler"
    by (simp add: lone_thread_def wp_modify) (rule exI [of _ "os_calls (ps_os s)"], rule exI [of _ "ps_wakeup s"], simp)
qed (simp add: lone_thread_def)

section \<open>Entering calls\<close>

text \<open>The nodes after a new element \<open>x\<close> was linked before \<open>b\<close>, behind \<open>p\<close>.\<close>

definition linked_in :: "node \<Rightarrow> node \<Rightarrow> node \<Rightarrow> timespec option \<Rightarrow> 'f \<Rightarrow> (node \<Rightarrow> 'f pthread_deferred option) \<Rightarrow>
    node \<Rightarrow> 'f pthread_deferred option" where
  "linked_in p x b w f h =
     upd_prev b x (upd_next p x (h(x := Some \<lparr>df_next = b, df_prev = p, df_when = w, df_action = Some f\<rparr>)))"

lemma linked_in_fields [simp]:
  "wh (linked_in p x b w f h) c = (if c = x then w else wh h c)"
  "ac (linked_in p x b w f h) c = (if c = x then Some f else ac h c)"
  "linked_in p x b w f h c = None \<longleftrightarrow> c \<noteq> x \<and> h c = None"
  by (simp_all add: linked_in_def)

lemma ring_linked_in:
  assumes "ring h q (xs @ ys)" and "x \<notin> set (q # xs @ ys)"
  shows "ring (linked_in (last (q # xs)) x (hd (ys @ [q])) w f h) q (xs @ x # ys)"
  by (rule ring_link [OF assms, of _ "\<lparr>df_next = hd (ys @ [q]), df_prev = last (q # xs), df_when = w, df_action = Some f\<rparr>"])
    (simp_all add: linked_in_def)

lemma ring_linked_in_other:
  assumes "ring h q xs" and "p \<notin> insert q (set xs)" and "b \<notin> insert q (set xs)" and "x \<notin> insert q (set xs)"
  shows "ring (linked_in p x b w f h) q xs"
proof -
  have "ring (linked_in p x b w f h) q xs = ring h q xs"
    by (rule ring_cong) (use assms in \<open>auto simp: linked_in_def\<close>)
  then show ?thesis using assms(1) by simp
qed

lemma wp_link_before:
  assumes "ring (ps_nodes s) q (xs @ ys)" and "x \<notin> set (q # xs @ ys)"
  shows "wp (link_before (hd (ys @ [q])) x w f) Q s \<longleftrightarrow>
    Q () (s\<lparr>ps_nodes := linked_in (last (q # xs)) x (hd (ys @ [q])) w f (ps_nodes s)\<rparr>)"
proof -
  let ?p = "last (q # xs)" and ?b = "hd (ys @ [q])"
  from assms(1) have "nx (ps_nodes s) ?p = Some ?b" "pv (ps_nodes s) ?b = Some ?p" unfolding ring_split by simp_all
  then obtain m n where mn: "ps_nodes s ?p = Some m" "ps_nodes s ?b = Some n" "df_prev n = ?p" by (auto simp: field_defs)
  have "?p \<in> set (q # xs)" "?b \<in> set (ys @ [q])" by (simp_all, cases ys, auto)
  then have "x \<noteq> ?p" "x \<noteq> ?b" using assms(2) by auto
  with mn show ?thesis
    by (simp add: link_before_def wp_simps node_put_def linked_in_def del: last.simps)
qed

lemma queues_fresh:
  assumes "queues_in h k xs ys"
  shows "h (Element k) = None" and "k \<notin> fst ` set xs" and "k \<notin> fst ` set ys"
    and "\<And>z. (k, z) \<notin> set xs" and "\<And>z. (k, z) \<notin> set ys"
proof -
  show n: "h (Element k) = None" using assms by (auto simp: queues_in_def)
  then have "ac h (Element k) = None" by (simp add: ac_def)
  then show xs: "\<And>z. (k, z) \<notin> set xs" and ys: "\<And>z. (k, z) \<notin> set ys" using assms by (auto simp: queues_in_def)
  from xs ys show "k \<notin> fst ` set xs" "k \<notin> fst ` set ys" by auto
qed

lemma queue_append:
  assumes "queues_in h k xs ys" and "p = last (DeferredHead # map (Element \<circ> fst) xs)"
  shows "queues_in (linked_in p (Element k) DeferredHead None f h) (Suc k) (xs @ [(k, f)]) ys"
proof -
  have r: "ring h DeferredHead (map (Element \<circ> fst) xs @ [])" "ring h DelayedHead (map (Element \<circ> fst) ys)"
    using assms(1) by (simp_all add: queues_in_def)
  note fresh = queues_fresh [OF assms(1)]
  have p: "p \<in> insert DeferredHead ((Element \<circ> fst) ` set xs)" using assms(2) by (cases xs rule: rev_cases) auto
  have "ring (linked_in p (Element k) DeferredHead None f h) DelayedHead (map (Element \<circ> fst) ys)"
    by (rule ring_linked_in_other [OF r(2)]) (use p fresh assms(1) in \<open>auto simp: queues_in_def\<close>)
  moreover have "ring (linked_in p (Element k) DeferredHead None f h) DeferredHead (map (Element \<circ> fst) xs @ [Element k])"
    using ring_linked_in [OF r(1), of "Element k" None f] fresh(2) assms(2) by (simp add: image_iff)
  ultimately show ?thesis
    using assms(1) fresh by (auto simp: queues_in_def less_Suc_eq)
qed

lemma queue_insert:
  assumes "queues_in h k xs (as @ bs)" and "p = last (DelayedHead # map (Element \<circ> fst) as)"
    and "b = hd (map (Element \<circ> fst) bs @ [DelayedHead])" and "real_time w"
    and "\<forall>a\<in>set as. earlier (fst (snd a)) w" and "\<forall>b\<in>set bs. earlier w (fst (snd b))"
  shows "queues_in (linked_in p (Element k) b (Some w) f h) (Suc k) xs (as @ (k, w, f) # bs)"
proof -
  have r: "ring h DelayedHead (map (Element \<circ> fst) as @ map (Element \<circ> fst) bs)" "ring h DeferredHead (map (Element \<circ> fst) xs)"
    using assms(1) by (simp_all add: queues_in_def)
  note fresh = queues_fresh [OF assms(1)]
  have p: "p \<in> insert DelayedHead ((Element \<circ> fst) ` set as)" using assms(2) by (cases as rule: rev_cases) auto
  have b: "b \<in> insert DelayedHead ((Element \<circ> fst) ` set bs)" using assms(3) by (cases bs) auto
  have "ring (linked_in p (Element k) b (Some w) f h) DeferredHead (map (Element \<circ> fst) xs)"
    by (rule ring_linked_in_other [OF r(2)]) (use p b fresh assms(1) in \<open>auto simp: queues_in_def\<close>)
  moreover have "ring (linked_in p (Element k) b (Some w) f h) DelayedHead
      (map (Element \<circ> fst) as @ Element k # map (Element \<circ> fst) bs)"
    using ring_linked_in [OF r(1), of "Element k" "Some w" f] fresh(3) assms(2,3) by (simp add: image_iff)
  moreover have "sorted_wrt (\<lambda>a b. earlier (fst (snd a)) (fst (snd b))) (as @ (k, w, f) # bs)"
    using assms(1,5,6) by (auto simp: queues_in_def sorted_wrt_append)
  ultimately show ?thesis
    using assms(1,4) fresh by (auto simp: queues_in_def less_Suc_eq ball_Un)
qed

text \<open>The loop finds the first call that is later than the new one, or the head.\<close>

abbreviation not_later :: "timespec \<Rightarrow> nat \<times> timespec \<times> 'f \<Rightarrow> bool" where
  "not_later w y \<equiv> 0 \<le> timespec_compare w (fst (snd y))"

lemma wp_find_place:
  assumes "queues s xs (as @ bs)" and "real_time w"
  shows "wp (find_place w (hd (map (Element \<circ> fst) bs @ [DelayedHead]))) (\<lambda>r s'. s' = s \<and>
      r = hd (map (Element \<circ> fst) (dropWhile (not_later w) bs) @ [DelayedHead])) s"
  using assms(1)
proof (induction bs arbitrary: as)
  case Nil
  have "wh (ps_nodes s) DelayedHead = Some \<lparr>tv_sec = 0, tv_nsec = 0\<rparr>" using Nil by (simp add: queues_in_def)
  then show ?case
    using end_of_time(1) [OF assms(2)] by (subst find_place_unfold) (simp add: wp_andthen wp_node_when wp_ret)
next
  case (Cons b bs)
  obtain y v f where b: "b = (y, v, f)" by (cases b)
  have r: "ring (ps_nodes s) DelayedHead (map (Element \<circ> fst) as @ Element y # map (Element \<circ> fst) bs)"
    and v: "wh (ps_nodes s) (Element y) = Some v"
    using Cons.prems by (auto simp: queues_in_def b)
  obtain n where n: "ps_nodes s (Element y) = Some n" "df_next n = hd (map (Element \<circ> fst) bs @ [DelayedHead])"
    using ring_unlink(1) [OF r] by (auto simp: nx_def)
  have "queues s xs ((as @ [b]) @ bs)" using Cons.prems by simp
  from Cons.IH [OF this] show ?case
    using v n by (subst find_place_unfold) (simp add: wp_andthen wp_node_when wp_node_get wp_ret b comp_def)
qed

lemma sorted_place:
  assumes "sorted_wrt (\<lambda>a b. earlier (fst (snd a)) (fst (snd b))) ys" and "\<forall>y\<in>set ys. real_time (fst (snd y))"
  shows "\<forall>a\<in>set (takeWhile (not_later w) ys). earlier (fst (snd a)) w"
    and "\<forall>b\<in>set (dropWhile (not_later w) ys). earlier w (fst (snd b))"
proof -
  show "\<forall>a\<in>set (takeWhile (not_later w) ys). earlier (fst (snd a)) w"
    using earlier_total(1) by (blast dest: set_takeWhileD)
  show "\<forall>b\<in>set (dropWhile (not_later w) ys). earlier w (fst (snd b))"
  proof (cases "dropWhile (not_later w) ys")
    case (Cons b bs)
    then have b: "\<not> not_later w b" using hd_dropWhile [of "not_later w" ys] by simp
    have "ys = takeWhile (not_later w) ys @ b # bs" using takeWhile_dropWhile_id [of "not_later w" ys] Cons by simp
    then have "b \<in> set ys" "\<forall>x\<in>set bs. earlier (fst (snd b)) (fst (snd x))"
      using assms(1) sorted_wrt_append [of _ "takeWhile (not_later w) ys" "b # bs"]
      by (metis in_set_conv_decomp, metis sorted_wrt.simps(2))
    moreover have "earlier w (fst (snd b))" using earlier_total(2) b by blast
    ultimately show ?thesis
      using earlier_trans [of "fst (snd b)" w] assms(2) unfolding Cons by simp
  next
    case Nil
    show ?thesis unfolding Nil by simp
  qed
qed

text \<open>
  A call is entered at the end of the queue without delay, or in the delayed queue behind all calls that
  are not later.
\<close>

definition entered :: "u32 \<Rightarrow> timespec \<Rightarrow> nat \<Rightarrow> 'f \<Rightarrow> (nat \<times> 'f) list \<times> (nat \<times> timespec \<times> 'f) list \<Rightarrow>
    (nat \<times> 'f) list \<times> (nat \<times> timespec \<times> 'f) list" where
  "entered delay w k f = (\<lambda>(xs, ys). if delay = 0 then (xs @ [(k, f)], ys)
     else (xs, takeWhile (not_later w) ys @ (k, w, f) # dropWhile (not_later w) ys))"

lemma wp_enqueue:
  assumes "queues s xs ys" and "\<not> ps_data_mutex s" and "os_ok (ps_os s)" and "plenty (ps_memory s)"
    and "now = os_clock (ps_os s) (Suc (os_calls (ps_os s)))"
    and "normal now" and "0 < tv_sec now" and "tv_sec now < 2 ^ 62"
  shows "wp (scheduler_enqueue (lone_thread eff) delay f) (\<lambda>result s'. result = 0 \<and>
      (\<exists>w xs' ys'. normal w \<and> nanoseconds w = nanoseconds now + 1000 * uint delay \<and>
        (xs', ys') = entered delay w (ps_fresh s) f (xs, ys) \<and> queues s' xs' ys') \<and>
      mem_live (ps_memory s') = mem_live (ps_memory s) + 1 \<and> \<not> ps_data_mutex s' \<and>
      ps_world s' = ps_world s \<and> ps_running_deferred s' = ps_running_deferred s) s"
proof -
  let ?k = "ps_fresh s"
  note fresh = queues_fresh [OF assms(1)]
  have os: "os_ok ((ps_os s)\<lparr>os_calls := n\<rparr>)" for n using assms(3) by (simp add: os_ok_def)
  have r: "ring (ps_nodes s) DeferredHead (map (Element \<circ> fst) xs @ [])" "ring (ps_nodes s) DelayedHead (map (Element \<circ> fst) ys)"
    using assms(1) by (simp_all add: queues_in_def)
  obtain w where add: "timespec_add_usec delay now = Some (Inr ((), w))" and w: "normal w" "tv_sec now \<le> tv_sec w"
    "nanoseconds w = nanoseconds now + 1000 * uint delay"
    using add_usec [OF assms(6) _ assms(8), of delay] assms(7) by (auto elim!: wpE)
  have added: "wp (timespec_add_usec delay) Q now \<longleftrightarrow> Q () w" for Q using add by (simp add: wp_def)
  have real: "real_time w" using w(2) assms(7) by (auto simp: real_time_def)
  show ?thesis
  proof (cases "delay = 0")
    case True
    have new: "Element ?k \<notin> set (DeferredHead # map (Element \<circ> fst) xs @ [])" using fresh(2) by (simp add: image_iff)
    have link: "wp (link_before DeferredHead (Element ?k) None f) Q s1 \<longleftrightarrow> Q () (s1\<lparr>ps_nodes :=
        linked_in (last (DeferredHead # map (Element \<circ> fst) xs)) (Element ?k) DeferredHead None f (ps_nodes s)\<rparr>)"
      if "ps_nodes s1 = ps_nodes s" for s1 Q
      using wp_link_before [OF _ new, of s1 None f Q] r(1) that by (simp del: last.simps)
    show ?thesis
      using True assms(2-4) os queue_append [OF assms(1) refl, of f]
      by (simp add: scheduler_enqueue_def wp_andthen lone.wp_data_lock wp_data_unlock wp_zoom on_psmemory_def wp_memory_alloc
          wp_gets wp_modify wp_ret Let_def link on_os_def wp_sys_result entered_def)
        (use assms(1) w(1,3) True in auto)
  next
    case False
    let ?as = "takeWhile (not_later w) ys" and ?bs = "dropWhile (not_later w) ys"
    let ?p = "last (DelayedHead # map (Element \<circ> fst) ?as)" and ?b = "hd (map (Element \<circ> fst) ?bs @ [DelayedHead])"
    have sorted: "sorted_wrt (\<lambda>a b. earlier (fst (snd a)) (fst (snd b))) ys" "\<forall>y\<in>set ys. real_time (fst (snd y))"
      using assms(1) by (auto simp: queues_in_def)
    have "queues s xs (?as @ ?bs)" using assms(1) by simp
    from queue_insert [OF this refl refl real sorted_place [OF sorted]]
    have q: "queues_in (linked_in ?p (Element ?k) ?b (Some w) f (ps_nodes s)) (Suc ?k) xs (?as @ (?k, w, f) # ?bs)" .
    have r': "ring (ps_nodes s) DelayedHead (map (Element \<circ> fst) ?as @ map (Element \<circ> fst) ?bs)"
      using r(2) by (metis map_append takeWhile_dropWhile_id)
    have "?k \<notin> fst ` (set ?as \<union> set ?bs)"
      using fresh(3) by (metis set_append takeWhile_dropWhile_id)
    then have new: "Element ?k \<notin> set (DelayedHead # map (Element \<circ> fst) ?as @ map (Element \<circ> fst) ?bs)" by (auto simp: image_iff)
    have link: "wp (link_before ?b (Element ?k) (Some w) f) Q s1 \<longleftrightarrow>
        Q () (s1\<lparr>ps_nodes := linked_in ?p (Element ?k) ?b (Some w) f (ps_nodes s)\<rparr>)"
      if "ps_nodes s1 = ps_nodes s" for s1 Q
      using wp_link_before [OF _ new, of s1 "Some w" f Q] r' that by (simp del: last.simps)
    obtain h where h: "ps_nodes s DelayedHead = Some h" "df_next h = hd (map (Element \<circ> fst) ys @ [DelayedHead])"
      using ring_next [OF r(2)] by (auto simp: nx_def)
    have find: "wp (find_place w (hd (map (Element \<circ> fst) ys @ [DelayedHead]))) Q s1 \<longleftrightarrow> Q ?b s1"
      if "ps_nodes s1 = ps_nodes s" "Suc ?k = ps_fresh s1" for s1 Q
    proof -
      have "queues s1 xs ([] @ ys)" using assms(1) that by (auto simp: queues_in_def)
      from wp_find_place [OF this real] show ?thesis by (auto simp: wp_def)
    qed
    show ?thesis
      using False assms(2-4) os
      by (simp add: scheduler_enqueue_def wp_andthen lone.wp_data_lock wp_data_unlock wp_zoom on_psmemory_def wp_memory_alloc
          wp_gets wp_modify wp_ret Let_def on_os_def wp_sys_result entered_def wp_clock_gettime assms(5) [symmetric]
          added wp_node_get h find link q)
      (use w(1,3) q in auto)
  qed
qed

end
