(* ===== verification/LC_PthreadProps.thy ===== *)
theory LC_PthreadProps
  imports LC_PthreadSpec
begin

text \<open>
  Properties of the scheduler for POSIX threads: times, the order of the deferred calls and the locks.
\<close>

section \<open>The locks\<close>

text \<open>A scheduler at rest: well formed queues, no failing system calls, a clock that shows real times.\<close>

definition sched_ok :: "('f, 'w) pthread_scheduler \<Rightarrow> bool" where
  "sched_ok s \<longleftrightarrow> (\<exists>xs ys. queues s xs ys) \<and> os_ok (ps_os s) \<and> (\<forall>k. real_time (os_clock (ps_os s) k)) \<and>
     ps_running_deferred s = 0"

lemma os_ok_calls [simp]: "os_ok (x\<lparr>os_calls := k\<rparr>) = os_ok x"
  by (simp add: os_ok_def)

lemma sched_ok_simps [simp]:
  "sched_ok (s\<lparr>ps_data_mutex := b\<rparr>) = sched_ok s" "sched_ok (s\<lparr>ps_writer_mutex := b\<rparr>) = sched_ok s"
  "sched_ok (one_call s) = sched_ok s"
  by (simp_all add: sched_ok_def os_ok_def)

context quiet_thread
begin

lemma wp_run_locked:
  assumes "sched_ok s" and "\<not> ps_data_mutex s" and "uses_writer \<longrightarrow> \<not> ps_writer_mutex s"
  shows "wp (ps_run_locked env) (\<lambda>_ s'. sched_ok s' \<and> \<not> ps_data_mutex s' \<and> ps_writer_mutex s' = ps_writer_mutex s) s"
proof -
  let ?s = "(one_call s)\<lparr>ps_data_mutex := True\<rparr>"
  from assms(1) obtain xs ys where "queues ?s xs ys" by (auto simp: sched_ok_def)
  then have run: "wp (run_deferred env) (\<lambda>_ s'. sched_ok s' \<and> ps_data_mutex s' \<and> ps_writer_mutex s' = ps_writer_mutex s) ?s"
    by (rule wp_mono [OF wp_run_deferred])
      (use assms(1,3) in \<open>auto simp: sched_ok_def os_ok_def calls_made_def Let_def\<close>)
  show ?thesis
    unfolding ps_run_locked_def wp_andthen
    using assms by (subst wp_data_lock) (auto simp: sched_ok_def wp_data_unlock wp_ret intro!: wp_mono [OF run])
qed

end

lemma wp_writer_mutex:
  assumes "os_ok (ps_os s)"
  shows "\<not> ps_writer_mutex s \<Longrightarrow> wp lock_writer_mutex Q s \<longleftrightarrow> Q 0 ((one_call s)\<lparr>ps_writer_mutex := True\<rparr>)"
    and "ps_writer_mutex s \<Longrightarrow> wp unlock_writer_mutex Q s \<longleftrightarrow> Q 0 ((one_call s)\<lparr>ps_writer_mutex := False\<rparr>)"
  using assms by (simp_all add: lock_writer_mutex_def unlock_writer_mutex_def wp_simps on_os_def wp_sys_result)

sublocale quiet_thread \<subseteq> pthread: lock_provider "pthread_scheduler_action env" sched_ok
  "\<lambda>s. (ps_writer_mutex s, ps_data_mutex s)"
proof
  fix s :: "('f, 'w) pthread_scheduler" and c h
  assume ok: "sched_ok s" and step: "lock_step c (ps_writer_mutex s, ps_data_mutex s) = Some h"
  have os: "os_ok (ps_os s')" if "sched_ok s'" for s' :: "('f, 'w) pthread_scheduler" using that by (simp add: sched_ok_def)
  show "wp (sched_call_run (Some (pthread_scheduler_action env)) c) (\<lambda>result s'. result = 0 \<and> sched_ok s' \<and>
      (ps_writer_mutex s', ps_data_mutex s') = h) s"
  proof (cases c)
    case WriterLock
    with step ok show ?thesis
      by (auto simp: scheduler_dispatch_defs via_def pthread_scheduler_action_def scheduler_writer_lock_def wp_andthen
          wp_writer_mutex os wp_ret split: if_splits intro!: wp_mono [OF wp_run_locked])
  next
    case WriterUnlock
    with step ok show ?thesis
      by (auto simp: scheduler_dispatch_defs via_def pthread_scheduler_action_def scheduler_writer_unlock_def wp_andthen
          wp_writer_mutex os wp_ret split: if_splits intro!: wp_mono [OF wp_run_locked])
  next
    case DataLock
    with step ok show ?thesis
      by (auto simp: scheduler_dispatch_defs via_def pthread_scheduler_action_def wp_data_lock os split: if_splits)
  next
    case DataUnlock
    with step ok show ?thesis
      by (auto simp: scheduler_dispatch_defs via_def pthread_scheduler_action_def wp_data_unlock os split: if_splits)
  qed
qed

context quiet_thread
begin

lemmas run_calls_held = pthread.wp_run_calls

end

text \<open>
  An example: a call 7 to be made at once and a call 8 that is due, a clock that shows 10 seconds.  The
  calls append their number to the world.
\<close>

definition append_call :: "nat \<Rightarrow> nat list \<Rightarrow> nat list" where
  "append_call f w = w @ [f]"

definition demo_os :: os where
  "demo_os = \<lparr>os_clock = (\<lambda>_. \<lparr>tv_sec = 10, tv_nsec = 0\<rparr>), os_result = (\<lambda>_. 0), os_wakes = (\<lambda>_. True), os_errno = 0, os_calls = 0\<rparr>"

definition demo_sched :: "bool \<Rightarrow> (nat, nat list) pthread_scheduler" where
  "demo_sched locked = \<lparr>ps_memory = \<lparr>mem_grant = (\<lambda>_ _. True), mem_calls = 0, mem_live = 2\<rparr>, ps_wakeup = 0, ps_writer_mutex = False,
     ps_data_mutex = locked, ps_running_deferred = 0,
     ps_nodes = linked_in DelayedHead (Element 1) DelayedHead (Some \<lparr>tv_sec = 5, tv_nsec = 0\<rparr>) 8
       (linked_in DeferredHead (Element 0) DeferredHead None 7 new_heads),
     ps_fresh = 2, ps_os = demo_os, ps_world = []\<rparr>"

lemma new_heads_queues: "queues_in new_heads 0 [] []"
  by (auto simp: queues_in_def ring_def new_heads_def field_defs)

lemma demo_queues: "queues (demo_sched b) [(0, 7)] [(1, \<lparr>tv_sec = 5, tv_nsec = 0\<rparr>, 8)]"
proof -
  have "queues_in (linked_in DeferredHead (Element 0) DeferredHead None (7 :: nat) new_heads) (Suc 0) [(0, 7)] []"
    using queue_append [OF new_heads_queues refl, of 7] by simp
  then have "queues_in (linked_in DeferredHead (Element 0) DeferredHead None (7 :: nat) new_heads) (Suc 0) [(0, 7)] ([] @ [])"
    by simp
  from queue_insert [OF this refl refl, of "\<lparr>tv_sec = 5, tv_nsec = 0\<rparr>" 8] show ?thesis
    by (simp add: demo_sched_def real_time_def numeral_2_eq_2)
qed

lemma demo_sched_simps [simp]: "ps_data_mutex (demo_sched b) = b" "ps_writer_mutex (demo_sched b) = False"
  "ps_os (demo_sched b) = demo_os" "os_ok demo_os" "os_clock demo_os k = \<lparr>tv_sec = 10, tv_nsec = 0\<rparr>"
  "ps_running_deferred (demo_sched b) = 0" "ps_world (demo_sched b) = []" "plenty (ps_memory (demo_sched b))"
  "mem_live (ps_memory (demo_sched b)) = 2" "ps_fresh (demo_sched b) = 2"
  by (simp_all add: demo_sched_def demo_os_def os_ok_def plenty_def)

text \<open>
  Claim C29. The calls that the encoders and decoders make of their scheduler, on the scheduler for POSIX threads:
  in every sequence of lock calls in which no lock is taken twice or released without being held, and the
  writer lock is not used under the data lock, each call returns 0; the thread is never stuck, never runs
  into undefined behaviour, and holds afterwards exactly the locks it should.  This holds for all deferred
  calls that are waiting, as long as other threads leave the scheduler alone, no system call fails, and a
  deferred call that is made returns: it may take and release the locks itself (also the writer lock, as one that
  sends a sample does) and wake the scheduler up, but enters no further calls.
\<close>

theorem pthread_locks_never_stuck:
  assumes "quiet_thread env eff uses_writer"
    and "sched_ok s" and "lock_run cs (ps_writer_mutex s, ps_data_mutex s) = Some (w, d)"
  shows "wp (run_calls (Some (pthread_scheduler_action env)) cs) (\<lambda>results s'. results = replicate (length cs) 0 \<and>
    sched_ok s' \<and> ps_writer_mutex s' = w \<and> ps_data_mutex s' = d) s"
  by (rule wp_mono [OF quiet_thread.run_calls_held [OF assms]]) simp

text \<open>
  A thread whose deferred calls take the writer lock, append their number, release the lock and wake the scheduler up.
\<close>

definition sending_call :: "nat \<Rightarrow> (nat, nat list, unit) ps_prog" where
  "sending_call f =
     andthen (scheduler_writer_lock (lone_thread append_call)) (\<lambda>_.
     andthen (modify (\<lambda>s. s\<lparr>ps_world := append_call f (ps_world s)\<rparr>)) (\<lambda>_.
     andthen (scheduler_writer_unlock (lone_thread append_call)) (\<lambda>_.
     andthen (scheduler_wakeup (lone_thread append_call)) (\<lambda>_. ret ()))))"

definition sending_thread :: "(nat, nat list) environment" where
  "sending_thread = \<lparr>pe_others = (\<lambda>_ s. s), pe_action = sending_call\<rparr>"

lemma mutex_free: "\<not> ps_data_mutex s \<Longrightarrow> s\<lparr>ps_data_mutex := False\<rparr> = s" "\<not> ps_writer_mutex s \<Longrightarrow> s\<lparr>ps_writer_mutex := False\<rparr> = s"
  by (cases s; simp)+

lemma wp_nested_run:
  "os_ok (ps_os s) \<Longrightarrow> \<not> ps_data_mutex s \<Longrightarrow> ps_running_deferred s \<noteq> 0 \<Longrightarrow>
   wp (ps_run_locked (lone_thread eff)) Q s \<longleftrightarrow> Q () (one_call (one_call s))"
  by (simp add: ps_run_locked_def run_deferred_def wp_simps lone.wp_data_lock wp_data_unlock mutex_free)

lemma sending_thread_quiet: "quiet_thread sending_thread append_call True"
proof
  fix f :: nat and s :: "(nat, nat list) pthread_scheduler"
  assume "os_ok (ps_os s)" "\<not> ps_data_mutex s" "ps_running_deferred s \<noteq> 0" "True \<longrightarrow> \<not> ps_writer_mutex s"
  then show "wp (pe_action sending_thread f) (\<lambda>_ s'. \<exists>k n. s' = s\<lparr>ps_world := append_call f (ps_world s),
      ps_os := (ps_os s)\<lparr>os_calls := k\<rparr>, ps_wakeup := n\<rparr>) s"
    by (simp add: sending_thread_def sending_call_def scheduler_writer_lock_def scheduler_writer_unlock_def scheduler_wakeup_def
        wp_andthen wp_nested_run wp_writer_mutex wp_modify wp_ret lone.wp_data_lock wp_data_unlock on_os_def wp_zoom wp_sys_result)
      (cases s, auto)
qed (simp add: sending_thread_def)

theorem pthread_locks_never_stuck_witness:
  "wp (run_calls (Some (pthread_scheduler_action sending_thread)) [WriterLock, WriterUnlock, DataLock])
    (\<lambda>results s'. results = [0, 0, 0] \<and> \<not> ps_writer_mutex s' \<and> ps_data_mutex s') (demo_sched False)"
proof -
  have "sched_ok (demo_sched False)"
    unfolding sched_ok_def using demo_queues by (auto simp: real_time_def)
  then show ?thesis
    by (intro wp_mono [OF pthread_locks_never_stuck [OF sending_thread_quiet, of _ _ False True]]) (simp_all add: numeral_3_eq_3)
qed

section \<open>Deferred calls\<close>

text \<open>
  Claim C27. Running the deferred calls, with the data lock held: first all calls without delay in the order in
  which they were entered, then the delayed calls that are due at the time the clock shows, in the order
  of their times.  Each is made once, its element is freed, the calls that are not due stay in the queue,
  and the lock is held again; a scheduler that is running deferred calls already does nothing.
\<close>

theorem run_deferred_in_order:
  assumes "queues s xs ys" and "ps_data_mutex s" and "os_ok (ps_os s)" and "\<forall>k. real_time (os_clock (ps_os s) k)"
    and "ps_running_deferred s = 0"
  shows "wp (run_deferred (lone_thread eff)) (\<lambda>result s'. result = 0 \<and>
      (\<exists>k. let now = os_clock (ps_os s) k; fs = map snd xs @ map (snd \<circ> snd) (filter (due now) ys) in
        ps_world s' = fold eff fs (ps_world s) \<and> mem_live (ps_memory s') = mem_live (ps_memory s) - int (length fs) \<and>
        queues s' [] (filter (\<lambda>y. \<not> due now y) ys)) \<and>
      ps_data_mutex s' \<and> ps_running_deferred s' = 0) s \<and>
    run_deferred (lone_thread eff) (s\<lparr>ps_running_deferred := 1\<rparr>) = Some (Inr (0, s\<lparr>ps_running_deferred := 1\<rparr>))"
proof
  show "wp (run_deferred (lone_thread eff)) (\<lambda>result s'. result = 0 \<and>
      (\<exists>k. let now = os_clock (ps_os s) k; fs = map snd xs @ map (snd \<circ> snd) (filter (due now) ys) in
        ps_world s' = fold eff fs (ps_world s) \<and> mem_live (ps_memory s') = mem_live (ps_memory s) - int (length fs) \<and>
        queues s' [] (filter (\<lambda>y. \<not> due now y) ys)) \<and>
      ps_data_mutex s' \<and> ps_running_deferred s' = 0) s"
    by (rule wp_mono [OF lone.wp_run_deferred [OF assms(1-3,5), of eff]]) (use assms in \<open>auto simp: Let_def calls_made_def\<close>)
qed (simp add: run_deferred_def prog_simps)

theorem run_deferred_in_order_witness:
  "wp (run_deferred (lone_thread append_call)) (\<lambda>_ s'. ps_world s' = [7, 8] \<and> mem_live (ps_memory s') = 0 \<and>
      queues s' [] []) (demo_sched True)"
proof (rule wp_mono)
  show "wp (run_deferred (lone_thread append_call)) (\<lambda>result s'. result = 0 \<and>
      (\<exists>k. let now = os_clock (ps_os (demo_sched True)) k;
            fs = map snd [(0, 7)] @ map (snd \<circ> snd) (filter (due now) [(1, \<lparr>tv_sec = 5, tv_nsec = 0\<rparr>, 8)]) in
        ps_world s' = fold append_call fs (ps_world (demo_sched True)) \<and>
        mem_live (ps_memory s') = mem_live (ps_memory (demo_sched True)) - int (length fs) \<and>
        queues s' [] (filter (\<lambda>y. \<not> due now y) [(1, \<lparr>tv_sec = 5, tv_nsec = 0\<rparr>, 8)])) \<and>
      ps_data_mutex s' \<and> ps_running_deferred s' = 0) (demo_sched True)"
    using run_deferred_in_order [OF demo_queues, of True append_call] by (simp add: real_time_def)
qed (auto simp: due_def earlier_def timespec_compare_def append_call_def)

lemma strictly_later: "real_time u \<Longrightarrow> timespec_compare t u < 0 \<Longrightarrow> earlier u v \<Longrightarrow> timespec_compare t v < 0"
  by (auto simp: earlier_def timespec_compare_def real_time_def split: if_splits)

lemma later_rest:
  assumes "sorted_wrt (\<lambda>a b. earlier (fst (snd a)) (fst (snd b))) ys" and "\<forall>y\<in>set ys. real_time (fst (snd y))"
  shows "\<forall>b\<in>set (dropWhile (not_later w) ys). timespec_compare w (fst (snd b)) < 0"
  using assms by (induction ys) (auto simp: not_le intro: strictly_later)

text \<open>
  Claim C28. Entering a deferred call keeps the queues well formed: without delay it becomes the last of its
  queue; with a delay it is entered at the time of the clock plus the delay, behind all calls that are
  not later, so that the queue stays sorted and calls of the same time keep their order.  The result is 0,
  one block more is in use and the lock is released.
\<close>

theorem enqueue_keeps_order:
  assumes "queues s xs ys" and "\<not> ps_data_mutex s" and "os_ok (ps_os s)" and "plenty (ps_memory s)"
    and "now = os_clock (ps_os s) (Suc (os_calls (ps_os s)))"
    and "normal now" and "0 < tv_sec now" and "tv_sec now < 2 ^ 62"
  shows "wp (scheduler_enqueue (lone_thread eff) delay f) (\<lambda>result s'. result = 0 \<and>
      (delay = 0 \<longrightarrow> queues s' (xs @ [(ps_fresh s, f)]) ys) \<and>
      (delay \<noteq> 0 \<longrightarrow> (\<exists>w as bs. ys = as @ bs \<and> normal w \<and> nanoseconds w = nanoseconds now + 1000 * uint delay \<and>
         (\<forall>a\<in>set as. earlier (fst (snd a)) w) \<and> (\<forall>b\<in>set bs. timespec_compare w (fst (snd b)) < 0) \<and>
         queues s' xs (as @ (ps_fresh s, w, f) # bs))) \<and>
      mem_live (ps_memory s') = mem_live (ps_memory s) + 1 \<and> \<not> ps_data_mutex s') s"
proof -
  have sorted: "sorted_wrt (\<lambda>a b. earlier (fst (snd a)) (fst (snd b))) ys" "\<forall>y\<in>set ys. real_time (fst (snd y))"
    using assms(1) by (auto simp: queues_in_def)
  show ?thesis
  proof (rule wp_mono [OF wp_enqueue [OF assms]], elim conjE exE, goal_cases)
    case (1 result s' w xs' ys')
    have "\<exists>w as bs. ys = as @ bs \<and> normal w \<and> nanoseconds w = nanoseconds now + 1000 * uint delay \<and>
         (\<forall>a\<in>set as. earlier (fst (snd a)) w) \<and> (\<forall>b\<in>set bs. timespec_compare w (fst (snd b)) < 0) \<and>
         queues s' xs (as @ (ps_fresh s, w, f) # bs)" if "delay \<noteq> 0"
      using 1 that sorted_place(1) [OF sorted] later_rest [OF sorted]
      by (intro exI [of _ w] exI [of _ "takeWhile (not_later w) ys"] exI [of _ "dropWhile (not_later w) ys"])
        (simp add: entered_def)
    then show ?case using 1 by (auto simp: entered_def)
  qed
qed

theorem enqueue_keeps_order_witness:
  "wp (scheduler_enqueue (lone_thread append_call) 1000000 9) (\<lambda>result s'. result = 0 \<and>
      (\<exists>w. nanoseconds w = 11000000000 \<and> queues s' [(0, 7)] [(1, \<lparr>tv_sec = 5, tv_nsec = 0\<rparr>, 8), (2, w, 9)]) \<and>
      mem_live (ps_memory s') = 3) (demo_sched False)"
proof (rule wp_mono [OF enqueue_keeps_order [OF demo_queues, of False "\<lparr>tv_sec = 10, tv_nsec = 0\<rparr>"]], goal_cases)
  case (8 result s')
  then obtain w as bs where w: "[(1, \<lparr>tv_sec = 5, tv_nsec = 0\<rparr>, 8)] = as @ bs" "normal w" "nanoseconds w = 11000000000"
    "\<forall>b\<in>set bs. timespec_compare w (fst (snd b)) < 0" "queues s' [(0, 7)] (as @ (2, w, 9) # bs)"
    by (auto simp: nanoseconds_def)
  have "bs = []"
  proof (rule ccontr)
    assume "bs \<noteq> []"
    with w(1) have "bs = [(1, \<lparr>tv_sec = 5, tv_nsec = 0\<rparr>, 8)]" by (cases as) auto
    with w(2-4) show False by (auto simp: normal_def nanoseconds_def timespec_compare_def split: if_splits)
  qed
  with w(1,5) have "queues s' [(0, 7)] [(1, \<lparr>tv_sec = 5, tv_nsec = 0\<rparr>, 8), (2, w, 9)]" by (metis append_Cons append_Nil append_Nil2)
  with w(3) 8 show ?case by (intro conjI exI [of _ w]) simp_all
qed (simp_all add: normal_def)

text \<open>
  Claim C36. Adding microseconds to a normalised time is exact and normalised again, although the seconds and
  nanoseconds are computed separately and one product in 32 bits; and comparing two normalised times is
  comparing them in nanoseconds, in which the time zero stands for the end of time: it is equal to itself and
  later than every other time, on either side.
\<close>

theorem timespec_arithmetic:
  assumes "normal t" and "0 \<le> tv_sec t" and "tv_sec t < 2 ^ 62" and "normal u"
  shows "wp (timespec_add_usec usec) (\<lambda>_ t'. normal t' \<and> nanoseconds t' = nanoseconds t + 1000 * uint usec) t \<and>
    timespec_compare t u =
      (if nanoseconds t = nanoseconds u then 0
       else if nanoseconds t = 0 then 1 else if nanoseconds u = 0 then - 1
       else if nanoseconds t < nanoseconds u then - 1 else 1)"
proof
  show "timespec_compare t u = (if nanoseconds t = nanoseconds u then 0
       else if nanoseconds t = 0 then 1 else if nanoseconds u = 0 then - 1
       else if nanoseconds t < nanoseconds u then - 1 else 1)"
  proof -
    have zero: "nanoseconds v = 0 \<longleftrightarrow> tv_sec v = 0 \<and> tv_nsec v = 0" if "normal v" for v
    proof
      assume z: "nanoseconds v = 0"
      with that have "- 1000000000 < tv_sec v * 1000000000" "tv_sec v * 1000000000 < 1000000000"
        unfolding nanoseconds_def normal_def by linarith+
      then have "tv_sec v = 0" by linarith
      with z show "tv_sec v = 0 \<and> tv_nsec v = 0" by (simp add: nanoseconds_def)
    qed (simp add: nanoseconds_def)
    have bounds: "0 \<le> tv_nsec t" "tv_nsec t < 1000000000" "0 \<le> tv_nsec u" "tv_nsec u < 1000000000"
      using assms(1,4) by (simp_all add: normal_def)
    then have "nanoseconds t < nanoseconds u \<longleftrightarrow> tv_sec t < tv_sec u \<or> tv_sec t = tv_sec u \<and> tv_nsec t < tv_nsec u"
      and "nanoseconds u < nanoseconds t \<longleftrightarrow> tv_sec u < tv_sec t \<or> tv_sec u = tv_sec t \<and> tv_nsec u < tv_nsec t"
      unfolding nanoseconds_def by linarith+
    moreover from this have "nanoseconds t = nanoseconds u \<longleftrightarrow> tv_sec t = tv_sec u \<and> tv_nsec t = tv_nsec u"
      unfolding nanoseconds_def by linarith
    ultimately show ?thesis
      by (auto simp: timespec_compare_def zero [OF assms(1)] zero [OF assms(4)])
  qed
qed (use add_usec [OF assms(1-3), of usec] in \<open>auto elim: wp_mono\<close>)

theorem timespec_arithmetic_witness:
  "wp (timespec_add_usec 3000000) (\<lambda>_ t'. nanoseconds t' = 10999999999) \<lparr>tv_sec = 7, tv_nsec = 999999999\<rparr> \<and>
   timespec_compare \<lparr>tv_sec = 7, tv_nsec = 999999999\<rparr> \<lparr>tv_sec = 8, tv_nsec = 0\<rparr> = - 1"
  using timespec_arithmetic [of "\<lparr>tv_sec = 7, tv_nsec = 999999999\<rparr>" "\<lparr>tv_sec = 8, tv_nsec = 0\<rparr>" 3000000]
  by (auto simp: normal_def nanoseconds_def elim: wp_mono)
end
