(* ===== verification/LC_SigParser.thy ===== *)
theory LC_SigParser
  imports LC_Memory LC_Wire
begin

text \<open>
  The signature parser (\<^verbatim>\<open>experimental/labcomm2014_sig_parser.c\<close>): it reads the packets of a whole file,
  records the name and the signature of every sample definition and skips everything else.  The
  configuration is that of its header: nothing is defined of \<^verbatim>\<open>DEBUG\<close>, \<^verbatim>\<open>QUIET\<close>, \<^verbatim>\<open>STATIC_ALLOCATION\<close>,
  \<^verbatim>\<open>SKIP_BY_PARSING\<close>, \<^verbatim>\<open>RETURN_STRINGS\<close> and \<^verbatim>\<open>EXIT_WHEN_RECEIVING_DATA\<close>.  What is printed is not part of the
  model, the bytes that are read for it are.  Neither is the machine stack, which holds the
  arrays of variable length of \<open>skip_array\<close>.
\<close>

section \<open>Blocks of memory\<close>

text \<open>A pointer to a block: NULL, or the elements of the block, \<open>None\<close> where nothing was stored yet.\<close>

type_synonym 'a block = "'a option list option"

definition block_get :: "'a block \<Rightarrow> int \<Rightarrow> ('s, 'a) prog" where
  "block_get a i =
     (case a of None \<Rightarrow> stop Undef
      | Some xs \<Rightarrow> if 0 \<le> i \<and> i < int (length xs)
                  then (case xs ! nat i of None \<Rightarrow> stop Undef | Some x \<Rightarrow> ret x) else stop Undef)"

definition block_put :: "'a block \<Rightarrow> int \<Rightarrow> 'a \<Rightarrow> ('s, 'a block) prog" where
  "block_put a i x =
     (case a of None \<Rightarrow> stop Undef
      | Some xs \<Rightarrow> if 0 \<le> i \<and> i < int (length xs) then ret (Some (xs[nat i := Some x])) else stop Undef)"

text \<open>\<^verbatim>\<open>memcpy(dest, &src[i], n)\<close>: it may copy bytes that nothing was stored in.\<close>

definition block_copy :: "'a block \<Rightarrow> 'a block \<Rightarrow> int \<Rightarrow> nat \<Rightarrow> ('s, 'a block) prog" where
  "block_copy dest src i n =
     (case (dest, src) of
        (Some ds, Some xs) \<Rightarrow>
          if 0 \<le> i \<and> i + int n \<le> int (length xs) \<and> n \<le> length ds
          then ret (Some (take n (drop (nat i) xs) @ drop n ds)) else stop Undef
      | _ \<Rightarrow> stop Undef)"

text \<open>\<^verbatim>\<open>strncpy(dest, &src[i], n)\<close>: the bytes written, zeros after the first zero read.\<close>

fun strncpy_bytes :: "byte block \<Rightarrow> int \<Rightarrow> nat \<Rightarrow> ('s, byte list) prog" where
  "strncpy_bytes src i 0 = ret []"
| "strncpy_bytes src i (Suc n) =
     andthen (block_get src i) (\<lambda>c.
       if c = 0 then ret (replicate (Suc n) 0)
       else andthen (strncpy_bytes src (i + 1) n) (\<lambda>cs. ret (c # cs)))"

section \<open>State\<close>

text \<open>
  Where the name of a signature points to: a row of the table of names, or a place in the buffer.
  The signature points to a row of the table of signatures.
\<close>

datatype name_ptr = NameRow nat | InBuffer u32

record sig_t =
  st_name :: "name_ptr option"
  st_size :: int
  st_signature :: "nat option"

record sig_parser_t =
  b_c :: "byte block"
  b_size :: nat
  b_capacity :: nat
  b_idx :: int
  b_val_top :: int
  b_val_stack :: "int block"
  b_ptr_top :: int
  b_ptr_stack :: "nat block"
  b_stacksize :: nat
  b_current_decl_is_varsize :: bool
  b_max_signatures :: nat
  b_max_name_len :: nat
  b_max_sig_len :: nat
  b_sig_ts :: "sig_t block"
  b_signatures_length :: "u32 block"
  b_signatures :: "byte block block"
  b_signatures_name_length :: "u32 block"
  b_signatures_name :: "byte block block"
  b_memory :: memory

type_synonym 'a sp = "(sig_parser_t, 'a) prog"

text \<open>A \<^verbatim>\<open>size_t\<close> stored into an \<^verbatim>\<open>int\<close>.\<close>

definition int_of_size_t :: "int \<Rightarrow> int" where
  "int_of_size_t i = int_of_u32 (u32_of_int i)"

definition b_malloc :: "nat \<Rightarrow> bool sp" where
  "b_malloc n = zoom b_memory (\<lambda>m b. b\<lparr>b_memory := m\<rparr>) (default_alloc 0 n)"

definition b_free :: "'a block \<Rightarrow> unit sp" where
  "b_free a = zoom b_memory (\<lambda>m b. b\<lparr>b_memory := m\<rparr>) (default_free 0 (a \<noteq> None))"

text \<open>\<^verbatim>\<open>calloc(n, sz)\<close> of \<open>k\<close> objects (every one of them zero) in \<open>n * sz\<close> bytes.\<close>

definition b_calloc :: "nat \<Rightarrow> nat \<Rightarrow> nat \<Rightarrow> 'a \<Rightarrow> 'a block sp" where
  "b_calloc n sz k zero =
     (if 2 ^ 64 \<le> n * sz then ret None
      else andthen (b_malloc (n * sz)) (\<lambda>ok.
           ret (if ok then Some (replicate k (Some zero)) else None)))"

text \<open>\<^verbatim>\<open>error\<close> prints its message and exits.\<close>

definition parser_error :: "'a sp" where
  "parser_error = stop ExitParser"

section \<open>The stacks\<close>

definition push_val :: "u32 \<Rightarrow> unit sp" where
  "push_val e =
     andthen (gets id) (\<lambda>b.
     andthen (block_put (b_val_stack b) (b_val_top b) (int_of_u32 e)) (\<lambda>xs.
     andthen (c_int (b_val_top b - 1)) (\<lambda>top.
     andthen (modify (\<lambda>b. b\<lparr>b_val_stack := xs, b_val_top := top\<rparr>)) (\<lambda>_.
     if top < 0 then parser_error else ret ()))))"

definition pop_val :: "u32 sp" where
  "pop_val =
     andthen (gets id) (\<lambda>b.
     andthen (c_int (b_val_top b + 1)) (\<lambda>top.
     andthen (modify (\<lambda>b. b\<lparr>b_val_top := top\<rparr>)) (\<lambda>_.
     if b_stacksize b < size_t_of_int top then parser_error
     else andthen (block_get (b_val_stack b) top) (\<lambda>e. ret (u32_of_int e)))))"

definition push_ptr :: "nat \<Rightarrow> unit sp" where
  "push_ptr e =
     andthen (gets id) (\<lambda>b.
     andthen (block_put (b_ptr_stack b) (b_ptr_top b) e) (\<lambda>xs.
     andthen (c_int (b_ptr_top b - 1)) (\<lambda>top.
     andthen (modify (\<lambda>b. b\<lparr>b_ptr_stack := xs, b_ptr_top := top\<rparr>)) (\<lambda>_.
     if top < 0 then parser_error else ret ()))))"

definition pop_ptr :: "nat sp" where
  "pop_ptr =
     andthen (gets id) (\<lambda>b.
     andthen (c_int (b_ptr_top b + 1)) (\<lambda>top.
     andthen (modify (\<lambda>b. b\<lparr>b_ptr_top := top\<rparr>)) (\<lambda>_.
     if b_stacksize b < size_t_of_int top then parser_error
     else block_get (b_ptr_stack b) top)))"

section \<open>Making and freeing a parser\<close>

fun init_rows :: "nat \<Rightarrow> int \<Rightarrow> unit sp" where
  "init_rows 0 i = ret ()"
| "init_rows (Suc n) i =
     andthen (gets id) (\<lambda>b.
     andthen (b_calloc (b_max_sig_len b) 1 (b_max_sig_len b) 0) (\<lambda>row.
     andthen (block_put (b_signatures b) i row) (\<lambda>rows.
     andthen (modify (\<lambda>b. b\<lparr>b_signatures := rows\<rparr>)) (\<lambda>_.
     andthen (b_calloc (b_max_name_len b) 1 (b_max_name_len b) 0) (\<lambda>row.
     andthen (block_put (b_signatures_name b) i row) (\<lambda>rows.
     andthen (modify (\<lambda>b. b\<lparr>b_signatures_name := rows\<rparr>)) (\<lambda>_.
     andthen (c_int (i + 1)) (\<lambda>i. init_rows n i))))))))"

definition labcomm2014_sig_parser_init :: "nat \<Rightarrow> nat \<Rightarrow> nat \<Rightarrow> nat \<Rightarrow> nat \<Rightarrow> bool sp" where
  "labcomm2014_sig_parser_init buffer_size stacksize num_signatures max_name_len max_sig_len =
     andthen (b_malloc buffer_size) (\<lambda>ok.
     andthen (modify (\<lambda>b. b\<lparr>b_c := (if ok then Some (replicate buffer_size None) else None),
        b_capacity := buffer_size, b_size := 0, b_idx := 0, b_stacksize := stacksize\<rparr>)) (\<lambda>_.
     andthen (b_calloc stacksize 8 (2 * stacksize) 0) (\<lambda>vals.
     andthen (modify (\<lambda>b. b\<lparr>b_val_stack := vals, b_val_top := int_of_size_t (int stacksize - 1)\<rparr>)) (\<lambda>_.
     andthen (b_calloc stacksize 8 stacksize 0) (\<lambda>ptrs.
     andthen (modify (\<lambda>b. b\<lparr>b_ptr_stack := ptrs, b_ptr_top := int_of_size_t (int stacksize - 1),
        b_max_signatures := num_signatures, b_max_name_len := max_name_len, b_max_sig_len := max_sig_len\<rparr>)) (\<lambda>_.
     andthen (b_calloc num_signatures 48 num_signatures \<lparr>st_name = None, st_size = 0, st_signature = None\<rparr>) (\<lambda>ts.
     andthen (modify (\<lambda>b. b\<lparr>b_sig_ts := ts\<rparr>)) (\<lambda>_.
     andthen (b_calloc num_signatures 4 num_signatures 0) (\<lambda>xs.
     andthen (modify (\<lambda>b. b\<lparr>b_signatures_length := xs\<rparr>)) (\<lambda>_.
     andthen (b_calloc num_signatures 4 num_signatures 0) (\<lambda>xs.
     andthen (modify (\<lambda>b. b\<lparr>b_signatures_name_length := xs\<rparr>)) (\<lambda>_.
     andthen (b_calloc num_signatures 8 num_signatures None) (\<lambda>xs.
     andthen (modify (\<lambda>b. b\<lparr>b_signatures_name := xs\<rparr>)) (\<lambda>_.
     andthen (b_calloc num_signatures 8 num_signatures None) (\<lambda>xs.
     andthen (modify (\<lambda>b. b\<lparr>b_signatures := xs\<rparr>)) (\<lambda>_.
     andthen (init_rows num_signatures 0) (\<lambda>_.
     gets (\<lambda>b. b_c b = None \<or> b_val_stack b = None \<or> b_ptr_stack b = None))))))))))))))))))"

fun free_rows :: "nat \<Rightarrow> int \<Rightarrow> unit sp" where
  "free_rows 0 i = ret ()"
| "free_rows (Suc n) i =
     andthen (gets id) (\<lambda>b.
     andthen (block_get (b_signatures b) i) (\<lambda>row.
     andthen (b_free row) (\<lambda>_.
     andthen (block_get (b_signatures_name b) i) (\<lambda>row.
     andthen (b_free row) (\<lambda>_.
     andthen (c_int (i + 1)) (\<lambda>i. free_rows n i))))))"

definition labcomm2014_sig_parser_free :: "unit sp" where
  "labcomm2014_sig_parser_free =
     andthen (gets id) (\<lambda>b.
     andthen (b_free (b_c b)) (\<lambda>_.
     andthen (b_free (b_val_stack b)) (\<lambda>_.
     andthen (b_free (b_ptr_stack b)) (\<lambda>_.
     andthen (free_rows (b_max_signatures b) 0) (\<lambda>_.
     andthen (b_free (b_signatures b)) (\<lambda>_.
     andthen (b_free (b_signatures_name b)) (\<lambda>_.
     andthen (b_free (b_signatures_name_length b)) (\<lambda>_.
     andthen (b_free (b_signatures_length b)) (\<lambda>_.
     b_free (b_sig_ts b))))))))))"

text \<open>\<^verbatim>\<open>fread\<close> stores the first bytes of what the file holds.\<close>

definition labcomm2014_sig_parser_read_file :: "byte list \<Rightarrow> int sp" where
  "labcomm2014_sig_parser_read_file file =
     andthen (gets id) (\<lambda>b.
       let got = take (b_capacity b) file; s = int_of_size_t (int (length got)) in
       case b_c b of None \<Rightarrow> stop Undef
       | Some c \<Rightarrow>
           if length c < length got then stop Undef
           else andthen (modify (\<lambda>b. b\<lparr>b_c := Some (map Some got @ drop (length got) c),
              b_size := size_t_of_int s, b_idx := 0\<rparr>)) (\<lambda>_. ret s))"

section \<open>Reading the buffer\<close>

partial_function (option) unpack_varint_loop ::
    "byte block \<Rightarrow> int \<Rightarrow> int \<Rightarrow> u32 \<Rightarrow> 's \<Rightarrow> (stop + (int \<times> nat) \<times> 's) option" where
  "unpack_varint_loop buf idx res i s =
     andthen (block_get buf (uint (u32_of_int idx + i))) (\<lambda>c s.
       if INT_MAX < push_bit 7 res then stop Undef s
       else let res = push_bit 7 res OR uint (c AND 0x7f)
            in if c AND 0x80 \<noteq> 0 then unpack_varint_loop buf idx res (i + 1) s
               else ret (res, unat (i + 1)) s) s"

definition unpack_varint :: "byte block \<Rightarrow> int \<Rightarrow> ('s, int \<times> nat) prog" where
  "unpack_varint buf idx = unpack_varint_loop buf idx 0 0"

text \<open>The number that the source takes for a big-endian one (its shifts are 3, 2, 1 and 0 bits).\<close>

definition parser_unpack32 :: "byte block \<Rightarrow> int \<Rightarrow> ('s, int) prog" where
  "parser_unpack32 c idx =
     andthen (block_get c idx) (\<lambda>b0.
     andthen (block_get c (idx + 1)) (\<lambda>b1.
     andthen (block_get c (idx + 2)) (\<lambda>b2.
     andthen (block_get c (idx + 3)) (\<lambda>b3.
     ret (push_bit 3 (uint b0) OR push_bit 2 (uint b1) OR push_bit 1 (uint b2) OR uint b3)))))"

definition more_input :: "bool sp" where
  "more_input = gets (\<lambda>b. size_t_of_int (b_idx b) < b_size b)"

definition advance :: "unit sp" where
  "advance = andthen (gets b_idx) (\<lambda>i. andthen (c_int (i + 1)) (\<lambda>i. modify (\<lambda>b. b\<lparr>b_idx := i\<rparr>)))"

definition advancen :: "nat \<Rightarrow> unit sp" where
  "advancen n = modify (\<lambda>b. b\<lparr>b_idx := int_of_size_t (b_idx b + int n)\<rparr>)"

definition get_byte :: "byte sp" where
  "get_byte =
     andthen (gets id) (\<lambda>b. andthen advance (\<lambda>_. block_get (b_c b) (b_idx b)))"

definition peek_byte :: "byte sp" where
  "peek_byte = andthen (gets id) (\<lambda>b. block_get (b_c b) (b_idx b))"

definition get32 :: "int sp" where
  "get32 =
     andthen (gets id) (\<lambda>b.
     andthen (parser_unpack32 (b_c b) (b_idx b)) (\<lambda>res.
     andthen (c_int (b_idx b + 4)) (\<lambda>i.
     andthen (modify (\<lambda>b. b\<lparr>b_idx := i\<rparr>)) (\<lambda>_. ret res))))"

definition peek_varint :: "(int \<times> nat) sp" where
  "peek_varint = andthen (gets id) (\<lambda>b. unpack_varint (b_c b) (b_idx b))"

definition get_varint_size :: "(int \<times> nat) sp" where
  "get_varint_size =
     andthen peek_varint (\<lambda>(res, size). andthen (advancen size) (\<lambda>_. ret (res, size)))"

definition get_varint :: "int sp" where
  "get_varint = andthen peek_varint (\<lambda>(res, size). andthen (advancen size) (\<lambda>_. ret res))"

text \<open>
  \<^verbatim>\<open>getStr(b, dest, size)\<close> for a block \<open>dest\<close> of \<open>len\<close> bytes (or NULL): the bytes that it stores.
\<close>

definition getStr :: "nat option \<Rightarrow> nat \<Rightarrow> byte list sp" where
  "getStr dest sz =
     andthen (gets id) (\<lambda>b.
       let rem = int_of_size_t (int (b_size b) - b_idx b);
           n = (if size_t_of_int rem < sz then size_t_of_int rem else sz) in
       case dest of None \<Rightarrow> stop Undef
       | Some len \<Rightarrow>
           if len \<le> n then stop Undef
           else andthen (strncpy_bytes (b_c b) (b_idx b) n) (\<lambda>cs.
                andthen (advancen n) (\<lambda>_. ret (cs @ [0]))))"

section \<open>The table of signatures\<close>

definition sig_slot :: "u32 \<Rightarrow> int" where
  "sig_slot uid = uint (uid - u32_of_int LABCOMM_USER)"

definition get_sig_t :: "u32 \<Rightarrow> sig_t sp" where
  "get_sig_t uid = andthen (gets b_sig_ts) (\<lambda>ts. block_get ts (sig_slot uid))"

definition get_signature_len :: "u32 \<Rightarrow> u32 sp" where
  "get_signature_len uid = andthen (get_sig_t uid) (\<lambda>t. ret (u32_of_int (st_size t)))"

definition get_signature :: "u32 \<Rightarrow> nat option sp" where
  "get_signature uid = andthen (get_sig_t uid) (\<lambda>t. ret (st_signature t))"

definition get_signature_name :: "u32 \<Rightarrow> name_ptr option sp" where
  "get_signature_name uid = andthen (get_sig_t uid) (\<lambda>t. ret (st_name t))"

section \<open>Types\<close>

definition ARRAY_DECL :: u32 where "ARRAY_DECL = 0x10"
definition STRUCT_DECL :: u32 where "STRUCT_DECL = 0x11"
definition TYPE_BOOLEAN :: u32 where "TYPE_BOOLEAN = 0x20"
definition TYPE_BYTE :: u32 where "TYPE_BYTE = 0x21"
definition TYPE_SHORT :: u32 where "TYPE_SHORT = 0x22"
definition TYPE_INTEGER :: u32 where "TYPE_INTEGER = 0x23"
definition TYPE_LONG :: u32 where "TYPE_LONG = 0x24"
definition TYPE_FLOAT :: u32 where "TYPE_FLOAT = 0x25"
definition TYPE_DOUBLE :: u32 where "TYPE_DOUBLE = 0x26"
definition TYPE_STRING :: u32 where "TYPE_STRING = 0x27"
definition TYPE_SAMPLE_REF :: u32 where "TYPE_SAMPLE_REF = 0x28"

lemmas type_code_defs = ARRAY_DECL_def STRUCT_DECL_def TYPE_BOOLEAN_def TYPE_BYTE_def TYPE_SHORT_def
  TYPE_INTEGER_def TYPE_LONG_def TYPE_FLOAT_def TYPE_DOUBLE_def TYPE_STRING_def TYPE_SAMPLE_REF_def

definition set_varsize :: "unit sp" where
  "set_varsize = modify (\<lambda>b. b\<lparr>b_current_decl_is_varsize := True\<rparr>)"

definition labcomm2014_sizeof_primitive :: "u32 \<Rightarrow> nat sp" where
  "labcomm2014_sizeof_primitive type =
     (if type \<in> {TYPE_BOOLEAN, TYPE_BYTE} then ret 1
      else if type = TYPE_SHORT then ret 2
      else if type \<in> {TYPE_INTEGER, TYPE_FLOAT, TYPE_SAMPLE_REF} then ret 4
      else if type \<in> {TYPE_LONG, TYPE_DOUBLE} then ret 8
      else parser_error)"

function varint_sizeof_loop :: "u32 \<Rightarrow> nat \<Rightarrow> nat" where
  "varint_sizeof_loop i res =
     (if drop_bit 7 i = 0 then res else varint_sizeof_loop (drop_bit 7 i) (res + 1))"
  by pat_completeness auto
termination
  by (relation "measure (unat \<circ> fst)") (auto intro: unat_drop_bit_less)

declare varint_sizeof_loop.simps [simp del]

definition labcomm2014_varint_sizeof :: "u32 \<Rightarrow> nat" where
  "labcomm2014_varint_sizeof i = (if i < 128 then 1 else varint_sizeof_loop i 1)"

section \<open>Parsing\<close>

definition accept_user_id :: "bool sp" where
  "accept_user_id =
     andthen peek_varint (\<lambda>(uid, nbytes).
       if LABCOMM_USER \<le> uid
       then andthen (advancen nbytes) (\<lambda>_. andthen (push_val (u32_of_int uid)) (\<lambda>_. ret True))
       else parser_error)"

text \<open>The string is copied into a new block, which is freed.\<close>

definition accept_string :: "bool sp" where
  "accept_string =
     andthen get_varint (\<lambda>len.
     andthen (b_malloc (unat (u32_of_int len + 1))) (\<lambda>ok.
     andthen (getStr (if ok then Some (unat (u32_of_int len + 1)) else None) (unat (u32_of_int len))) (\<lambda>str.
     andthen (b_free (Some (map Some str))) (\<lambda>_.
     andthen (push_val (u32_of_int len)) (\<lambda>_. ret True)))))"

fun accept_intentions_loop :: "nat \<Rightarrow> int \<Rightarrow> int \<Rightarrow> (int \<times> int) sp" where
  "accept_intentions_loop 0 npos nlen = ret (npos, nlen)"
| "accept_intentions_loop (Suc n) npos nlen =
     andthen accept_string (\<lambda>_.
     andthen pop_val (\<lambda>klen.
     andthen (gets b_idx) (\<lambda>idx.
     andthen accept_string (\<lambda>_.
     andthen pop_val (\<lambda>vlen.
     accept_intentions_loop n (if int_of_u32 klen = 0 then idx else npos)
       (if int_of_u32 klen = 0 then int_of_u32 vlen else nlen))))))"

definition accept_intentions :: "bool sp" where
  "accept_intentions =
     andthen get_varint (\<lambda>num.
     andthen (accept_intentions_loop (unat (u32_of_int num)) 0 0) (\<lambda>(npos, nlen).
     andthen (push_val (u32_of_int nlen)) (\<lambda>_.
     andthen (push_val (u32_of_int npos)) (\<lambda>_. ret True))))"

text \<open>
  \<^verbatim>\<open>accept_type\<close>, \<^verbatim>\<open>accept_array_decl\<close>, \<^verbatim>\<open>accept_struct_decl\<close> and \<^verbatim>\<open>accept_field\<close> call each other.  The bodies
  are written for any \<^verbatim>\<open>accept_type\<close> and then closed.
\<close>

fun array_dims :: "nat \<Rightarrow> u32 \<Rightarrow> u32 \<Rightarrow> (u32 \<times> u32) sp" where
  "array_dims 0 numVar tot = ret (numVar, tot)"
| "array_dims (Suc n) numVar tot =
     andthen get_varint (\<lambda>idx.
       if u32_of_int idx = 0 then andthen set_varsize (\<lambda>_. array_dims n (numVar + 1) tot)
       else array_dims n numVar (tot * u32_of_int idx))"

definition accept_array_decl_with :: "bool sp \<Rightarrow> bool sp" where
  "accept_array_decl_with type_parser =
     andthen peek_varint (\<lambda>(tid, nbytes).
       if u32_of_int tid = ARRAY_DECL then
         andthen (advancen nbytes) (\<lambda>_.
         andthen get_varint (\<lambda>nidx.
         andthen (array_dims (unat (u32_of_int nidx)) 0 1) (\<lambda>(numVar, size).
         andthen type_parser (\<lambda>_.
         andthen pop_val (\<lambda>et.
         andthen pop_val (\<lambda>es.
         andthen (push_val (if numVar = 0 then size * es else 0)) (\<lambda>_.
         andthen (push_val et) (\<lambda>_. ret True))))))))
       else
         andthen (push_val 0) (\<lambda>_.
         andthen (push_val (u32_of_int tid)) (\<lambda>_. ret False)))"

definition accept_field_with :: "bool sp \<Rightarrow> bool sp" where
  "accept_field_with type_parser =
     andthen accept_intentions (\<lambda>_.
     andthen pop_val (\<lambda>_.
     andthen pop_val (\<lambda>_.
     andthen type_parser (\<lambda>_.
     andthen pop_val (\<lambda>_. ret True)))))"

fun struct_fields :: "bool sp \<Rightarrow> nat \<Rightarrow> u32 \<Rightarrow> u32 sp" where
  "struct_fields type_parser 0 fieldsizes = ret fieldsizes"
| "struct_fields type_parser (Suc n) fieldsizes =
     andthen (accept_field_with type_parser) (\<lambda>_.
     andthen pop_val (\<lambda>sz. struct_fields type_parser n (fieldsizes + sz)))"

definition accept_struct_decl_with :: "bool sp \<Rightarrow> bool sp" where
  "accept_struct_decl_with type_parser =
     andthen peek_varint (\<lambda>(tid, nbytes).
       if u32_of_int tid = STRUCT_DECL then
         andthen (advancen nbytes) (\<lambda>_.
         andthen get_varint (\<lambda>nf.
         andthen (struct_fields type_parser (unat (u32_of_int nf)) 0) (\<lambda>fieldsizes.
         andthen (push_val fieldsizes) (\<lambda>_. ret True))))
       else andthen (push_val 0) (\<lambda>_. ret False))"

text \<open>The \<^verbatim>\<open>switch\<close> of \<^verbatim>\<open>accept_type\<close>, on the code that was peeked.\<close>

definition accept_type_switch :: "bool sp \<Rightarrow> u32 \<Rightarrow> nat \<Rightarrow> bool sp" where
  "accept_type_switch type_parser type nbytes =
     (let finish = andthen (push_val type) (\<lambda>_. ret True);
          sized = (\<lambda>n. andthen (advancen nbytes) (\<lambda>_. andthen (push_val n) (\<lambda>_. finish)))
      in if type \<in> {TYPE_BOOLEAN, TYPE_BYTE} then sized 1
         else if type = TYPE_SHORT then sized 2
         else if type = TYPE_INTEGER then sized 4
         else if type = TYPE_LONG then sized 8
         else if type = TYPE_FLOAT then sized 4
         else if type = TYPE_DOUBLE then sized 8
         else if type = TYPE_STRING then
           andthen (advancen nbytes) (\<lambda>_.
           andthen set_varsize (\<lambda>_.
           andthen (push_val 0) (\<lambda>_. finish)))
         else if type = TYPE_SAMPLE_REF then sized 4
         else if type = ARRAY_DECL then
           andthen (accept_array_decl_with type_parser) (\<lambda>_. andthen pop_val (\<lambda>_. finish))
         else if type = STRUCT_DECL then andthen (accept_struct_decl_with type_parser) (\<lambda>_. finish)
         else
           andthen (advancen nbytes) (\<lambda>_.
           andthen (push_val 0) (\<lambda>_.
           andthen (push_val type) (\<lambda>_. ret False))))"

definition accept_type_with :: "bool sp \<Rightarrow> bool sp" where
  "accept_type_with type_parser =
     andthen peek_varint (\<lambda>(tid, nbytes). accept_type_switch type_parser (u32_of_int tid) nbytes)"

text \<open>The bodies are monotone in the parser of types they call.\<close>

lemma if_body_mono:
  "mono_option (\<lambda>f. m f s) \<Longrightarrow> mono_option (\<lambda>f. n f s) \<Longrightarrow> mono_option (\<lambda>f. (if c then m f else n f) s)"
  by (cases c) simp_all

lemmas body_mono = andthen_mono if_body_mono call_mono option.const_mono

lemma struct_fields_mono: "mono_option (\<lambda>f. struct_fields f n a s)"
  by (induction n arbitrary: a s) (auto simp: accept_field_with_def intro!: body_mono)

lemma array_decl_mono: "mono_option (\<lambda>f. accept_array_decl_with f s)"
  unfolding accept_array_decl_with_def split_def by (intro body_mono)

lemma struct_decl_mono: "mono_option (\<lambda>f. accept_struct_decl_with f s)"
  unfolding accept_struct_decl_with_def split_def by (intro body_mono struct_fields_mono)

lemma accept_type_mono [partial_function_mono]: "mono_option (\<lambda>f. accept_type_with f s)"
  unfolding accept_type_with_def accept_type_switch_def split_def Let_def
  by (intro body_mono array_decl_mono struct_decl_mono)

partial_function (option) accept_type :: "sig_parser_t \<Rightarrow> (stop + bool \<times> sig_parser_t) option" where
  "accept_type s = accept_type_with accept_type s"

definition accept_array_decl :: "bool sp" where
  "accept_array_decl = accept_array_decl_with accept_type"

definition accept_struct_decl :: "bool sp" where
  "accept_struct_decl = accept_struct_decl_with accept_type"

definition accept_field :: "bool sp" where
  "accept_field = accept_field_with accept_type"

section \<open>Packets\<close>

definition PKG_VERSION :: u32 where "PKG_VERSION = u32_of_int LABCOMM_VERSION"
definition PKG_SAMPLE_DECL :: u32 where "PKG_SAMPLE_DECL = u32_of_int LABCOMM_SAMPLE_DEF"
definition PKG_SAMPLE_REF :: u32 where "PKG_SAMPLE_REF = u32_of_int LABCOMM_SAMPLE_REF"
definition PKG_TYPE_DECL :: u32 where "PKG_TYPE_DECL = u32_of_int LABCOMM_TYPE_DEF"
definition PKG_TYPE_BINDING :: u32 where "PKG_TYPE_BINDING = u32_of_int LABCOMM_TYPE_BINDING"

lemmas pkg_defs = PKG_VERSION_def PKG_SAMPLE_DECL_def PKG_SAMPLE_REF_def PKG_TYPE_DECL_def PKG_TYPE_BINDING_def

definition accept_signature :: "u32 \<Rightarrow> u32 \<Rightarrow> u32 \<Rightarrow> name_ptr \<Rightarrow> bool sp" where
  "accept_signature type start uid name =
     andthen get_varint (\<lambda>_.
     andthen accept_type (\<lambda>_.
     andthen pop_val (\<lambda>_.
     andthen pop_val (\<lambda>_.
     if type \<noteq> PKG_SAMPLE_DECL then
       (if type = PKG_SAMPLE_REF then ret True
        else if type = PKG_TYPE_DECL then ret True
        else parser_error)
     else
       andthen (gets id) (\<lambda>d.
         let len = u32_of_int (b_idx d) - start in
         if unat len \<le> b_max_sig_len d then
           andthen (block_put (b_signatures_length d) (sig_slot uid) len) (\<lambda>lens.
           andthen (modify (\<lambda>d. d\<lparr>b_signatures_length := lens\<rparr>)) (\<lambda>_.
           andthen (block_get (b_signatures d) (sig_slot uid)) (\<lambda>row.
           andthen (block_copy row (b_c d) (uint start) (unat len)) (\<lambda>row.
           andthen (block_put (b_signatures d) (sig_slot uid) row) (\<lambda>rows.
           andthen (modify (\<lambda>d. d\<lparr>b_signatures := rows\<rparr>)) (\<lambda>_.
           andthen (get_sig_t uid) (\<lambda>newsig.
           andthen (block_put (b_sig_ts d) (sig_slot uid)
             (newsig\<lparr>st_size := int_of_u32 len, st_signature := Some (nat (sig_slot uid)), st_name := Some name\<rparr>)) (\<lambda>ts.
           andthen (modify (\<lambda>d. d\<lparr>b_sig_ts := ts\<rparr>)) (\<lambda>_. ret True)))))))))
         else parser_error)))))"

definition accept_decl :: "u32 \<Rightarrow> bool sp" where
  "accept_decl type =
     andthen accept_user_id (\<lambda>ok.
     if ok then
       andthen pop_val (\<lambda>uid.
       andthen accept_intentions (\<lambda>_.
       andthen (gets (\<lambda>d. u32_of_int (b_idx d))) (\<lambda>start.
       andthen pop_val (\<lambda>nstart.
       andthen pop_val (\<lambda>nlen.
         let at = nstart + word_of_nat (labcomm2014_varint_sizeof nlen) in
         if type \<noteq> PKG_SAMPLE_DECL then accept_signature type start uid (InBuffer at)
         else andthen (gets id) (\<lambda>d.
           if unat nlen < b_max_name_len d then
             andthen (block_put (b_signatures_name_length d) (sig_slot uid) nlen) (\<lambda>lens.
             andthen (modify (\<lambda>d. d\<lparr>b_signatures_name_length := lens\<rparr>)) (\<lambda>_.
             andthen (block_get (b_signatures_name d) (sig_slot uid)) (\<lambda>row.
             andthen (block_copy row (b_c d) (uint at) (unat nlen)) (\<lambda>row.
             andthen (block_put row (uint nlen) 0) (\<lambda>row.
             andthen (block_put (b_signatures_name d) (sig_slot uid) row) (\<lambda>rows.
             andthen (modify (\<lambda>d. d\<lparr>b_signatures_name := rows\<rparr>)) (\<lambda>_.
             accept_signature type start uid (NameRow (nat (sig_slot uid))))))))))
           else parser_error))))))
     else parser_error)"

definition accept_sample_data :: "bool sp" where
  "accept_sample_data =
     andthen accept_user_id (\<lambda>_.
     andthen pop_val (\<lambda>_.
     andthen get_varint (\<lambda>len.
     andthen (advancen (size_t_of_int len)) (\<lambda>_. ret True))))"

text \<open>The branches of \<^verbatim>\<open>accept_packet\<close>, on the tag that was peeked.\<close>

definition accept_packet_switch :: "u32 \<Rightarrow> nat \<Rightarrow> bool sp" where
  "accept_packet_switch type nbytes =
     (let declaration =
             andthen (modify (\<lambda>d. d\<lparr>b_current_decl_is_varsize := False\<rparr>)) (\<lambda>_.
             andthen (advancen nbytes) (\<lambda>_.
             andthen get_varint (\<lambda>_.
             andthen (accept_decl type) (\<lambda>_. ret True))))
      in if type = PKG_VERSION then
           andthen (advancen nbytes) (\<lambda>_.
           andthen get_varint (\<lambda>_.
           andthen accept_string (\<lambda>_.
           andthen pop_val (\<lambda>_. ret True))))
         else if type = PKG_SAMPLE_DECL then declaration
         else if type = PKG_SAMPLE_REF then declaration
         else if type = PKG_TYPE_DECL then declaration
         else if type = PKG_TYPE_BINDING then
           andthen (advancen nbytes) (\<lambda>_.
           andthen get_varint (\<lambda>_.
           andthen get_varint (\<lambda>_.
           andthen get_varint (\<lambda>_. ret True))))
         else if u32_of_int LABCOMM_USER \<le> type then andthen accept_sample_data (\<lambda>_. ret True)
         else andthen get_varint (\<lambda>len. andthen (advancen (size_t_of_int len)) (\<lambda>_. ret True)))"

definition accept_packet :: "bool sp" where
  "accept_packet = andthen peek_varint (\<lambda>(tag, nbytes). accept_packet_switch (u32_of_int tag) nbytes)"

text \<open>The loop of \<^verbatim>\<open>experimental/test_sig_parser.c\<close> over the packets of a file.\<close>

partial_function (option) accept_packets :: "sig_parser_t \<Rightarrow> (stop + unit \<times> sig_parser_t) option" where
  "accept_packets s =
     andthen more_input (\<lambda>m s.
       if m then andthen accept_packet (\<lambda>ok s. if ok then accept_packets s else ret () s) s
       else ret () s) s"

definition parse_file :: "nat \<Rightarrow> nat \<Rightarrow> nat \<Rightarrow> nat \<Rightarrow> nat \<Rightarrow> byte list \<Rightarrow> unit sp" where
  "parse_file buffer_size stacksize num_signatures max_name_len max_sig_len file =
     andthen (labcomm2014_sig_parser_init buffer_size stacksize num_signatures max_name_len max_sig_len) (\<lambda>failed.
     if failed then parser_error
     else andthen (labcomm2014_sig_parser_read_file file) (\<lambda>_.
          andthen accept_packets (\<lambda>_. labcomm2014_sig_parser_free)))"

section \<open>Skipping samples\<close>

text \<open>
  A sample in the buffer is skipped by reading its signature; the position in the signature, \<^verbatim>\<open>*pos\<close> in
  the source, is given and returned.
\<close>

fun skip_dims :: "byte block \<Rightarrow> nat \<Rightarrow> int \<Rightarrow> u32 \<Rightarrow> u32 \<Rightarrow> (int \<times> u32 \<times> u32) sp" where
  "skip_dims sig 0 pos nVar tot = ret (pos, nVar, tot)"
| "skip_dims sig (Suc n) pos nVar tot =
     andthen (unpack_varint sig pos) (\<lambda>(idx, nbytes).
       if u32_of_int idx = 0 then skip_dims sig n (int_of_size_t (pos + int nbytes)) (nVar + 1) tot
       else skip_dims sig n (int_of_size_t (pos + int nbytes)) nVar (tot * u32_of_int idx))"

fun skip_vars :: "nat \<Rightarrow> byte \<Rightarrow> u32 \<Rightarrow> (byte \<times> u32) sp" where
  "skip_vars 0 varSize tot = ret (varSize, tot)"
| "skip_vars (Suc n) varSize tot =
     andthen get_varint_size (\<lambda>(var, nbytes).
     skip_vars n (varSize + word_of_nat nbytes) (tot * u32_of_int var))"

definition skip_array :: "byte block \<Rightarrow> int \<Rightarrow> (int \<times> int) sp" where
  "skip_array sig pos =
     andthen (unpack_varint sig pos) (\<lambda>(nIdx, nbytes).
     andthen (skip_dims sig (unat (u32_of_int nIdx)) (int_of_size_t (pos + int nbytes)) 0 1) (\<lambda>(pos, nVar, tot).
     andthen (skip_vars (unat nVar) 0 tot) (\<lambda>(varSize, tot).
     andthen (unpack_varint sig pos) (\<lambda>(type, nbytes).
     andthen (labcomm2014_sizeof_primitive (u32_of_int type)) (\<lambda>elemSize.
       let skip = word_of_nat elemSize * tot in
       andthen (advancen (unat skip)) (\<lambda>_.
       ret (int_of_u32 (skip + ucast varSize), int_of_size_t (pos + int nbytes))))))))"

text \<open>The characters of a string are read one by one.\<close>

fun get_bytes :: "nat \<Rightarrow> unit sp" where
  "get_bytes 0 = ret ()"
| "get_bytes (Suc n) = andthen get_byte (\<lambda>_. get_bytes n)"

fun skip_fields ::
    "(u32 \<Rightarrow> byte block \<Rightarrow> int \<Rightarrow> (int \<times> int) sp) \<Rightarrow> byte block \<Rightarrow> nat \<Rightarrow> u32 \<Rightarrow> int \<Rightarrow> (int \<times> int) sp" where
  "skip_fields type_skipper sig 0 skipped pos = ret (int_of_u32 skipped, pos)"
| "skip_fields type_skipper sig (Suc n) skipped pos =
     andthen (unpack_varint sig pos) (\<lambda>(namelen, nbytes).
       let pos = int_of_size_t (pos + (int nbytes + uint (u32_of_int namelen))) in
     andthen (unpack_varint sig pos) (\<lambda>(type, nbytes).
       let pos = int_of_size_t (pos + int nbytes) in
     andthen (type_skipper (u32_of_int type) sig pos) (\<lambda>(k, pos).
     skip_fields type_skipper sig n (skipped + u32_of_int k) pos)))"

definition skip_struct_with ::
    "(u32 \<Rightarrow> byte block \<Rightarrow> int \<Rightarrow> (int \<times> int) sp) \<Rightarrow> byte block \<Rightarrow> int \<Rightarrow> (int \<times> int) sp" where
  "skip_struct_with type_skipper sig pos =
     andthen (unpack_varint sig pos) (\<lambda>(nFields, nbytes).
     skip_fields type_skipper sig (unat (u32_of_int nFields)) 0 (int_of_size_t (pos + int nbytes)))"

definition skip_type_with ::
    "(u32 \<Rightarrow> byte block \<Rightarrow> int \<Rightarrow> (int \<times> int) sp) \<Rightarrow> u32 \<Rightarrow> byte block \<Rightarrow> int \<Rightarrow> (int \<times> int) sp" where
  "skip_type_with type_skipper type sig pos =
     (if type \<in> {TYPE_BOOLEAN, TYPE_BYTE} then andthen get_byte (\<lambda>_. ret (1, pos))
      else if type = TYPE_SHORT then andthen (advancen 2) (\<lambda>_. ret (2, pos))
      else if type = TYPE_INTEGER then andthen get32 (\<lambda>_. ret (4, pos))
      else if type = TYPE_FLOAT then andthen (advancen 4) (\<lambda>_. ret (4, pos))
      else if type \<in> {TYPE_LONG, TYPE_DOUBLE} then andthen (advancen 8) (\<lambda>_. ret (8, pos))
      else if type = TYPE_STRING then
        andthen get_varint_size (\<lambda>(len, nbytes).
        andthen (get_bytes (nat len)) (\<lambda>_. ret (int_of_size_t (len + int nbytes), pos)))
      else if type = ARRAY_DECL then skip_array sig pos
      else if type = STRUCT_DECL then skip_struct_with type_skipper sig pos
      else parser_error)"

lemma skip_fields_mono:
  "(\<And>t b p s. mono_option (\<lambda>f. g f t b p s)) \<Longrightarrow> mono_option (\<lambda>f. skip_fields (g f) sig n k p s)"
  by (induction n arbitrary: k p s) (auto simp: split_def Let_def intro!: body_mono)

lemma skip_type_mono [partial_function_mono]:
  "(\<And>t b p s. mono_option (\<lambda>f. g f t b p s)) \<Longrightarrow> mono_option (\<lambda>f. skip_type_with (g f) type sig pos s)"
  unfolding skip_type_with_def skip_struct_with_def split_def by (intro body_mono skip_fields_mono)

partial_function (option) skip_type ::
    "u32 \<Rightarrow> byte block \<Rightarrow> int \<Rightarrow> sig_parser_t \<Rightarrow> (stop + (int \<times> int) \<times> sig_parser_t) option" where
  "skip_type type sig pos s = skip_type_with skip_type type sig pos s"

definition skip_struct :: "byte block \<Rightarrow> int \<Rightarrow> (int \<times> int) sp" where
  "skip_struct = skip_struct_with skip_type"

partial_function (option) skip_packed_loop ::
    "byte block \<Rightarrow> int \<Rightarrow> int \<Rightarrow> u32 \<Rightarrow> sig_parser_t \<Rightarrow> (stop + u32 \<times> sig_parser_t) option" where
  "skip_packed_loop sig sz pos skipped s =
     (if pos < sz then
        andthen (unpack_varint sig pos) (\<lambda>(type, nbytes).
        andthen (skip_type (u32_of_int type) sig (int_of_size_t (pos + int nbytes))) (\<lambda>(k, pos) s.
        skip_packed_loop sig sz pos (skipped + u32_of_int k) s)) s
      else ret skipped s)"

definition skip_packed_sample_data :: "sig_t \<Rightarrow> bool sp" where
  "skip_packed_sample_data sig =
     andthen (gets b_signatures) (\<lambda>rows.
     andthen (case st_signature sig of None \<Rightarrow> ret None | Some k \<Rightarrow> block_get rows (int k)) (\<lambda>row.
     andthen (skip_packed_loop row (st_size sig) 0 0) (\<lambda>_. ret True)))"

section \<open>The loops and recursions as equations\<close>

lemma unpack_varint_loop_unfold:
  "unpack_varint_loop buf idx res i =
     andthen (block_get buf (uint (u32_of_int idx + i))) (\<lambda>c.
       if INT_MAX < push_bit 7 res then stop Undef
       else let res = push_bit 7 res OR uint (c AND 0x7f)
            in if c AND 0x80 \<noteq> 0 then unpack_varint_loop buf idx res (i + 1)
               else ret (res, unat (i + 1)))"
  by (rule ext, subst unpack_varint_loop.simps, rule arg_cong [where f = "\<lambda>g. andthen _ g _"])
    (auto simp: Let_def)

lemma accept_type_unfold: "accept_type = accept_type_with accept_type"
  by (rule ext) (rule accept_type.simps)

lemma accept_packets_unfold:
  "accept_packets =
     andthen more_input (\<lambda>m. if m then andthen accept_packet (\<lambda>ok. if ok then accept_packets else ret ()) else ret ())"
  by (rule ext, subst accept_packets.simps, rule arg_cong [where f = "\<lambda>g. andthen _ g _"])
    (auto intro!: ext arg_cong [where f = "\<lambda>g. andthen _ g _"])

lemma skip_type_unfold: "skip_type type sig pos = skip_type_with skip_type type sig pos"
  by (rule ext) (rule skip_type.simps)

end
