(* ===== verification/LC_SigParserSpec.thy ===== *)
theory LC_SigParserSpec
  imports LC_SigParser LC_Packets
begin

text \<open>
  What the signature parser relies on and how its state is read: the unread bytes of the file, the values
  on its stack, the table of signatures as a map.  A well-formed type is a tree; its bytes, its size and whether
  it is of variable size are functions on trees.
\<close>

section \<open>Blocks\<close>

lemma wp_block_get [wp_simps]:
  "wp (block_get a i) Q s \<longleftrightarrow>
     (\<exists>xs x. a = Some xs \<and> 0 \<le> i \<and> i < int (length xs) \<and> xs ! nat i = Some x \<and> Q x s)"
  by (auto simp: block_get_def wp_simps split: option.splits)

lemma wp_block_put [wp_simps]:
  "wp (block_put a i x) Q s \<longleftrightarrow>
     (\<exists>xs. a = Some xs \<and> 0 \<le> i \<and> i < int (length xs) \<and> Q (Some (xs[nat i := Some x])) s)"
  by (auto simp: block_put_def wp_simps split: option.splits)

lemma wp_block_copy [wp_simps]:
  "wp (block_copy dest src i n) Q s \<longleftrightarrow>
     (\<exists>ds xs. dest = Some ds \<and> src = Some xs \<and> 0 \<le> i \<and> i + int n \<le> int (length xs) \<and> n \<le> length ds \<and>
        Q (Some (take n (drop (nat i) xs) @ drop n ds)) s)"
  by (auto simp: block_copy_def wp_simps split: option.splits)

lemma wp_b_malloc [wp_simps]:
  "wp (b_malloc n) Q b \<longleftrightarrow>
     (let m = b_memory b; ok = mem_grant m (mem_calls m) n
      in Q ok (b\<lparr>b_memory := m\<lparr>mem_calls := Suc (mem_calls m),
                 mem_live := (if ok then mem_live m + 1 else mem_live m)\<rparr>\<rparr>))"
  by (simp add: b_malloc_def wp_zoom wp_memory_alloc [unfolded labcomm2014_memory_alloc_def] Let_def)

lemma wp_b_free [wp_simps]:
  "wp (b_free a) Q b \<longleftrightarrow>
     Q () (b\<lparr>b_memory := (if a \<noteq> None then (b_memory b)\<lparr>mem_live := mem_live (b_memory b) - 1\<rparr> else b_memory b)\<rparr>)"
  by (simp add: b_free_def wp_zoom wp_memory_free [unfolded labcomm2014_memory_free_def])

section \<open>The state of the parser\<close>

definition stack_ok :: "sig_parser_t \<Rightarrow> bool" where
  "stack_ok b \<longleftrightarrow> b_val_stack b \<noteq> None \<and> length (the (b_val_stack b)) = 2 * b_stacksize b \<and>
     None \<notin> set (the (b_val_stack b)) \<and>
     int (b_stacksize b) \<le> INT_MAX \<and> 0 \<le> b_val_top b \<and> b_val_top b < int (b_stacksize b)"

definition stack_of :: "sig_parser_t \<Rightarrow> u32 list" where
  "stack_of b = map (\<lambda>i. u32_of_int (the (the (b_val_stack b) ! i))) [nat (b_val_top b) + 1..<b_stacksize b]"

text \<open>The bytes of the file, and what is unread of them.\<close>

definition buffer_ok :: "sig_parser_t \<Rightarrow> bool" where
  "buffer_ok b \<longleftrightarrow> b_c b \<noteq> None \<and> b_size b \<le> length (the (b_c b)) \<and>
     None \<notin> set (take (b_size b) (the (b_c b))) \<and> int (b_size b) \<le> INT_MAX"

definition input_of :: "sig_parser_t \<Rightarrow> byte list" where
  "input_of b = map the (take (b_size b) (the (b_c b)))"

definition unread :: "sig_parser_t \<Rightarrow> byte list" where
  "unread b = drop (nat (b_idx b)) (input_of b)"

text \<open>Each reading of the state depends on its own fields.\<close>

lemma parser_readings [simp]:
  "stack_ok (b\<lparr>b_idx := i\<rparr>) = stack_ok b" "stack_of (b\<lparr>b_idx := i\<rparr>) = stack_of b"
  "stack_ok (b\<lparr>b_memory := m\<rparr>) = stack_ok b" "stack_of (b\<lparr>b_memory := m\<rparr>) = stack_of b"
  "stack_ok (b\<lparr>b_current_decl_is_varsize := fl\<rparr>) = stack_ok b"
  "stack_of (b\<lparr>b_current_decl_is_varsize := fl\<rparr>) = stack_of b"
  "buffer_ok (b\<lparr>b_idx := i\<rparr>) = buffer_ok b" "input_of (b\<lparr>b_idx := i\<rparr>) = input_of b"
  "buffer_ok (b\<lparr>b_memory := m\<rparr>) = buffer_ok b" "unread (b\<lparr>b_memory := m\<rparr>) = unread b"
  "buffer_ok (b\<lparr>b_current_decl_is_varsize := fl\<rparr>) = buffer_ok b"
  "unread (b\<lparr>b_current_decl_is_varsize := fl\<rparr>) = unread b"
  "buffer_ok (b\<lparr>b_val_stack := vs\<rparr>) = buffer_ok b" "unread (b\<lparr>b_val_stack := vs\<rparr>) = unread b"
  "buffer_ok (b\<lparr>b_val_top := t\<rparr>) = buffer_ok b" "unread (b\<lparr>b_val_top := t\<rparr>) = unread b"
  by (simp_all add: stack_ok_def stack_of_def buffer_ok_def input_of_def unread_def)

text \<open>
  What parsing does not change: all but the position, the stack, the flag and the number of allocations.
\<close>

definition frame :: "sig_parser_t \<Rightarrow> sig_parser_t" where
  "frame b = b\<lparr>b_idx := 0, b_val_top := 0, b_val_stack := None, b_current_decl_is_varsize := False,
     b_memory := (b_memory b)\<lparr>mem_calls := 0\<rparr>\<rparr>"

definition parsing :: "sig_parser_t \<Rightarrow> byte list \<Rightarrow> u32 list \<Rightarrow> bool \<Rightarrow> sig_parser_t \<Rightarrow> bool" where
  "parsing b0 rest stk fl b \<longleftrightarrow>
     frame b = frame b0 \<and> stack_ok b \<and> buffer_ok b \<and> 0 \<le> b_idx b \<and> b_idx b \<le> int (b_size b) \<and>
     unread b = rest \<and> stack_of b = stk \<and> b_current_decl_is_varsize b = fl"

lemma frame_get:
    "b_c (frame b) = b_c b" "b_size (frame b) = b_size b" "b_capacity (frame b) = b_capacity b"
    "b_stacksize (frame b) = b_stacksize b" "b_max_signatures (frame b) = b_max_signatures b"
    "b_max_name_len (frame b) = b_max_name_len b" "b_max_sig_len (frame b) = b_max_sig_len b"
    "b_sig_ts (frame b) = b_sig_ts b" "b_signatures (frame b) = b_signatures b"
    "b_signatures_length (frame b) = b_signatures_length b"
    "b_signatures_name (frame b) = b_signatures_name b"
    "b_signatures_name_length (frame b) = b_signatures_name_length b"
    "b_ptr_stack (frame b) = b_ptr_stack b" "b_ptr_top (frame b) = b_ptr_top b"
    "mem_grant (b_memory (frame b)) = mem_grant (b_memory b)"
    "mem_live (b_memory (frame b)) = mem_live (b_memory b)"
  by (simp_all add: frame_def)

lemma frame_fields:
  assumes "frame b = frame b0"
  shows
    "b_c b = b_c b0" "b_size b = b_size b0" "b_capacity b = b_capacity b0"
    "b_stacksize b = b_stacksize b0" "b_max_signatures b = b_max_signatures b0"
    "b_max_name_len b = b_max_name_len b0" "b_max_sig_len b = b_max_sig_len b0"
    "b_sig_ts b = b_sig_ts b0" "b_signatures b = b_signatures b0"
    "b_signatures_length b = b_signatures_length b0" "b_signatures_name b = b_signatures_name b0"
    "b_signatures_name_length b = b_signatures_name_length b0" "b_ptr_stack b = b_ptr_stack b0"
    "b_ptr_top b = b_ptr_top b0" "mem_grant (b_memory b) = mem_grant (b_memory b0)"
    "mem_live (b_memory b) = mem_live (b_memory b0)"
  by (simp_all only: frame_get [of b, unfolded assms, symmetric] frame_get)

lemma parsing_refl: "parsing b0 rest stk fl b \<Longrightarrow> parsing b rest stk fl b"
  by (simp add: parsing_def)

lemma parsing_frame: "parsing b0 rest stk fl b \<Longrightarrow> frame b = frame b0"
  by (simp add: parsing_def)

lemmas parsing_fields = frame_fields [OF parsing_frame]

lemma parsing_stacksize: "parsing b0 rest stk fl b \<Longrightarrow> b_stacksize b = b_stacksize b0"
  by (rule parsing_fields)

lemma length_stack_of: "stack_ok b \<Longrightarrow> int (length (stack_of b)) = int (b_stacksize b) - 1 - b_val_top b"
  by (auto simp: stack_ok_def stack_of_def split: option.splits)

lemma frame_updates [simp]:
  "frame (b\<lparr>b_idx := i\<rparr>) = frame b" "frame (b\<lparr>b_val_top := t\<rparr>) = frame b"
  "frame (b\<lparr>b_val_stack := vs\<rparr>) = frame b" "frame (b\<lparr>b_current_decl_is_varsize := fl\<rparr>) = frame b"
  by (simp_all add: frame_def)

lemma parsing_at:
  assumes "parsing b0 rest stk fl b"
  obtains i where "b_idx b = int i" "i + length rest = b_size b" "int (b_size b) \<le> INT_MAX"
    "drop i (input_of b) = rest"
proof
  have i: "length (input_of b) = b_size b" "unread b = rest" "0 \<le> b_idx b" "b_idx b \<le> int (b_size b)"
      "int (b_size b) \<le> INT_MAX"
    using assms by (auto simp: parsing_def buffer_ok_def input_of_def split: option.splits)
  then show "b_idx b = int (nat (b_idx b))" "int (b_size b) \<le> INT_MAX" "drop (nat (b_idx b)) (input_of b) = rest"
    by (simp_all add: unread_def)
  then have "length rest = b_size b - nat (b_idx b)" using i(1) by auto
  with i show "nat (b_idx b) + length rest = b_size b" by simp
qed

lemma parsing_stack:
  assumes "parsing b0 rest stk fl b"
  obtains xs t where "b_val_stack b = Some xs" "length xs = 2 * b_stacksize b0" "None \<notin> set xs"
    "b_val_top b = int t" "t + 1 + length stk = b_stacksize b0" "int (b_stacksize b0) \<le> INT_MAX"
    "b_stacksize b = b_stacksize b0"
proof -
  have b: "stack_ok b" "stack_of b = stk" using assms by (simp_all add: parsing_def)
  have sz: "b_stacksize b = b_stacksize b0" using assms by (rule parsing_stacksize)
  show thesis
  proof (rule that [of "the (b_val_stack b)" "nat (b_val_top b)"])
    show "nat (b_val_top b) + 1 + length stk = b_stacksize b0"
      using length_stack_of [OF b(1)] b sz by (auto simp: stack_ok_def)
  qed (use b sz in \<open>simp_all add: stack_ok_def\<close>)
qed

lemma not_None_nth: "None \<notin> set xs \<Longrightarrow> i < length xs \<Longrightarrow> \<exists>x. xs ! i = Some x"
  by (metis not_None_eq nth_mem)

section \<open>The stack\<close>

lemma wp_push_val:
  assumes b: "parsing b0 rest stk fl b" and room: "length stk + 2 \<le> b_stacksize b0"
    and Q: "\<And>b'. parsing b0 rest (e # stk) fl b' \<Longrightarrow> Q () b'"
  shows "wp (push_val e) Q b"
proof -
  obtain xs t where xs: "b_val_stack b = Some xs" "length xs = 2 * b_stacksize b0" "None \<notin> set xs"
    "b_val_top b = int t" "t + 1 + length stk = b_stacksize b0" "int (b_stacksize b0) \<le> INT_MAX"
    "b_stacksize b = b_stacksize b0"
    using b by (rule parsing_stack)
  let ?b = "b\<lparr>b_val_stack := Some (xs[t := Some (int_of_u32 e)]), b_val_top := int t - 1\<rparr>"
  have up: "[t..<b_stacksize b0] = t # [Suc t..<b_stacksize b0]" using xs by (simp add: upt_conv_Cons)
  have t: "nat (int t - 1) = t - 1" "Suc (t - 1) = t" using xs room by linarith+
  have "stack_of ?b = e # stack_of b"
    using up t xs by (simp add: stack_of_def cong: map_cong)
  moreover have "stack_ok ?b"
    using xs room set_update_subset_insert [of xs t "Some (int_of_u32 e)"] by (auto simp: stack_ok_def)
  ultimately have "parsing b0 rest (e # stk) fl ?b" using b by (simp add: parsing_def)
  then show ?thesis using Q xs room by (auto simp: push_val_def wp_simps INT_MIN_def)
qed

lemma wp_pop_val:
  assumes b: "parsing b0 rest (e # stk) fl b"
    and Q: "\<And>b'. parsing b0 rest stk fl b' \<Longrightarrow> Q e b'"
  shows "wp pop_val Q b"
proof -
  obtain xs t where xs: "b_val_stack b = Some xs" "length xs = 2 * b_stacksize b0" "None \<notin> set xs"
    "b_val_top b = int t" "t + 1 + length (e # stk) = b_stacksize b0" "int (b_stacksize b0) \<le> INT_MAX"
    "b_stacksize b = b_stacksize b0"
    using b by (rule parsing_stack)
  then obtain v where v: "xs ! Suc t = Some v" using not_None_nth [of xs "Suc t"] by auto
  have up: "[Suc t..<b_stacksize b0] = Suc t # [Suc (Suc t)..<b_stacksize b0]"
    using xs by (simp add: upt_conv_Cons)
  let ?b = "b\<lparr>b_val_top := int t + 1\<rparr>"
  have stk: "stack_of b = u32_of_int v # stack_of ?b"
    using up xs v by (simp add: stack_of_def nat_add_distrib del: upt_Suc)
  have "stack_ok ?b" using xs by (simp add: stack_ok_def)
  then have "parsing b0 rest stk fl ?b" using b stk by (simp add: parsing_def)
  moreover have "e = u32_of_int v" using b stk by (simp add: parsing_def)
  ultimately show ?thesis
    using Q xs v by (auto simp: pop_val_def wp_simps INT_MIN_def size_t_of_int_def INT_MAX_def nat_add_distrib)
qed

section \<open>Reading\<close>

lemma wp_advancen:
  assumes b: "parsing b0 (xs @ rest) stk fl b" and n: "n = length xs"
    and Q: "\<And>b'. parsing b0 rest stk fl b' \<Longrightarrow> Q () b'"
  shows "wp (advancen n) Q b"
proof -
  obtain i where i: "b_idx b = int i" "i + length (xs @ rest) = b_size b" "int (b_size b) \<le> INT_MAX"
    "drop i (input_of b) = xs @ rest"
    using b by (rule parsing_at)
  then have idx: "int_of_size_t (b_idx b + int n) = int (i + n)"
    using n by (simp add: int_of_size_t_def INT_MIN_def)
  have "unread (b\<lparr>b_idx := int (i + n)\<rparr>) = drop n (drop i (input_of b))"
    by (simp add: unread_def nat_add_distrib add.commute)
  with i n have "unread (b\<lparr>b_idx := int (i + n)\<rparr>) = rest" by simp
  then have "parsing b0 rest stk fl (b\<lparr>b_idx := int_of_size_t (b_idx b + int n)\<rparr>)"
    unfolding idx using b i n by (simp add: parsing_def)
  with Q show ?thesis by (simp add: advancen_def wp_simps)
qed

text \<open>The bytes of the file are stored in the buffer.\<close>

lemma parsing_block:
  assumes "parsing b0 rest stk fl b"
  obtains c i where "b_c b = Some c" "b_idx b = int i" "i + length rest \<le> length c" "i + length rest = b_size b"
    "int (b_size b) \<le> INT_MAX" "\<And>k. k < length rest \<Longrightarrow> c ! (i + k) = Some (rest ! k)"
proof -
  obtain i where i: "b_idx b = int i" "i + length rest = b_size b" "int (b_size b) \<le> INT_MAX"
    "drop i (input_of b) = rest" using assms by (rule parsing_at)
  obtain c where c: "b_c b = Some c" "b_size b \<le> length c" "None \<notin> set (take (b_size b) c)"
    using assms by (auto simp: parsing_def buffer_ok_def split: option.splits)
  have "c ! (i + k) = Some (rest ! k)" if "k < length rest" for k
  proof -
    have "i + k < length (take (b_size b) c)" using that i c by simp
    then obtain x where x: "take (b_size b) c ! (i + k) = Some x" using not_None_nth [OF c(3)] by blast
    have "rest ! k = the (take (b_size b) c ! (i + k))"
      using that i(2) c unfolding i(4) [symmetric] by (simp add: input_of_def)
    then show ?thesis using x that i by simp
  qed
  with that i c show ?thesis by auto
qed

section \<open>Packed numbers\<close>

text \<open>The step of the loop on numbers without overflow is the step of the library.\<close>

lemma varint_step:
  assumes "push_bit 7 (uint r) \<le> INT_MAX"
  shows "push_bit 7 (uint r) OR uint (b AND 0x7f :: byte) = uint (packed32_step r b)"
proof -
  have "uint (push_bit 7 r) = push_bit 7 (uint r)"
    unfolding unsigned_push_bit_eq using assms by (intro take_bit_int_eq_self) (simp_all add: INT_MAX_def)
  moreover have "uint (b AND 0x7f) = uint (ucast b AND 0x7f :: u32)"
    unfolding mask7 take_bit_eq_mask [symmetric] by (rule bit_eqI) (auto simp: bit_simps)
  ultimately show ?thesis by (simp add: packed32_step_def uint_or)
qed

lemma unpack_varint_step:
  assumes "int (i + k) < INT_MAX" and "i + k < length c" and "c ! (i + k) = Some b" and "push_bit 7 (uint r) \<le> INT_MAX"
  shows "unpack_varint_loop (Some c) (int i) (uint r) (word_of_nat k) =
    (if packed32_more b then unpack_varint_loop (Some c) (int i) (uint (packed32_step r b)) (word_of_nat (Suc k))
     else ret (uint (packed32_step r b), Suc k))"
proof -
  have "uint (word_of_nat (i + k) :: u32) = int (i + k)" "unat (word_of_nat (Suc k) :: u32) = Suc k"
    using assms(1) unfolding unsigned_of_nat by (subst take_bit_nat_eq_self; simp add: INT_MAX_def)+
  then show ?thesis
    using assms(2-) by (subst unpack_varint_loop_unfold)
      (simp add: block_get_def Let_def varint_step packed32_more_def u32_of_int_def nat_add_distrib ac_simps)
qed

lemma push_bit_le_INT_MAX: "push_bit 7 x \<le> INT_MAX \<Longrightarrow> 0 \<le> x \<Longrightarrow> x \<le> INT_MAX"
  by (simp add: push_bit_eq_mult)

lemma uint_drop_bit_7: "push_bit 7 (uint (drop_bit 7 d)) \<le> uint (d :: u32)"
  by (simp add: drop_bit_eq_div push_bit_eq_mult unsigned_drop_bit_eq uint_div)

lemma unpack_varint_marked:
  assumes "\<And>j. j < length (packed32_groups d) \<Longrightarrow>
      c ! (i + k + j) = Some (rev (map (\<lambda>b. b OR 0x80) (packed32_groups d)) ! j)"
    and "i + k + length (packed32_groups d) \<le> length c" and "int (i + k + length (packed32_groups d)) \<le> INT_MAX"
    and "uint d \<le> INT_MAX"
  shows "(unpack_varint_loop (Some c) (int i) 0 (word_of_nat k) :: ('s, int \<times> nat) prog) =
    unpack_varint_loop (Some c) (int i) (uint d) (word_of_nat (k + length (packed32_groups d)))"
  using assms
proof (induction d arbitrary: rule: packed32_groups.induct)
  case (1 d)
  let ?low = "ucast (d AND 0x7f) :: byte"
  note le = order_trans [OF uint_drop_bit_7 "1.prems"(4)]
  show ?case
  proof (cases "drop_bit 7 d = 0")
    case True
    then have g: "packed32_groups d = [?low]" by (subst packed32_groups.simps) simp
    from True packed32_step_low [of d] have "packed32_step 0 (?low OR 0x80) = d"
      by (simp add: packed32_step_marked)
    then show ?thesis
      using "1.prems" unpack_varint_step [of i k c "?low OR 0x80" 0]
      by (simp add: g packed32_marked INT_MAX_def)
  next
    case False
    then have g: "packed32_groups d = ?low # packed32_groups (drop_bit 7 d)"
      by (subst packed32_groups.simps) simp
    let ?n = "length (packed32_groups (drop_bit 7 d))"
    have "c ! (i + k + j) = Some (rev (map (\<lambda>b. b OR 0x80) (packed32_groups (drop_bit 7 d))) ! j)" if "j < ?n" for j
      using "1.prems"(1) [of j] that by (simp add: g nth_append)
    moreover have "uint (drop_bit 7 d) \<le> INT_MAX"
      using push_bit_le_INT_MAX [OF le uint_ge_0] .
    ultimately have IH: "(unpack_varint_loop (Some c) (int i) 0 (word_of_nat k) :: ('s, int \<times> nat) prog) =
        unpack_varint_loop (Some c) (int i) (uint (drop_bit 7 d)) (word_of_nat (k + ?n))"
      using "1.prems"(2,3) by (intro "1.IH" [OF False]) (simp_all add: g)
    have "c ! (i + (k + ?n)) = Some (?low OR 0x80)"
      using "1.prems"(1) [of ?n] by (simp add: g nth_append add.assoc)
    then show ?thesis
      using IH "1.prems" le unpack_varint_step [of i "k + ?n" c "?low OR 0x80" "drop_bit 7 d"]
      by (simp add: g packed32_marked packed32_step_marked packed32_step_low)
  qed
qed

lemma unpack_varint_bytes:
  assumes bytes: "\<And>j. j < length (packed32_bytes d) \<Longrightarrow> c ! (i + j) = Some (packed32_bytes d ! j)"
    and len: "i + length (packed32_bytes d) \<le> length c" "int (i + length (packed32_bytes d)) \<le> INT_MAX"
    and d: "uint d \<le> INT_MAX"
  shows "unpack_varint (Some c) (int i) = (ret (uint d, length (packed32_bytes d)) :: ('s, int \<times> nat) prog)"
proof -
  let ?low = "ucast (d AND 0x7f) :: byte"
  let ?hi = "drop_bit 7 d"
  define n where "n = length (tl (packed32_groups d))"
  have eq: "packed32_bytes d = rev (map (\<lambda>b. b OR 0x80) (tl (packed32_groups d))) @ [?low]"
    by (simp add: packed32_bytes_eq packed32_groups.simps [of d])
  have le: "push_bit 7 (uint ?hi) \<le> INT_MAX" using uint_drop_bit_7 d by (rule order_trans)
  then have hi: "uint ?hi \<le> INT_MAX" using uint_ge_0 by (rule push_bit_le_INT_MAX)
  have n: "length (packed32_bytes d) = Suc n" by (simp add: eq n_def)
  have low: "c ! (i + n) = Some ?low" using bytes [of n] by (simp add: n eq nth_append n_def)
  have "(unpack_varint_loop (Some c) (int i) 0 (word_of_nat 0) :: ('s, int \<times> nat) prog) =
      unpack_varint_loop (Some c) (int i) (uint ?hi) (word_of_nat n)"
  proof (cases "?hi = 0")
    case True
    then show ?thesis by (simp add: n_def packed32_groups.simps [of d])
  next
    case False
    then have tl: "tl (packed32_groups d) = packed32_groups ?hi" by (simp add: packed32_groups.simps [of d])
    have "c ! (i + 0 + j) = Some (rev (map (\<lambda>b. b OR 0x80) (packed32_groups ?hi)) ! j)"
      if "j < length (packed32_groups ?hi)" for j
      using bytes [of j] that by (simp add: n n_def eq tl nth_append)
    from unpack_varint_marked [OF this _ _ hi] show ?thesis using len by (simp add: n n_def tl)
  qed
  then show ?thesis
    using unpack_varint_step [of i n c ?low ?hi] len low le
    by (simp add: unpack_varint_def n packed32_low_bit packed32_step_low)
qed

lemma wp_peek_varint:
  assumes b: "parsing b0 (number_bytes n @ rest) stk fl b" and n: "0 \<le> n" "n \<le> INT_MAX"
    and Q: "Q (n, length (number_bytes n)) b"
  shows "wp peek_varint Q b"
proof -
  obtain c i where c: "b_c b = Some c" "b_idx b = int i" "i + length (number_bytes n @ rest) \<le> length c"
    "i + length (number_bytes n @ rest) = b_size b" "int (b_size b) \<le> INT_MAX"
    "\<And>k. k < length (number_bytes n @ rest) \<Longrightarrow> c ! (i + k) = Some ((number_bytes n @ rest) ! k)"
    using parsing_block [OF b] by blast
  have "uint (u32_of_int n) = n"
    using n by (simp add: u32_of_int_def unsigned_of_int take_bit_int_eq_self INT_MAX_def)
  moreover have "c ! (i + j) = Some (number_bytes n ! j)" if "j < length (number_bytes n)" for j
    using c(6) [of j] that by (simp add: nth_append)
  ultimately have "unpack_varint (Some c) (int i) = (ret (n, length (number_bytes n)) :: (int \<times> nat) sp)"
    using unpack_varint_bytes [of "u32_of_int n" c i] n c(3-5) by (simp add: number_bytes_def)
  with Q c(1,2) show ?thesis by (simp add: peek_varint_def wp_simps)
qed

lemma wp_get_varint_size:
  assumes "parsing b0 (number_bytes n @ rest) stk fl b" and "0 \<le> n" "n \<le> INT_MAX"
    and "\<And>b'. parsing b0 rest stk fl b' \<Longrightarrow> Q (n, length (number_bytes n)) b'"
  shows "wp get_varint_size Q b"
  unfolding get_varint_size_def wp_andthen
  by (rule wp_peek_varint [OF assms(1-3)]) (auto simp: wp_simps intro!: wp_advancen [OF assms(1) refl] assms(4))

lemma wp_get_varint:
  assumes "parsing b0 (number_bytes n @ rest) stk fl b" and "0 \<le> n" "n \<le> INT_MAX"
    and "\<And>b'. parsing b0 rest stk fl b' \<Longrightarrow> Q n b'"
  shows "wp get_varint Q b"
  unfolding get_varint_def wp_andthen
  by (rule wp_peek_varint [OF assms(1-3)]) (auto simp: wp_simps intro!: wp_advancen [OF assms(1) refl] assms(4))

section \<open>Strings\<close>

lemma wp_strncpy_bytes:
  assumes "\<And>k. k < n \<Longrightarrow> \<exists>x. c ! (i + k) = Some x" and "i + n \<le> length c"
  shows "wp (strncpy_bytes (Some c) (int i) n) (\<lambda>_ s'. s' = s) s"
  using assms
proof (induction n arbitrary: i)
  case 0
  then show ?case by (simp add: wp_simps)
next
  case (Suc n)
  obtain x where "c ! i = Some x" using Suc.prems(1) [of 0] by auto
  moreover have "wp (strncpy_bytes (Some c) (int (Suc i)) n) (\<lambda>_ s'. s' = s) s"
    using Suc.prems(1) [of "Suc _"] Suc.prems(2) by (intro Suc.IH) auto
  ultimately show ?case using Suc.prems(2) by (auto simp: wp_simps add.commute elim: wp_mono)
qed

lemma wp_getStr:
  assumes b: "parsing b0 (str @ rest) stk fl b" and len: "length str < len"
    and Q: "\<And>b' cs. parsing b0 rest stk fl b' \<Longrightarrow> Q cs b'"
  shows "wp (getStr (Some len) (length str)) Q b"
proof -
  obtain c i where c: "b_c b = Some c" "b_idx b = int i" "i + length (str @ rest) \<le> length c"
    "i + length (str @ rest) = b_size b" "int (b_size b) \<le> INT_MAX"
    "\<And>k. k < length (str @ rest) \<Longrightarrow> c ! (i + k) = Some ((str @ rest) ! k)"
    using parsing_block [OF b] by blast
  have "wp (strncpy_bytes (Some c) (int i) (length str)) (\<lambda>_ s'. s' = b) b"
    using c(3,6) by (intro wp_strncpy_bytes) auto
  moreover have "size_t_of_int (int_of_size_t (int (b_size b) - b_idx b)) = length (str @ rest)"
    using c(2,4,5) by (simp add: int_of_size_t_def INT_MIN_def flip: c(4))
  ultimately show ?thesis
    using len c(1,2) by (auto simp: getStr_def wp_simps Let_def elim!: wp_mono intro!: wp_advancen [OF b refl] Q)
qed

text \<open>A block that is allocated and freed leaves the frame as it was.\<close>

lemma frame_memory: "frame (b\<lparr>b_memory := m\<rparr>) = (frame b)\<lparr>b_memory := m\<lparr>mem_calls := 0\<rparr>\<rparr>"
  by (simp add: frame_def)

lemma parsing_memory: "parsing b0 rest stk fl b \<Longrightarrow> parsing (b\<lparr>b_memory := m\<rparr>) rest stk fl (b\<lparr>b_memory := m\<rparr>)"
  by (simp add: parsing_def)

lemma parsing_freed:
  assumes "parsing (b\<lparr>b_memory := m\<rparr>) rest stk fl b'" and "parsing b0 rest' stk' fl' b"
    and "mem_grant m' = mem_grant (b_memory b)" and "mem_live m' = mem_live (b_memory b)"
  shows "parsing b0 rest stk fl (b'\<lparr>b_memory := m'\<rparr>)"
proof -
  have "m'\<lparr>mem_calls := 0\<rparr> = (b_memory b)\<lparr>mem_calls := 0\<rparr>" using assms(3,4) by simp
  then have "(frame b)\<lparr>b_memory := m'\<lparr>mem_calls := 0\<rparr>\<rparr> = frame b" by (simp add: frame_def)
  then show ?thesis using assms(1,2) by (simp add: parsing_def frame_memory)
qed

text \<open>The memory grants what is asked for: strings are copied when they are read.\<close>

lemma wp_accept_string:
  assumes b: "parsing b0 (string_bytes str @ rest) stk fl b" and len: "int (length str) \<le> INT_MAX"
    and mem: "plenty (b_memory b0)" and room: "length stk + 2 \<le> b_stacksize b0"
    and Q: "\<And>b'. parsing b0 rest (u32_of_int (int (length str)) # stk) fl b' \<Longrightarrow> Q True b'"
  shows "wp accept_string Q b"
proof -
  let ?n = "u32_of_int (int (length str))"
  have n: "unat ?n = length str" "unat (?n + 1) = length str + 1"
    using len by (simp_all add: u32_of_int_def INT_MAX_def unsigned_of_nat take_bit_nat_eq_self unat_word_ariths)
  have "parsing b0 (number_bytes (int (length str)) @ str @ rest) stk fl b"
    using b by (simp add: string_bytes_def)
  then show ?thesis
    unfolding accept_string_def wp_andthen
  proof (rule wp_get_varint [OF _ of_nat_0_le_iff len], goal_cases)
    case (1 b1)
    let ?m = "b_memory b1"
    have grant: "mem_grant ?m (mem_calls ?m) k" for k
      using mem parsing_fields(15) [OF 1] by (simp add: plenty_def)
    show ?case
      unfolding wp_b_malloc Let_def n
    proof (simp only: grant if_True, rule wp_getStr [OF parsing_memory [OF 1]], simp, goal_cases)
      case (1 b2 cs)
      note live = parsing_fields(15,16) [OF this]
      show ?case unfolding wp_b_free
        by (rule wp_push_val [OF parsing_freed [OF 1 \<open>parsing b0 (str @ rest) stk fl b1\<close>] room])
          (simp_all add: live wp_ret Q)
    qed
  qed
qed

end
