(* ===== verification/LC_SigParserTypes.thy ===== *)
theory LC_SigParserTypes
  imports LC_SigParserSpec
begin

text \<open>
  The types of the signatures as trees, their bytes, and what the signature parser computes of them: the
  code, the encoded size (0 when it varies) and whether the size varies.
\<close>

section \<open>Intentions\<close>

type_synonym intents = "(cstring \<times> cstring) list"

definition intent_bytes :: "cstring \<times> cstring \<Rightarrow> byte list" where
  "intent_bytes i = string_bytes (fst i) @ string_bytes (snd i)"

definition intents_bytes :: "intents \<Rightarrow> byte list" where
  "intents_bytes is = number_bytes (int (length is)) @ concat (map intent_bytes is)"

definition intents_ok :: "intents \<Rightarrow> bool" where
  "intents_ok is \<longleftrightarrow> int (length is) \<le> INT_MAX \<and>
     (\<forall>i\<in>set is. int (length (fst i)) \<le> INT_MAX \<and> int (length (snd i)) \<le> INT_MAX)"

text \<open>
  The position and the length of the last value with the empty key, when \<open>rest\<close> follows the
  intentions in a file of \<open>sz\<close> bytes.
\<close>

fun name_place :: "nat \<Rightarrow> byte list \<Rightarrow> intents \<Rightarrow> int \<times> int \<Rightarrow> int \<times> int" where
  "name_place sz rest [] place = place"
| "name_place sz rest (i # is) place =
     name_place sz rest is
       (if fst i = []
        then (int sz - int (length (string_bytes (snd i) @ concat (map intent_bytes is) @ rest)), int (length (snd i)))
        else place)"

lemma intents_bytes_name: "intents_bytes [([], name)] = intentions_bytes name"
  by (simp add: intents_bytes_def intent_bytes_def intentions_bytes_def string_bytes_def)

lemma parsing_idx:
  assumes "parsing b0 rest stk fl b"
  shows "b_idx b = int (b_size b0) - int (length rest)"
  using parsing_at [OF assms] parsing_fields(2) [OF assms] by (metis add_diff_cancel_right' of_nat_add)

lemma wp_accept_intentions_loop:
  assumes "parsing b0 (concat (map intent_bytes is) @ rest) stk fl b"
    and "\<And>i. i \<in> set is \<Longrightarrow> int (length (fst i)) \<le> INT_MAX \<and> int (length (snd i)) \<le> INT_MAX"
    and "plenty (b_memory b0)" and "length stk + 2 \<le> b_stacksize b0"
    and "\<And>b'. parsing b0 rest stk fl b' \<Longrightarrow> Q (name_place (b_size b0) rest is (npos, nlen)) b'"
  shows "wp (accept_intentions_loop (length is) npos nlen) Q b"
  using assms
proof (induction "is" arbitrary: b npos nlen)
  case Nil
  then show ?case by (simp add: wp_ret)
next
  case (Cons i "is")
  let ?k = "fst i" and ?v = "snd i" and ?tail = "concat (map intent_bytes is) @ rest"
  have b: "parsing b0 (string_bytes ?k @ string_bytes ?v @ ?tail) stk fl b"
    using Cons.prems(1) by (simp add: intent_bytes_def [of i])
  have len: "int (length ?k) \<le> INT_MAX" "int (length ?v) \<le> INT_MAX" using Cons.prems(2) by simp_all
  show ?case
    unfolding accept_intentions_loop.simps length_Cons wp_andthen wp_gets
  proof (rule wp_accept_string [OF b len(1) Cons.prems(3,4)], rule wp_pop_val, assumption,
      rule wp_accept_string [OF _ len(2) Cons.prems(3,4)], assumption, rule wp_pop_val, assumption, goal_cases)
    case (1 _ b2 _ b4)
    show ?case
      using len parsing_idx [OF 1(2)]
      by (intro Cons.IH [OF 1(4)]) (use Cons.prems in \<open>auto simp: INT_MIN_def\<close>)
  qed
qed

lemma u32_of_len [simp]: "int n \<le> INT_MAX \<Longrightarrow> unat (u32_of_int (int n)) = n"
  by (simp add: u32_of_int_def INT_MAX_def unsigned_of_nat take_bit_nat_eq_self)

lemma wp_accept_intentions:
  assumes "parsing b0 (intents_bytes is @ rest) stk fl b" and "intents_ok is"
    and "plenty (b_memory b0)" and "length stk + 3 \<le> b_stacksize b0"
    and "\<And>b' npos nlen. parsing b0 rest (u32_of_int npos # u32_of_int nlen # stk) fl b' \<Longrightarrow>
      (npos, nlen) = name_place (b_size b0) rest is (0, 0) \<Longrightarrow> Q True b'"
  shows "wp accept_intentions Q b"
proof -
  have "parsing b0 (number_bytes (int (length is)) @ concat (map intent_bytes is) @ rest) stk fl b"
    using assms(1) by (simp add: intents_bytes_def)
  moreover have "int (length is) \<le> INT_MAX" using assms(2) by (simp add: intents_ok_def)
  ultimately show ?thesis
    unfolding accept_intentions_def wp_andthen
  proof (rule wp_get_varint [OF _ of_nat_0_le_iff], goal_cases)
    case (1 b1)
    obtain npos nlen where place: "name_place (b_size b0) rest is (0, 0) = (npos, nlen)" by fastforce
    show ?case
      unfolding u32_of_len [OF \<open>int (length is) \<le> INT_MAX\<close>]
    proof (rule wp_accept_intentions_loop [OF 1], goal_cases)
      case (4 b2)
      show ?case unfolding place split_conv wp_andthen
        by (rule wp_push_val [OF 4], use assms(4) in simp, rule wp_push_val, assumption) (use assms(4,5) place in \<open>simp_all add: wp_ret\<close>)
    qed (use assms in \<open>auto simp: intents_ok_def\<close>)
  qed
qed

section \<open>Types\<close>

datatype basic = Boolean | Byte | Short | Integer | Long | Float | Double | String_type | Sample_ref

primrec basic_code :: "basic \<Rightarrow> u32" where
  "basic_code Boolean = TYPE_BOOLEAN"
| "basic_code Byte = TYPE_BYTE"
| "basic_code Short = TYPE_SHORT"
| "basic_code Integer = TYPE_INTEGER"
| "basic_code Long = TYPE_LONG"
| "basic_code Float = TYPE_FLOAT"
| "basic_code Double = TYPE_DOUBLE"
| "basic_code String_type = TYPE_STRING"
| "basic_code Sample_ref = TYPE_SAMPLE_REF"

primrec basic_size :: "basic \<Rightarrow> u32" where
  "basic_size Boolean = 1"
| "basic_size Byte = 1"
| "basic_size Short = 2"
| "basic_size Integer = 4"
| "basic_size Long = 8"
| "basic_size Float = 4"
| "basic_size Double = 8"
| "basic_size String_type = 0"
| "basic_size Sample_ref = 4"

text \<open>A type is a basic one, an array with its dimensions (0 for a variable one), a structure or a user type.\<close>

datatype ty = Basic basic | Array "u32 list" ty | Struct fields | User u32
  and fields = No_field | Field intents ty fields

primrec type_code :: "ty \<Rightarrow> u32" where
  "type_code (Basic p) = basic_code p"
| "type_code (Array ds t) = ARRAY_DECL"
| "type_code (Struct fs) = STRUCT_DECL"
| "type_code (User n) = n"

primrec count_fields :: "fields \<Rightarrow> nat" where
  "count_fields No_field = 0"
| "count_fields (Field is t fs) = Suc (count_fields fs)"

definition code_bytes :: "u32 \<Rightarrow> byte list" where
  "code_bytes n = number_bytes (uint n)"

primrec type_bytes :: "ty \<Rightarrow> byte list" and fields_bytes :: "fields \<Rightarrow> byte list" where
  "type_bytes (Basic p) = code_bytes (basic_code p)"
| "type_bytes (Array ds t) =
     code_bytes ARRAY_DECL @ number_bytes (int (length ds)) @ concat (map code_bytes ds) @ type_bytes t"
| "type_bytes (Struct fs) = code_bytes STRUCT_DECL @ number_bytes (int (count_fields fs)) @ fields_bytes fs"
| "type_bytes (User n) = code_bytes n"
| "fields_bytes No_field = []"
| "fields_bytes (Field is t fs) = intents_bytes is @ type_bytes t @ fields_bytes fs"

primrec static_size :: "ty \<Rightarrow> u32" and fields_size :: "fields \<Rightarrow> u32" where
  "static_size (Basic p) = basic_size p"
| "static_size (Array ds t) = (if 0 \<in> set ds then 0 else prod_list ds * static_size t)"
| "static_size (Struct fs) = fields_size fs"
| "static_size (User n) = 0"
| "fields_size No_field = 0"
| "fields_size (Field is t fs) = static_size t + fields_size fs"

primrec varsize :: "ty \<Rightarrow> bool" and fields_varsize :: "fields \<Rightarrow> bool" where
  "varsize (Basic p) \<longleftrightarrow> p = String_type"
| "varsize (Array ds t) \<longleftrightarrow> 0 \<in> set ds \<or> varsize t"
| "varsize (Struct fs) \<longleftrightarrow> fields_varsize fs"
| "varsize (User n) \<longleftrightarrow> False"
| "fields_varsize No_field \<longleftrightarrow> False"
| "fields_varsize (Field is t fs) \<longleftrightarrow> varsize t \<or> fields_varsize fs"

definition reserved_codes :: "u32 set" where
  "reserved_codes = insert ARRAY_DECL (insert STRUCT_DECL (basic_code ` UNIV))"

text \<open>Every number fits in an \<^verbatim>\<open>int\<close>.\<close>

primrec type_ok :: "ty \<Rightarrow> bool" and fields_ok :: "fields \<Rightarrow> bool" where
  "type_ok (Basic p) \<longleftrightarrow> True"
| "type_ok (Array ds t) \<longleftrightarrow> int (length ds) \<le> INT_MAX \<and> (\<forall>d\<in>set ds. uint d \<le> INT_MAX) \<and> type_ok t"
| "type_ok (Struct fs) \<longleftrightarrow> int (count_fields fs) \<le> INT_MAX \<and> fields_ok fs"
| "type_ok (User n) \<longleftrightarrow> uint n \<le> INT_MAX \<and> n \<notin> reserved_codes"
| "fields_ok No_field \<longleftrightarrow> True"
| "fields_ok (Field is t fs) \<longleftrightarrow> intents_ok is \<and> type_ok t \<and> fields_ok fs"

lemma UNIV_basic: "UNIV = {Boolean, Byte, Short, Integer, Long, Float, Double, String_type, Sample_ref}"
  by (auto intro: basic.exhaust)

lemma reserved_codes_eq:
  "reserved_codes = {ARRAY_DECL, STRUCT_DECL, TYPE_BOOLEAN, TYPE_BYTE, TYPE_SHORT, TYPE_INTEGER, TYPE_LONG,
     TYPE_FLOAT, TYPE_DOUBLE, TYPE_STRING, TYPE_SAMPLE_REF}"
  by (simp add: reserved_codes_def UNIV_basic)

lemma u32_of_code [simp]: "u32_of_int (uint n) = n"
  by (simp add: u32_of_int_def)

lemma wp_set_varsize:
  assumes "parsing b0 rest stk fl b" and "\<And>b'. parsing b0 rest stk True b' \<Longrightarrow> Q () b'"
  shows "wp set_varsize Q b"
  using assms by (simp add: set_varsize_def wp_simps parsing_def)

lemma wp_array_dims:
  assumes "parsing b0 (concat (map code_bytes ds) @ rest) stk fl b" and "\<And>d. d \<in> set ds \<Longrightarrow> uint d \<le> INT_MAX"
    and "\<And>b'. parsing b0 rest stk (fl \<or> 0 \<in> set ds) b' \<Longrightarrow>
      Q (numVar + word_of_nat (length (filter (\<lambda>d. d = 0) ds)), tot * prod_list (filter (\<lambda>d. d \<noteq> 0) ds)) b'"
  shows "wp (array_dims (length ds) numVar tot) Q b"
  using assms
proof (induction ds arbitrary: b fl numVar tot)
  case Nil
  then show ?case by (simp add: wp_ret)
next
  case (Cons d ds)
  have b: "parsing b0 (number_bytes (uint d) @ concat (map code_bytes ds) @ rest) stk fl b"
    using Cons.prems(1) by (simp add: code_bytes_def [of d])
  show ?case
    unfolding array_dims.simps length_Cons wp_andthen
  proof (rule wp_get_varint [OF b uint_ge_0], use Cons.prems(2) in simp, goal_cases)
    case (1 b1)
    show ?case
    proof (cases "d = 0")
      case True
      show ?thesis
        by (simp add: True u32_of_int_def wp_andthen)
          (rule wp_set_varsize [OF 1], erule Cons.IH, use Cons.prems True in \<open>auto simp: ac_simps\<close>)
    next
      case False
      then show ?thesis
        by simp (rule Cons.IH [OF 1], use Cons.prems False in \<open>auto simp: ac_simps\<close>)
    qed
  qed
qed

section \<open>Parsing a type\<close>

lemma wp_peek_code:
  assumes "parsing b0 (code_bytes c @ rest) stk fl b" and "uint c \<le> INT_MAX"
    and "wp (f (uint c, length (code_bytes c))) Q b"
  shows "wp (andthen peek_varint f) Q b"
  using assms unfolding wp_andthen code_bytes_def by (auto intro!: wp_peek_varint)

text \<open>A type of one code: it is consumed, its size and its code are pushed.\<close>

lemma wp_push_two:
  assumes "parsing b0 rest stk fl b" and "length stk + 3 \<le> b_stacksize b0"
    and "\<And>b'. parsing b0 rest (c # n # stk) fl b' \<Longrightarrow> Q r b'"
  shows "wp (andthen (push_val n) (\<lambda>_. andthen (push_val c) (\<lambda>_. ret r))) Q b"
  unfolding wp_andthen
  by (rule wp_push_val [OF assms(1)], use assms(2) in simp, rule wp_push_val, assumption)
    (use assms(2,3) in \<open>simp_all add: wp_ret\<close>)

lemma wp_one_code:
  assumes "parsing b0 (code_bytes c @ rest) stk fl b" and "length stk + 3 \<le> b_stacksize b0"
    and "\<And>b'. parsing b0 rest (c # n # stk) fl b' \<Longrightarrow> Q r b'"
  shows "wp (andthen (advancen (length (code_bytes c))) (\<lambda>_.
    andthen (push_val n) (\<lambda>_. andthen (push_val c) (\<lambda>_. ret r)))) Q b"
  unfolding wp_andthen [of "advancen _"]
  by (rule wp_advancen [OF assms(1) refl], erule wp_push_two) (rule assms(2,3), assumption?)+

lemma accept_basic:
  "accept_type_switch p (basic_code k) n =
     andthen (advancen n) (\<lambda>_.
     if k = String_type
     then andthen set_varsize (\<lambda>_. andthen (push_val 0) (\<lambda>_. andthen (push_val (basic_code k)) (\<lambda>_. ret True)))
     else andthen (push_val (basic_size k)) (\<lambda>_. andthen (push_val (basic_code k)) (\<lambda>_. ret True)))"
  by (cases k) (simp_all add: accept_type_switch_def type_code_defs)

lemma accept_user:
  "c \<notin> reserved_codes \<Longrightarrow> accept_type_switch p c n =
     andthen (advancen n) (\<lambda>_. andthen (push_val 0) (\<lambda>_. andthen (push_val c) (\<lambda>_. ret False)))"
  by (simp add: reserved_codes_eq accept_type_switch_def)

lemma accept_composite:
  "accept_type_switch p ARRAY_DECL n =
     andthen (accept_array_decl_with p) (\<lambda>_. andthen pop_val (\<lambda>_. andthen (push_val ARRAY_DECL) (\<lambda>_. ret True)))"
  "accept_type_switch p STRUCT_DECL n =
     andthen (accept_struct_decl_with p) (\<lambda>_. andthen (push_val STRUCT_DECL) (\<lambda>_. ret True))"
  by (simp_all add: accept_type_switch_def type_code_defs)

lemma codes_fit [simp]: "uint (basic_code k) \<le> INT_MAX" "uint ARRAY_DECL \<le> INT_MAX" "uint STRUCT_DECL \<le> INT_MAX"
  by (cases k) (simp_all add: type_code_defs INT_MAX_def)

lemma prod_filter_nonzero: "(0::u32) \<notin> set ds \<Longrightarrow> filter (\<lambda>d. d \<noteq> 0) ds = ds"
  by (induction ds) auto

lemma count_zeros:
  assumes "int (length ds) \<le> INT_MAX"
  shows "word_of_nat (length (filter (\<lambda>d. d = 0) ds)) = (0::u32) \<longleftrightarrow> (0::u32) \<notin> set ds"
proof -
  let ?n = "length (filter (\<lambda>d. d = (0::u32)) ds)"
  have "?n < 2 ^ 32" using assms by (intro le_less_trans [OF length_filter_le]) (simp add: INT_MAX_def)
  then have "word_of_nat ?n = (0::u32) \<longleftrightarrow> ?n = 0"
    using unat_eq_0 [of "word_of_nat ?n :: u32"] by (simp add: unsigned_of_nat take_bit_nat_eq_self)
  then show ?thesis by (auto simp: filter_empty_conv)
qed

text \<open>The struct loop and the array, for a parser that is right about the element type.\<close>

definition parses :: "sig_parser_t \<Rightarrow> ty \<Rightarrow> bool" where
  "parses b0 t \<longleftrightarrow> (\<forall>rest stk fl b Q. parsing b0 (type_bytes t @ rest) stk fl b \<longrightarrow> length stk + 3 \<le> b_stacksize b0 \<longrightarrow>
     (\<forall>r b'. parsing b0 rest (type_code t # static_size t # stk) (fl \<or> varsize t) b' \<longrightarrow> Q r b') \<longrightarrow> wp accept_type Q b)"

lemma wp_accept_type_parses:
  assumes "parses b0 t" and "parsing b0 (type_bytes t @ rest) stk fl b" and "length stk + 3 \<le> b_stacksize b0"
    and "\<And>r b'. parsing b0 rest (type_code t # static_size t # stk) (fl \<or> varsize t) b' \<Longrightarrow> Q r b'"
  shows "wp accept_type Q b"
  using assms unfolding parses_def by blast

lemma wp_accept_array:
  assumes t: "parses b0 t" and b: "parsing b0 (type_bytes (Array ds t) @ rest) stk fl b"
    and ok: "type_ok (Array ds t)" and room: "length stk + 3 \<le> b_stacksize b0"
    and Q: "\<And>b'. parsing b0 rest (type_code t # static_size (Array ds t) # stk) (fl \<or> varsize (Array ds t)) b' \<Longrightarrow> Q True b'"
  shows "wp accept_array_decl Q b"
proof -
  let ?dims = "number_bytes (int (length ds)) @ concat (map code_bytes ds) @ type_bytes t @ rest"
  have b1: "parsing b0 (code_bytes ARRAY_DECL @ ?dims) stk fl b" using b by simp
  have len: "int (length ds) \<le> INT_MAX" "\<And>d. d \<in> set ds \<Longrightarrow> uint d \<le> INT_MAX" using ok by auto
  show ?thesis
    unfolding accept_array_decl_def accept_array_decl_with_def
  proof (rule wp_peek_code [OF b1 codes_fit(2)], unfold split_conv u32_of_code if_P [OF refl] wp_andthen,
      rule wp_advancen [OF b1 refl], rule wp_get_varint, assumption, simp, rule len,
      unfold u32_of_len [OF len(1)], rule wp_array_dims, assumption, erule len(2), unfold split_conv wp_andthen,
      rule wp_accept_type_parses [OF t], assumption, rule room, rule wp_pop_val, assumption, rule wp_pop_val, assumption, goal_cases)
    case (1 b2 b3 b4 _ b5 b6 b7)
    have "parsing b0 rest stk (fl \<or> varsize (Array ds t)) b7" using 1(6) by (simp add: disj_assoc)
    moreover have sz: "(if 0 + word_of_nat (length (filter (\<lambda>d. d = 0) ds)) = (0::u32)
        then 1 * prod_list (filter (\<lambda>d. d \<noteq> 0) ds) * static_size t else 0) = static_size (Array ds t)"
      using count_zeros [OF len(1)] by (simp add: prod_filter_nonzero)
    ultimately show ?case
      unfolding sz by (intro wp_push_two [unfolded wp_andthen, OF _ room]) (assumption, rule Q)
  qed
qed

text \<open>Both parsers, by induction on the type.\<close>

lemma wp_accept_type_code:
  assumes "parsing b0 (code_bytes c @ rest) stk fl b" and "uint c \<le> INT_MAX"
    and "wp (accept_type_switch accept_type c (length (code_bytes c))) Q b"
  shows "wp accept_type Q b"
  by (subst accept_type_unfold, unfold accept_type_with_def)
    (rule wp_peek_code [OF assms(1,2)], use assms(3) in simp)

lemma parses_type:
  assumes mem: "plenty (b_memory b0)"
  shows "type_ok t \<Longrightarrow> parses b0 t"
    and "fields_ok fs \<Longrightarrow> parsing b0 (fields_bytes fs @ rest) stk fl b \<Longrightarrow> length stk + 3 \<le> b_stacksize b0 \<Longrightarrow>
      (\<And>b'. parsing b0 rest stk (fl \<or> fields_varsize fs) b' \<Longrightarrow> Q (acc + fields_size fs) b') \<Longrightarrow>
      wp (struct_fields accept_type (count_fields fs) acc) Q b"
proof (induction t and fs arbitrary: and rest stk fl b acc Q)
  case (Basic k)
  show ?case
    unfolding parses_def
  proof (intro allI impI, goal_cases)
    case (1 rest stk fl b Q)
    then have b: "parsing b0 (code_bytes (basic_code k) @ rest) stk fl b" by simp
    show ?case
    proof (rule wp_accept_type_code [OF b codes_fit(1)], unfold accept_basic, cases "k = String_type", goal_cases)
      case s: 1
      show ?case unfolding if_P [OF s] wp_andthen [of "advancen _"] wp_andthen [of set_varsize]
        by (rule wp_advancen [OF b refl], erule wp_set_varsize, erule wp_push_two) (use 1 s in auto)
    next
      case 2
      with 1 show ?case by (auto intro!: wp_one_code [OF b])
    qed
  qed
next
  case (Array ds t)
  show ?case
    unfolding parses_def
  proof (intro allI impI, goal_cases)
    case (1 rest stk fl b Q)
    have t: "parses b0 t" using Array by simp
    have b: "parsing b0 (code_bytes ARRAY_DECL @ (number_bytes (int (length ds)) @ concat (map code_bytes ds) @ type_bytes t @ rest)) stk fl b"
      using 1(1) by simp
    show ?case
      by (rule wp_accept_type_code [OF b codes_fit(2)],
          unfold accept_composite wp_andthen accept_array_decl_def [symmetric],
          rule wp_accept_array [OF t 1(1) Array.prems 1(2)], rule wp_pop_val, assumption, rule wp_push_val, assumption)
        (use 1 in \<open>simp_all add: wp_ret\<close>)
  qed
next
  case (Struct fs)
  show ?case
    unfolding parses_def
  proof (intro allI impI, goal_cases)
    case (1 rest stk fl b Q)
    have len: "int (count_fields fs) \<le> INT_MAX" and ok: "fields_ok fs" using Struct.prems by simp_all
    have b: "parsing b0 (code_bytes STRUCT_DECL @ (number_bytes (int (count_fields fs)) @ fields_bytes fs @ rest)) stk fl b"
      using 1(1) by simp
    show ?case
      by (rule wp_accept_type_code [OF b codes_fit(3)],
          unfold accept_composite wp_andthen, unfold accept_struct_decl_with_def,
          rule wp_peek_code [OF b codes_fit(3)], unfold split_conv u32_of_code if_P [OF refl] wp_andthen,
          rule wp_advancen [OF b refl], rule wp_get_varint, assumption, simp, rule len, unfold u32_of_len [OF len],
          rule Struct.IH [OF ok], assumption, rule 1(2), rule wp_push_val, assumption, use 1(2) in simp,
          unfold wp_ret, rule wp_push_val, assumption)
        (use 1(2,3) in \<open>simp_all add: wp_ret\<close>)
  qed
next
  case (User c)
  show ?case
    unfolding parses_def using User
    by (auto intro!: wp_accept_type_code [where c = c] wp_one_code simp: accept_user)
next
  case No_field
  then show ?case by (simp add: wp_ret)
next
  case (Field "is" t fs)
  have ok: "intents_ok is" "parses b0 t" "fields_ok fs" using Field by simp_all
  have b: "parsing b0 (intents_bytes is @ type_bytes t @ fields_bytes fs @ rest) stk fl b" using Field.prems(2) by simp
  show ?case
    unfolding count_fields.simps struct_fields.simps accept_field_with_def wp_andthen
    by (rule wp_accept_intentions [OF b ok(1) mem Field.prems(3)], rule wp_pop_val, assumption, rule wp_pop_val, assumption,
        rule wp_accept_type_parses [OF ok(2)], assumption, rule Field.prems(3), rule wp_pop_val, assumption,
        unfold wp_ret, rule wp_pop_val, assumption, rule Field.IH(2) [OF ok(3)], assumption, rule Field.prems(3))
      (use Field.prems(4) in \<open>simp add: disj_assoc add.assoc\<close>)
qed

end
