(* ===== verification/LC_SigParserPackets.thy ===== *)
theory LC_SigParserPackets
  imports LC_SigParserTypes
begin

text \<open>
  The table of signatures of the parser as a map from the indices of samples to names and signatures,
  the packets of a file, and what each of them does to the map.
\<close>

section \<open>The known signatures\<close>

text \<open>Every row was allocated, with its length; an entry in use points to its own rows.\<close>

definition rows_ok :: "nat \<Rightarrow> nat \<Rightarrow> byte block block \<Rightarrow> bool" where
  "rows_ok n len rows \<longleftrightarrow> (\<exists>xs. rows = Some (map (Some \<circ> Some) xs) \<and> length xs = n \<and> (\<forall>x\<in>set xs. length x = len))"

definition tables_ok :: "sig_parser_t \<Rightarrow> bool" where
  "tables_ok b \<longleftrightarrow>
     rows_ok (b_max_signatures b) (b_max_sig_len b) (b_signatures b) \<and>
     rows_ok (b_max_signatures b) (b_max_name_len b) (b_signatures_name b) \<and>
     (\<exists>ts. b_sig_ts b = Some (map Some ts) \<and> length ts = b_max_signatures b \<and>
       (\<forall>k<length ts. st_name (ts ! k) = None \<and> st_signature (ts ! k) = None \<or>
          st_name (ts ! k) = Some (NameRow k) \<and> st_signature (ts ! k) = Some k)) \<and>
     (\<exists>xs. b_signatures_length b = Some xs \<and> length xs = b_max_signatures b) \<and>
     (\<exists>xs. b_signatures_name_length b = Some xs \<and> length xs = b_max_signatures b)"

definition row_of :: "byte block block \<Rightarrow> nat \<Rightarrow> byte list" where
  "row_of rows k = map the (the (the (the rows ! k)))"

text \<open>The first \<open>n\<close> bytes of a row, when it is so long and they are initialised.\<close>

definition row_bytes :: "byte block block \<Rightarrow> nat \<Rightarrow> int \<Rightarrow> byte list option" where
  "row_bytes rows k n =
     (let row = the (the (the rows ! k))
      in if 0 \<le> n \<and> n \<le> int (length row) \<and> None \<notin> set (take (nat n) row) then Some (map the (take (nat n) row)) else None)"

lemma row_bytes_put:
  assumes "j < length xs" and "int (length bs) = n" and "row = map Some bs @ pad"
  shows "row_bytes (Some (xs[j := Some (Some row)])) j n = Some bs"
  using assms by (auto simp: row_bytes_def)

lemma row_bytes_other: "j \<noteq> k \<Longrightarrow> row_bytes (Some (xs[k := x])) j n = row_bytes (Some xs) j n"
  by (simp add: row_bytes_def)

lemma row_bytesD:
  assumes "row_bytes rows k n = Some bs"
  obtains pad where "the (the (the rows ! k)) = map Some bs @ pad" and "n = int (length bs)"
proof
  let ?row = "the (the (the rows ! k))"
  have n: "0 \<le> n" "n \<le> int (length ?row)" "None \<notin> set (take (nat n) ?row)" "bs = map the (take (nat n) ?row)"
    using assms by (auto simp: row_bytes_def Let_def split: if_splits)
  have "map Some (map the ys) = ys" if "None \<notin> set ys" for ys :: "byte option list"
    using that by (induction ys) auto
  then have "map Some bs = take (nat n) ?row" using n(3,4) by blast
  then show "?row = map Some bs @ drop (nat n) ?row" by simp
  show "n = int (length bs)" using n(1,2,4) by simp
qed

text \<open>
  The name as a C string and the signature of a sample, by its index minus \<^verbatim>\<open>LABCOMM_USER\<close>; a sample whose entry
  has a size that its row does not hold is not known.
\<close>

definition known :: "sig_parser_t \<Rightarrow> nat \<Rightarrow> (cstring \<times> byte list) option" where
  "known b k =
     (if k < b_max_signatures b
      then let t = the (the (b_sig_ts b) ! k) in
           (case (st_name t, st_signature t) of
              (Some (NameRow i), Some j) \<Rightarrow>
                map_option (Pair (takeWhile (\<lambda>c. c \<noteq> 0) (row_of (b_signatures_name b) i)))
                  (row_bytes (b_signatures b) j (st_size t))
            | _ \<Rightarrow> None)
      else None)"

text \<open>What no packet changes.\<close>

definition file_frame :: "sig_parser_t \<Rightarrow> sig_parser_t" where
  "file_frame b = (frame b)\<lparr>b_sig_ts := None, b_signatures_length := None, b_signatures := None,
     b_signatures_name_length := None, b_signatures_name := None\<rparr>"

definition at_packet :: "sig_parser_t \<Rightarrow> byte list \<Rightarrow> (nat \<Rightarrow> (cstring \<times> byte list) option) \<Rightarrow> sig_parser_t \<Rightarrow> bool" where
  "at_packet b0 rest m b \<longleftrightarrow> file_frame b = file_frame b0 \<and> tables_ok b \<and> known b = m \<and>
     parsing b rest [] (b_current_decl_is_varsize b) b"

lemma tables_ok_frame: "frame b = frame b' \<Longrightarrow> tables_ok b = tables_ok b'"
  unfolding tables_ok_def by (simp add: frame_fields [of b b'])

lemma known_frame:
  assumes "frame b = frame b'"
  shows "known b = known b'"
  by (rule ext) (simp only: known_def frame_fields [OF assms])

lemma file_frame_frame: "frame b = frame b' \<Longrightarrow> file_frame b = file_frame b'"
  by (simp add: file_frame_def)

lemma file_frame_fields:
  assumes "file_frame b = file_frame b'"
  shows "b_max_signatures b = b_max_signatures b'" "b_max_name_len b = b_max_name_len b'"
    "b_max_sig_len b = b_max_sig_len b'" "b_stacksize b = b_stacksize b'" "b_size b = b_size b'" "b_c b = b_c b'"
    "mem_grant (b_memory b) = mem_grant (b_memory b')" "mem_live (b_memory b) = mem_live (b_memory b')"
proof -
  have get: "b_max_signatures (file_frame b) = b_max_signatures b" "b_max_name_len (file_frame b) = b_max_name_len b"
    "b_max_sig_len (file_frame b) = b_max_sig_len b" "b_stacksize (file_frame b) = b_stacksize b"
    "b_size (file_frame b) = b_size b" "b_c (file_frame b) = b_c b"
    "mem_grant (b_memory (file_frame b)) = mem_grant (b_memory b)"
    "mem_live (b_memory (file_frame b)) = mem_live (b_memory b)" for b
    by (simp_all add: file_frame_def frame_def)
  show "b_max_signatures b = b_max_signatures b'" "b_max_name_len b = b_max_name_len b'"
    "b_max_sig_len b = b_max_sig_len b'" "b_stacksize b = b_stacksize b'" "b_size b = b_size b'" "b_c b = b_c b'"
    "mem_grant (b_memory b) = mem_grant (b_memory b')" "mem_live (b_memory b) = mem_live (b_memory b')"
    by (simp_all only: get [of b, unfolded assms, symmetric] get)
qed

text \<open>A packet that leaves the tables alone.\<close>

lemma at_packet_parsing: "at_packet b0 rest m b \<Longrightarrow> parsing b rest [] (b_current_decl_is_varsize b) b"
  by (simp add: at_packet_def)

lemma at_packet_moved:
  assumes "at_packet b0 rest m b" and b': "parsing b rest' [] fl b'"
  shows "at_packet b0 rest' m b'"
proof -
  have f: "frame b' = frame b" using b' by (rule parsing_frame)
  have "parsing b' rest' [] (b_current_decl_is_varsize b') b'" using b' by (simp add: parsing_def)
  then show ?thesis
    using assms(1) tables_ok_frame [OF f] known_frame [OF f] file_frame_frame [OF f] by (simp add: at_packet_def)
qed

section \<open>Names\<close>

lemma drop_appendD:
  assumes "drop i xs = ys @ zs" and "i \<le> length xs"
  shows "length xs = i + length ys + length zs" and "drop (i + length ys) xs = zs"
proof -
  have "length (drop i xs) = length ys + length zs" unfolding assms(1) by simp
  then show "length xs = i + length ys + length zs" using assms(2) unfolding length_drop by linarith
  have "drop (i + length ys) xs = drop (length ys) (drop i xs)" by (simp add: add.commute)
  then show "drop (i + length ys) xs = zs" unfolding assms(1) by simp
qed

fun find_name :: "intents \<Rightarrow> cstring option" where
  "find_name [] = None"
| "find_name (i # is) =
     (case find_name is of Some v \<Rightarrow> Some v | None \<Rightarrow> if fst i = [] then Some (snd i) else None)"

definition intents_name :: "intents \<Rightarrow> cstring" where
  "intents_name is = (case find_name is of None \<Rightarrow> [] | Some v \<Rightarrow> v)"

lemma name_place_found:
  assumes "drop i input = concat (map intent_bytes is) @ rest" and "i \<le> length input"
  shows "case find_name is of None \<Rightarrow> name_place (length input) rest is place = place
    | Some v \<Rightarrow> \<exists>j post. name_place (length input) rest is place = (int j, int (length v)) \<and>
        j \<le> length input \<and> drop j input = string_bytes v @ post"
  using assms
proof (induction "is" arbitrary: i place)
  case Nil
  then show ?case by simp
next
  case (Cons x "is")
  let ?k = "string_bytes (fst x)" and ?v = "string_bytes (snd x)" and ?tail = "concat (map intent_bytes is) @ rest"
  have d: "drop i input = ?k @ ?v @ ?tail" using Cons.prems(1) by (simp add: intent_bytes_def [of x])
  note v = drop_appendD [OF d Cons.prems(2)]
  have le: "i + length ?k \<le> length input" using v(1) by simp
  note tail = drop_appendD [OF v(2) le]
  let ?place = "if fst x = [] then (int (i + length ?k), int (length (snd x))) else place"
  have "int (length input) - int (length (?v @ ?tail)) = int (i + length ?k)" using v(1) by simp
  then have step: "name_place (length input) rest (x # is) place = name_place (length input) rest is ?place"
    by (simp add: if_distrib)
  have le': "i + length ?k + length ?v \<le> length input" using tail(1) by simp
  note IH = Cons.IH [OF tail(2) le', of ?place]
  show ?case
  proof (cases "find_name is")
    case None
    show ?thesis
      using IH None v(2) le unfolding step by (cases "fst x = []") (auto intro: exI [of _ "i + length ?k"])
  next
    case (Some w)
    with IH show ?thesis unfolding step by simp
  qed
qed

lemma varint_sizeof_loop_eq: "varint_sizeof_loop i n + 1 = n + length (packed32_groups i)"
proof (induction i n rule: varint_sizeof_loop.induct)
  case (1 i n)
  then show ?case
    by (cases "drop_bit 7 i = 0")
      (simp_all add: varint_sizeof_loop.simps [of i] packed32_groups.simps [of i] packed32_groups.simps [of 0])
qed

lemma varint_sizeof_eq: "labcomm2014_varint_sizeof i = length (packed32_bytes i)"
proof (cases "i < 128")
  case True
  then have "unat i div 128 = 0" by (simp add: word_less_nat_alt)
  then have "unat (drop_bit 7 i) = 0" by (simp add: drop_bit_eq_div unat_div)
  then have "drop_bit 7 i = 0" by (simp only: unat_eq_0)
  with True show ?thesis
    by (simp add: labcomm2014_varint_sizeof_def length_packed32_bytes packed32_groups.simps [of i])
next
  case False
  then show ?thesis
    using varint_sizeof_loop_eq [of i 1] by (simp add: labcomm2014_varint_sizeof_def length_packed32_bytes)
qed

section \<open>Entering a signature\<close>

definition name_of_row :: "byte list \<Rightarrow> cstring" where
  "name_of_row row = takeWhile (\<lambda>c. c \<noteq> 0) row"

lemma table_updates [simp]:
  "file_frame (b\<lparr>b_sig_ts := ts\<rparr>) = file_frame b" "file_frame (b\<lparr>b_signatures := rs\<rparr>) = file_frame b"
  "file_frame (b\<lparr>b_signatures_length := ls\<rparr>) = file_frame b" "file_frame (b\<lparr>b_signatures_name := rs\<rparr>) = file_frame b"
  "file_frame (b\<lparr>b_signatures_name_length := ls\<rparr>) = file_frame b"
  by (simp_all add: file_frame_def frame_def)

lemma parsing_tables:
  assumes "parsing b rest stk fl b" and "\<And>b. f b = b\<lparr>b_signatures_length := ls, b_signatures := rs, b_sig_ts := ts\<rparr>"
  shows "parsing (f b) rest stk fl (f b)"
  using assms(1)
  by (simp add: assms(2) parsing_def stack_ok_def stack_of_def buffer_ok_def unread_def input_of_def)

lemma parsing_names:
  assumes "parsing b rest stk fl b" and "\<And>b. f b = b\<lparr>b_signatures_name_length := ls, b_signatures_name := rs\<rparr>"
  shows "parsing (f b) rest stk fl (f b)"
  using assms(1)
  by (simp add: assms(2) parsing_def stack_ok_def stack_of_def buffer_ok_def unread_def input_of_def)

lemma rows_ok_get: "rows_ok n len rows \<Longrightarrow> k < n \<Longrightarrow> \<exists>xs row. rows = Some xs \<and> length xs = n \<and> xs ! k = Some (Some row) \<and> length row = len"
  by (auto simp: rows_ok_def)

lemma rows_ok_put:
  assumes "rows_ok n len rows" and "k < n" and "length row = len"
  shows "rows_ok n len (Some ((the rows)[k := Some (Some row)]))"
    and "row_of (Some ((the rows)[k := Some (Some row)])) j = (if j = k then map the row else row_of rows j)"
proof -
  obtain xs where xs: "rows = Some (map (Some \<circ> Some) xs)" "length xs = n" "\<forall>x\<in>set xs. length x = len"
    using assms(1) by (auto simp: rows_ok_def)
  then show "rows_ok n len (Some ((the rows)[k := Some (Some row)]))"
    using assms(2,3) by (auto simp: rows_ok_def map_update intro!: exI [of _ "xs[k := row]"] dest!: set_update_subset_insert [THEN subsetD])
  show "row_of (Some ((the rows)[k := Some (Some row)])) j = (if j = k then map the row else row_of rows j)"
    using xs assms(2) by (simp add: row_of_def nth_list_update)
qed

lemma known_eq:
  assumes "tables_ok b" and "b_sig_ts b = Some (map Some ts)" and "length ts = b_max_signatures b"
  shows "known b k = (if k < b_max_signatures b \<and> st_name (ts ! k) \<noteq> None
     then map_option (Pair (name_of_row (row_of (b_signatures_name b) k))) (row_bytes (b_signatures b) k (st_size (ts ! k)))
     else None)"
proof (cases "k < b_max_signatures b")
  case True
  then have "st_name (ts ! k) = None \<and> st_signature (ts ! k) = None \<or>
      st_name (ts ! k) = Some (NameRow k) \<and> st_signature (ts ! k) = Some k"
    using assms by (auto simp: tables_ok_def)
  with True assms(2,3) show ?thesis by (auto simp: known_def name_of_row_def Let_def)
qed (simp add: known_def)

lemma tables_ok_names:
  assumes ok: "tables_ok b" and k: "k < b_max_signatures b" and row: "length row = b_max_name_len b"
    and lens: "length ls = b_max_signatures b"
  defines "b' \<equiv> b\<lparr>b_signatures_name_length := Some ls,
      b_signatures_name := Some ((the (b_signatures_name b))[k := Some (Some row)])\<rparr>"
  shows "tables_ok b'" and "row_of (b_signatures_name b') k = map the row" and "j \<noteq> k \<Longrightarrow> known b' j = known b j"
proof -
  obtain ts where ts: "b_sig_ts b = Some (map Some ts)" "length ts = b_max_signatures b"
    using ok by (auto simp: tables_ok_def)
  have rows: "rows_ok (b_max_signatures b) (b_max_name_len b) (b_signatures_name b)" using ok by (simp add: tables_ok_def)
  show ok': "tables_ok b'" using ok lens rows_ok_put(1) [OF rows k row] by (auto simp: tables_ok_def b'_def)
  show "row_of (b_signatures_name b') k = map the row" using rows_ok_put(2) [OF rows k row] by (simp add: b'_def)
  show "known b' j = known b j" if "j \<noteq> k"
    using known_eq [OF ok ts, of j] known_eq [OF ok', of ts j] ts that rows_ok_put(2) [OF rows k row, of j]
    by (auto simp: b'_def)
qed

lemma tables_ok_signature:
  assumes ok: "tables_ok b" and k: "k < b_max_signatures b" and row: "length row = b_max_sig_len b"
    and lens: "length ls = b_max_signatures b" and t: "st_signature t = Some k" "st_name t = Some (NameRow k)"
  defines "b' \<equiv> b\<lparr>b_signatures_length := Some ls,
      b_signatures := Some ((the (b_signatures b))[k := Some (Some row)]),
      b_sig_ts := Some ((the (b_sig_ts b))[k := Some t])\<rparr>"
  shows "tables_ok b'"
    and "row = map Some bs @ pad \<Longrightarrow> st_size t = int (length bs) \<Longrightarrow>
      known b' = (known b)(k \<mapsto> (name_of_row (row_of (b_signatures_name b) k), bs))"
proof -
  obtain ts where ts: "b_sig_ts b = Some (map Some ts)" "length ts = b_max_signatures b"
    "\<forall>k<length ts. st_name (ts ! k) = None \<and> st_signature (ts ! k) = None \<or>
          st_name (ts ! k) = Some (NameRow k) \<and> st_signature (ts ! k) = Some k"
    using ok by (auto simp: tables_ok_def)
  have rows: "rows_ok (b_max_signatures b) (b_max_sig_len b) (b_signatures b)" using ok by (simp add: tables_ok_def)
  have ts': "b_sig_ts b' = Some (map Some (ts[k := t]))" using ts(1) by (simp add: b'_def map_update)
  have "\<forall>j<length ts. st_name (ts[k := t] ! j) = None \<and> st_signature (ts[k := t] ! j) = None \<or>
          st_name (ts[k := t] ! j) = Some (NameRow j) \<and> st_signature (ts[k := t] ! j) = Some j"
    using ts(2,3) k t by (simp add: nth_list_update)
  then show ok': "tables_ok b'"
    using ok lens rows_ok_put(1) [OF rows k row] ts' ts(2)
    by (auto simp: tables_ok_def b'_def intro!: exI [of _ "ts[k := t]"])
  obtain xs where xs: "b_signatures b = Some xs" "k < length xs" using rows k by (auto simp: rows_ok_def)
  show "known b' = (known b)(k \<mapsto> (name_of_row (row_of (b_signatures_name b) k), bs))"
    if bs: "row = map Some bs @ pad" "st_size t = int (length bs)"
  proof
    show "known b' j = ((known b)(k \<mapsto> (name_of_row (row_of (b_signatures_name b) k), bs))) j" for j
      using known_eq [OF ok ts(1,2), of j] known_eq [OF ok' ts', of j] ts(2) k t bs(2)
        row_bytes_put [OF xs(2) bs(2) [symmetric] bs(1)] row_bytes_other [of j k xs]
      by (cases "j = k") (auto simp: b'_def nth_list_update xs(1))
  qed
qed

text \<open>What is copied out of the buffer.\<close>

lemma copy_input:
  assumes "buffer_ok b" and c: "b_c b = Some c" and d: "drop j (input_of b) = xs @ post" and j: "j \<le> b_size b"
  shows "j + length xs \<le> length c" and "take (length xs) (drop j c) = map Some xs" and "j + length xs \<le> b_size b"
proof -
  have b: "b_size b \<le> length c" "None \<notin> set (take (b_size b) c)" using assms(1) c by (auto simp: buffer_ok_def)
  have len: "length (input_of b) = b_size b" using b(1) c by (simp add: input_of_def)
  have "map (Some \<circ> the) ys = ys" if "None \<notin> set ys" for ys :: "byte option list"
    using that by (induction ys) auto
  then have input: "map Some (input_of b) = take (b_size b) c" using b(2) c by (simp add: input_of_def)
  show le: "j + length xs \<le> b_size b" using drop_appendD(1) [OF d] len j by simp
  then show "j + length xs \<le> length c" using b(1) by simp
  have "take (length xs) (drop j c) = take (length xs) (drop j (take (b_size b) c))"
    using le by (simp add: drop_take min_absorb1)
  also have "\<dots> = map Some (take (length xs) (drop j (input_of b)))" by (simp flip: input add: take_map drop_map)
  finally show "take (length xs) (drop j c) = map Some xs" using d by simp
qed

lemma wp_accept_sample_signature:
  assumes b: "parsing b (number_bytes L @ type_bytes t @ rest) [] fl b" and L: "0 \<le> L" "L \<le> INT_MAX" and t: "type_ok t"
    and mem: "plenty (b_memory b)" and room: "3 \<le> b_stacksize b"
    and ok: "tables_ok b" and k: "sig_slot uid = int k" "k < b_max_signatures b"
    and fit: "length (number_bytes L @ type_bytes t) \<le> b_max_sig_len b"
    and Q: "\<And>b'. parsing b' rest [] (fl \<or> varsize t) b' \<Longrightarrow> file_frame b' = file_frame b \<Longrightarrow> tables_ok b' \<Longrightarrow>
      known b' = (known b)(k \<mapsto> (name_of_row (row_of (b_signatures_name b) k), number_bytes L @ type_bytes t)) \<Longrightarrow> Q True b'"
  shows "wp (accept_signature PKG_SAMPLE_DECL (u32_of_int (b_idx b)) uid (NameRow k)) Q b"
  unfolding accept_signature_def wp_andthen [of get_varint] wp_andthen [of accept_type] wp_andthen [of pop_val]
proof (rule wp_get_varint [OF b L], rule wp_accept_type_parses [OF parses_type(1) [OF mem t]], assumption, use room in simp,
    rule wp_pop_val, assumption, rule wp_pop_val, assumption, goal_cases)
  case (1 _ _ _ _ d)
  let ?sig = "number_bytes L @ type_bytes t"
  note d = 1(4)
  have f: "frame d = frame b" using d by (rule parsing_frame)
  have d': "parsing d rest [] (fl \<or> varsize t) d" using d by (rule parsing_refl)
  have b': "parsing b (?sig @ rest) [] fl b" using b by simp
  obtain i where i: "b_idx b = int i" "i + length (?sig @ rest) = b_size b" "int (b_size b) \<le> INT_MAX"
    "drop i (input_of b) = ?sig @ rest" using b' by (rule parsing_at)
  have idx: "b_idx d = int (i + length ?sig)" using parsing_idx [OF d] i(2) by simp
  have ok_d: "tables_ok d" using ok tables_ok_frame [OF f] by simp
  have kd: "k < b_max_signatures d" "length ?sig \<le> b_max_sig_len d"
    using k(2) fit frame_fields [OF f] by simp_all
  obtain rows row where row: "b_signatures d = Some rows" "length rows = b_max_signatures d"
    "rows ! k = Some (Some row)" "length row = b_max_sig_len d"
    using ok_d rows_ok_get kd(1) by (metis tables_ok_def)
  obtain ls where ls: "b_signatures_length d = Some ls" "length ls = b_max_signatures d"
    using ok_d by (auto simp: tables_ok_def)
  obtain ts where ts: "b_sig_ts d = Some (map Some ts)" "length ts = b_max_signatures d"
    using ok_d by (auto simp: tables_ok_def)
  obtain c where c: "b_c b = Some c" "buffer_ok b" using b by (auto simp: parsing_def buffer_ok_def)
  have i_le: "i \<le> b_size b" using i(2) by simp
  note copy = copy_input [OF c(2,1) i(4) i_le]
  let ?len = "u32_of_int (b_idx d) - u32_of_int (b_idx b)"
  have len: "?len = u32_of_int (int (length ?sig))" using i(1) idx by (simp add: u32_of_int_def)
  have fits: "int (length ?sig) \<le> INT_MAX" using i(2,3) by simp
  then have len': "unat (u32_of_int (int (length ?sig))) = length ?sig" "uint (u32_of_int (int (length ?sig))) = int (length ?sig)"
    "int_of_u32 (u32_of_int (int (length ?sig))) = int (length ?sig)"
    by (simp_all only: u32_of_len int_of_u32_of_int uint_nat) (simp add: INT_MIN_def)
  have start: "uint (u32_of_int (b_idx b)) = int i"
    using i by (simp add: u32_of_int_def INT_MAX_def unsigned_of_nat take_bit_nat_eq_self)
  let ?row = "map Some ?sig @ drop (length ?sig) row"
  let ?t = "(ts ! k)\<lparr>st_size := int (length ?sig), st_signature := Some k, st_name := Some (NameRow k)\<rparr>"
  let ?upd = "\<lambda>d. d\<lparr>b_signatures_length := Some (ls[k := Some ?len]), b_signatures := Some ((the (b_signatures d))[k := Some (Some ?row)]),
      b_sig_ts := Some ((the (b_sig_ts d))[k := Some ?t])\<rparr>"
  have "length ?row = b_max_sig_len d" "length (ls[k := Some ?len]) = b_max_signatures d" using row(4) kd(2) ls(2) by simp_all
  note upd = tables_ok_signature [OF ok_d kd(1) this, of ?t]
  have "Q True (?upd d)"
  proof (rule Q)
    show "parsing (?upd d) rest [] (fl \<or> varsize t) (?upd d)" using d' by (rule parsing_tables) (rule refl)
    show "file_frame (?upd d) = file_frame b" using file_frame_frame [OF f] by simp
    show "tables_ok (?upd d)" by (rule upd(1)) simp_all
    show "known (?upd d) = (known b)(k \<mapsto> (name_of_row (row_of (b_signatures_name b) k), ?sig))"
      using upd(2) [of ?sig "drop (length ?sig) row"] known_frame [OF f] by (simp add: frame_fields [OF f])
  qed
  then show ?case
    using k kd row ls ts copy(1,2) c(1) frame_fields(1) [OF f] len'
    by (simp add: wp_simps Let_def len start get_sig_t_def)
qed

lemma wp_accept_other_signature:
  assumes b: "parsing b0 (number_bytes L @ type_bytes t @ rest) [] fl b" and L: "0 \<le> L" "L \<le> INT_MAX" and t: "type_ok t"
    and mem: "plenty (b_memory b0)" and room: "3 \<le> b_stacksize b0"
    and type: "type = PKG_SAMPLE_REF \<or> type = PKG_TYPE_DECL"
    and Q: "\<And>b'. parsing b0 rest [] (fl \<or> varsize t) b' \<Longrightarrow> Q True b'"
  shows "wp (accept_signature type start uid name) Q b"
  unfolding accept_signature_def wp_andthen [of get_varint] wp_andthen [of accept_type] wp_andthen [of pop_val]
  by (rule wp_get_varint [OF b L], rule wp_accept_type_parses [OF parses_type(1) [OF mem t]], assumption, use room in simp,
      rule wp_pop_val, assumption, rule wp_pop_val, assumption)
    (use type Q in \<open>auto simp: wp_ret pkg_defs tag_defs u32_of_int_def\<close>)

lemma wp_accept_user_id:
  assumes b: "parsing b0 (number_bytes n @ rest) stk fl b" and n: "LABCOMM_USER \<le> n" "n \<le> INT_MAX"
    and room: "length stk + 2 \<le> b_stacksize b0"
    and Q: "\<And>b'. parsing b0 rest (u32_of_int n # stk) fl b' \<Longrightarrow> Q True b'"
  shows "wp accept_user_id Q b"
  unfolding accept_user_id_def wp_andthen
  by (rule wp_peek_varint [OF b], use n in \<open>simp_all add: tag_defs\<close>)
    (unfold wp_andthen, rule wp_advancen [OF b refl], rule wp_push_val, assumption, rule room, simp add: wp_ret Q)

text \<open>A declaration: the index, the intentions and the type with the length of its bytes.\<close>

definition declaration_payload :: "int \<Rightarrow> intents \<Rightarrow> ty \<Rightarrow> byte list" where
  "declaration_payload idx is t =
     number_bytes idx @ intents_bytes is @ number_bytes (int (length (type_bytes t))) @ type_bytes t"

lemma declaration_payload_definition:
  "declaration_payload idx [([], name)] t = definition_payload idx name (type_bytes t)"
  by (simp add: declaration_payload_def definition_payload_def intents_bytes_name)

lemma name_found:
  assumes d: "drop i input = intents_bytes is @ rest" and i: "i \<le> length input" and len: "int (length input) \<le> INT_MAX"
    and place: "(npos, nlen) = name_place (length input) rest is (0, 0)"
  shows "nlen = int (length (intents_name is))"
    and "\<exists>a post. uint (u32_of_int npos + word_of_nat (labcomm2014_varint_sizeof (u32_of_int nlen))) = int a \<and>
      a \<le> length input \<and> drop a input = intents_name is @ post"
proof -
  have "drop i input = number_bytes (int (length is)) @ concat (map intent_bytes is) @ rest"
    using d by (simp add: intents_bytes_def)
  note tail = drop_appendD [OF this i]
  have le: "i + length (number_bytes (int (length is))) \<le> length input" using tail(1) by simp
  note found = name_place_found [OF tail(2) le, of "(0, 0)"]
  have fit: "uint (word_of_nat n :: u32) = int n" if "n \<le> length input" for n
    using that len by (simp add: INT_MAX_def unsigned_of_nat take_bit_nat_eq_self)
  have "nlen = int (length (intents_name is)) \<and>
    (\<exists>a post. uint (u32_of_int npos + word_of_nat (labcomm2014_varint_sizeof (u32_of_int nlen))) = int a \<and>
      a \<le> length input \<and> drop a input = intents_name is @ post)"
  proof (cases "find_name is")
    case None
    have "1 \<le> length input" using tail(1) length_number_bytes_pos [of "int (length is)"] by linarith
    then show ?thesis
      using None found place fit [of 1]
      by (auto simp: intents_name_def u32_of_int_def labcomm2014_varint_sizeof_def intro!: exI [of _ 1])
  next
    case (Some v)
    then obtain j post where j: "npos = int j" "nlen = int (length v)" "j \<le> length input" "drop j input = string_bytes v @ post"
      using found place by auto
    then have dj: "drop j input = number_bytes (int (length v)) @ v @ post" by (simp add: string_bytes_def)
    note at = drop_appendD [OF dj j(3)]
    let ?a = "j + length (number_bytes (int (length v)))"
    have a: "?a \<le> length input" using at(1) by simp
    have "u32_of_int npos + word_of_nat (labcomm2014_varint_sizeof (u32_of_int nlen)) = word_of_nat ?a"
      using j by (simp add: u32_of_int_def varint_sizeof_eq number_bytes_def)
    then show ?thesis using Some j at(2) a fit [OF a] by (auto simp: intents_name_def intro!: exI [of _ ?a])
  qed
  then show "nlen = int (length (intents_name is))"
    and "\<exists>a post. uint (u32_of_int npos + word_of_nat (labcomm2014_varint_sizeof (u32_of_int nlen))) = int a \<and>
      a \<le> length input \<and> drop a input = intents_name is @ post" by blast+
qed

section \<open>Declarations\<close>

definition sig_bytes :: "ty \<Rightarrow> byte list" where
  "sig_bytes t = number_bytes (int (length (type_bytes t))) @ type_bytes t"

text \<open>The common start of all declarations.\<close>

lemma wp_accept_decl_start:
  assumes b: "parsing b (declaration_payload idx is t @ rest) [] fl b"
    and idx: "LABCOMM_USER \<le> idx" "idx \<le> INT_MAX" and "is": "intents_ok is"
    and mem: "plenty (b_memory b)" and room: "3 \<le> b_stacksize b"
    and Q: "\<And>d npos nlen. parsing b (sig_bytes t @ rest) [] fl d \<Longrightarrow>
      nlen = int (length (intents_name is)) \<Longrightarrow>
      \<exists>a post. uint (u32_of_int npos + word_of_nat (labcomm2014_varint_sizeof (u32_of_int nlen))) = int a \<and>
        a \<le> b_size b \<and> drop a (input_of b) = intents_name is @ post \<Longrightarrow>
      wp (f (u32_of_int idx) (u32_of_int (b_idx d)) (u32_of_int npos) (u32_of_int nlen)) Q d"
  shows "wp (andthen accept_user_id (\<lambda>ok. if ok then
      andthen pop_val (\<lambda>uid. andthen accept_intentions (\<lambda>_.
      andthen (gets (\<lambda>d. u32_of_int (b_idx d))) (\<lambda>start.
      andthen pop_val (\<lambda>nstart. andthen pop_val (\<lambda>nlen. f uid start nstart nlen))))) else parser_error)) Q b"
proof -
  have b1: "parsing b (number_bytes idx @ intents_bytes is @ sig_bytes t @ rest) [] fl b"
    using b by (simp add: declaration_payload_def sig_bytes_def)
  show ?thesis
    unfolding wp_andthen
  proof (rule wp_accept_user_id [OF b1 idx], use room in simp, unfold if_True wp_andthen, rule wp_pop_val, assumption,
      rule wp_accept_intentions [OF _ "is" mem], assumption, use room in simp, unfold wp_gets, rule wp_pop_val, assumption,
      rule wp_pop_val, assumption, goal_cases)
    case (1 _ d1 d2 npos nlen d3 d)
    obtain i where i: "b_idx d1 = int i" "i + length (intents_bytes is @ sig_bytes t @ rest) = b_size d1"
      "int (b_size d1) \<le> INT_MAX" "drop i (input_of d1) = intents_bytes is @ sig_bytes t @ rest"
      using 1(2) by (rule parsing_at)
    have same: "input_of d1 = input_of b" "b_size d1 = b_size b" "length (input_of b) = b_size b"
      using parsing_fields(1,2) [OF 1(2)] b1 by (auto simp: input_of_def parsing_def buffer_ok_def)
    have "b_idx d2 = b_idx d" using parsing_idx [OF 1(3)] parsing_idx [OF 1(6)] by simp
    moreover have "i \<le> b_size b" using i(2) same(2) by simp
    ultimately show ?case
      using Q [OF 1(6)] name_found [of i "input_of b" "is" "sig_bytes t @ rest" npos nlen] i(3,4) 1(4) same by simp
  qed
qed

lemma wp_accept_other_decl:
  assumes b: "parsing b (declaration_payload idx is t @ rest) [] fl b"
    and idx: "LABCOMM_USER \<le> idx" "idx \<le> INT_MAX" and "is": "intents_ok is"
    and t: "type_ok t" "int (length (type_bytes t)) \<le> INT_MAX"
    and mem: "plenty (b_memory b)" and room: "3 \<le> b_stacksize b"
    and type: "type = PKG_SAMPLE_REF \<or> type = PKG_TYPE_DECL"
    and Q: "\<And>b'. parsing b rest [] (fl \<or> varsize t) b' \<Longrightarrow> Q True b'"
  shows "wp (accept_decl type) Q b"
  unfolding accept_decl_def
proof (rule wp_accept_decl_start [OF b idx "is" mem room], goal_cases)
  case (1 d npos nlen)
  have "type \<noteq> PKG_SAMPLE_DECL" using type by (auto simp: pkg_defs tag_defs u32_of_int_def)
  moreover have "parsing b (number_bytes (int (length (type_bytes t))) @ type_bytes t @ rest) [] fl d"
    using 1(1) by (simp add: sig_bytes_def)
  ultimately show ?case
    by (simp add: Let_def) (rule wp_accept_other_signature [OF _ _ t(2,1) mem room type], assumption, simp, rule Q)
qed

lemma wp_accept_sample_decl:
  assumes b: "parsing b (declaration_payload idx is t @ rest) [] fl b"
    and idx: "LABCOMM_USER \<le> idx" "idx \<le> INT_MAX" and "is": "intents_ok is"
    and t: "type_ok t" "int (length (type_bytes t)) \<le> INT_MAX"
    and mem: "plenty (b_memory b)" and room: "3 \<le> b_stacksize b"
    and ok: "tables_ok b" and k: "k = nat (idx - LABCOMM_USER)" "k < b_max_signatures b"
    and fit: "length (sig_bytes t) \<le> b_max_sig_len b" "length (intents_name is) < b_max_name_len b"
    and Q: "\<And>b'. parsing b' rest [] (fl \<or> varsize t) b' \<Longrightarrow> file_frame b' = file_frame b \<Longrightarrow> tables_ok b' \<Longrightarrow>
      known b' = (known b)(k \<mapsto> (name_of_row (intents_name is), sig_bytes t)) \<Longrightarrow> Q True b'"
  shows "wp (accept_decl PKG_SAMPLE_DECL) Q b"
  unfolding accept_decl_def
proof (rule wp_accept_decl_start [OF b idx "is" mem room], goal_cases)
  case (1 d npos nlen)
  let ?name = "intents_name is" and ?at = "u32_of_int npos + word_of_nat (labcomm2014_varint_sizeof (u32_of_int nlen))"
  let ?n = "length ?name"
  have f: "frame d = frame b" using 1(1) by (rule parsing_frame)
  have d: "parsing d (sig_bytes t @ rest) [] fl d" using 1(1) by (rule parsing_refl)
  have slot: "sig_slot (u32_of_int idx) = int k"
    using idx k(1) unfolding sig_slot_def u32_of_int_def wi_hom_sub unsigned_of_int
    by (subst take_bit_int_eq_self) (simp_all add: tag_defs INT_MAX_def)
  have ok_d: "tables_ok d" using ok tables_ok_frame [OF f] by simp
  have kd: "k < b_max_signatures d" "?n < b_max_name_len d"
    using k(2) fit(2) frame_fields [OF f] by simp_all
  obtain rows row where row: "b_signatures_name d = Some rows" "length rows = b_max_signatures d"
    "rows ! k = Some (Some row)" "length row = b_max_name_len d"
    using ok_d rows_ok_get kd(1) by (metis tables_ok_def)
  obtain ls where ls: "b_signatures_name_length d = Some ls" "length ls = b_max_signatures d"
    using ok_d by (auto simp: tables_ok_def)
  obtain c where c: "b_c b = Some c" "buffer_ok b" using b by (auto simp: parsing_def buffer_ok_def)
  obtain a post where a: "uint ?at = int a" "a \<le> b_size b" "drop a (input_of b) = ?name @ post" using 1(3) by blast
  note copy = copy_input [OF c(2,1) a(3,2)]
  have fits: "int ?n \<le> INT_MAX" using copy(3) c(2) by (auto simp: buffer_ok_def)
  have nlen: "unat (u32_of_int nlen) = ?n" "uint (u32_of_int nlen) = int ?n"
    unfolding 1(2) using fits by (simp_all only: u32_of_len uint_nat)
  let ?row = "(map Some ?name @ drop ?n row)[?n := Some 0]"
  let ?upd = "d\<lparr>b_signatures_name_length := Some (ls[k := Some (u32_of_int nlen)]),
      b_signatures_name := Some ((the (b_signatures_name d))[k := Some (Some ?row)])\<rparr>"
  have lens: "length ?row = b_max_name_len d" "length (ls[k := Some (u32_of_int nlen)]) = b_max_signatures d"
    using row(4) kd(2) ls(2) by simp_all
  note upd = tables_ok_names [OF ok_d kd(1) lens]
  have "map the ?row = ?name @ 0 # map the (drop (Suc ?n) row)"
    using row(4) kd(2) by (simp add: list_update_append map_update) (simp add: drop_map Cons_nth_drop_Suc [symmetric])
  then have name: "name_of_row (row_of (b_signatures_name ?upd) k) = name_of_row ?name"
    unfolding upd(2) name_of_row_def by (simp add: takeWhile_tail)
  have "wp (accept_signature PKG_SAMPLE_DECL (u32_of_int (b_idx ?upd)) (u32_of_int idx) (NameRow k)) Q ?upd"
  proof (rule wp_accept_sample_signature [where t = t and rest = rest and fl = fl and L = "int (length (type_bytes t))"])
    show "parsing ?upd (number_bytes (int (length (type_bytes t))) @ type_bytes t @ rest) [] fl ?upd"
      using parsing_names [OF d refl] by (simp add: sig_bytes_def)
    fix b'
    assume b': "parsing b' rest [] (fl \<or> varsize t) b'" "file_frame b' = file_frame ?upd" "tables_ok b'"
      "known b' = (known ?upd)(k \<mapsto> (name_of_row (row_of (b_signatures_name ?upd) k), number_bytes (int (length (type_bytes t))) @ type_bytes t))"
    show "Q True b'"
    proof (rule Q [OF b'(1) _ b'(3)])
      show "file_frame b' = file_frame b" using b'(2) file_frame_frame [OF f] by simp
      show "known b' = (known b)(k \<mapsto> (name_of_row ?name, sig_bytes t))"
        unfolding b'(4) name sig_bytes_def using upd(3) known_frame [OF f] by (auto simp: fun_eq_iff)
    qed
  qed (use t mem room upd(1) slot kd fit frame_fields [OF f] in \<open>simp_all add: sig_bytes_def plenty_def\<close>)
  then show ?case
    using kd row ls copy(1,2) c(1) frame_fields(1) [OF f] a(1) slot nlen by (simp add: wp_simps Let_def)
qed

section \<open>Packets\<close>

datatype decl_kind = Sample_def | Sample_ref_def | Type_def

primrec decl_tag :: "decl_kind \<Rightarrow> int" where
  "decl_tag Sample_def = LABCOMM_SAMPLE_DEF"
| "decl_tag Sample_ref_def = LABCOMM_SAMPLE_REF"
| "decl_tag Type_def = LABCOMM_TYPE_DEF"

datatype pkt = Version cstring | Declare decl_kind int intents ty | Bind_type int int | Data int "byte list"

primrec pkt_bytes :: "pkt \<Rightarrow> byte list" where
  "pkt_bytes (Version v) = packet_bytes LABCOMM_VERSION (string_bytes v)"
| "pkt_bytes (Declare k idx is t) = packet_bytes (decl_tag k) (declaration_payload idx is t)"
| "pkt_bytes (Bind_type s t) = packet_bytes LABCOMM_TYPE_BINDING (binding_payload s t)"
| "pkt_bytes (Data idx payload) = packet_bytes idx payload"

text \<open>A packet is well formed, and the tables of the parser have room for a sample that is defined.\<close>

definition sample_fits :: "nat \<Rightarrow> nat \<Rightarrow> nat \<Rightarrow> int \<Rightarrow> intents \<Rightarrow> ty \<Rightarrow> bool" where
  "sample_fits num_signatures max_name_len max_sig_len idx is t \<longleftrightarrow>
     nat (idx - LABCOMM_USER) < num_signatures \<and>
     length (sig_bytes t) \<le> max_sig_len \<and> length (intents_name is) < max_name_len"

primrec pkt_ok :: "nat \<Rightarrow> nat \<Rightarrow> nat \<Rightarrow> pkt \<Rightarrow> bool" where
  "pkt_ok ns nl sl (Version v) \<longleftrightarrow> True"
| "pkt_ok ns nl sl (Declare k idx is t) \<longleftrightarrow> LABCOMM_USER \<le> idx \<and> idx \<le> INT_MAX \<and> intents_ok is \<and> type_ok t \<and>
     (k = Sample_def \<longrightarrow> sample_fits ns nl sl idx is t)"
| "pkt_ok ns nl sl (Bind_type s t) \<longleftrightarrow> 0 \<le> s \<and> s \<le> INT_MAX \<and> 0 \<le> t \<and> t \<le> INT_MAX"
| "pkt_ok ns nl sl (Data idx payload) \<longleftrightarrow> LABCOMM_USER \<le> idx \<and> idx \<le> INT_MAX"

abbreviation pkt_fits :: "sig_parser_t \<Rightarrow> pkt \<Rightarrow> bool" where
  "pkt_fits b \<equiv> pkt_ok (b_max_signatures b) (b_max_name_len b) (b_max_sig_len b)"

primrec pkt_known :: "pkt \<Rightarrow> (nat \<Rightarrow> (cstring \<times> byte list) option) \<Rightarrow> nat \<Rightarrow> (cstring \<times> byte list) option" where
  "pkt_known (Version v) m = m"
| "pkt_known (Declare k idx is t) m =
     (if k = Sample_def then m(nat (idx - LABCOMM_USER) \<mapsto> (name_of_row (intents_name is), sig_bytes t)) else m)"
| "pkt_known (Bind_type s t) m = m"
| "pkt_known (Data idx payload) m = m"

lemma parsing_fits: "parsing b0 xs stk fl b \<Longrightarrow> int (length xs) \<le> INT_MAX"
  by (erule parsing_at) simp

lemma wp_accept_packet_tag:
  assumes "parsing b0 (number_bytes tag @ rest) stk fl b" and "0 \<le> tag" "tag \<le> INT_MAX"
    and "wp (accept_packet_switch (u32_of_int tag) (length (number_bytes tag))) Q b"
  shows "wp accept_packet Q b"
  unfolding accept_packet_def wp_andthen
  by (rule wp_peek_varint [OF assms(1-3)]) (use assms(4) in simp)

lemma pkg_tags:
  "u32_of_int LABCOMM_VERSION = PKG_VERSION" "u32_of_int LABCOMM_SAMPLE_DEF = PKG_SAMPLE_DECL"
  "u32_of_int LABCOMM_SAMPLE_REF = PKG_SAMPLE_REF" "u32_of_int LABCOMM_TYPE_DEF = PKG_TYPE_DECL"
  "u32_of_int LABCOMM_TYPE_BINDING = PKG_TYPE_BINDING"
  by (simp_all add: pkg_defs)

lemma pkg_values: "PKG_VERSION = 1" "PKG_SAMPLE_DECL = 2" "PKG_SAMPLE_REF = 3" "PKG_TYPE_DECL = 4" "PKG_TYPE_BINDING = 5"
  by (simp_all add: pkg_defs tag_defs u32_of_int_def)

lemma accept_packet_switches:
  "accept_packet_switch PKG_VERSION n =
     andthen (advancen n) (\<lambda>_. andthen get_varint (\<lambda>_. andthen accept_string (\<lambda>_. andthen pop_val (\<lambda>_. ret True))))"
  "type \<in> {PKG_SAMPLE_DECL, PKG_SAMPLE_REF, PKG_TYPE_DECL} \<Longrightarrow> accept_packet_switch type n =
     andthen (modify (\<lambda>d. d\<lparr>b_current_decl_is_varsize := False\<rparr>)) (\<lambda>_.
     andthen (advancen n) (\<lambda>_. andthen get_varint (\<lambda>_. andthen (accept_decl type) (\<lambda>_. ret True))))"
  "accept_packet_switch PKG_TYPE_BINDING n =
     andthen (advancen n) (\<lambda>_. andthen get_varint (\<lambda>_. andthen get_varint (\<lambda>_. andthen get_varint (\<lambda>_. ret True))))"
  by (auto simp: accept_packet_switch_def pkg_values Let_def)

lemma accept_packet_switch_data:
  assumes "LABCOMM_USER \<le> idx" and "idx \<le> INT_MAX"
  shows "accept_packet_switch (u32_of_int idx) n = andthen accept_sample_data (\<lambda>_. ret True)"
proof -
  have "uint (u32_of_int idx) = idx"
    using assms by (simp add: u32_of_int_def tag_defs INT_MAX_def unsigned_of_int take_bit_int_eq_self)
  then have "64 \<le> u32_of_int idx" using assms(1) by (simp add: word_le_def tag_defs)
  moreover from this have "u32_of_int idx \<notin> {1, 2, 3, 4, 5}" by (auto simp: word_le_nat_alt)
  ultimately show ?thesis
    by (simp add: accept_packet_switch_def pkg_values Let_def tag_defs u32_of_int_def)
qed

text \<open>The tag and the length of a packet.\<close>

lemma at_packet_start:
  assumes "at_packet b0 (packet_bytes tag payload @ rest) m b"
  shows "parsing b (number_bytes tag @ number_bytes (int (length payload)) @ payload @ rest) []
      (b_current_decl_is_varsize b) b"
    and "int (length payload) \<le> INT_MAX"
proof -
  show b: "parsing b (number_bytes tag @ number_bytes (int (length payload)) @ payload @ rest) []
      (b_current_decl_is_varsize b) b"
    using at_packet_parsing [OF assms] by (simp add: packet_bytes_def)
  show "int (length payload) \<le> INT_MAX" using parsing_fits [OF b] by simp
qed

lemma wp_packet_start:
  assumes "parsing b (number_bytes tag @ number_bytes n @ rest) stk fl b1" and "0 \<le> n" "n \<le> INT_MAX"
    and "\<And>b'. parsing b rest stk fl b' \<Longrightarrow> wp (f n) Q b'"
  shows "wp (andthen (advancen (length (number_bytes tag))) (\<lambda>_. andthen get_varint f)) Q b1"
  unfolding wp_andthen
  by (rule wp_advancen [OF assms(1) refl], rule wp_get_varint [OF _ assms(2,3)], assumption, rule assms(4))

lemma wp_accept_declaration:
  assumes at: "at_packet b0 (pkt_bytes (Declare k idx is t) @ rest) m b" and ok: "pkt_fits b0 (Declare k idx is t)"
    and mem: "plenty (b_memory b)" and room: "3 \<le> b_stacksize b"
    and Q: "\<And>b'. at_packet b0 rest (pkt_known (Declare k idx is t) m) b' \<Longrightarrow> Q True b'"
  shows "wp accept_packet Q b"
proof -
  let ?payload = "declaration_payload idx is t" and ?b = "b\<lparr>b_current_decl_is_varsize := False\<rparr>"
  have tag: "0 \<le> decl_tag k" "decl_tag k \<le> INT_MAX" "u32_of_int (decl_tag k) \<in> {PKG_SAMPLE_DECL, PKG_SAMPLE_REF, PKG_TYPE_DECL}"
    by (cases k; simp add: tag_defs INT_MAX_def pkg_defs)+
  have "at_packet b0 (packet_bytes (decl_tag k) ?payload @ rest) m b" using at by simp
  note b = at_packet_start [OF this]
  have b1: "parsing b (number_bytes (decl_tag k) @ number_bytes (int (length ?payload)) @ ?payload @ rest) [] False ?b"
    using b(1) by (simp add: parsing_def)
  have t: "LABCOMM_USER \<le> idx" "idx \<le> INT_MAX" "intents_ok is" "type_ok t" "int (length (type_bytes t)) \<le> INT_MAX"
    using ok b(2) by (simp_all add: declaration_payload_def)
  show ?thesis
  proof (rule wp_accept_packet_tag [OF b(1) tag(1,2)], unfold accept_packet_switches(2) [OF tag(3)] wp_andthen [of "modify _"]
      wp_modify, rule wp_packet_start [OF b1 _ b(2)], simp, unfold wp_andthen, goal_cases)
    case (1 b2)
    have b2: "parsing b2 (?payload @ rest) [] False b2" using 1 by (rule parsing_refl)
    have m2: "plenty (b_memory b2)" "3 \<le> b_stacksize b2"
      using mem room parsing_fields(4,15) [OF 1] by (simp_all add: plenty_def)
    have at2: "at_packet b0 (?payload @ rest) m b2" using at 1 by (rule at_packet_moved)
    show ?case
    proof (cases "k = Sample_def")
      case True
      have fits: "nat (idx - LABCOMM_USER) < b_max_signatures b2" "length (sig_bytes t) \<le> b_max_sig_len b2"
          "length (intents_name is) < b_max_name_len b2"
        using ok True file_frame_fields [of b2 b0] at2 by (simp_all add: sample_fits_def at_packet_def)
      have "u32_of_int (decl_tag k) = PKG_SAMPLE_DECL" using True by (simp add: pkg_tags)
      then show ?thesis
        using at2 True by (auto simp: wp_ret at_packet_def parsing_def intro!: Q
            wp_accept_sample_decl [OF b2 t m2 _ refl fits])
    next
      case False
      then have "u32_of_int (decl_tag k) = PKG_SAMPLE_REF \<or> u32_of_int (decl_tag k) = PKG_TYPE_DECL"
        by (cases k) (simp_all add: pkg_tags)
      then show ?thesis
        by (rule wp_accept_other_decl [OF b2 t m2])
          (use False in \<open>auto simp: wp_ret intro!: Q at_packet_moved [OF at2]\<close>)
    qed
  qed
qed

lemma wp_accept_packet:
  assumes at: "at_packet b0 (pkt_bytes p @ rest) m b" and ok: "pkt_fits b0 p"
    and mem0: "plenty (b_memory b0)" and room0: "3 \<le> b_stacksize b0"
    and Q: "\<And>b'. at_packet b0 rest (pkt_known p m) b' \<Longrightarrow> Q True b'"
  shows "wp accept_packet Q b"
proof -
  have mem: "plenty (b_memory b)" and room: "3 \<le> b_stacksize b"
    using mem0 room0 file_frame_fields(4,7) [of b b0] at by (simp_all add: plenty_def at_packet_def)
  have quiet: "Q True b'" if "parsing b rest [] fl b'" and "pkt_known p m = m" for fl b'
    using Q [of b'] at_packet_moved [OF at that(1)] that(2) by simp
  show ?thesis
  proof (cases p)
    case (Declare k idx "is" t)
    show ?thesis using at ok Q unfolding Declare by (rule wp_accept_declaration [OF _ _ mem room])
  next
    case (Version v)
    then have "at_packet b0 (packet_bytes LABCOMM_VERSION (string_bytes v) @ rest) m b" using at by simp
    note b = at_packet_start [OF this]
    have len: "int (length v) \<le> INT_MAX" using b(2) by (simp add: string_bytes_def)
    show ?thesis
    proof (rule wp_accept_packet_tag [OF b(1)], unfold pkg_tags accept_packet_switches, goal_cases)
      case 3
      show ?case
        by (rule wp_packet_start [OF b(1) _ b(2)], simp, unfold wp_andthen,
            rule wp_accept_string [OF _ len mem], assumption, use room in simp, rule wp_pop_val, assumption, unfold wp_ret)
          (rule quiet, assumption, simp add: Version)
    qed (simp_all add: tag_defs INT_MAX_def)
  next
    case (Bind_type s t)
    then have "at_packet b0 (packet_bytes LABCOMM_TYPE_BINDING (binding_payload s t) @ rest) m b" using at by simp
    note b = at_packet_start [OF this]
    have st: "0 \<le> s" "s \<le> INT_MAX" "0 \<le> t" "t \<le> INT_MAX" using ok Bind_type by simp_all
    show ?thesis
    proof (rule wp_accept_packet_tag [OF b(1)], unfold pkg_tags accept_packet_switches, goal_cases)
      case 3
      show ?case
      proof (rule wp_packet_start [OF b(1) _ b(2)], simp, unfold wp_andthen, goal_cases)
        case (1 b')
        then have b': "parsing b (number_bytes s @ number_bytes t @ rest) [] (b_current_decl_is_varsize b) b'"
          by (simp add: binding_payload_def)
        show ?case
          by (rule wp_get_varint [OF b' st(1,2)], rule wp_get_varint [OF _ st(3,4)], assumption, unfold wp_ret)
            (rule quiet, assumption, simp add: Bind_type)
      qed
    qed (simp_all add: tag_defs INT_MAX_def)
  next
    case (Data idx payload)
    then have "at_packet b0 (packet_bytes idx payload @ rest) m b" using at by simp
    note b = at_packet_start [OF this]
    have idx: "LABCOMM_USER \<le> idx" "idx \<le> INT_MAX" using ok Data by simp_all
    show ?thesis
      by (rule wp_accept_packet_tag [OF b(1) _ idx(2)], use idx in \<open>simp add: tag_defs\<close>,
          unfold accept_packet_switch_data [OF idx] accept_sample_data_def wp_andthen,
          rule wp_accept_user_id [OF b(1) idx], use room in simp, rule wp_pop_val, assumption,
          rule wp_get_varint [OF _ _ b(2)], assumption, simp, rule wp_advancen, assumption,
          use b(2) in simp, unfold wp_ret)
        (rule quiet, assumption, simp add: Data)
  qed
qed

text \<open>A whole file of packets.\<close>

lemma pkt_bytes_neq_Nil: "pkt_bytes p \<noteq> []"
  by (cases p) simp_all

lemma wp_more:
  assumes "parsing b0 rest stk fl b" and "Q (rest \<noteq> []) b"
  shows "wp more_input Q b"
proof -
  obtain i where i: "b_idx b = int i" "i + length rest = b_size b" "int (b_size b) \<le> INT_MAX"
    using parsing_at [OF assms(1)] by metis
  then have "size_t_of_int (b_idx b) < b_size b \<longleftrightarrow> rest \<noteq> []" by (auto simp flip: i(2))
  then show ?thesis using assms(2) by (simp add: more_input_def wp_simps)
qed

lemma wp_accept_packets:
  assumes "at_packet b0 (concat (map pkt_bytes ps)) m b" and "\<forall>p\<in>set ps. pkt_fits b0 p"
    and "plenty (b_memory b0)" and "3 \<le> b_stacksize b0"
  shows "wp accept_packets (\<lambda>_ b'. at_packet b0 [] (fold pkt_known ps m) b') b"
  using assms(1,2)
proof (induction ps arbitrary: m b)
  case Nil
  then show ?case
    by (subst accept_packets_unfold, unfold wp_andthen)
      (rule wp_more [OF at_packet_parsing], auto simp: wp_ret)
next
  case (Cons p ps)
  have b: "at_packet b0 (pkt_bytes p @ concat (map pkt_bytes ps)) m b" using Cons.prems(1) by simp
  have p: "pkt_fits b0 p" "\<forall>p\<in>set ps. pkt_fits b0 p" using Cons.prems(2) by simp_all
  show ?case
    by (subst accept_packets_unfold, unfold wp_andthen, rule wp_more [OF at_packet_parsing [OF b]])
      (auto simp: pkt_bytes_neq_Nil wp_andthen intro!: wp_accept_packet [OF b p(1) assms(3,4)] Cons.IH p(2))
qed

end
