(* ===== verification/LC_SigParserSkip.thy ===== *)
theory LC_SigParserSkip
  imports LC_SigParserPackets
begin

text \<open>
  Skipping a sample by its signature.  The types that it can skip are the basic ones and the arrays of
  basic types of a fixed size; their values are read from the buffer, the type from the signature.
\<close>

section \<open>Reading the signature\<close>

lemma unpack_varint_row:
  assumes d: "drop i xs = code_bytes n @ post" and i: "i \<le> length xs" "int (length xs) \<le> INT_MAX" and n: "uint n \<le> INT_MAX"
  shows "unpack_varint (Some (map Some xs)) (int i) = (ret (uint n, length (code_bytes n)) :: ('s, int \<times> nat) prog)"
proof -
  have bytes: "packed32_bytes n @ post = drop i xs" using d by (simp add: code_bytes_def number_bytes_def)
  note len = drop_appendD(1) [OF bytes [symmetric] i(1)]
  have "map Some xs ! (i + j) = Some (packed32_bytes n ! j)" if "j < length (packed32_bytes n)" for j
  proof -
    have "packed32_bytes n ! j = drop i xs ! j" using that by (simp add: bytes [symmetric] nth_append)
    then show ?thesis using that len by simp
  qed
  then show ?thesis
    using unpack_varint_bytes [of n "map Some xs" i] len i(2) n by (simp add: code_bytes_def number_bytes_def)
qed

lemma wp_skip_dims:
  assumes "drop i xs = concat (map code_bytes ds) @ post" and "i \<le> length xs" and "int (length xs) \<le> INT_MAX"
    and "\<And>d. d \<in> set ds \<Longrightarrow> uint d \<le> INT_MAX"
    and "Q (int (i + length (concat (map code_bytes ds))), nVar + word_of_nat (length (filter (\<lambda>d. d = 0) ds)),
      tot * prod_list (filter (\<lambda>d. d \<noteq> 0) ds)) s"
  shows "wp (skip_dims (Some (map Some xs)) (length ds) (int i) nVar tot) Q s"
  using assms
proof (induction ds arbitrary: i nVar tot)
  case Nil
  then show ?case by (simp add: wp_ret)
next
  case (Cons d ds)
  have d: "drop i xs = code_bytes d @ concat (map code_bytes ds) @ post" using Cons.prems(1) by simp
  note tail = drop_appendD [OF d Cons.prems(2)]
  let ?i = "i + length (code_bytes d)"
  have pos: "int_of_size_t (int i + int (length (code_bytes d))) = int ?i" and le: "?i \<le> length xs"
    using tail(1) Cons.prems(3) by (simp_all add: int_of_size_t_def INT_MIN_def)
  have IH: "wp (skip_dims (Some (map Some xs)) (length ds) (int ?i) nVar' tot') Q s"
    if "Q (int (?i + length (concat (map code_bytes ds))), nVar' + word_of_nat (length (filter (\<lambda>d. d = 0) ds)),
      tot' * prod_list (filter (\<lambda>d. d \<noteq> 0) ds)) s" for nVar' tot'
    using Cons.IH [OF tail(2) le Cons.prems(3) _ that] Cons.prems(4) by simp
  show ?case
    unfolding skip_dims.simps length_Cons unpack_varint_row [OF d Cons.prems(2,3) Cons.prems(4) [OF list.set_intros(1)]]
    using IH [of "nVar + 1" tot] IH [of nVar "tot * d"] Cons.prems(5) pos by (cases "d = 0") (simp_all add: ac_simps u32_of_int_def)
qed

text \<open>The sizes of the variable dimensions are read from the sample.\<close>

lemma wp_skip_vars:
  assumes "parsing b0 (concat (map code_bytes vs) @ rest) stk fl b" and "\<And>v. v \<in> set vs \<Longrightarrow> uint v \<le> INT_MAX"
    and "\<And>b' w'. parsing b0 rest stk fl b' \<Longrightarrow> Q (w', tot * prod_list vs) b'"
  shows "wp (skip_vars (length vs) w tot) Q b"
  using assms
proof (induction vs arbitrary: b w tot)
  case Nil
  then show ?case by (simp add: wp_ret)
next
  case (Cons v vs)
  have b: "parsing b0 (number_bytes (uint v) @ concat (map code_bytes vs) @ rest) stk fl b"
    using Cons.prems(1) by (simp add: code_bytes_def [of v])
  show ?case
    unfolding skip_vars.simps length_Cons wp_andthen
    by (rule wp_get_varint_size [OF b uint_ge_0], use Cons.prems(2) in simp, unfold split_conv u32_of_code,
        rule Cons.IH, assumption) (use Cons.prems in \<open>simp_all add: ac_simps\<close>)
qed

section \<open>Reading the sample\<close>

lemma wp_get_byte:
  assumes b: "parsing b0 (x # rest) stk fl b" and Q: "\<And>b'. parsing b0 rest stk fl b' \<Longrightarrow> Q x b'"
  shows "wp get_byte Q b"
proof -
  obtain c i where c: "b_c b = Some c" "b_idx b = int i" "i + length (x # rest) \<le> length c"
    "i + length (x # rest) = b_size b" "int (b_size b) \<le> INT_MAX"
    "\<And>k. k < length (x # rest) \<Longrightarrow> c ! (i + k) = Some ((x # rest) ! k)"
    using parsing_block [OF b] by blast
  have ci: "c ! i = Some x" using c(6) [of 0] by simp
  have "wp (advancen 1) (\<lambda>_ b'. b' = b\<lparr>b_idx := int i + 1\<rparr>) b"
    using c(2,4,5) by (simp add: advancen_def wp_simps int_of_size_t_def INT_MIN_def)
  moreover have "wp (advancen 1) (\<lambda>_ b'. parsing b0 rest stk fl b') b"
    by (rule wp_advancen [where xs = "[x]"]) (use b in simp_all)
  ultimately have "parsing b0 rest stk fl (b\<lparr>b_idx := int i + 1\<rparr>)" by (auto simp: wp_def)
  then show ?thesis
    using Q c(1-5) ci by (simp add: get_byte_def advance_def wp_simps INT_MIN_def)
qed

lemma wp_get_bytes:
  assumes "parsing b0 (xs @ rest) stk fl b" and "\<And>b'. parsing b0 rest stk fl b' \<Longrightarrow> Q () b'"
  shows "wp (get_bytes (length xs)) Q b"
  using assms
proof (induction xs arbitrary: b)
  case Nil
  then show ?case by (simp add: wp_ret)
next
  case (Cons x xs)
  then show ?case by (auto simp: wp_andthen intro!: wp_get_byte)
qed

lemma wp_get32:
  assumes b: "parsing b0 (xs @ rest) stk fl b" and xs: "length xs = 4"
    and Q: "\<And>r b'. parsing b0 rest stk fl b' \<Longrightarrow> Q r b'"
  shows "wp get32 Q b"
proof -
  obtain c i where c: "b_c b = Some c" "b_idx b = int i" "i + length (xs @ rest) \<le> length c"
    "i + length (xs @ rest) = b_size b" "int (b_size b) \<le> INT_MAX"
    "\<And>k. k < length (xs @ rest) \<Longrightarrow> c ! (i + k) = Some ((xs @ rest) ! k)"
    using parsing_block [OF b] by blast
  have "wp (advancen 4) (\<lambda>_ b'. b' = b\<lparr>b_idx := int i + 4\<rparr>) b"
    using c(2,4,5) xs by (simp add: advancen_def wp_simps int_of_size_t_def INT_MIN_def)
  moreover have "wp (advancen 4) (\<lambda>_ b'. parsing b0 rest stk fl b') b"
    by (rule wp_advancen [OF b]) (use xs in simp_all)
  ultimately have "parsing b0 rest stk fl (b\<lparr>b_idx := int i + 4\<rparr>)" by (auto simp: wp_def)
  then show ?thesis
    using Q c(1-5) c(6) [of 0] c(6) [of 1] c(6) [of 2] c(6) [of 3] xs
    by (simp add: get32_def parser_unpack32_def wp_simps INT_MIN_def nat_add_distrib)
qed

section \<open>Values\<close>

text \<open>The dimensions of an array, with the sizes of the variable ones.\<close>

fun fill_dims :: "u32 list \<Rightarrow> u32 list \<Rightarrow> u32 list" where
  "fill_dims [] vs = []"
| "fill_dims (d # ds) vs =
     (if d = 0 then (case vs of [] \<Rightarrow> [] | v # vs \<Rightarrow> v # fill_dims ds vs) else d # fill_dims ds vs)"

definition elements :: "u32 list \<Rightarrow> u32 list \<Rightarrow> nat" where
  "elements ds vs = prod_list (map unat (fill_dims ds vs))"

text \<open>The bytes of a value of a type that can be skipped.\<close>

fun value_bytes :: "ty \<Rightarrow> byte list \<Rightarrow> bool" where
  "value_bytes (Basic k) bs \<longleftrightarrow>
     (if k = String_type then \<exists>str. bs = string_bytes str else k \<noteq> Sample_ref \<and> length bs = unat (basic_size k))"
| "value_bytes (Array ds (Basic k)) bs \<longleftrightarrow>
     k \<noteq> String_type \<and>
     (\<exists>vs elems. bs = concat (map code_bytes vs) @ elems \<and> length vs = length (filter (\<lambda>d. d = 0) ds) \<and>
        (\<forall>v\<in>set vs. uint v \<le> INT_MAX) \<and> length elems = unat (basic_size k) * elements ds vs)"
| "value_bytes t bs \<longleftrightarrow> False"

lemma prod_fill_dims:
  "length vs = length (filter (\<lambda>d. d = 0) ds) \<Longrightarrow>
   word_of_nat (elements ds vs) = prod_list (filter (\<lambda>d. d \<noteq> 0) ds) * prod_list vs"
proof (induction ds vs rule: fill_dims.induct)
  case (1 vs)
  then show ?case by (simp add: elements_def)
next
  case (2 d ds vs)
  then show ?case by (auto simp: elements_def ac_simps split: list.splits)
qed

lemma wp_sizeof_primitive:
  assumes "k \<noteq> String_type" and "Q (unat (basic_size k)) s"
  shows "wp (labcomm2014_sizeof_primitive (basic_code k)) Q s"
  using assms by (cases k) (simp_all add: labcomm2014_sizeof_primitive_def type_code_defs wp_ret)

text \<open>\<^verbatim>\<open>skip_array\<close>, from the position behind the code of the array.\<close>

lemma wp_skip_array:
  assumes sig: "drop i xs = number_bytes (int (length ds)) @ concat (map code_bytes ds) @ code_bytes (basic_code k) @ post"
    and i: "i \<le> length xs" "int (length xs) \<le> INT_MAX"
    and t: "type_ok (Array ds (Basic k))" and v: "value_bytes (Array ds (Basic k)) bs"
    and b: "parsing b0 (bs @ rest) stk fl b"
    and Q: "\<And>b' sk. parsing b0 rest stk fl b' \<Longrightarrow> Q (sk, int (length xs - length post)) b'"
  shows "wp (skip_array (Some (map Some xs)) (int i)) Q b"
proof -
  obtain vs elems where vs: "bs = concat (map code_bytes vs) @ elems" "length vs = length (filter (\<lambda>d. d = 0) ds)"
      "\<forall>v\<in>set vs. uint v \<le> INT_MAX" "length elems = unat (basic_size k) * elements ds vs" and k: "k \<noteq> String_type"
    using v by auto
  have ds: "int (length ds) \<le> INT_MAX" "\<And>d. d \<in> set ds \<Longrightarrow> uint d \<le> INT_MAX" using t by auto
  have n: "uint (u32_of_int (int (length ds))) = int (length ds)" using ds(1) by (simp only: uint_nat u32_of_len)
  then have d0: "drop i xs = code_bytes (u32_of_int (int (length ds))) @ concat (map code_bytes ds) @ code_bytes (basic_code k) @ post"
    using sig by (simp add: code_bytes_def [of "u32_of_int _"])
  let ?i1 = "i + length (code_bytes (u32_of_int (int (length ds))))" and ?dims = "concat (map code_bytes ds)"
  note d1 = drop_appendD [OF d0 i(1)]
  have i1: "?i1 \<le> length xs" using d1(1) by simp
  note d2 = drop_appendD [OF d1(2) i1]
  have i2: "?i1 + length ?dims \<le> length xs" using d2(1) by simp
  note d3 = drop_appendD [OF d2(2) i2]
  have pos: "int_of_size_t (int i + int (length (code_bytes (u32_of_int (int (length ds)))))) = int ?i1"
    "int_of_size_t (int (?i1 + length ?dims) + int (length (code_bytes (basic_code k)))) = int (length xs - length post)"
    using d3(1) i(2) by (simp_all add: int_of_size_t_def INT_MIN_def)
  have "length vs \<le> length ds" using vs(2) by simp
  then have "unat (word_of_nat (length vs) :: u32) = length vs"
    using ds(1) by (simp add: unsigned_of_nat take_bit_nat_eq_self INT_MAX_def)
  then have zeros: "unat (0 + word_of_nat (length (filter (\<lambda>d. d = 0) ds)) :: u32) = length vs" by (simp add: vs(2))
  have b': "parsing b0 (concat (map code_bytes vs) @ elems @ rest) stk fl b" using b vs(1) by simp
  have fits: "unat (word_of_nat (unat (basic_size k)) * (1 * prod_list (filter (\<lambda>d. d \<noteq> 0) ds) * prod_list vs) :: u32) = length elems"
  proof -
    have "int (length elems) \<le> INT_MAX" using parsing_fits [OF b'] by simp
    then have "unat (word_of_nat (length elems) :: u32) = length elems"
      by (simp add: unsigned_of_nat take_bit_nat_eq_self INT_MAX_def)
    then show ?thesis using prod_fill_dims [OF vs(2)] vs(4) by (simp add: mult.assoc)
  qed
  have p0: "unpack_varint (Some (map Some xs)) (int i) =
      ret (int (length ds), length (code_bytes (u32_of_int (int (length ds)))))"
    using unpack_varint_row [OF d0 i] n ds(1) by simp
  note p3 = unpack_varint_row [OF d2(2) i2 i(2) codes_fit(1)]
  show ?thesis
    unfolding skip_array_def p0 andthen_ret split_conv u32_of_len [OF ds(1)] pos(1) wp_andthen
    by (rule wp_skip_dims [OF d1(2) i1 i(2) ds(2)], assumption, unfold split_conv wp_andthen zeros, rule wp_skip_vars [OF b'],
        use vs(3) in simp, unfold split_conv wp_andthen p3 wp_ret u32_of_code, rule wp_sizeof_primitive [OF k], unfold Let_def wp_andthen fits,
        rule wp_advancen, assumption, rule refl, unfold wp_ret pos(2), rule Q)
qed

text \<open>\<^verbatim>\<open>skip_type\<close>, from the position behind the code of the type.\<close>

lemma skip_basic:
  "skip_type (basic_code k) sig pos =
     (case k of Boolean \<Rightarrow> andthen get_byte (\<lambda>_. ret (1, pos)) | Byte \<Rightarrow> andthen get_byte (\<lambda>_. ret (1, pos))
      | Short \<Rightarrow> andthen (advancen 2) (\<lambda>_. ret (2, pos)) | Integer \<Rightarrow> andthen get32 (\<lambda>_. ret (4, pos))
      | Float \<Rightarrow> andthen (advancen 4) (\<lambda>_. ret (4, pos)) | Long \<Rightarrow> andthen (advancen 8) (\<lambda>_. ret (8, pos))
      | Double \<Rightarrow> andthen (advancen 8) (\<lambda>_. ret (8, pos))
      | String_type \<Rightarrow> andthen get_varint_size (\<lambda>(len, nbytes).
          andthen (get_bytes (nat len)) (\<lambda>_. ret (int_of_size_t (len + int nbytes), pos)))
      | Sample_ref \<Rightarrow> parser_error)"
  by (subst skip_type_unfold, cases k) (simp_all add: skip_type_with_def type_code_defs)

lemma wp_skip_basic:
  assumes v: "value_bytes (Basic k) bs" and b: "parsing b0 (bs @ rest) stk fl b"
    and Q: "\<And>b' n. parsing b0 rest stk fl b' \<Longrightarrow> Q (n, pos) b'"
  shows "wp (skip_type (basic_code k) sig pos) Q b"
proof (cases "k = String_type")
  case True
  then obtain str where str: "bs = string_bytes str" using v by auto
  then have b': "parsing b0 (number_bytes (int (length str)) @ str @ rest) stk fl b" using b by (simp add: string_bytes_def)
  have len: "int (length str) \<le> INT_MAX" using parsing_fits [OF b'] by simp
  show ?thesis
    unfolding skip_basic True basic.case wp_andthen
    by (rule wp_get_varint_size [OF b' of_nat_0_le_iff len], unfold split_conv wp_andthen nat_int, rule wp_get_bytes, assumption,
        unfold wp_ret, rule Q)
next
  case False
  then have bs: "length bs = unat (basic_size k)" and k: "k \<noteq> Sample_ref" using v by auto
  have x: "\<exists>x. bs = [x]" if "unat (basic_size k) = 1" using bs that by (simp add: length_Suc_conv)
  show ?thesis
    unfolding skip_basic
    using False k bs b x by (cases k) (auto simp: wp_andthen wp_ret intro!: Q wp_get_byte wp_get32 wp_advancen)
qed

lemma wp_skip_type:
  assumes sig: "drop i xs = type_bytes t @ post" and i: "i \<le> length xs" "int (length xs) \<le> INT_MAX"
    and t: "type_ok t" and v: "value_bytes t bs" and b: "parsing b0 (bs @ rest) stk fl b"
    and Q: "\<And>b' n. parsing b0 rest stk fl b' \<Longrightarrow> Q (n, int (i + length (type_bytes t))) b'"
  shows "wp (andthen (unpack_varint (Some (map Some xs)) (int i)) (\<lambda>(type, nbytes).
    skip_type (u32_of_int type) (Some (map Some xs)) (int_of_size_t (int i + int nbytes)))) Q b"
proof -
  obtain c tl where c: "type_bytes t = code_bytes c @ tl" "uint c \<le> INT_MAX"
    "(\<exists>k. c = basic_code k \<and> t = Basic k \<and> tl = []) \<or>
     (\<exists>ds k. c = ARRAY_DECL \<and> t = Array ds (Basic k) \<and>
       tl = number_bytes (int (length ds)) @ concat (map code_bytes ds) @ code_bytes (basic_code k))"
    using v by (cases "(t, bs)" rule: value_bytes.cases) auto
  have d: "drop i xs = code_bytes c @ tl @ post" using sig c(1) by simp
  note at = drop_appendD [OF d i(1)]
  let ?i = "i + length (code_bytes c)"
  have le: "?i \<le> length xs" using at(1) by simp
  have pos: "int_of_size_t (int i + int (length (code_bytes c))) = int ?i"
    using at(1) i(2) by (simp add: int_of_size_t_def INT_MIN_def)
  have "wp (skip_type c (Some (map Some xs)) (int ?i)) Q b"
    using c(3)
  proof (elim disjE exE conjE, goal_cases)
    case (1 k)
    have v': "value_bytes (Basic k) bs" using v 1(2) by simp
    show ?case unfolding 1(1) by (rule wp_skip_basic [OF v' b]) (use Q 1 in simp)
  next
    case (2 ds k)
    have dd: "drop ?i xs = number_bytes (int (length ds)) @ concat (map code_bytes ds) @ code_bytes (basic_code k) @ post"
      using at(2) 2(3) by simp
    have end_pos: "length xs - length post = i + length (type_bytes t)" using at(1) c(1) by simp
    have ty: "type_ok (Array ds (Basic k))" "value_bytes (Array ds (Basic k)) bs" using t v 2(2) by simp_all
    have "skip_type ARRAY_DECL sig p = skip_array sig p" for sig p
      by (subst skip_type_unfold) (simp add: skip_type_with_def type_code_defs)
    then show ?case
      unfolding 2(1) using wp_skip_array [OF dd _ i(2) ty b] le Q end_pos 2(1) by simp
  qed
  then show ?thesis
    unfolding unpack_varint_row [OF d i c(2)] by (simp add: pos)
qed

text \<open>A sample is skipped when the entry holds the bytes of its type.\<close>

lemma wp_skip_packed_sample_data:
  assumes row: "b_signatures b = Some rows" "j < length rows" "rows ! j = Some (Some (map Some (type_bytes t @ pad)))"
    and sg: "st_signature sig = Some j" "st_size sig = int (length (type_bytes t))"
    and fits: "int (length (type_bytes t @ pad)) \<le> INT_MAX"
    and t: "type_ok t" and v: "value_bytes t bs" and b: "parsing b0 (bs @ rest) stk fl b"
    and Q: "\<And>b'. parsing b0 rest stk fl b' \<Longrightarrow> Q True b'"
  shows "wp (skip_packed_sample_data sig) Q b"
proof -
  let ?xs = "type_bytes t @ pad"
  let ?row = "Some (map Some ?xs)" and ?n = "int (length (type_bytes t))"
  have pos: "0 < ?n"
    using v length_number_bytes_pos by (cases "(t, bs)" rule: value_bytes.cases) (auto simp: code_bytes_def intro: add_pos_nonneg)
  have d: "drop 0 ?xs = type_bytes t @ pad" by simp
  have loop: "skip_packed_loop ?row ?n p k = (if p < ?n then
        andthen (andthen (unpack_varint ?row p) (\<lambda>(type, nbytes).
          skip_type (u32_of_int type) ?row (int_of_size_t (p + int nbytes)))) (\<lambda>(k', p').
        skip_packed_loop ?row ?n p' (k + u32_of_int k'))
      else ret k)" for p k
    by (rule ext, subst skip_packed_loop.simps)
      (auto simp: andthen_assoc intro!: arg_cong [where f = "\<lambda>g. andthen _ g _"] ext)
  have "wp (skip_packed_loop ?row ?n 0 0) (\<lambda>_. parsing b0 rest stk fl) b"
  proof -
    have stops: "wp (skip_packed_loop ?row ?n ?n k) (\<lambda>_. parsing b0 rest stk fl) b'" if "parsing b0 rest stk fl b'" for k b'
      using that by (subst loop) (simp add: wp_ret)
    have first: "wp (andthen (unpack_varint ?row (int 0)) (\<lambda>(type, nbytes).
        skip_type (u32_of_int type) ?row (int_of_size_t (int 0 + int nbytes)))) 
        (\<lambda>(k', p'). wp (skip_packed_loop ?row ?n p' (0 + u32_of_int k')) (\<lambda>_. parsing b0 rest stk fl)) b"
      by (rule wp_skip_type [OF d _ fits t v b]) (use stops in simp_all)
    show ?thesis
      unfolding loop [of 0 0] if_P [OF pos]
      by (rule iffD2 [OF wp_andthen]) (use first in \<open>simp only: case_prod_beta' int_ops(1)\<close>)
  qed
  then have "wp (skip_packed_loop ?row ?n 0 0) (\<lambda>_. wp (ret True) Q) b"
    by (rule wp_mono) (use Q in \<open>simp add: wp_ret\<close>)
  then show ?thesis
    using row sg by (simp add: skip_packed_sample_data_def wp_andthen wp_simps)
qed

end
