(* ===== verification/LC_SigParserTotal.thy ===== *)
theory LC_SigParserTotal
  imports LC_SigParser
begin

text \<open>
  The parser ends on every input: whatever the bytes of the buffer and the state of the tables, a
  call returns or the program stops.  Every parser moves the position onward, or to a negative value, from
  which nothing can be read; so the recursion of the types and the loop over the packets end.
\<close>

named_theorems ends_simps \<open>computations that come to an end\<close>

definition ends :: "('s, 'a) prog \<Rightarrow> ('a \<Rightarrow> 's \<Rightarrow> bool) \<Rightarrow> 's \<Rightarrow> bool" where
  "ends m Q s \<longleftrightarrow> (case m s of None \<Rightarrow> False | Some (Inl e) \<Rightarrow> True | Some (Inr (x, s')) \<Rightarrow> Q x s')"

lemma ends_ret [ends_simps]: "ends (ret x) Q s \<longleftrightarrow> Q x s"
  by (simp add: ends_def prog_simps)

lemma ends_stop [ends_simps]: "ends (stop e) Q s \<longleftrightarrow> True"
  by (simp add: ends_def prog_simps)

lemma ends_modify [ends_simps]: "ends (modify f) Q s \<longleftrightarrow> Q () (f s)"
  by (simp add: ends_def prog_simps)

lemma ends_gets [ends_simps]: "ends (gets g) Q s \<longleftrightarrow> Q (g s) s"
  by (simp add: ends_def prog_simps)

lemma ends_andthen [ends_simps]: "ends (andthen m f) Q s \<longleftrightarrow> ends m (\<lambda>x. ends (f x) Q) s"
  by (auto simp: ends_def prog_simps split: option.splits sum.splits)

lemma ends_if [ends_simps]:
  "ends (if b then m else n) Q s \<longleftrightarrow> (b \<longrightarrow> ends m Q s) \<and> (\<not> b \<longrightarrow> ends n Q s)"
  by simp

lemma ends_zoom [ends_simps]:
  "ends (zoom get put m) Q t \<longleftrightarrow> ends m (\<lambda>x s'. Q x (put s' t)) (get t)"
  by (auto simp: ends_def prog_simps split: option.splits sum.splits)

lemma ends_c_int [ends_simps]: "ends (c_int i) Q s \<longleftrightarrow> (INT_MIN \<le> i \<and> i \<le> INT_MAX \<longrightarrow> Q i s)"
  by (auto simp: c_int_def ends_simps)

lemma ends_mono: "ends m P s \<Longrightarrow> (\<And>x s'. P x s' \<Longrightarrow> Q x s') \<Longrightarrow> ends m Q s"
  by (auto simp: ends_def split: option.splits sum.splits)

lemma ends_returns: "ends m Q s \<Longrightarrow> m s \<noteq> None"
  by (auto simp: ends_def split: option.splits)

section \<open>Blocks and the stack\<close>

lemma ends_block_get [ends_simps]:
  "ends (block_get a i) Q s \<longleftrightarrow>
     (\<forall>xs x. a = Some xs \<longrightarrow> 0 \<le> i \<longrightarrow> i < int (length xs) \<longrightarrow> xs ! nat i = Some x \<longrightarrow> Q x s)"
  by (auto simp: block_get_def ends_simps split: option.splits)

lemma ends_block_put:
  "(\<And>a'. Q a' s) \<Longrightarrow> ends (block_put a i x) Q s"
  by (auto simp: block_put_def ends_simps split: option.splits)

lemma ends_block_copy:
  "(\<And>a'. Q a' s) \<Longrightarrow> ends (block_copy dest src i n) Q s"
  by (auto simp: block_copy_def ends_simps split: option.splits)

text \<open>The position and the buffer are the same afterwards.\<close>

definition steady :: "sig_parser_t \<Rightarrow> sig_parser_t \<Rightarrow> bool" where
  "steady s s' \<longleftrightarrow> b_c s' = b_c s \<and> b_idx s' = b_idx s"

lemma ends_push_val: "(\<And>s'. steady s s' \<Longrightarrow> Q () s') \<Longrightarrow> ends (push_val e) Q s"
  unfolding push_val_def
  by (auto simp: ends_simps parser_error_def steady_def intro!: ends_block_put)

lemma ends_pop_val: "(\<And>v s'. steady s s' \<Longrightarrow> Q v s') \<Longrightarrow> ends pop_val Q s"
  unfolding pop_val_def by (auto simp: ends_simps parser_error_def steady_def)

lemma ends_set_varsize: "(\<And>s'. steady s s' \<Longrightarrow> Q () s') \<Longrightarrow> ends set_varsize Q s"
  unfolding set_varsize_def by (auto simp: ends_simps steady_def)

lemma ends_b_malloc: "(\<And>ok s'. steady s s' \<Longrightarrow> Q ok s') \<Longrightarrow> ends (b_malloc n) Q s"
  unfolding b_malloc_def by (simp add: ends_simps) (simp add: ends_def default_alloc_def Let_def steady_def)

lemma ends_b_free: "(\<And>s'. steady s s' \<Longrightarrow> Q () s') \<Longrightarrow> ends (b_free a) Q s"
  unfolding b_free_def by (simp add: ends_simps) (simp add: ends_def default_free_def prog_simps steady_def)

section \<open>Reading\<close>

text \<open>The buffer is at most as long as an \<^verbatim>\<open>int\<close> can count.\<close>

definition short_buffer :: "'a block \<Rightarrow> bool" where
  "short_buffer a \<longleftrightarrow> (case a of None \<Rightarrow> True | Some xs \<Rightarrow> int (length xs) \<le> INT_MAX)"

lemma ends_varint_loop:
  assumes "int (length c) \<le> INT_MAX" and "i + k \<le> length c" and "0 \<le> res" "res \<le> INT_MAX"
    and "\<And>v n. 0 \<le> v \<Longrightarrow> v \<le> INT_MAX \<Longrightarrow> 0 < n \<Longrightarrow> i + n \<le> length c \<Longrightarrow> Q (v, n) s"
  shows "ends (unpack_varint_loop (Some c) (int i) res (word_of_nat k)) Q s"
  using assms(2-4)
proof (induction "length c - (i + k)" arbitrary: k res)
  case (0 k res)
  have "uint (word_of_nat (i + k) :: u32) = int (i + k)"
    using 0 assms(1) unfolding unsigned_of_nat by (subst take_bit_nat_eq_self) (simp_all add: INT_MAX_def)
  with 0 show ?case
    by (subst unpack_varint_loop_unfold) (simp add: ends_simps u32_of_int_def)
next
  case (Suc m k res)
  have k: "uint (word_of_nat (i + k) :: u32) = int (i + k)" "unat (word_of_nat (Suc k) :: u32) = Suc k"
    using Suc assms(1) unfolding unsigned_of_nat by (subst take_bit_nat_eq_self; simp add: INT_MAX_def)+
  have again: "ends (unpack_varint_loop (Some c) (int i) r (word_of_nat (Suc k))) Q s"
    if "0 \<le> r" "r \<le> INT_MAX" for r
    using Suc that by (intro Suc.hyps(1)) auto
  have bound: "0 \<le> push_bit 7 res OR uint (b AND 0x7f :: byte)" "push_bit 7 res OR uint (b AND 0x7f :: byte) \<le> INT_MAX"
    if "push_bit 7 res \<le> INT_MAX" for b
  proof -
    have res: "0 \<le> push_bit 7 res" using Suc.prems(2) by simp
    then show "0 \<le> push_bit 7 res OR uint (b AND 0x7f)" by (simp add: or_nonnegative_int_iff)
    have "push_bit 7 res OR uint (b AND 0x7f) < 2 ^ 31"
      using res that uint_lt2p [of "b AND 0x7f"] by (intro OR_upper) (simp_all add: INT_MAX_def)
    then show "push_bit 7 res OR uint (b AND 0x7f) \<le> INT_MAX" by (simp add: INT_MAX_def)
  qed
  show ?case
    using k again bound assms(5) [of _ "Suc k"] Suc(2)
    by (subst unpack_varint_loop_unfold) (auto simp: ends_simps u32_of_int_def Let_def add.commute)
qed

section \<open>Parsers that move and parsers that consume\<close>

text \<open>The state is that of a C program: the position is an \<^verbatim>\<open>int\<close> and the buffer is no longer than one.\<close>

definition ranged :: "sig_parser_t \<Rightarrow> bool" where
  "ranged s \<longleftrightarrow> short_buffer (b_c s) \<and> INT_MIN \<le> b_idx s \<and> b_idx s \<le> INT_MAX"

definition onward :: "sig_parser_t \<Rightarrow> sig_parser_t \<Rightarrow> bool" where
  "onward s s' \<longleftrightarrow> ranged s \<and> ranged s' \<and> (b_idx s' = b_idx s \<or> 0 \<le> b_idx s \<and> (b_idx s' < 0 \<or> b_idx s < b_idx s'))"

definition advanced :: "sig_parser_t \<Rightarrow> sig_parser_t \<Rightarrow> bool" where
  "advanced s s' \<longleftrightarrow> ranged s \<and> ranged s' \<and> 0 \<le> b_idx s \<and> (b_idx s' < 0 \<or> b_idx s < b_idx s')"

text \<open>How far the position can still go.\<close>

definition room :: "sig_parser_t \<Rightarrow> nat" where
  "room s = nat (if b_idx s < 0 then 0 else INT_MAX + 1 - b_idx s)"

definition moves :: "nat \<Rightarrow> 'a sp \<Rightarrow> bool" where
  "moves n m \<longleftrightarrow> (\<forall>s. ranged s \<and> room s \<le> n \<longrightarrow> ends m (\<lambda>_ s'. onward s s') s)"

definition consumes :: "nat \<Rightarrow> 'a sp \<Rightarrow> bool" where
  "consumes n m \<longleftrightarrow> (\<forall>s. ranged s \<and> room s \<le> n \<longrightarrow> ends m (\<lambda>_ s'. advanced s s') s)"

text \<open>A parser that is called after a number of \<open>nb\<close> bytes was peeked.\<close>

definition consumes_peeked :: "nat \<Rightarrow> nat \<Rightarrow> 'a sp \<Rightarrow> bool" where
  "consumes_peeked nb n m \<longleftrightarrow>
     (\<forall>s. ranged s \<and> room s \<le> n \<and> 0 \<le> b_idx s \<and> b_idx s + int nb \<le> INT_MAX \<longrightarrow> ends m (\<lambda>_ s'. advanced s s') s)"

lemma onward_facts:
  "onward s s' \<Longrightarrow> ranged s'" "onward s s' \<Longrightarrow> room s' \<le> room s"
  "advanced s s' \<Longrightarrow> ranged s'" "advanced s s' \<Longrightarrow> room s' < room s" "advanced s s' \<Longrightarrow> onward s s'"
  "onward s s' \<Longrightarrow> onward s' s'' \<Longrightarrow> onward s s''"
  "advanced s s' \<Longrightarrow> onward s' s'' \<Longrightarrow> advanced s s''"
  "onward s s' \<Longrightarrow> advanced s' s'' \<Longrightarrow> advanced s s''"
  "ranged s \<Longrightarrow> steady s s' \<Longrightarrow> onward s s'"
  by (auto simp: onward_def advanced_def room_def ranged_def steady_def)

lemma onward_room: "onward s s' \<Longrightarrow> room s \<le> n \<Longrightarrow> ranged s' \<and> room s' \<le> n"
  using onward_facts(1,2) by fastforce

lemma advanced_room: "advanced s s' \<Longrightarrow> room s \<le> n \<Longrightarrow> \<exists>k<n. ranged s' \<and> room s' \<le> k"
  using onward_facts(3,4) [of s s'] by (auto intro: exI [of _ "room s'"])

lemma moves_consumes: "consumes n m \<Longrightarrow> moves n m"
  by (auto simp: consumes_def moves_def elim!: ends_mono intro: onward_facts)

lemma consumes_peeked: "consumes n m \<Longrightarrow> consumes_peeked nb n m"
  by (simp add: consumes_def consumes_peeked_def)

lemma moves_less: "moves n m \<Longrightarrow> k \<le> n \<Longrightarrow> moves k m"
  by (auto simp: moves_def)

lemma ends_seq:
  assumes "ends m (\<lambda>_. P) s" and "\<And>x s'. P s' \<Longrightarrow> ends (f x) (\<lambda>_. R s') s'" and "\<And>s' s''. P s' \<Longrightarrow> R s' s'' \<Longrightarrow> T s''"
  shows "ends (andthen m f) (\<lambda>_. T) s"
  unfolding ends_andthen using assms(1) by (rule ends_mono) (rule ends_mono [OF assms(2)], auto intro: assms(3))

lemma moves_andthen: "moves n m \<Longrightarrow> (\<And>x. moves n (f x)) \<Longrightarrow> moves n (andthen m f)"
  unfolding moves_def
  by (intro allI impI, rule ends_seq [where P = "onward _" and R = onward])
    (blast dest: onward_room intro: onward_facts(6))+

lemma consumes_andthen: "consumes n m \<Longrightarrow> (\<And>x k. k < n \<Longrightarrow> moves k (f x)) \<Longrightarrow> consumes n (andthen m f)"
  unfolding moves_def consumes_def
  by (intro allI impI, rule ends_seq [where P = "advanced _" and R = onward])
    (blast dest: advanced_room intro: onward_facts(7))+

lemma moves_then_consumes: "moves n m \<Longrightarrow> (\<And>x. consumes n (f x)) \<Longrightarrow> consumes n (andthen m f)"
  unfolding moves_def consumes_def
  by (intro allI impI, rule ends_seq [where P = "onward _" and R = advanced])
    (blast dest: onward_room intro: onward_facts(8))+

text \<open>What does not touch the position moves.\<close>

lemma moves_steady: "(\<And>s. ends m (\<lambda>_ s'. steady s s') s) \<Longrightarrow> moves n m"
  unfolding moves_def by (blast intro: ends_mono onward_facts(9))

lemma moves_basic:
  "moves n (ret x)" "moves n (stop e)" "moves n (gets g)" "moves n (parser_error :: 'c sp)"
  "moves n (push_val v)" "moves n pop_val" "moves n set_varsize" "moves n (b_malloc k)" "moves n (b_free a)"
  by (rule moves_steady; auto simp: ends_simps parser_error_def steady_def
      intro!: ends_push_val ends_pop_val ends_set_varsize ends_b_malloc ends_b_free)+

lemma moves_block:
  "moves n (block_get a i)" "moves n (block_put a i x)" "moves n (block_copy d a i k)"
  by (rule moves_steady; auto simp: ends_simps steady_def intro!: ends_block_put ends_block_copy)+

lemma moves_modify: "(\<And>s. steady s (f s)) \<Longrightarrow> moves n (modify f)"
  by (rule moves_steady) (simp add: ends_simps)

section \<open>Reading moves onward\<close>

lemma ends_unpack_varint:
  assumes "short_buffer a" and "INT_MIN \<le> i" "i \<le> INT_MAX"
    and "\<And>c v n. a = Some c \<Longrightarrow> 0 \<le> v \<Longrightarrow> v \<le> INT_MAX \<Longrightarrow> 0 < n \<Longrightarrow> 0 \<le> i \<Longrightarrow> i + int n \<le> int (length c) \<Longrightarrow> Q (v, n) s"
  shows "ends (unpack_varint a i) Q s"
proof (cases "\<exists>c k. a = Some c \<and> i = int k \<and> k \<le> length c")
  case True
  then obtain c k where c: "a = Some c" "i = int k" "k \<le> length c" by blast
  then show ?thesis
    using ends_varint_loop [of c k 0 0 Q s] assms by (simp add: unpack_varint_def short_buffer_def INT_MAX_def)
next
  case False
  have "int (length c) \<le> uint (u32_of_int i)" if "a = Some c" for c
  proof (cases "0 \<le> i")
    case True
    then have "uint (u32_of_int i) = i"
      using assms(3) by (simp add: u32_of_int_def unsigned_of_int take_bit_int_eq_self INT_MAX_def)
    moreover have "int (length c) < i" using False that True by (metis linorder_not_less nat_int_comparison(3) nat_0_le)
    ultimately show ?thesis by simp
  next
    case neg: False
    have "uint (u32_of_int i) = i mod 2 ^ 32" by (simp add: u32_of_int_def uint_word_of_int)
    also have "\<dots> = (i + 2 ^ 32) mod 2 ^ 32" by simp
    also have "\<dots> = i + 2 ^ 32" using neg assms(2) by (intro mod_pos_pos_trivial) (simp_all add: INT_MIN_def)
    finally show ?thesis using assms(1,2) that by (simp add: short_buffer_def INT_MIN_def INT_MAX_def)
  qed
  then show ?thesis
    unfolding unpack_varint_def by (subst unpack_varint_loop_unfold) (fastforce simp: ends_simps)
qed

lemma ends_peek_varint:
  assumes "ranged s"
    and "\<And>v n. 0 \<le> v \<Longrightarrow> v \<le> INT_MAX \<Longrightarrow> 0 < n \<Longrightarrow> 0 \<le> b_idx s \<Longrightarrow> b_idx s + int n \<le> INT_MAX \<Longrightarrow> Q (v, n) s"
  shows "ends peek_varint Q s"
  using assms unfolding peek_varint_def
  by (auto simp: ends_simps ranged_def short_buffer_def intro!: ends_unpack_varint)

lemma ends_advancen_small:
  assumes "ranged s" and "0 \<le> b_idx s" and "b_idx s + int n \<le> INT_MAX" and "0 < n"
    and "\<And>s'. advanced s s' \<Longrightarrow> 0 \<le> b_idx s' \<Longrightarrow> Q () s'"
  shows "ends (advancen n) Q s"
proof -
  have "int_of_size_t (b_idx s + int n) = b_idx s + int n" using assms(2,3) by (simp add: int_of_size_t_def INT_MIN_def)
  then show ?thesis using assms by (auto simp: advancen_def ends_simps advanced_def ranged_def)
qed

text \<open>A number that was peeked is peeked again.\<close>

definition consumes_seen :: "int \<Rightarrow> nat \<Rightarrow> nat \<Rightarrow> 'a sp \<Rightarrow> bool" where
  "consumes_seen v nb n m \<longleftrightarrow>
     (\<forall>s. ranged s \<and> room s \<le> n \<and> 0 \<le> b_idx s \<and> b_idx s + int nb \<le> INT_MAX \<and>
          peek_varint s = Some (Inr ((v, nb), s)) \<longrightarrow> ends m (\<lambda>_ s'. advanced s s') s)"

lemma peeked_seen: "consumes_peeked nb n m \<Longrightarrow> consumes_seen v nb n m"
  by (simp add: consumes_peeked_def consumes_seen_def)

lemma seen_peek: "consumes_seen v nb n (f (v, nb)) \<Longrightarrow> consumes_seen v nb n (andthen peek_varint f)"
  by (simp add: consumes_seen_def ends_def prog_simps)

lemma consumes_peek:
  assumes "\<And>v nb. 0 < nb \<Longrightarrow> consumes_seen v nb n (f (v, nb))"
  shows "consumes n (andthen peek_varint f)"
  unfolding consumes_def ends_andthen
proof (intro allI impI)
  fix s
  assume s: "ranged s \<and> room s \<le> n"
  have "ends peek_varint (\<lambda>(v, nb) s'. s' = s \<and> 0 < nb \<and> 0 \<le> b_idx s \<and> b_idx s + int nb \<le> INT_MAX) s"
    by (rule ends_peek_varint) (use s in auto)
  then show "ends peek_varint (\<lambda>x. ends (f x) (\<lambda>_ s'. advanced s s')) s"
    using assms s by (auto simp: ends_def [of peek_varint] consumes_seen_def split: option.splits sum.splits)
qed

lemma peeked_advancen:
  "0 < nb \<Longrightarrow> (\<And>x k. k < n \<Longrightarrow> moves k (f x)) \<Longrightarrow> consumes_peeked nb n (andthen (advancen nb) f)"
  unfolding consumes_peeked_def moves_def
  by (intro allI impI, rule ends_seq [where P = "advanced _" and R = onward])
    (blast dest: advanced_room intro: onward_facts(7) ends_advancen_small)+

lemma peeked_steady:
  assumes "\<And>s. steady s (g s)" and "\<And>x. consumes_peeked nb n (f x)"
  shows "consumes_peeked nb n (andthen (modify g) f)"
  unfolding consumes_peeked_def ends_andthen ends_modify
proof (intro allI impI)
  fix s
  assume s: "ranged s \<and> room s \<le> n \<and> 0 \<le> b_idx s \<and> b_idx s + int nb \<le> INT_MAX"
  have same: "b_c (g s) = b_c s" "b_idx (g s) = b_idx s" using assms(1) by (simp_all add: steady_def)
  then have "ends (f ()) (\<lambda>_ s'. advanced (g s) s') (g s)"
    using assms(2) s by (auto simp: consumes_peeked_def ranged_def room_def)
  then show "ends (f ()) (\<lambda>_ s'. advanced s s') (g s)"
    using same by (auto simp: advanced_def ranged_def elim!: ends_mono)
qed

lemma ends_get_varint:
  assumes "ranged s"
    and "\<And>v s'. advanced s s' \<Longrightarrow> 0 \<le> b_idx s' \<Longrightarrow> 0 \<le> v \<Longrightarrow> v \<le> INT_MAX \<Longrightarrow> Q v s'"
  shows "ends get_varint Q s"
  unfolding get_varint_def ends_andthen
  by (rule ends_peek_varint [OF assms(1)])
    (auto simp: ends_simps intro!: ends_advancen_small assms)

lemma consumes_get_varint: "consumes n get_varint"
  unfolding consumes_def by (auto intro: ends_get_varint)

lemma int_of_size_t_wrap:
  "0 \<le> x \<Longrightarrow> x < 2 ^ 32 \<Longrightarrow> int_of_size_t x = (if x \<le> INT_MAX then x else x - 2 ^ 32)"
proof -
  assume x: "0 \<le> x" "x < 2 ^ 32"
  have "int_of_size_t x = (x + 2 ^ 31) mod 2 ^ 32 - 2 ^ 31"
    by (simp add: int_of_size_t_def int_of_u32_def u32_of_int_def signed_of_int signed_take_bit_eq_take_bit_shift
        take_bit_eq_mod)
  also have "(x + 2 ^ 31) mod 2 ^ 32 = (if x \<le> INT_MAX then x + 2 ^ 31 else x + 2 ^ 31 - 2 ^ 32)"
  proof (cases "x \<le> INT_MAX")
    case True
    then show ?thesis using x by (simp add: INT_MAX_def)
  next
    case False
    have "(x + 2 ^ 31) mod 2 ^ 32 = (x + 2 ^ 31 - 2 ^ 32) mod 2 ^ 32" by (rule minus_mod_self2 [symmetric])
    also have "\<dots> = x + 2 ^ 31 - 2 ^ 32" using x False by (intro mod_pos_pos_trivial) (simp_all add: INT_MAX_def)
    finally show ?thesis using False by simp
  qed
  finally show ?thesis by simp
qed

text \<open>An advance by an \<^verbatim>\<open>int\<close> may wrap, but only to a negative position.\<close>

lemma ends_advancen:
  assumes "ranged s" and "0 \<le> b_idx s \<or> n = 0" and "int n \<le> INT_MAX"
    and "\<And>s'. onward s s' \<Longrightarrow> Q () s'"
  shows "ends (advancen n) Q s"
proof (cases "n = 0")
  case True
  then have "int_of_size_t (b_idx s + int n) = b_idx s"
    using assms(1) by (simp add: int_of_size_t_def ranged_def)
  then show ?thesis using assms by (simp add: advancen_def ends_simps onward_def ranged_def)
next
  case False
  then have idx: "0 \<le> b_idx s" "b_idx s \<le> INT_MAX" using assms(1,2) by (simp_all add: ranged_def)
  let ?x = "b_idx s + int n"
  have "?x < 2 ^ 32" using idx(2) assms(3) by (simp add: INT_MAX_def)
  then have "int_of_size_t ?x = (if ?x \<le> INT_MAX then ?x else ?x - 2 ^ 32)"
    using idx(1) by (intro int_of_size_t_wrap) simp_all
  then show ?thesis
    using assms(1,3) idx False
    by (auto simp: advancen_def ends_simps onward_def ranged_def INT_MAX_def INT_MIN_def intro!: assms(4))
qed

lemma ends_strncpy: "(\<And>cs. n = 0 \<or> 0 \<le> i \<Longrightarrow> Q cs s) \<Longrightarrow> ends (strncpy_bytes src i n) Q s"
proof (induction n arbitrary: i Q)
  case 0
  then show ?case by (simp add: ends_simps)
next
  case (Suc n)
  have "ends (strncpy_bytes src (i + 1) n) (\<lambda>cs. ends (ret (c # cs)) Q) s" if "0 \<le> i" for c
    by (rule Suc.IH) (use that Suc.prems in \<open>simp add: ends_simps\<close>)
  then show ?case using Suc.prems unfolding strncpy_bytes.simps by (auto simp: ends_simps)
qed

lemma ends_getStr:
  assumes "ranged s" and "int k \<le> INT_MAX" and "\<And>cs s'. onward s s' \<Longrightarrow> Q cs s'"
  shows "ends (getStr dest k) Q s"
  using assms unfolding getStr_def
  by (auto simp: ends_simps Let_def split: option.split intro!: ends_strncpy ends_advancen)

lemma consumes_accept_string: "consumes n accept_string"
  unfolding consumes_def
proof (intro allI impI)
  fix s
  assume s: "ranged s \<and> room s \<le> n"
  show "ends accept_string (\<lambda>_. advanced s) s"
    unfolding accept_string_def ends_andthen
  proof (rule ends_get_varint, use s in simp, rule ends_b_malloc, rule ends_getStr, goal_cases)
    case (1 v s1 ok s2)
    then show ?case using onward_facts(1,3,9) by blast
  next
    case (2 v s1 ok s2)
    then show ?case by (simp add: u32_of_int_def INT_MAX_def unsigned_of_int nat_le_iff take_bit_int_eq_self)
  next
    case (3 v s1 ok s2 cs s3)
    have "onward s1 s2" using 3(1,5) onward_facts(3,9) by blast
    then have "advanced s s3" using 3(1,6) onward_facts(7) by blast
    then show ?case unfolding ends_ret
      by (intro ends_b_free ends_push_val) (blast intro: onward_facts)
  qed
qed

section \<open>Types\<close>

lemma moves_if: "moves n m \<Longrightarrow> moves n m' \<Longrightarrow> moves n (if b then m else m')"
  by simp

lemma moves_prod: "(\<And>x y. moves n (f x y)) \<Longrightarrow> moves n (case p of (x, y) \<Rightarrow> f x y)"
  by (simp add: split_def)

lemmas moves_intros = moves_andthen moves_if moves_prod moves_basic moves_block
  moves_consumes [OF consumes_get_varint] moves_consumes [OF consumes_accept_string]

lemma moves_intentions_loop: "moves n (accept_intentions_loop k npos nlen)"
  by (induction k arbitrary: npos nlen) (auto intro!: moves_intros)

lemma consumes_accept_intentions: "consumes n accept_intentions"
  unfolding accept_intentions_def
  by (rule consumes_andthen [OF consumes_get_varint]) (intro moves_intros moves_intentions_loop)

lemma moves_array_dims: "moves n (array_dims k numVar tot)"
  by (induction k arbitrary: numVar tot) (auto intro!: moves_intros)

lemma moves_struct_fields: "moves n p \<Longrightarrow> moves n (struct_fields p k acc)"
  by (induction k arbitrary: acc)
    (auto simp: accept_field_with_def intro!: moves_intros moves_consumes [OF consumes_accept_intentions])

lemma seen_if:
  "(b \<Longrightarrow> consumes_seen v nb n m) \<Longrightarrow> (\<not> b \<Longrightarrow> consumes_seen v nb n m') \<Longrightarrow> consumes_seen v nb n (if b then m else m')"
  by simp

lemma seen_andthen: "consumes_seen v nb n m \<Longrightarrow> (\<And>x k. k < n \<Longrightarrow> moves k (f x)) \<Longrightarrow> consumes_seen v nb n (andthen m f)"
  unfolding consumes_seen_def moves_def
  by (intro allI impI, rule ends_seq [where P = "advanced _" and R = onward])
    (blast dest: advanced_room intro: onward_facts(7))+

text \<open>The types inside a type are parsed by a parser that moves.\<close>

lemma seen_array_decl:
  assumes "u32_of_int v = ARRAY_DECL" and "0 < nb" and "\<And>k. k < n \<Longrightarrow> moves k p"
  shows "consumes_seen v nb n (accept_array_decl_with p)"
  unfolding accept_array_decl_with_def
  by (rule seen_peek) (simp add: assms(1), intro peeked_seen peeked_advancen assms moves_intros moves_array_dims)

lemma seen_struct_decl:
  assumes "u32_of_int v = STRUCT_DECL" and "0 < nb" and "\<And>k. k < n \<Longrightarrow> moves k p"
  shows "consumes_seen v nb n (accept_struct_decl_with p)"
  unfolding accept_struct_decl_with_def
  by (rule seen_peek) (simp add: assms(1), intro peeked_seen peeked_advancen assms moves_intros moves_struct_fields)

lemma consumes_accept_type: "consumes n accept_type"
proof (induction n rule: less_induct)
  case (less n)
  have p: "moves k accept_type" if "k < n" for k by (rule moves_consumes) (rule less [OF that])
  show ?case
    by (subst accept_type_unfold, unfold accept_type_with_def, rule consumes_peek, unfold split_conv accept_type_switch_def Let_def)
      (intro seen_if seen_andthen seen_array_decl seen_struct_decl peeked_seen peeked_advancen p moves_intros; assumption)
qed

section \<open>Packets\<close>

lemma consumes_skip:
  assumes "\<And>x k. k < n \<Longrightarrow> moves k (f x)"
  shows "consumes n (andthen get_varint (\<lambda>len. andthen (advancen (size_t_of_int len)) f))"
  unfolding consumes_def ends_andthen [of get_varint]
proof (intro allI impI)
  fix s
  assume s: "ranged s \<and> room s \<le> n"
  show "ends get_varint (\<lambda>len. ends (andthen (advancen (size_t_of_int len)) f) (\<lambda>_. advanced s)) s"
  proof (rule ends_get_varint, use s in simp)
    fix v s'
    assume s': "advanced s s'" "0 \<le> b_idx s'" "0 \<le> v" "v \<le> INT_MAX"
    then obtain k where k: "k < n" "ranged s'" "room s' \<le> k" using s advanced_room by blast
    show "ends (andthen (advancen (size_t_of_int v)) f) (\<lambda>_. advanced s) s'"
    proof (rule ends_seq [where P = "onward s'" and R = onward])
      show "ends (advancen (size_t_of_int v)) (\<lambda>_. onward s') s'"
        using s' k by (intro ends_advancen) auto
      show "ends (f x) (\<lambda>_. onward s'') s''" if "onward s' s''" for x s''
        using assms [OF k(1)] onward_room [OF that k(3)] by (simp add: moves_def)
      show "advanced s s3" if "onward s' s2" "onward s2 s3" for s2 s3
        using s'(1) that onward_facts(6,7) by blast
    qed
  qed
qed

lemma consumes_accept_user_id: "consumes n accept_user_id"
  unfolding accept_user_id_def
  by (rule consumes_peek) (auto simp: parser_error_def consumes_seen_def [of _ _ _ "stop _"] ends_simps
      intro!: seen_if peeked_seen peeked_advancen moves_intros)

lemma moves_accept_signature: "moves n (accept_signature type start uid name)"
  unfolding accept_signature_def get_sig_t_def Let_def
  by (intro moves_intros moves_consumes [OF consumes_accept_type] moves_modify) (simp_all add: steady_def)

lemma moves_accept_decl: "moves n (accept_decl type)"
  unfolding accept_decl_def Let_def
  by (intro moves_intros moves_consumes [OF consumes_accept_user_id] moves_consumes [OF consumes_accept_intentions]
      moves_accept_signature moves_modify) (simp_all add: steady_def)

lemma consumes_accept_sample_data: "consumes n accept_sample_data"
  unfolding accept_sample_data_def
  by (intro consumes_andthen consumes_accept_user_id moves_andthen moves_basic moves_consumes [OF consumes_skip])

lemma consumes_accept_packet: "consumes n accept_packet"
  unfolding accept_packet_def accept_packet_switch_def Let_def
  by (rule consumes_peek, unfold split_conv)
    (intro seen_if peeked_seen peeked_advancen peeked_steady consumes_peeked consumes_andthen consumes_accept_sample_data
      consumes_skip moves_intros moves_accept_decl; simp add: steady_def)

text \<open>Every call of \<^verbatim>\<open>accept_packet\<close> moves on, so their loop ends.\<close>

lemma ends_accept_packets: "ranged s \<Longrightarrow> room s \<le> n \<Longrightarrow> ends accept_packets (\<lambda>_ s'. ranged s') s"
proof (induction n arbitrary: s rule: less_induct)
  case (less n)
  have "ends accept_packet (\<lambda>_. advanced s) s" using consumes_accept_packet less.prems by (auto simp: consumes_def)
  then have "ends accept_packet (\<lambda>ok. ends (if ok then accept_packets else ret ()) (\<lambda>_ s'. ranged s')) s"
  proof (rule ends_mono)
    fix ok s'
    assume s': "advanced s s'"
    then obtain k where "k < n" "ranged s'" "room s' \<le> k" using less.prems advanced_room by blast
    then show "ends (if ok then accept_packets else ret ()) (\<lambda>_ s'. ranged s') s'" by (simp add: less.IH ends_simps)
  qed
  then show ?case
    using less.prems by (subst accept_packets_unfold) (simp add: more_input_def ends_simps)
qed

section \<open>A whole run\<close>

lemma ends_b_calloc: "(\<And>a s'. steady s s' \<Longrightarrow> Q a s') \<Longrightarrow> ends (b_calloc n sz k z) Q s"
  unfolding b_calloc_def by (auto simp: ends_simps steady_def intro!: ends_b_malloc)

lemma ends_init_rows: "(\<And>s'. steady s s' \<Longrightarrow> Q () s') \<Longrightarrow> ends (init_rows n i) Q s"
proof (induction n arbitrary: i s)
  case 0
  then show ?case by (simp add: ends_simps steady_def)
next
  case (Suc n)
  show ?case
    unfolding init_rows.simps ends_andthen ends_gets ends_modify ends_c_int
    by (intro ends_b_calloc ends_block_put impI Suc.IH, rule Suc.prems) (simp add: steady_def)
qed

lemma ends_free_rows: "(\<And>s'. Q () s') \<Longrightarrow> ends (free_rows n i) Q s"
proof (induction n arbitrary: i s)
  case 0
  then show ?case by (simp add: ends_simps)
next
  case (Suc n)
  show ?case
    unfolding free_rows.simps ends_andthen ends_gets ends_c_int ends_block_get
    by (intro allI impI ends_b_free Suc.IH) (rule Suc.prems)
qed

lemma ends_parser_init:
  assumes "\<And>failed s'. b_idx s' = 0 \<Longrightarrow> (\<forall>c. b_c s' = Some c \<longrightarrow> length c = buffer_size) \<Longrightarrow> Q failed s'"
  shows "ends (labcomm2014_sig_parser_init buffer_size ss ns nl sl) Q s"
  unfolding labcomm2014_sig_parser_init_def ends_andthen ends_modify ends_gets
  by (intro ends_b_malloc ends_b_calloc ends_init_rows assms) (auto simp: steady_def split: if_splits)

lemma ends_read_file:
  assumes "int buffer_size \<le> INT_MAX" and "\<forall>c. b_c s = Some c \<longrightarrow> length c = buffer_size" and "\<And>x s'. ranged s' \<Longrightarrow> Q x s'"
  shows "ends (labcomm2014_sig_parser_read_file file) Q s"
proof (cases "b_c s")
  case None
  then show ?thesis by (simp add: labcomm2014_sig_parser_read_file_def ends_simps Let_def)
next
  case (Some c)
  then show ?thesis
    using assms(1,2) by (auto simp: labcomm2014_sig_parser_read_file_def ends_simps Let_def ranged_def short_buffer_def
        INT_MIN_def INT_MAX_def intro!: assms(3))
qed

lemma ends_parser_free: "ends labcomm2014_sig_parser_free (\<lambda>_ _. True) s"
  unfolding labcomm2014_sig_parser_free_def ends_andthen ends_gets
  by (intro ends_b_free ends_free_rows) simp

lemma ends_parse_file:
  assumes "int buffer_size \<le> INT_MAX"
  shows "ends (parse_file buffer_size ss ns nl sl file) (\<lambda>_ _. True) s"
  unfolding parse_file_def ends_andthen parser_error_def
proof (rule ends_parser_init, unfold ends_if ends_stop ends_andthen, intro conjI impI, goal_cases)
  case (2 failed s1)
  show ?case
    by (rule ends_read_file [OF assms 2(2)], erule ends_mono [OF ends_accept_packets [OF _ order_refl]]) (rule ends_parser_free)
qed simp

end
