(* ===== verification/LC_SigParserFile.thy ===== *)
theory LC_SigParserFile
  imports LC_SigParserPackets
begin

text \<open>Making a parser, reading a file into it, and freeing it.\<close>

lemma wp_b_calloc:
  assumes "plenty (b_memory b)" and "n * sz < 2 ^ 64"
  shows "wp (b_calloc n sz k zero) Q b \<longleftrightarrow>
    Q (Some (replicate k (Some zero))) (b\<lparr>b_memory := (b_memory b)
      \<lparr>mem_calls := Suc (mem_calls (b_memory b)), mem_live := mem_live (b_memory b) + 1\<rparr>\<rparr>)"
  using assms by (simp add: b_calloc_def wp_simps Let_def)

definition zero_row :: "nat \<Rightarrow> byte block option" where
  "zero_row n = Some (Some (replicate n (Some 0)))"

text \<open>All blocks of a parser that was made are there, and the tables are empty.\<close>

definition made :: "nat \<Rightarrow> nat \<Rightarrow> nat \<Rightarrow> nat \<Rightarrow> nat \<Rightarrow> sig_parser_t \<Rightarrow> sig_parser_t \<Rightarrow> bool" where
  "made buffer_size stacksize num_signatures max_name_len max_sig_len b0 b \<longleftrightarrow>
     b_c b = Some (replicate buffer_size None) \<and> b_capacity b = buffer_size \<and>
     b_stacksize b = stacksize \<and> b_val_top b = int stacksize - 1 \<and> b_ptr_top b = int stacksize - 1 \<and>
     b_val_stack b = Some (replicate (2 * stacksize) (Some 0)) \<and>
     b_ptr_stack b = Some (replicate stacksize (Some 0)) \<and>
     b_max_signatures b = num_signatures \<and> b_max_name_len b = max_name_len \<and> b_max_sig_len b = max_sig_len \<and>
     b_sig_ts b = Some (replicate num_signatures (Some \<lparr>st_name = None, st_size = 0, st_signature = None\<rparr>)) \<and>
     b_signatures_length b = Some (replicate num_signatures (Some 0)) \<and>
     b_signatures_name_length b = Some (replicate num_signatures (Some 0)) \<and>
     b_signatures b = Some (replicate num_signatures (zero_row max_sig_len)) \<and>
     b_signatures_name b = Some (replicate num_signatures (zero_row max_name_len)) \<and>
     mem_grant (b_memory b) = mem_grant (b_memory b0) \<and>
     mem_live (b_memory b) = mem_live (b_memory b0) + 8 + 2 * int num_signatures"

lemma wp_init_rows:
  assumes "plenty (b_memory b)" and "b_max_sig_len b < 2 ^ 64" and "b_max_name_len b < 2 ^ 64"
    and "int (i + n) \<le> INT_MAX"
    and "b_signatures b = Some (replicate i (zero_row (b_max_sig_len b)) @ replicate n z)"
    and "b_signatures_name b = Some (replicate i (zero_row (b_max_name_len b)) @ replicate n z)"
    and "\<And>k. Q () (b\<lparr>b_signatures := Some (replicate (i + n) (zero_row (b_max_sig_len b))),
      b_signatures_name := Some (replicate (i + n) (zero_row (b_max_name_len b))),
      b_memory := (b_memory b)\<lparr>mem_calls := k, mem_live := mem_live (b_memory b) + 2 * int n\<rparr>\<rparr>)"
  shows "wp (init_rows n (int i)) Q b"
  using assms
proof (induction n arbitrary: i b)
  case 0
  have "b = b\<lparr>b_signatures := Some (replicate (i + 0) (zero_row (b_max_sig_len b))),
      b_signatures_name := Some (replicate (i + 0) (zero_row (b_max_name_len b))),
      b_memory := (b_memory b)\<lparr>mem_calls := mem_calls (b_memory b), mem_live := mem_live (b_memory b) + 2 * int 0\<rparr>\<rparr>"
    using 0 by simp
  then show ?case using 0(7) [of "mem_calls (b_memory b)"] by (simp add: wp_ret)
next
  case (Suc n)
  let ?sl = "b_max_sig_len b" and ?nl = "b_max_name_len b"
  let ?b1 = "b\<lparr>b_signatures := Some (replicate (Suc i) (zero_row ?sl) @ replicate n z),
      b_memory := (b_memory b)\<lparr>mem_calls := mem_calls (b_memory b) + 2, mem_live := mem_live (b_memory b) + 2\<rparr>,
      b_signatures_name := Some (replicate (Suc i) (zero_row ?nl) @ replicate n z)\<rparr>"
  have put: "(replicate i x @ replicate (Suc n) z)[i := x] = replicate (Suc i) x @ replicate n z" for x
    by (simp add: list_update_append replicate_app_Cons_same)
  have "wp (init_rows n (int (Suc i))) Q ?b1"
    by (rule Suc.IH) (use Suc.prems in \<open>simp_all add: algebra_simps\<close>)
  then show ?case
    using Suc.prems(1-6) put
    by (simp add: wp_simps wp_b_calloc zero_row_def [symmetric] INT_MIN_def algebra_simps del: replicate_Suc)
qed

lemma wp_init:
  assumes "plenty (b_memory b)" and "buffer_size < 2 ^ 63" and "1 \<le> stacksize" "int stacksize \<le> INT_MAX"
    and "int num_signatures \<le> INT_MAX" and "max_name_len < 2 ^ 64" and "max_sig_len < 2 ^ 64"
    and "\<And>b'. made buffer_size stacksize num_signatures max_name_len max_sig_len b b' \<Longrightarrow> b_size b' = 0 \<Longrightarrow>
      b_idx b' = 0 \<Longrightarrow> Q False b'"
  shows "wp (labcomm2014_sig_parser_init buffer_size stacksize num_signatures max_name_len max_sig_len) Q b"
proof -
  have "int_of_size_t (int stacksize - 1) = int stacksize - 1"
    using assms(3,4) by (simp add: int_of_size_t_def INT_MIN_def)
  then show ?thesis
    using assms unfolding labcomm2014_sig_parser_init_def
    by (simp add: wp_simps wp_b_calloc INT_MAX_def Let_def)
      (rule wp_init_rows [where i = 0 and z = "Some None", simplified], auto simp: made_def INT_MAX_def wp_simps)
qed

text \<open>After the file was read the parser stands before its first packet.\<close>

lemma empty_tables:
  assumes "tables_ok b" and ts: "b_sig_ts b = Some (replicate (b_max_signatures b) (Some \<lparr>st_name = None, st_size = 0, st_signature = None\<rparr>))"
  shows "known b = (\<lambda>_. None)"
  by (rule ext) (auto simp: known_eq [OF assms(1), of "replicate (b_max_signatures b) \<lparr>st_name = None, st_size = 0, st_signature = None\<rparr>"] ts)

lemma made_tables:
  assumes "made bs ss ns nl sl b0 b"
  shows "tables_ok b"
proof -
  have rows: "rows_ok n len (Some (replicate n (zero_row len)))" for n len
    unfolding rows_ok_def by (rule exI [of _ "replicate n (replicate len (Some 0))"]) (simp add: zero_row_def)
  show "tables_ok b"
    using assms rows unfolding tables_ok_def made_def
    by (auto intro!: exI [of _ "replicate ns \<lparr>st_name = None, st_size = 0, st_signature = None\<rparr>"])
qed

lemma at_packet_read:
  assumes b: "made bs ss ns nl sl b0 b" and len: "length file \<le> bs" "int (length file) \<le> INT_MAX"
    and ss: "1 \<le> ss" "int ss \<le> INT_MAX"
  defines "b' \<equiv> b\<lparr>b_c := Some (map Some file @ drop (length file) (the (b_c b))), b_size := length file, b_idx := 0\<rparr>"
  shows "at_packet b' file (\<lambda>_. None) b'"
proof -
  have ok: "tables_ok b'" using made_tables [OF b] by (simp add: b'_def tables_ok_def)
  moreover have "known b' = (\<lambda>_. None)" using b by (intro empty_tables [OF ok]) (simp add: b'_def made_def)
  moreover have "stack_ok b'" "stack_of b' = []" "buffer_ok b'" "unread b' = file"
    using b len ss
    by (auto simp: b'_def made_def stack_ok_def stack_of_def buffer_ok_def unread_def input_of_def comp_def)
  ultimately show ?thesis by (simp add: at_packet_def parsing_def b'_def)
qed

lemma wp_read_file:
  assumes b: "made bs ss ns nl sl b0 b" and len: "length file \<le> bs" "int (length file) \<le> INT_MAX"
    and ss: "1 \<le> ss" "int ss \<le> INT_MAX"
    and Q: "\<And>b'. at_packet b' file (\<lambda>_. None) b' \<Longrightarrow> b_stacksize b' = ss \<Longrightarrow> b_max_signatures b' = ns \<Longrightarrow>
      b_max_name_len b' = nl \<Longrightarrow> b_max_sig_len b' = sl \<Longrightarrow> b_ptr_stack b' \<noteq> None \<Longrightarrow>
      mem_grant (b_memory b') = mem_grant (b_memory b0) \<Longrightarrow>
      mem_live (b_memory b') = mem_live (b_memory b0) + 8 + 2 * int ns \<Longrightarrow> Q (int (length file)) b'"
  shows "wp (labcomm2014_sig_parser_read_file file) Q b"
  using Q [OF at_packet_read [OF b len ss]] b len
  by (simp add: labcomm2014_sig_parser_read_file_def wp_simps Let_def made_def int_of_size_t_def INT_MIN_def)

text \<open>Freeing gives back every block.\<close>

lemma wp_free_rows:
  assumes "rows_ok ns sl (b_signatures b)" and "rows_ok ns nl (b_signatures_name b)" and "i + n = ns" and "int ns \<le> INT_MAX"
    and "\<And>b'. Q () (b\<lparr>b_memory := (b_memory b)\<lparr>mem_live := mem_live (b_memory b) - 2 * int n\<rparr>\<rparr>)"
  shows "wp (free_rows n (int i)) Q b"
  using assms
proof (induction n arbitrary: i b)
  case 0
  then show ?case by (simp add: wp_ret)
next
  case (Suc n)
  obtain xs x ys y where xs: "b_signatures b = Some xs" "length xs = ns" "xs ! i = Some (Some x)"
    "b_signatures_name b = Some ys" "length ys = ns" "ys ! i = Some (Some y)"
    using rows_ok_get [OF Suc.prems(1), of i] rows_ok_get [OF Suc.prems(2), of i] Suc.prems(3) by auto
  have "wp (free_rows n (int (Suc i))) Q (b\<lparr>b_memory := (b_memory b)\<lparr>mem_live := mem_live (b_memory b) - 2\<rparr>\<rparr>)"
    by (rule Suc.IH) (use Suc.prems in \<open>simp_all add: algebra_simps\<close>)
  then show ?case using xs Suc.prems(3,4) by (simp add: wp_simps INT_MIN_def algebra_simps)
qed

lemma wp_parser_free:
  assumes at: "at_packet b0 rest m b" and "int (b_max_signatures b0) \<le> INT_MAX" and "b_ptr_stack b0 \<noteq> None"
    and "\<And>b'. mem_live (b_memory b') = mem_live (b_memory b0) - 8 - 2 * int (b_max_signatures b0) \<Longrightarrow> Q () b'"
  shows "wp labcomm2014_sig_parser_free Q b"
proof -
  have f: "file_frame b = file_frame b0" using at by (simp add: at_packet_def)
  have "b_ptr_stack (file_frame b) = b_ptr_stack b" for b by (simp add: file_frame_def frame_def)
  then have ptr: "b_ptr_stack b \<noteq> None" using f assms(3) by metis
  have "b_c b \<noteq> None" "b_val_stack b \<noteq> None" "tables_ok b"
    using at by (auto simp: at_packet_def parsing_def stack_ok_def buffer_ok_def)
  with ptr show ?thesis
    using assms(2,4) file_frame_fields [OF f] unfolding labcomm2014_sig_parser_free_def tables_ok_def
    by (simp add: wp_simps) (rule wp_free_rows [where i = 0, simplified], auto simp: rows_ok_def wp_simps)
qed

end
