(* ===== verification/LC_SigParserTyped.thy ===== *)
theory LC_SigParserTyped
  imports LC_SigParserFile
begin

text \<open>
  The state of the parser stays well formed whatever the file holds: the value stack and the buffer are
  initialised blocks of their sizes, the tables have their lengths, no row of them is lost and an entry
  points to its own rows.  It is partial correctness: \<open>LC_SigParserTotal\<close> shows that the parser ends.
\<close>

named_theorems partly_simps \<open>what holds if a computation returns\<close>

definition partly :: "('s, 'a) prog \<Rightarrow> ('a \<Rightarrow> 's \<Rightarrow> bool) \<Rightarrow> 's \<Rightarrow> bool" where
  "partly m Q s \<longleftrightarrow> (\<forall>x s'. m s = Some (Inr (x, s')) \<longrightarrow> Q x s')"

lemma partly_ret [partly_simps]: "partly (ret x) Q s \<longleftrightarrow> Q x s"
  by (simp add: partly_def prog_simps)

lemma partly_stop [partly_simps]: "partly (stop e) Q s \<longleftrightarrow> True"
  by (simp add: partly_def prog_simps)

lemma partly_modify [partly_simps]: "partly (modify f) Q s \<longleftrightarrow> Q () (f s)"
  by (simp add: partly_def prog_simps)

lemma partly_gets [partly_simps]: "partly (gets g) Q s \<longleftrightarrow> Q (g s) s"
  by (simp add: partly_def prog_simps)

lemma partly_andthen [partly_simps]: "partly (andthen m f) Q s \<longleftrightarrow> partly m (\<lambda>x. partly (f x) Q) s"
  by (fastforce simp: partly_def prog_simps split: option.splits sum.splits)

lemma partly_if [partly_simps]:
  "partly (if b then m else n) Q s \<longleftrightarrow> (b \<longrightarrow> partly m Q s) \<and> (\<not> b \<longrightarrow> partly n Q s)"
  by simp

lemma partly_c_int [partly_simps]: "partly (c_int i) Q s \<longleftrightarrow> (INT_MIN \<le> i \<and> i \<le> INT_MAX \<longrightarrow> Q i s)"
  by (auto simp: c_int_def partly_simps)

lemma partly_block_get [partly_simps]:
  "partly (block_get a i) Q s \<longleftrightarrow>
     (\<forall>xs x. a = Some xs \<longrightarrow> 0 \<le> i \<longrightarrow> i < int (length xs) \<longrightarrow> xs ! nat i = Some x \<longrightarrow> Q x s)"
  by (auto simp: block_get_def partly_simps split: option.splits)

lemma partly_block_put [partly_simps]:
  "partly (block_put a i x) Q s \<longleftrightarrow>
     (\<forall>xs. a = Some xs \<longrightarrow> 0 \<le> i \<longrightarrow> i < int (length xs) \<longrightarrow> Q (Some (xs[nat i := Some x])) s)"
  by (auto simp: block_put_def partly_simps split: option.splits)

lemma partly_block_copy [partly_simps]:
  "partly (block_copy dest src i n) Q s \<longleftrightarrow>
     (\<forall>ds xs. dest = Some ds \<longrightarrow> src = Some xs \<longrightarrow> 0 \<le> i \<longrightarrow> i + int n \<le> int (length xs) \<longrightarrow> n \<le> length ds \<longrightarrow>
        Q (Some (take n (drop (nat i) xs) @ drop n ds)) s)"
  by (auto simp: block_copy_def partly_simps split: option.splits)

lemma partly_mono: "partly m P s \<Longrightarrow> (\<And>x s'. P x s' \<Longrightarrow> Q x s') \<Longrightarrow> partly m Q s"
  by (auto simp: partly_def)

section \<open>Well-formed states\<close>

definition stack_typed :: "sig_parser_t \<Rightarrow> bool" where
  "stack_typed b \<longleftrightarrow> (\<exists>xs. b_val_stack b = Some (map Some xs) \<and> length xs = 2 * b_stacksize b) \<and>
     int (b_stacksize b) \<le> INT_MAX \<and> 0 \<le> b_val_top b \<and> b_val_top b \<le> int (b_stacksize b)"

definition parser_ok :: "sig_parser_t \<Rightarrow> bool" where
  "parser_ok b \<longleftrightarrow> stack_typed b \<and> buffer_ok b \<and> tables_ok b"

definition keeps :: "'a sp \<Rightarrow> bool" where
  "keeps m \<longleftrightarrow> (\<forall>b. parser_ok b \<longrightarrow> partly m (\<lambda>_. parser_ok) b)"

lemma keepsD: "keeps m \<Longrightarrow> parser_ok b \<Longrightarrow> partly m (\<lambda>_. parser_ok) b"
  by (simp add: keeps_def)

lemma keeps_andthen: "keeps m \<Longrightarrow> (\<And>x. keeps (f x)) \<Longrightarrow> keeps (andthen m f)"
  unfolding keeps_def partly_andthen by (blast intro: partly_mono)

lemma keeps_if: "keeps m \<Longrightarrow> keeps n \<Longrightarrow> keeps (if b then m else n)"
  by simp

lemma keeps_prod: "(\<And>x y. keeps (f x y)) \<Longrightarrow> keeps (case p of (x, y) \<Rightarrow> f x y)"
  by (simp add: split_def)

text \<open>What leaves the state alone.\<close>

lemma keeps_pure:
  "keeps (ret x)" "keeps (stop e)" "keeps (gets g)" "keeps (c_int i)" "keeps (parser_error :: 'a sp)"
  "keeps (block_get a i)" "keeps (block_put a i x)" "keeps (block_copy d a i n)"
  by (simp_all add: keeps_def partly_simps parser_error_def)

lemma keeps_strncpy: "keeps (strncpy_bytes src i n)"
  by (induction n arbitrary: i) (auto intro!: keeps_andthen keeps_pure)

lemma parser_ok_updates [simp]:
  "parser_ok (b\<lparr>b_idx := i\<rparr>) = parser_ok b" "parser_ok (b\<lparr>b_current_decl_is_varsize := fl\<rparr>) = parser_ok b"
  "parser_ok (b\<lparr>b_memory := m\<rparr>) = parser_ok b"
  by (simp_all add: parser_ok_def stack_typed_def tables_ok_def)

lemma keeps_memory: "keeps (b_malloc n)" "keeps (b_free a)" "keeps (advancen n)" "keeps set_varsize"
  by (auto simp: keeps_def partly_def b_malloc_def b_free_def default_alloc_def default_free_def Let_def prog_simps
      advancen_def set_varsize_def split: if_splits option.splits sum.splits)

lemma unpack_varint_pure: "partly (unpack_varint buf i) (\<lambda>_ b'. b' = b) b"
proof -
  have "partly (unpack_varint_loop buf i res k) (\<lambda>_ b'. b' = b) b" for i res k
    unfolding partly_def
  proof (intro allI impI)
    fix x b'
    assume run: "unpack_varint_loop buf i res k b = Some (Inr (x, b'))"
    show "b' = b"
      by (rule unpack_varint_loop.raw_induct [OF _ run, where
            P = "\<lambda>_ _ _ _ b y. \<forall>x b'. y = Inr (x, b') \<longrightarrow> b' = b", rule_format])
        (auto simp: prog_simps block_get_def Let_def split: option.splits sum.splits if_splits)
  qed
  then show ?thesis by (simp add: unpack_varint_def)
qed

lemma keeps_varint: "keeps (unpack_varint buf i)"
  unfolding keeps_def by (blast intro: partly_mono [OF unpack_varint_pure])

text \<open>The stack: a push writes inside of the block, a pop below the bottom is refused.\<close>

lemma keeps_push_val: "keeps (push_val e)"
  by (auto simp: keeps_def push_val_def partly_simps parser_error_def parser_ok_def stack_typed_def buffer_ok_def tables_ok_def
      simp flip: map_update)

lemma size_t_of_int_le:
  assumes "size_t_of_int t \<le> n" and "int n \<le> INT_MAX" "INT_MIN \<le> t" "t \<le> INT_MAX"
  shows "0 \<le> t" and "t \<le> int n"
proof -
  have "t mod 2 ^ 64 = t + 2 ^ 64" if "t < 0"
  proof -
    have "t mod 2 ^ 64 = (t + 2 ^ 64) mod 2 ^ 64" by simp
    also have "\<dots> = t + 2 ^ 64" using that assms(3) by (intro mod_pos_pos_trivial) (simp_all add: INT_MIN_def)
    finally show ?thesis .
  qed
  then show t: "0 \<le> t" using assms(1-3) by (force simp: size_t_of_int_def INT_MIN_def INT_MAX_def nat_le_iff)
  show "t \<le> int n" using t assms(1,4) by (simp add: nat_le_iff)
qed

lemma keeps_pop_val: "keeps pop_val"
  by (auto simp: keeps_def pop_val_def partly_simps parser_error_def parser_ok_def stack_typed_def buffer_ok_def tables_ok_def
      not_less size_t_of_int_le)

section \<open>Parsing\<close>

lemmas keeps_basic = keeps_andthen keeps_if keeps_prod keeps_pure keeps_memory keeps_varint keeps_push_val keeps_pop_val

lemma keeps_reading: "keeps peek_varint" "keeps get_varint" "keeps (getStr dest n)" "keeps more_input"
  unfolding peek_varint_def get_varint_def getStr_def more_input_def Let_def
  by (auto intro!: keeps_basic keeps_strncpy split: option.splits)

lemma keeps_accept_string: "keeps accept_string"
  unfolding accept_string_def by (intro keeps_basic keeps_reading)

lemma keeps_accept_intentions: "keeps accept_intentions"
proof -
  have "keeps (accept_intentions_loop n npos nlen)" for n npos nlen
    by (induction n arbitrary: npos nlen) (auto intro!: keeps_basic keeps_accept_string)
  then show ?thesis unfolding accept_intentions_def by (intro keeps_basic keeps_reading)
qed

lemma keeps_accept_user_id: "keeps accept_user_id"
  unfolding accept_user_id_def by (intro keeps_basic keeps_reading)

lemma keeps_array_dims: "keeps (array_dims n numVar tot)"
  by (induction n arbitrary: numVar tot) (auto intro!: keeps_basic keeps_reading)

lemma keeps_struct_fields: "keeps p \<Longrightarrow> keeps (struct_fields p n acc)"
  by (induction n arbitrary: acc) (auto simp: accept_field_with_def intro!: keeps_basic keeps_accept_intentions)

lemma keeps_accept_type_with: "keeps p \<Longrightarrow> keeps (accept_type_with p)"
  unfolding accept_type_with_def accept_type_switch_def Let_def accept_array_decl_with_def accept_struct_decl_with_def
  by (intro keeps_basic keeps_reading keeps_array_dims keeps_struct_fields; assumption)

lemma keeps_accept_type: "keeps accept_type"
proof -
  have "parser_ok s \<longrightarrow> (\<forall>x s'. y = Inr (x, s') \<longrightarrow> parser_ok s')" if "accept_type s = Some y" for s y
  proof (rule accept_type.raw_induct [OF _ that, where P = "\<lambda>s y. parser_ok s \<longrightarrow> (\<forall>x s'. y = Inr (x, s') \<longrightarrow> parser_ok s')"], goal_cases)
    case (1 p s y)
    have "keeps p" using 1(1) by (fastforce simp: keeps_def partly_def)
    from keeps_accept_type_with [OF this] show ?case using 1(2) by (auto simp: keeps_def partly_def)
  qed
  then show ?thesis by (auto simp: keeps_def partly_def)
qed

section \<open>The tables\<close>

text \<open>Writing an entry of a table that was read before leaves the state well formed.\<close>

lemma slot_row:
  assumes "rows_ok n len rows" and "rows = Some xs" "0 \<le> i" "i < int (length xs)" "xs ! nat i = Some row"
  shows "nat i < n" and "length xs = n" and "\<exists>r. row = Some r \<and> length r = len"
proof -
  show n: "length xs = n" "nat i < n" using assms by (auto simp: rows_ok_def)
  show "\<exists>r. row = Some r \<and> length r = len" using rows_ok_get [OF assms(1) n(2)] assms(2,5) by auto
qed

lemma copied_length:
  "0 \<le> i \<Longrightarrow> i + int n \<le> int (length xs) \<Longrightarrow> n \<le> length ds \<Longrightarrow> length (take n (drop (nat i) xs) @ drop n ds) = length ds"
  by (simp add: nat_le_iff le_diff_conv2)

lemma parser_ok_names:
  assumes ok: "parser_ok b" and ls: "length ls = b_max_signatures b" and rows: "b_signatures_name b = Some rows"
    and k: "k < b_max_signatures b" and row: "length row = b_max_name_len b"
  shows "parser_ok (b\<lparr>b_signatures_name_length := Some ls, b_signatures_name := Some (rows[k := Some (Some row)])\<rparr>)"
  using ok tables_ok_names(1) [OF _ k row ls] rows by (simp add: parser_ok_def stack_typed_def buffer_ok_def)

lemma parser_ok_signature:
  assumes ok: "parser_ok b" and ls: "length ls = b_max_signatures b" and rows: "b_signatures b = Some rows"
    and k: "k < b_max_signatures b" and row: "length row = b_max_sig_len b" and ts: "b_sig_ts b = Some ts"
    and t: "st_signature t = Some k" "st_name t = Some (NameRow k)"
  shows "parser_ok (b\<lparr>b_signatures_length := Some ls, b_signatures := Some (rows[k := Some (Some row)]),
      b_sig_ts := Some (ts[k := Some t])\<rparr>)"
  using ok tables_ok_signature(1) [OF _ k row ls t] rows ts by (simp add: parser_ok_def stack_typed_def buffer_ok_def)

lemma parser_ok_tables:
  assumes "parser_ok b"
  shows "rows_ok (b_max_signatures b) (b_max_sig_len b) (b_signatures b)"
    and "rows_ok (b_max_signatures b) (b_max_name_len b) (b_signatures_name b)"
    and "b_signatures_length b = Some xs \<Longrightarrow> length xs = b_max_signatures b"
    and "b_signatures_name_length b = Some ys \<Longrightarrow> length ys = b_max_signatures b"
    and "b_sig_ts b = Some ts \<Longrightarrow> length ts = b_max_signatures b"
  using assms by (auto simp: parser_ok_def tables_ok_def)

lemma keeps_accept_signature:
  assumes name: "type = PKG_SAMPLE_DECL \<Longrightarrow> name = NameRow (nat (sig_slot uid))"
  shows "keeps (accept_signature type start uid name)"
  unfolding accept_signature_def
proof (rule keeps_andthen, rule keeps_reading, rule keeps_andthen, rule keeps_accept_type, rule keeps_andthen, rule keeps_pop_val,
    rule keeps_andthen, rule keeps_pop_val, cases "type = PKG_SAMPLE_DECL", goal_cases)
  case 1
  show ?case
    unfolding keeps_def get_sig_t_def parser_error_def
  proof (simp only: partly_simps Let_def id_apply 1 name simp_thms if_False, intro allI impI conjI, goal_cases)
    case (1 b xs xsa x ds xsb xsc xsd xa xse)
    note tables = parser_ok_tables [OF 1(1)]
    note slot = slot_row [OF tables(1) 1(6,4,8,9)]
    show ?case by (rule parser_ok_signature [OF 1(1) _ 1(15) slot(1) _ 1(22)]) (use 1(3,9,10) slot(3) tables(3) copied_length [OF 1(12-14)] in auto)
  qed
next
  case 2
  show ?case using 2 by (simp only: if_P not_False_eq_True) (intro keeps_if keeps_pure)
qed

lemma keeps_accept_decl: "keeps (accept_decl type)"
  unfolding accept_decl_def
proof (rule keeps_andthen, rule keeps_accept_user_id, rule keeps_if, rule keeps_andthen, rule keeps_pop_val, rule keeps_andthen,
    rule keeps_accept_intentions, rule keeps_andthen, rule keeps_pure, rule keeps_andthen, rule keeps_pop_val, rule keeps_andthen,
    rule keeps_pop_val, cases "type = PKG_SAMPLE_DECL", goal_cases)
  case (1 _ uid _ start nstart nlen)
  note sig = keepsD [OF keeps_accept_signature]
  show ?case
    unfolding keeps_def parser_error_def
  proof (simp only: partly_simps Let_def id_apply 1 simp_thms if_False, intro allI impI conjI, goal_cases)
    case (1 b xs xsa x ds xsb xsc xsd)
    note tables = parser_ok_tables [OF 1(1)]
    note slot = slot_row [OF tables(2) 1(6,4,8,9)]
    show ?case
      by (rule sig, simp, rule parser_ok_names [OF 1(1) _ 1(18) slot(1)])
        (use 1(3,9,10,15) slot(3) tables(4) copied_length [OF 1(12-14)] in auto)
  qed
next
  case (2 _ uid _ start nstart nlen)
  show ?case using 2 by (simp only: Let_def if_P not_False_eq_True) (rule keeps_accept_signature, simp)
qed (rule keeps_pure)

lemma keeps_skipped: "keeps (accept_sample_data)"
  unfolding accept_sample_data_def by (intro keeps_basic keeps_reading keeps_accept_user_id)

lemma keeps_modify: "(\<And>b. parser_ok b \<Longrightarrow> parser_ok (f b)) \<Longrightarrow> keeps (modify f)"
  by (simp add: keeps_def partly_simps)

lemma keeps_accept_packet: "keeps accept_packet"
  unfolding accept_packet_def accept_packet_switch_def Let_def
  by (intro keeps_basic keeps_reading keeps_accept_string keeps_accept_decl keeps_skipped keeps_modify; simp)

lemma keeps_accept_packets: "keeps accept_packets"
proof -
  have "parser_ok s \<longrightarrow> (\<forall>x s'. y = Inr (x, s') \<longrightarrow> parser_ok s')" if "accept_packets s = Some y" for s y
  proof (rule accept_packets.raw_induct [OF _ that, where P = "\<lambda>s y. parser_ok s \<longrightarrow> (\<forall>x s'. y = Inr (x, s') \<longrightarrow> parser_ok s')"], goal_cases)
    case (1 p s y)
    have "keeps p" using 1(1) by (fastforce simp: keeps_def partly_def)
    then have "keeps (andthen more_input (\<lambda>m. if m then andthen accept_packet (\<lambda>ok. if ok then p else ret ()) else ret ()))"
      by (intro keeps_basic keeps_reading keeps_accept_packet)
    moreover have "andthen more_input (\<lambda>m. if m then andthen accept_packet (\<lambda>ok. if ok then p else ret ()) else ret ()) s = Some y"
      by (rule trans [OF _ 1(2)], rule arg_cong [where f = "\<lambda>g. andthen _ g _"])
        (auto intro!: ext arg_cong [where f = "\<lambda>g. andthen _ g _"])
    ultimately show ?case by (auto simp: keeps_def partly_def)
  qed
  then show ?thesis by (auto simp: keeps_def partly_def)
qed

text \<open>A parser that was made is well formed, and stays so while a file is read and parsed.\<close>

lemma made_parser_ok:
  assumes "made bs ss ns nl sl b0 b" and "b_size b = 0" and "1 \<le> ss" "int ss \<le> INT_MAX"
  shows "parser_ok b"
proof -
  have "stack_typed b"
    using assms by (auto simp: made_def stack_typed_def intro!: exI [of _ "replicate (2 * ss) 0"])
  moreover have "buffer_ok b" using assms by (simp add: made_def buffer_ok_def)
  ultimately show ?thesis using made_tables [OF assms(1)] by (simp add: parser_ok_def)
qed

lemma keeps_read_file:
  assumes "parser_ok b" and "int (b_capacity b) \<le> INT_MAX"
  shows "partly (labcomm2014_sig_parser_read_file file) (\<lambda>_. parser_ok) b"
proof -
  have len: "int (length (take (b_capacity b) file)) \<le> INT_MAX" using assms(2) by simp
  then have sz: "int_of_size_t (int (length (take (b_capacity b) file))) = int (length (take (b_capacity b) file))"
    by (simp add: int_of_size_t_def INT_MIN_def)
  show ?thesis
    using assms len unfolding labcomm2014_sig_parser_read_file_def
    by (simp only: partly_simps Let_def id_apply sz)
      (auto simp: partly_simps parser_ok_def stack_typed_def buffer_ok_def tables_ok_def split: option.split)
qed

end
