(* ===== verification/LC_SigParserProps.thy ===== *)
theory LC_SigParserProps
  imports LC_SigParserSkip LC_SigParserTotal LC_SigParserFile LC_SigParserTyped LC_Session
begin

text \<open>
  What the signature parser promises: it reads well-formed types and files and finds the samples that are
  defined in them, it ends on every file and keeps its state well formed, and it skips samples; and one
  promise that it does not keep.
\<close>

section \<open>Examples\<close>

text \<open>A parser before \<^verbatim>\<open>labcomm2014_sig_parser_init\<close>, and one with a stack of four places on a buffer.\<close>

definition blank_parser :: sig_parser_t where
  "blank_parser = \<lparr>b_c = None, b_size = 0, b_capacity = 0, b_idx = 0, b_val_top = 0, b_val_stack = None,
     b_ptr_top = 0, b_ptr_stack = None, b_stacksize = 0, b_current_decl_is_varsize = False,
     b_max_signatures = 0, b_max_name_len = 0, b_max_sig_len = 0, b_sig_ts = None, b_signatures_length = None,
     b_signatures = None, b_signatures_name_length = None, b_signatures_name = None, b_memory = generous\<rparr>"

definition parser_on :: "byte list \<Rightarrow> sig_parser_t" where
  "parser_on file = blank_parser\<lparr>b_c := Some (map Some file), b_size := length file, b_capacity := length file,
     b_val_stack := Some (replicate 8 (Some 0)), b_val_top := 3, b_stacksize := 4\<rparr>"

lemma blank_parser_memory [simp]: "b_memory blank_parser = generous"
  by (simp add: blank_parser_def)

lemma parser_on_parsing: "int (length file) \<le> INT_MAX \<Longrightarrow> parsing (parser_on file) file [] False (parser_on file)"
  by (simp add: parsing_def parser_on_def stack_ok_def stack_of_def buffer_ok_def unread_def input_of_def blank_parser_def
      comp_def INT_MAX_def)

text \<open>A file with the version, the type of a sample and a sample of it.\<close>

definition demo_file :: "pkt list" where
  "demo_file = [Version [0x4c], Declare Sample_def 64 [([], [0x61])] (Array [2, 0] (Basic Integer)), Data 64 [1, 0, 0, 0, 7]]"

text \<open>Termination and partial correctness together.\<close>

lemma ends_partly: "ends m P b \<Longrightarrow> partly m Q b \<Longrightarrow> ends m (\<lambda>x b'. P x b' \<and> Q x b') b"
  by (auto simp: ends_def partly_def split: option.splits sum.splits)

lemma ends_wp: "wp m P b \<Longrightarrow> (\<And>x b'. P x b' \<Longrightarrow> Q x b') \<Longrightarrow> ends m Q b"
  by (auto simp: ends_def wp_def split: option.splits sum.splits)

section \<open>Types\<close>

text \<open>
  Claim C14. \<^verbatim>\<open>accept_type\<close> on the bytes of any type, with arrays, structures and references nested in it: it
  returns, has read exactly these bytes, has pushed the code of the type and its size (0 where it varies) on what
  the stack held, and has set \<^verbatim>\<open>current_decl_is_varsize\<close> when a string or a variable dimension occurs in it.
\<close>

theorem accept_type_reads_type:
  assumes "parsing b (type_bytes t @ rest) stk fl b" and "type_ok t"
    and "plenty (b_memory b)" and "length stk + 3 \<le> b_stacksize b"
  shows "wp accept_type (\<lambda>_. parsing b rest (type_code t # static_size t # stk) (fl \<or> varsize t)) b"
  by (rule wp_accept_type_parses [OF parses_type(1) assms(1,4)]) (use assms in simp_all)

text \<open>An array of a variable number of structures with a name and three integers.\<close>

definition demo_type :: ty where
  "demo_type = Array [0] (Struct (Field [([], [0x6e])] (Basic String_type)
     (Field [([], [0x76])] (Array [3] (Basic Integer)) No_field)))"

theorem accept_type_reads_type_witness:
  "wp accept_type (\<lambda>_. parsing (parser_on (type_bytes demo_type @ [9])) [9] [ARRAY_DECL, 0] True)
     (parser_on (type_bytes demo_type @ [9]))"
proof -
  have fits: "int (length (type_bytes demo_type @ [9])) \<le> INT_MAX" by code_simp
  have codes: "type_code demo_type = ARRAY_DECL" "static_size demo_type = 0" "varsize demo_type" "type_ok demo_type"
    by (simp_all add: demo_type_def intents_ok_def INT_MAX_def)
  show ?thesis
    using accept_type_reads_type [OF parser_on_parsing [OF fits] codes(4)] codes(1-3)
    by (simp add: parser_on_def blank_parser_def)
qed

section \<open>Files\<close>

text \<open>
  What the table of a file holds when all its packets were accepted, and the bytes that were not read;
  then the parser is freed.  It is \<open>parse_file\<close> with a look at the parser in between.
\<close>

definition scan_file ::
    "nat \<Rightarrow> nat \<Rightarrow> nat \<Rightarrow> nat \<Rightarrow> nat \<Rightarrow> byte list \<Rightarrow> ((nat \<Rightarrow> (cstring \<times> byte list) option) \<times> byte list) sp" where
  "scan_file buffer_size stacksize num_signatures max_name_len max_sig_len file =
     andthen (labcomm2014_sig_parser_init buffer_size stacksize num_signatures max_name_len max_sig_len) (\<lambda>failed.
     if failed then parser_error
     else andthen (labcomm2014_sig_parser_read_file file) (\<lambda>_.
          andthen accept_packets (\<lambda>_.
          andthen (gets (\<lambda>b. (known b, unread b))) (\<lambda>seen.
          andthen labcomm2014_sig_parser_free (\<lambda>_. ret seen)))))"

lemma parse_file_scan: "parse_file bs ss ns nl sl file = andthen (scan_file bs ss ns nl sl file) (\<lambda>_. ret ())"
proof -
  have "andthen (if c then parser_error else m) f = (if c then parser_error else andthen m f)"
    for c :: bool and m :: "((nat \<Rightarrow> (cstring \<times> byte list) option) \<times> byte list) sp" and f :: "_ \<Rightarrow> unit sp"
    by (rule ext) (simp add: parser_error_def prog_simps)
  moreover have "andthen m (\<lambda>_. ret ()) = m" for m :: "unit sp"
    by (rule ext) (auto simp: prog_simps split: option.splits sum.splits)
  moreover have "andthen (gets g) (\<lambda>_. m) = m" for g :: "sig_parser_t \<Rightarrow> (nat \<Rightarrow> (cstring \<times> byte list) option) \<times> byte list" and m :: "unit sp"
    by (rule ext) (simp add: prog_simps)
  ultimately show ?thesis by (simp add: parse_file_def scan_file_def andthen_assoc cong: if_cong)
qed

text \<open>A parser that is made, reads a file and parses it; on well-formed packets it has read all of them.\<close>

definition parse_packets :: "nat \<Rightarrow> nat \<Rightarrow> nat \<Rightarrow> nat \<Rightarrow> nat \<Rightarrow> byte list \<Rightarrow> unit sp" where
  "parse_packets buffer_size stacksize num_signatures max_name_len max_sig_len file =
     andthen (labcomm2014_sig_parser_init buffer_size stacksize num_signatures max_name_len max_sig_len) (\<lambda>failed.
     if failed then parser_error
     else andthen (labcomm2014_sig_parser_read_file file) (\<lambda>_. accept_packets))"

lemma wp_parse_packets:
  assumes "plenty (b_memory b)" and "int bs \<le> INT_MAX" and "3 \<le> ss" "int ss \<le> INT_MAX"
    and "int ns \<le> INT_MAX" and "nl < 2 ^ 64" and "sl < 2 ^ 64"
    and "\<forall>p\<in>set ps. pkt_ok ns nl sl p" and "length (concat (map pkt_bytes ps)) \<le> bs"
    and Q: "\<And>b0 b'. at_packet b0 [] (fold pkt_known ps (\<lambda>_. None)) b' \<Longrightarrow> b_max_signatures b0 = ns \<Longrightarrow> b_max_sig_len b0 = sl \<Longrightarrow>
      b_ptr_stack b0 \<noteq> None \<Longrightarrow> mem_live (b_memory b0) = mem_live (b_memory b) + 8 + 2 * int ns \<Longrightarrow> Q b'"
  shows "wp (parse_packets bs ss ns nl sl (concat (map pkt_bytes ps))) (\<lambda>_. Q) b"
proof -
  have sizes: "bs < 2 ^ 63" "1 \<le> ss" "int (length (concat (map pkt_bytes ps))) \<le> INT_MAX"
    using assms(2,3,9) by (simp_all add: INT_MAX_def)
  show ?thesis
    unfolding parse_packets_def wp_andthen
  proof (rule wp_init [OF assms(1) sizes(1,2) assms(4-7)], unfold if_False simp_thms wp_andthen,
      rule wp_read_file [OF _ assms(9) sizes(3,2) assms(4)], assumption, goal_cases)
    case (1 b1 b2)
    have "plenty (b_memory b2)" using 1(10) assms(1) by (simp add: plenty_def)
    with 1 assms(3,8) have run: "wp accept_packets (\<lambda>_ b'. at_packet b2 [] (fold pkt_known ps (\<lambda>_. None)) b') b2"
      by (intro wp_accept_packets) simp_all
    then show ?case by (rule wp_mono) (rule Q; use 1 in simp)
  qed
qed

lemma wp_scan_file:
  assumes "plenty (b_memory b)" and "int bs \<le> INT_MAX" and "3 \<le> ss" "int ss \<le> INT_MAX"
    and "int ns \<le> INT_MAX" and "nl < 2 ^ 64" and "sl < 2 ^ 64"
    and "\<forall>p\<in>set ps. pkt_ok ns nl sl p" and "length (concat (map pkt_bytes ps)) \<le> bs"
  shows "wp (scan_file bs ss ns nl sl (concat (map pkt_bytes ps)))
    (\<lambda>(m, rest) b'. m = fold pkt_known ps (\<lambda>_. None) \<and> rest = [] \<and> mem_live (b_memory b') = mem_live (b_memory b)) b"
proof -
  have scan: "scan_file bs ss ns nl sl bytes = andthen (parse_packets bs ss ns nl sl bytes) (\<lambda>_.
        andthen (gets (\<lambda>b. (known b, unread b))) (\<lambda>seen. andthen labcomm2014_sig_parser_free (\<lambda>_. ret seen)))" for bytes
  proof -
    have "andthen (if c then parser_error else m) f = (if c then parser_error else andthen m f)"
      for c :: bool and m :: "unit sp" and f :: "unit \<Rightarrow> ((nat \<Rightarrow> (cstring \<times> byte list) option) \<times> byte list) sp"
      by (rule ext) (simp add: parser_error_def prog_simps)
    then show ?thesis by (simp add: scan_file_def parse_packets_def andthen_assoc cong: if_cong)
  qed
  show ?thesis
    unfolding scan wp_andthen [of "parse_packets _ _ _ _ _ _"]
  proof (rule wp_parse_packets [OF assms], goal_cases)
    case (1 b0 b3)
    then have "known b3 = fold pkt_known ps (\<lambda>_. None)" "unread b3 = []" by (simp_all add: at_packet_def parsing_def)
    then show ?case
      unfolding wp_andthen wp_gets
      by (intro wp_parser_free [OF 1(1)]) (use assms(5) 1 in \<open>simp_all add: wp_ret\<close>)
  qed
qed

text \<open>The packets of a session of an encoder.\<close>

definition session_packets :: "'v signature \<Rightarrow> ty \<Rightarrow> ('v \<Rightarrow> byte list) \<Rightarrow> 'v list \<Rightarrow> pkt list" where
  "session_packets s t enc vs = Version CURRENT_VERSION # Declare Sample_def (sig_index s) [([], sig_name s)] t #
     map (\<lambda>v. Data (sig_index s) (enc v)) vs"

lemma session_packets_bytes:
  "sig_signature s = type_bytes t \<Longrightarrow> concat (map pkt_bytes (session_packets s t enc vs)) = session_bytes s enc vs"
  by (simp add: session_packets_def session_bytes_def version_packet_def declaration_payload_definition comp_def)

lemma fold_data: "fold pkt_known (map (\<lambda>v. Data i (enc v)) vs) m = m"
  by (induction vs) simp_all

lemma session_packets_known:
  assumes "sig_signature s = type_bytes t" and "0 \<notin> set (sig_name s)"
  shows "fold pkt_known (session_packets s t enc vs) (\<lambda>_. None) =
    [nat (sig_index s - LABCOMM_USER) \<mapsto> (sig_name s, number_bytes (int (length (sig_signature s))) @ sig_signature s)]"
proof -
  have "name_of_row (sig_name s) = sig_name s" using assms(2) by (auto simp: name_of_row_def intro!: takeWhile_eq_all_conv [THEN iffD2])
  then show ?thesis by (simp add: session_packets_def fold_data intents_name_def sig_bytes_def assms(1))
qed

lemma session_packets_ok:
  assumes "sig_ok s" and "LABCOMM_USER \<le> sig_index s" and "type_ok t" and "sample_fits ns nl sl (sig_index s) [([], sig_name s)] t"
  shows "\<forall>p\<in>set (session_packets s t enc vs). pkt_ok ns nl sl p"
  using assms by (auto simp: session_packets_def intents_ok_def sig_ok_def definition_payload_def intentions_bytes_def string_bytes_def)

lemma demo_file_ok: "\<forall>p\<in>set demo_file. pkt_ok 1 2 8 p" "length (concat (map pkt_bytes demo_file)) \<le> 40"
proof -
  show "\<forall>p\<in>set demo_file. pkt_ok 1 2 8 p" by (simp add: demo_file_def sample_fits_def) code_simp
  show "length (concat (map pkt_bytes demo_file)) \<le> 40" by code_simp
qed

text \<open>
  Claim C12. A parser that is made with room for a file of well-formed packets, reads it and parses it:
  it has read every byte of it, its table of signatures is what the packets define, in their order
  (for each index the name and the recorded signature of the last definition), and freeing it gives back
  every block of memory.
\<close>

theorem parsed_file_known:
  assumes "plenty (b_memory b)" and "int bs \<le> INT_MAX" and "3 \<le> ss" "int ss \<le> INT_MAX"
    and "int ns \<le> INT_MAX" and "nl < 2 ^ 64" and "sl < 2 ^ 64"
    and "\<forall>p\<in>set ps. pkt_ok ns nl sl p" and "length (concat (map pkt_bytes ps)) \<le> bs"
  shows "wp (scan_file bs ss ns nl sl (concat (map pkt_bytes ps)))
    (\<lambda>(m, rest) b'. m = fold pkt_known ps (\<lambda>_. None) \<and> rest = [] \<and> mem_live (b_memory b') = mem_live (b_memory b)) b"
  using wp_scan_file [OF assms] .

theorem parsed_file_known_witness:
  "wp (scan_file 40 4 1 2 8 (concat (map pkt_bytes demo_file)))
     (\<lambda>(m, rest) b'. m = [0 \<mapsto> ([0x61], [5, 0x10, 2, 2, 0, 0x23])] \<and> rest = [] \<and> mem_live (b_memory b') = 0) blank_parser"
proof -
  have m: "fold pkt_known demo_file (\<lambda>_. None) = [0 \<mapsto> ([0x61], [5, 0x10, 2, 2, 0, 0x23])]"
  proof -
    have "sig_bytes (Array [2, 0] (Basic Integer)) = [5, 0x10, 2, 2, 0, 0x23]" by code_simp
    then show ?thesis by (simp add: demo_file_def intents_name_def name_of_row_def tag_defs)
  qed
  show ?thesis
    using parsed_file_known [where bs = 40 and ss = 4 and ns = 1 and nl = 2 and sl = 8, OF _ _ _ _ _ _ _ demo_file_ok, of blank_parser]
    unfolding m by (simp add: INT_MAX_def) (simp add: blank_parser_def generous_def)
qed

text \<open>
  Claim C13. The same end to end: what an encoder delivers on any POSIX descriptor when it announces a type and sends
  values of it is a file in which the parser finds that type, with the name that was registered and the
  signature behind its length, at its index and nowhere else, and skips the samples.
\<close>

theorem sent_session_is_known:
  assumes "posix_write sys_write delivered"
    and "plenty m" and "plenty (w_memory w)" and "delivered (fw_dev w) = []"
    and "sig_ok s" and "LABCOMM_USER \<le> sig_index s" and "0 \<notin> set (sig_name s)"
    and "sa_room 4 (sig_index s) signature_array_init"
    and "\<forall>v\<in>set vs. writer_sink.writes fdw_safe (fd_stream delivered) (encode [fdw_action sys_write wclose] v) (enc v) \<and>
           sig_encoded_size s v = int (length (enc v))"
    and "sig_signature s = type_bytes t" and "type_ok t" and "sample_fits ns nl sl (sig_index s) [([], sig_name s)] t"
    and "plenty (b_memory b)" and "int bs \<le> INT_MAX" and "3 \<le> ss" "int ss \<le> INT_MAX"
    and "int ns \<le> INT_MAX" and "nl < 2 ^ 64" and "sl < 2 ^ 64" and "length (session_bytes s enc vs) \<le> bs"
  shows "wp (labcomm2014_encoder_new w [fdw_action sys_write wclose]) (\<lambda>eo _. \<exists>e. eo = Some e \<and>
      wp (send_session s encode vs) (\<lambda>_ e'. w_error (e_writer e') = 0 \<longrightarrow>
        wp (scan_file bs ss ns nl sl (delivered (fw_dev (e_writer e')))) (\<lambda>(m, rest) b'.
          m = [nat (sig_index s - LABCOMM_USER) \<mapsto> (sig_name s, number_bytes (int (length (sig_signature s))) @ sig_signature s)] \<and>
          rest = [] \<and> mem_live (b_memory b') = mem_live (b_memory b)) b) e) m"
proof -
  have len: "length (concat (map pkt_bytes (session_packets s t enc vs))) \<le> bs"
    using assms(20) by (simp only: session_packets_bytes [OF assms(10)])
  have "wp (scan_file bs ss ns nl sl (session_bytes s enc vs)) (\<lambda>(m, rest) b'.
          m = [nat (sig_index s - LABCOMM_USER) \<mapsto> (sig_name s, number_bytes (int (length (sig_signature s))) @ sig_signature s)] \<and>
          rest = [] \<and> mem_live (b_memory b') = mem_live (b_memory b)) b"
    using wp_scan_file [OF assms(13-19) session_packets_ok [OF assms(5,6,11,12)] len] session_packets_bytes [OF assms(10)] session_packets_known [OF assms(10,7)] by simp
  then show ?thesis
    using posix_write.wp_new_session [where encode = encode and enc = enc and vs = vs, OF assms(1-9)] by (auto elim!: wp_mono)
qed

theorem sent_session_is_known_witness:
  "wp (labcomm2014_encoder_new (script_writer []) [fdw_action script_write id]) (\<lambda>eo _. \<exists>e. eo = Some e \<and>
      wp (send_session int_sig encode_int [7, 8]) (\<lambda>_ e'. w_error (e_writer e') = 0 \<longrightarrow>
        wp (scan_file 64 4 1 4 4 (sd_out (fw_dev (e_writer e')))) (\<lambda>(m, rest) b'.
          m = [0 \<mapsto> ([0x61, 0x62], [1, 0x23])] \<and> rest = [] \<and> mem_live (b_memory b') = 0) blank_parser) e) generous"
proof -
  have bytes: "length (session_bytes int_sig (be_bytes 4) [7, 8 :: 32 word]) \<le> 64"
    "number_bytes (int (length (sig_signature int_sig))) @ sig_signature int_sig = [1, 0x23]"
    "type_bytes (Basic Integer) = [0x23]" "length (sig_bytes (Basic Integer)) = 2"
    by code_simp+
  have fits: "sample_fits 1 4 4 (sig_index int_sig) [([], sig_name int_sig)] (Basic Integer)"
    using bytes(4) by (simp add: sample_fits_def tag_defs intents_name_def)
  have "mem_live (b_memory blank_parser) = 0" by (simp add: generous_def)
  then show ?thesis
    using sent_session_is_known [where encode = encode_int and enc = "be_bytes 4" and vs = "[7, 8]" and wclose = id and t = "Basic Integer",
        OF script.posix_write_axioms _ _ _ int_sig_ok _ _ _ _ _ _ fits _ _ _ _ _ _ _ bytes(1), of generous "script_writer []" blank_parser 4]
      bytes(2,3) encode_int_writes
    by (simp add: tag_defs script_writer_def INT_MAX_def)
qed

section \<open>Every file\<close>

text \<open>
  Claim C15. No run of the parser goes on for ever, whatever the bytes of the file, the sizes of the tables, the depth of the stack and
  the outcome of the allocations, as long as the buffer is not longer than an \<^verbatim>\<open>int\<close> can count: the run returns,
  the program stops with the error of the parser, or it comes to undefined behaviour, where the model of a run
  ends (a length that overflows an \<^verbatim>\<open>int\<close> is such a case).  On a file of well-formed packets for which the tables
  have room, when memory is granted, it is the first: the run returns and every block has been freed.
\<close>

theorem parse_file_ends:
  assumes "int bs \<le> INT_MAX"
  shows "parse_file bs ss ns nl sl file b \<noteq> None \<and>
    (\<forall>ps. plenty (b_memory b) \<longrightarrow> 3 \<le> ss \<longrightarrow> int ss \<le> INT_MAX \<longrightarrow> int ns \<le> INT_MAX \<longrightarrow> nl < 2 ^ 64 \<longrightarrow> sl < 2 ^ 64 \<longrightarrow>
      file = concat (map pkt_bytes ps) \<longrightarrow> (\<forall>p\<in>set ps. pkt_ok ns nl sl p) \<longrightarrow> length file \<le> bs \<longrightarrow>
      (\<exists>b'. parse_file bs ss ns nl sl file b = Some (Inr ((), b')) \<and> mem_live (b_memory b') = mem_live (b_memory b)))"
proof (intro conjI allI impI)
  show "parse_file bs ss ns nl sl file b \<noteq> None" by (rule ends_returns) (rule ends_parse_file [OF assms])
next
  fix ps
  assume *: "plenty (b_memory b)" "3 \<le> ss" "int ss \<le> INT_MAX" "int ns \<le> INT_MAX" "nl < 2 ^ 64" "sl < 2 ^ 64"
    "file = concat (map pkt_bytes ps)" "\<forall>p\<in>set ps. pkt_ok ns nl sl p" "length file \<le> bs"
  from wp_scan_file [OF *(1) assms *(2-6,8)] *(7,9)
  show "\<exists>b'. parse_file bs ss ns nl sl file b = Some (Inr ((), b')) \<and> mem_live (b_memory b') = mem_live (b_memory b)"
    by (auto simp: parse_file_scan andthen_run ret_apply elim!: wpE)
qed

theorem parse_file_ends_witness:
  "(\<exists>b'. parse_file 40 4 1 2 8 (concat (map pkt_bytes demo_file)) blank_parser = Some (Inr ((), b')) \<and> mem_live (b_memory b') = 0) \<and>
   parse_file 8 4 1 2 2 [0x7f, 0xff, 0xff, 0xff, 0xff, 0xff, 0xff, 0xff, 0xff] blank_parser \<noteq> None"
proof
  have "mem_live (b_memory blank_parser) = 0" by (simp add: generous_def)
  moreover have "plenty (b_memory blank_parser)" by simp
  ultimately show "\<exists>b'. parse_file 40 4 1 2 8 (concat (map pkt_bytes demo_file)) blank_parser = Some (Inr ((), b')) \<and> mem_live (b_memory b') = 0"
    using parse_file_ends [of 40 4 1 2 8 "concat (map pkt_bytes demo_file)" blank_parser, THEN conjunct2, rule_format, of demo_file]
      demo_file_ok by (auto simp: INT_MAX_def)
  show "parse_file 8 4 1 2 2 [0x7f, 0xff, 0xff, 0xff, 0xff, 0xff, 0xff, 0xff, 0xff] blank_parser \<noteq> None"
    by (rule parse_file_ends [THEN conjunct1]) (simp add: INT_MAX_def)
qed

text \<open>
  Claim C16. The state of the parser keeps its type on every file: when a parser that was made has read any file and parsed
  it, then, unless the program stopped or came to undefined behaviour, the value stack and the buffer are
  initialised and of their sizes, every table has its length and every row is allocated, and each entry of the table of
  signatures is either empty or points to its own rows.  On a file of well-formed packets for which the tables have
  room, parsing returns in such a state, and the table holds what the packets define.
\<close>

theorem parsed_state_well_formed:
  assumes "plenty (b_memory b)" and "int bs \<le> INT_MAX" and "1 \<le> ss" "int ss \<le> INT_MAX"
    and "int ns \<le> INT_MAX" and "nl < 2 ^ 64" and "sl < 2 ^ 64"
  shows "ends (parse_packets bs ss ns nl sl file) (\<lambda>_. parser_ok) b \<and>
    (\<forall>ps. 3 \<le> ss \<longrightarrow> file = concat (map pkt_bytes ps) \<longrightarrow> (\<forall>p\<in>set ps. pkt_ok ns nl sl p) \<longrightarrow> length file \<le> bs \<longrightarrow>
      wp (parse_packets bs ss ns nl sl file) (\<lambda>_ b'. parser_ok b' \<and> known b' = fold pkt_known ps (\<lambda>_. None)) b)"
proof (intro conjI allI impI)
  have bs: "bs < 2 ^ 63" using assms(2) by (simp add: INT_MAX_def)
  let ?ready = "\<lambda>b'. parser_ok b' \<and> b_capacity b' = bs \<and> (\<forall>c. b_c b' = Some c \<longrightarrow> length c = bs)"
  have made: "wp (labcomm2014_sig_parser_init bs ss ns nl sl) (\<lambda>failed b'. \<not> failed \<and> ?ready b') b"
    by (rule wp_init [OF assms(1) bs assms(3-7)]) (use assms(3,4) in \<open>auto simp: made_def intro: made_parser_ok\<close>)
  have read: "ends (labcomm2014_sig_parser_read_file file) (\<lambda>_ b'. ends accept_packets (\<lambda>_. parser_ok) b') b1"
    if "?ready b1" for b1
  proof -
    have "ends (labcomm2014_sig_parser_read_file file) (\<lambda>_. ranged) b1"
      by (rule ends_read_file [OF assms(2)]) (use that in auto)
    moreover have "partly (labcomm2014_sig_parser_read_file file) (\<lambda>_. parser_ok) b1"
      using that assms(2) by (intro keeps_read_file) auto
    ultimately have "ends (labcomm2014_sig_parser_read_file file) (\<lambda>_ b'. ranged b' \<and> parser_ok b') b1"
      by (rule ends_partly)
    then show ?thesis
      by (rule ends_mono)
        (use ends_partly [OF ends_accept_packets [OF _ order_refl] keepsD [OF keeps_accept_packets]] in \<open>blast intro: ends_mono\<close>)
  qed
  show ok: "ends (parse_packets bs ss ns nl sl file) (\<lambda>_. parser_ok) b"
    unfolding parse_packets_def ends_andthen by (rule ends_wp [OF made]) (use read in \<open>simp add: ends_andthen\<close>)
  fix ps
  assume ps: "3 \<le> ss" "file = concat (map pkt_bytes ps)" "\<forall>p\<in>set ps. pkt_ok ns nl sl p" "length file \<le> bs"
  have "wp (parse_packets bs ss ns nl sl file) (\<lambda>_ b'. known b' = fold pkt_known ps (\<lambda>_. None)) b"
    unfolding ps(2)
    by (rule wp_parse_packets [OF assms(1,2) ps(1) assms(4-7) ps(3) ps(4) [unfolded ps(2)]]) (simp add: at_packet_def)
  with ok show "wp (parse_packets bs ss ns nl sl file) (\<lambda>_ b'. parser_ok b' \<and> known b' = fold pkt_known ps (\<lambda>_. None)) b"
    by (auto simp: ends_def wp_def)
qed

theorem parsed_state_well_formed_witness:
  "wp (parse_packets 40 4 1 2 8 (concat (map pkt_bytes demo_file)))
    (\<lambda>_ b'. parser_ok b' \<and> known b' 0 \<noteq> None) blank_parser"
proof -
  have "fold pkt_known demo_file (\<lambda>_. None) 0 \<noteq> None" by (simp add: demo_file_def tag_defs)
  then show ?thesis
    using parsed_state_well_formed [of blank_parser 40 4 1 2 8 "concat (map pkt_bytes demo_file)", THEN conjunct2, rule_format, of demo_file]
      demo_file_ok by (auto simp: INT_MAX_def elim!: wp_mono)
qed

section \<open>Skipping samples\<close>






text \<open>Skipping with an entry that begins with the length of the type.\<close>

lemma skip_stops:
  assumes "b_signatures b = Some rows" and "j < length rows" and "rows ! j = Some (Some (map Some (sig_bytes t) @ pad))"
    and "st_signature sig = Some j" and "st_size sig = int (length (sig_bytes t))"
    and "int (length (type_bytes t)) \<le> INT_MAX" and "u32_of_int (int (length (type_bytes t))) \<notin> reserved_codes"
  shows "skip_packed_sample_data sig b = Some (Inl ExitParser)"
proof -
  let ?n = "u32_of_int (int (length (type_bytes t)))" and ?row = "map Some (sig_bytes t) @ pad"
  have n: "uint ?n = int (length (type_bytes t))"
    using assms(6) unfolding u32_of_int_def INT_MAX_def unsigned_of_int by (subst take_bit_int_eq_self) simp_all
  have sig: "sig_bytes t = packed32_bytes ?n @ type_bytes t" by (simp add: sig_bytes_def number_bytes_def)
  have "int (length (packed32_bytes ?n)) \<le> 5" using length_packed32_groups_5 [of ?n] by (simp add: length_packed32_bytes)
  then have short: "int (length (packed32_bytes ?n)) \<le> INT_MAX" by (simp add: INT_MAX_def)
  have first: "unpack_varint (Some ?row) 0 = (ret (int (length (type_bytes t)), length (packed32_bytes ?n)) :: (int \<times> nat) sp)"
    using unpack_varint_bytes [of ?n ?row 0] n assms(6) short by (simp add: sig nth_append)
  have stop: "skip_type ?n row pos = parser_error" for row pos
    using assms(7) by (subst skip_type_unfold) (simp add: skip_type_with_def reserved_codes_def UNIV_basic)
  have "0 < st_size sig" using assms(5) by (simp add: sig_bytes_def length_number_bytes_pos add_pos_nonneg)
  then have "skip_packed_loop (Some ?row) (st_size sig) 0 0 b = Some (Inl ExitParser)"
    by (subst skip_packed_loop.simps)
      (simp only: if_True simp_thms first, simp add: stop parser_error_def prog_simps del: map_append)
  then show ?thesis
    using assms(1-4) by (simp add: skip_packed_sample_data_def block_get_def prog_simps)
qed

text \<open>The entry and the row of a known sample.\<close>

lemma known_entry:
  assumes ok: "tables_ok b" and k: "known b k = Some (nm, sg)"
  obtains ts rows pad where "b_sig_ts b = Some (map Some ts)" and "k < length ts" and "st_signature (ts ! k) = Some k"
    and "st_size (ts ! k) = int (length sg)" and "b_signatures b = Some rows" and "k < length rows"
    and "rows ! k = Some (Some (map Some sg @ pad))"
proof -
  obtain ts where ts: "b_sig_ts b = Some (map Some ts)" "length ts = b_max_signatures b"
    "\<forall>k<length ts. st_name (ts ! k) = None \<and> st_signature (ts ! k) = None \<or>
          st_name (ts ! k) = Some (NameRow k) \<and> st_signature (ts ! k) = Some k"
    using ok by (auto simp: tables_ok_def)
  have kn: "k < length ts" "st_name (ts ! k) \<noteq> None" "row_bytes (b_signatures b) k (st_size (ts ! k)) = Some sg"
    using k known_eq [OF ok ts(1,2), of k] ts(2) by (auto split: if_splits)
  have "rows_ok (b_max_signatures b) (b_max_sig_len b) (b_signatures b)" using ok by (simp add: tables_ok_def)
  then obtain rows row where rows: "b_signatures b = Some rows" "length rows = b_max_signatures b" "rows ! k = Some (Some row)"
    using rows_ok_get kn(1) ts(2) by metis
  from row_bytesD [OF kn(3)] obtain pad where "row = map Some sg @ pad" "st_size (ts ! k) = int (length sg)"
    using rows by auto
  then show thesis using that ts kn(1,2) rows by auto
qed

text \<open>
  Claim C40. But the signatures that the parser records are not such that it can skip samples with them: \<^verbatim>\<open>accept_decl\<close> takes
  the start of the signature before the length of the signature, so the entry begins with that length, which
  \<^verbatim>\<open>skip_packed_sample_data\<close> takes for the code of a type.  When the parser has read and parsed a file of well-formed
  packets, whose last definition of the sample \<open>idx\<close> has the type \<open>t\<close>, and the number of bytes of this type is not
  itself such a code, then looking up the sample and skipping a value with it stops the program with an
  error, wherever in the buffer the parser stands, so whatever the value.
\<close>

theorem recorded_signature_not_skipped:
  assumes "plenty (b_memory b)" and "int bs \<le> INT_MAX" and "3 \<le> ss" "int ss \<le> INT_MAX"
    and "int ns \<le> INT_MAX" and "nl < 2 ^ 64" and "sl < 2 ^ 64"
    and "\<forall>p\<in>set ps. pkt_ok ns nl sl p" and "length (concat (map pkt_bytes ps)) \<le> bs"
    and "LABCOMM_USER \<le> idx" and "idx \<le> INT_MAX"
    and "fold pkt_known ps (\<lambda>_. None) (nat (idx - LABCOMM_USER)) = Some (nm, sig_bytes t)"
    and "int (length (type_bytes t)) \<le> INT_MAX" and "u32_of_int (int (length (type_bytes t))) \<notin> reserved_codes"
  shows "wp (parse_packets bs ss ns nl sl (concat (map pkt_bytes ps)))
    (\<lambda>_ b'. \<forall>i. andthen (get_sig_t (u32_of_int idx)) skip_packed_sample_data (b'\<lparr>b_idx := i\<rparr>) = Some (Inl ExitParser)) b"
proof (rule wp_parse_packets [OF assms(1-9)], intro allI, goal_cases)
  case (1 b0 b' i)
  let ?k = "nat (idx - LABCOMM_USER)"
  have slot: "sig_slot (u32_of_int idx) = int ?k"
    using assms(10,11) unfolding sig_slot_def u32_of_int_def wi_hom_sub unsigned_of_int
    by (subst take_bit_int_eq_self) (simp_all add: tag_defs INT_MAX_def)
  have "tables_ok b'" "known b' ?k = Some (nm, sig_bytes t)" using 1(1) assms(12) by (simp_all add: at_packet_def)
  from known_entry [OF this] obtain ts rows pad where e: "b_sig_ts b' = Some (map Some ts)" "?k < length ts"
    "st_signature (ts ! ?k) = Some ?k" "st_size (ts ! ?k) = int (length (sig_bytes t))" "b_signatures b' = Some rows"
    "?k < length rows" "rows ! ?k = Some (Some (map Some (sig_bytes t) @ pad))" .
  have "skip_packed_sample_data (ts ! ?k) (b'\<lparr>b_idx := i\<rparr>) = Some (Inl ExitParser)"
    by (rule skip_stops [OF _ e(6,7,3,4) assms(13,14)]) (simp add: e(5))
  then show ?case
    using e(1,2) slot assms(10) by (simp add: get_sig_t_def block_get_def prog_simps)
qed

theorem recorded_signature_not_skipped_witness:
  "wp (parse_packets 40 4 1 2 8 (concat (map pkt_bytes demo_file)))
    (\<lambda>_ b'. andthen (get_sig_t 64) skip_packed_sample_data (b'\<lparr>b_idx := 0\<rparr>) = Some (Inl ExitParser)) blank_parser"
proof -
  let ?t = "Array [2, 0] (Basic Integer)"
  have len: "length (type_bytes ?t) = 5" by code_simp
  then have "u32_of_int (int (length (type_bytes ?t))) \<notin> reserved_codes" "int (length (type_bytes ?t)) \<le> INT_MAX"
    by (simp_all add: u32_of_int_def reserved_codes_def UNIV_basic type_code_defs INT_MAX_def del: type_bytes.simps)
  moreover have "fold pkt_known demo_file (\<lambda>_. None) (nat (64 - LABCOMM_USER)) = Some ([0x61], sig_bytes ?t)"
    by (simp add: demo_file_def tag_defs intents_name_def name_of_row_def)
  ultimately show ?thesis
    using recorded_signature_not_skipped [of blank_parser 40 4 1 2 8 demo_file 64 "[0x61]" ?t] demo_file_ok
    by (auto simp: INT_MAX_def tag_defs u32_of_int_def elim!: wp_mono simp del: type_bytes.simps)
qed

end
