(* ===== verification/LC_Twoway.thy ===== *)
theory LC_Twoway
  imports LC_Encoder LC_Reader
begin

text \<open>
  Two wrappers of readers and writers, of the program \<^verbatim>\<open>src/examples/twoway\<close>.  The \<^emph>\<open>decimating\<close> one sends
  only every n-th sample of a type, where n is asked for by the other side; the \<^emph>\<open>introspecting\<close> one
  tells an application which of its types the other side handles.  A wrapper is one object that both
  chains of actions share.  Where it lies in the state of a reader or writer is given by two functions,
  \<open>get\<close> and \<open>put\<close>.  The messages that the wrappers exchange are samples with generated functions; these are
  parameters.
\<close>

text \<open>What a wrapper does with its scheduler; the results are not used.\<close>

datatype 'f sched_event = Locking sched_call | Enqueued u32 'f

section \<open>Decimation\<close>

record decimation =
  dec_n :: int
  dec_current :: int

definition no_decimation :: decimation where
  "no_decimation = \<lparr>dec_n = 0, dec_current = 0\<rparr>"

text \<open>A deferred call: the message has the decimation and the index of the other side.\<close>

datatype decimating_call = Register_signatures | Send_set_decimation int int

record decimating_private =
  dp_memory :: memory
  dp_events :: "decimating_call sched_event list"
  dp_writer_decimation :: "decimation sigarr"
  dp_reader_decimation :: "int sigarr"

definition dp_event :: "decimating_call sched_event \<Rightarrow> (decimating_private, unit) prog" where
  "dp_event c = modify (\<lambda>p. p\<lparr>dp_events := dp_events p @ [c]\<rparr>)"

definition on_writer_decimation :: "(memory \<times> decimation sigarr, 'a) prog \<Rightarrow> (decimating_private, 'a) prog" where
  "on_writer_decimation =
     zoom (\<lambda>p. (dp_memory p, dp_writer_decimation p)) (\<lambda>(m, a) p. p\<lparr>dp_memory := m, dp_writer_decimation := a\<rparr>)"

definition on_reader_decimation :: "(memory \<times> int sigarr, 'a) prog \<Rightarrow> (decimating_private, 'a) prog" where
  "on_reader_decimation =
     zoom (\<lambda>p. (dp_memory p, dp_reader_decimation p)) (\<lambda>(m, a) p. p\<lparr>dp_memory := m, dp_reader_decimation := a\<rparr>)"

text \<open>The handler of the message.\<close>

definition set_decimation :: "int \<Rightarrow> int \<Rightarrow> (decimating_private, unit) prog" where
  "set_decimation amount signature_index =
     andthen (dp_event (Locking DataLock)) (\<lambda>_.
     andthen (on_writer_decimation
       (sa_assign no_decimation 8 signature_index \<lparr>dec_n = amount, dec_current = 0\<rparr>)) (\<lambda>_.
     dp_event (Locking DataUnlock)))"

definition enqueue_decimation :: "int \<Rightarrow> int \<Rightarrow> (decimating_private, unit) prog" where
  "enqueue_decimation remote_index amount =
     andthen (zoom dp_memory (\<lambda>m p. p\<lparr>dp_memory := m\<rparr>) (labcomm2014_memory_alloc 1 16)) (\<lambda>ok.
     if ok then dp_event (Enqueued 0 (Send_set_decimation amount remote_index)) else ret ())"

text \<open>
  The deferred calls.  \<open>encode\<close> and \<open>register\<close> are the generated functions on the encoder behind the
  writer, whose state is \<open>'e\<close>.
\<close>

definition send_set_decimation ::
    "(int \<Rightarrow> int \<Rightarrow> ('e, int) prog) \<Rightarrow> int \<Rightarrow> int \<Rightarrow> (decimating_private \<times> 'e, unit) prog" where
  "send_set_decimation encode amount signature_index =
     andthen (zoom snd (\<lambda>e (p, _). (p, e)) (encode amount signature_index)) (\<lambda>_.
     zoom (\<lambda>(p, e). dp_memory p) (\<lambda>m (p, e). (p\<lparr>dp_memory := m\<rparr>, e)) (labcomm2014_memory_free 1 True))"

definition register_signatures :: "('e, int) prog \<Rightarrow> (decimating_private \<times> 'e, unit) prog" where
  "register_signatures register =
     andthen (zoom snd (\<lambda>e (p, _). (p, e)) register) (\<lambda>_. ret ())"

primrec decimating_deferred ::
    "('e, int) prog \<Rightarrow> (int \<Rightarrow> int \<Rightarrow> ('e, int) prog) \<Rightarrow> decimating_call \<Rightarrow> (decimating_private \<times> 'e, unit) prog" where
  "decimating_deferred register encode Register_signatures = register_signatures register"
| "decimating_deferred register encode (Send_set_decimation amount index) = send_set_decimation encode amount index"

definition SET_DECIMATION :: u32 where
  "SET_DECIMATION = LABCOMM_IOSW 0x64 0 4"

text \<open>The reader.  \<open>register\<close> is the generated registration of the handler with the decoder.\<close>

definition decimating_reader_alloc ::
    "('z reader_scheme, int) prog \<Rightarrow> ('z, 'v) reader_action list \<Rightarrow> ('z reader_scheme, int) prog" where
  "decimating_reader_alloc register next = andthen register (\<lambda>_. labcomm2014_reader_alloc next)"

definition decimating_reader_start ::
    "('z reader_scheme \<Rightarrow> decimating_private) \<Rightarrow> (decimating_private \<Rightarrow> 'z reader_scheme \<Rightarrow> 'z reader_scheme) \<Rightarrow>
     ('z, 'v) reader_action list \<Rightarrow> int \<Rightarrow> int \<Rightarrow> 'v signature option \<Rightarrow> bool \<Rightarrow> ('z reader_scheme, int) prog" where
  "decimating_reader_start get put next local_index remote_index sig has_value =
     andthen
       (if has_value then ret ()
        else zoom get put
          (andthen (dp_event (Locking DataLock)) (\<lambda>_.
           andthen (on_reader_decimation (sa_deref 0 4 local_index)) (\<lambda>amount.
           andthen (dp_event (Locking DataUnlock)) (\<lambda>_.
           if remote_index \<noteq> 0 \<and> amount \<noteq> 0 then enqueue_decimation remote_index amount else ret ()))))) (\<lambda>_.
     labcomm2014_reader_start next local_index remote_index sig has_value)"

definition decimating_reader_ioctl ::
    "('z reader_scheme \<Rightarrow> decimating_private) \<Rightarrow> (decimating_private \<Rightarrow> 'z reader_scheme \<Rightarrow> 'z reader_scheme) \<Rightarrow>
     ('z, 'v) reader_action list \<Rightarrow> int \<Rightarrow> int \<Rightarrow> 'v signature option \<Rightarrow> u32 \<Rightarrow> int list \<Rightarrow>
     ('z reader_scheme, int \<times> ioctl_out) prog" where
  "decimating_reader_ioctl get put next local_index remote_index sig action args =
     (if action = SET_DECIMATION then
        (case args of [] \<Rightarrow> stop Undef
         | amount # _ \<Rightarrow>
             andthen (zoom get put
               (andthen (dp_event (Locking DataLock)) (\<lambda>_.
                andthen (on_reader_decimation (sa_assign 0 4 local_index amount)) (\<lambda>_.
                andthen (dp_event (Locking DataUnlock)) (\<lambda>_.
                if remote_index \<noteq> 0 then enqueue_decimation remote_index amount else ret ()))))) (\<lambda>_.
             ret (0, IoctlNone)))
      else labcomm2014_reader_ioctl next local_index remote_index sig action args)"

definition decimating_reader_action ::
    "('z reader_scheme \<Rightarrow> decimating_private) \<Rightarrow> (decimating_private \<Rightarrow> 'z reader_scheme \<Rightarrow> 'z reader_scheme) \<Rightarrow>
     ('z reader_scheme, int) prog \<Rightarrow> ('z, 'v) reader_action list \<Rightarrow> ('z, 'v) reader_action" where
  "decimating_reader_action get put register next =
     \<lparr>ra_alloc = Some (decimating_reader_alloc register next), ra_free = None,
      ra_start = Some (decimating_reader_start get put next), ra_end = None, ra_fill = None,
      ra_ioctl = Some (decimating_reader_ioctl get put next)\<rparr>"

text \<open>The writer.\<close>

definition decimating_writer_alloc ::
    "('z writer_scheme \<Rightarrow> decimating_private) \<Rightarrow> (decimating_private \<Rightarrow> 'z writer_scheme \<Rightarrow> 'z writer_scheme) \<Rightarrow>
     ('z, 'v) writer_action list \<Rightarrow> ('z writer_scheme, int) prog" where
  "decimating_writer_alloc get put next =
     andthen (zoom get put (dp_event (Enqueued 0 Register_signatures))) (\<lambda>_. labcomm2014_writer_alloc next)"

definition decimate :: "int \<Rightarrow> (decimating_private, int) prog" where
  "decimate index =
     andthen (dp_event (Locking DataLock)) (\<lambda>_.
     andthen (on_writer_decimation (sa_deref no_decimation 8 index)) (\<lambda>d.
     andthen (c_int (dec_current d + 1)) (\<lambda>current.
     andthen (on_writer_decimation (modify (\<lambda>(m, a).
       (m, sa_set index (d\<lparr>dec_current := (if current < dec_n d then current else 0)\<rparr>) a)))) (\<lambda>_.
     andthen (dp_event (Locking DataUnlock)) (\<lambda>_.
     ret (if current < dec_n d then - EALREADY else 0))))))"

definition decimating_writer_start ::
    "('z writer_scheme \<Rightarrow> decimating_private) \<Rightarrow> (decimating_private \<Rightarrow> 'z writer_scheme \<Rightarrow> 'z writer_scheme) \<Rightarrow>
     ('z, 'v) writer_action list \<Rightarrow> int \<Rightarrow> 'v signature option \<Rightarrow> bool \<Rightarrow> ('z writer_scheme, int) prog" where
  "decimating_writer_start get put next index sig has_value =
     andthen (if index < LABCOMM_USER then ret 0 else zoom get put (decimate index)) (\<lambda>result.
     if result = 0 then labcomm2014_writer_start next index sig has_value else ret result)"

definition decimating_writer_action ::
    "('z writer_scheme \<Rightarrow> decimating_private) \<Rightarrow> (decimating_private \<Rightarrow> 'z writer_scheme \<Rightarrow> 'z writer_scheme) \<Rightarrow>
     ('z, 'v) writer_action list \<Rightarrow> ('z, 'v) writer_action" where
  "decimating_writer_action get put next =
     \<lparr>wa_alloc = Some (decimating_writer_alloc get put next), wa_free = None,
      wa_start = Some (decimating_writer_start get put next), wa_end = None, wa_flush = None, wa_ioctl = None\<rparr>"

text \<open>
  \<^verbatim>\<open>decimating_new\<close> puts both actions in front of the chains of its reader and writer, \<open>rnext\<close> and \<open>wnext\<close>.
  The object has 128 bytes.
\<close>

definition decimating_new ::
    "('r reader_scheme \<Rightarrow> decimating_private) \<Rightarrow> (decimating_private \<Rightarrow> 'r reader_scheme \<Rightarrow> 'r reader_scheme) \<Rightarrow>
     ('w writer_scheme \<Rightarrow> decimating_private) \<Rightarrow> (decimating_private \<Rightarrow> 'w writer_scheme \<Rightarrow> 'w writer_scheme) \<Rightarrow>
     ('r reader_scheme, int) prog \<Rightarrow> memory \<Rightarrow> ('r, 'v) reader_action list \<Rightarrow> ('w, 'v) writer_action list \<Rightarrow>
     (memory, (decimating_private \<times> ('r, 'v) reader_action list \<times> ('w, 'v) writer_action list) option) prog" where
  "decimating_new rget rput wget wput register mem rnext wnext =
     andthen (default_alloc 0 128) (\<lambda>ok.
     ret (if ok
          then Some (\<lparr>dp_memory = mem, dp_events = [], dp_writer_decimation = signature_array_init,
                      dp_reader_decimation = signature_array_init\<rparr>,
                     decimating_reader_action rget rput register rnext # rnext,
                     decimating_writer_action wget wput wnext # wnext)
          else None))"

section \<open>Introspection\<close>

datatype introspecting_status = Unknown | Unhandled | Unregistered | Registered

primrec status_code :: "introspecting_status \<Rightarrow> int" where
  "status_code Unknown = 0"
| "status_code Unhandled = 1"
| "status_code Unregistered = 2"
| "status_code Registered = 3"

text \<open>A type that the other side handles, and a type of this side.\<close>

record remote =
  rm_name :: "cstring option"
  rm_size :: int
  rm_signature :: "byte list option"

definition no_remote :: remote where
  "no_remote = \<lparr>rm_name = None, rm_size = 0, rm_signature = None\<rparr>"

record 'v local_type =
  lt_status :: introspecting_status
  lt_signature :: "'v signature option"

definition no_local :: "'v local_type" where
  "no_local = \<lparr>lt_status = Unknown, lt_signature = None\<rparr>"

datatype (dead 'v) introspecting_call = Register_encoder_signatures | Send_handles_signature int "'v signature option"

text \<open>\<^verbatim>\<open>strdup\<close> and \<^verbatim>\<open>malloc\<close> use the memory \<open>ip_heap\<close> of the C library.\<close>

record 'v introspecting_private =
  ip_memory :: memory
  ip_heap :: memory
  ip_events :: "'v introspecting_call sched_event list"
  ip_remote :: "remote sigarr"
  ip_local :: "'v local_type sigarr"

definition ip_event :: "'v introspecting_call sched_event \<Rightarrow> ('v introspecting_private, unit) prog" where
  "ip_event c = modify (\<lambda>p. p\<lparr>ip_events := ip_events p @ [c]\<rparr>)"

definition ip_malloc :: "nat \<Rightarrow> ('v introspecting_private, bool) prog" where
  "ip_malloc n = zoom ip_heap (\<lambda>m p. p\<lparr>ip_heap := m\<rparr>) (default_alloc 0 n)"

definition on_ip_remote :: "(memory \<times> remote sigarr, 'a) prog \<Rightarrow> ('v introspecting_private, 'a) prog" where
  "on_ip_remote = zoom (\<lambda>p. (ip_memory p, ip_remote p)) (\<lambda>(m, a) p. p\<lparr>ip_memory := m, ip_remote := a\<rparr>)"

definition on_ip_local :: "(memory \<times> 'v local_type sigarr, 'a) prog \<Rightarrow> ('v introspecting_private, 'a) prog" where
  "on_ip_local = zoom (\<lambda>p. (ip_memory p, ip_local p)) (\<lambda>(m, a) p. p\<lparr>ip_memory := m, ip_local := a\<rparr>)"

text \<open>\<^verbatim>\<open>size\<close> is that of the signature of this side; \<^verbatim>\<open>memcmp\<close> reads as many bytes of both.\<close>

definition same_bytes :: "byte list \<Rightarrow> byte list option \<Rightarrow> int \<Rightarrow> ('s, bool) prog" where
  "same_bytes a b sz =
     (case b of None \<Rightarrow> stop Undef
      | Some b \<Rightarrow> if sz < 0 \<or> length a < nat sz \<or> length b < nat sz then stop Undef
                  else ret (take (nat sz) a = take (nat sz) b))"

text \<open>The loop of \<^verbatim>\<open>get_local\<close> over the types of the other side: whether one of them matches.\<close>

fun find_remote :: "'v signature option \<Rightarrow> int list \<Rightarrow> ('v introspecting_private, bool) prog" where
  "find_remote sig [] = ret False"
| "find_remote sig (i # is) =
     andthen (on_ip_remote (sa_deref no_remote 24 i)) (\<lambda>r.
     case rm_name r of
       None \<Rightarrow> find_remote sig is
     | Some name \<Rightarrow>
         (case sig of None \<Rightarrow> stop Undef
          | Some s \<Rightarrow>
              if sig_name s = name \<and> rm_size r = sig_size s
              then andthen (same_bytes (sig_signature s) (rm_signature r) (sig_size s)) (\<lambda>same.
                   if same then ret True else find_remote sig is)
              else find_remote sig is))"

text \<open>The entry of a type, which is stored and returned; the caller may change its status.\<close>

definition put_local :: "int \<Rightarrow> 'v local_type \<Rightarrow> ('v introspecting_private, unit) prog" where
  "put_local index l = on_ip_local (modify (\<lambda>(m, a). (m, sa_set index l a)))"

definition get_local :: "int \<Rightarrow> 'v signature option \<Rightarrow> ('v introspecting_private, 'v local_type) prog" where
  "get_local index sig =
     andthen (on_ip_local (sa_deref no_local 16 index)) (\<lambda>l0.
       let l1 = (if lt_signature l0 = None then \<lparr>lt_status = Unknown, lt_signature = sig\<rparr> else l0) in
     andthen (put_local index l1) (\<lambda>_.
       if lt_status l1 = Unknown then
         andthen (gets (\<lambda>p. sa_indices (ip_remote p))) (\<lambda>is.
         andthen (find_remote sig is) (\<lambda>found.
           let l2 = l1\<lparr>lt_status := (if found then Unregistered else Unhandled)\<rparr> in
         andthen (put_local index l2) (\<lambda>_. ret l2)))
       else ret l1))"

text \<open>The loop of \<^verbatim>\<open>handles_signature\<close> over the types of this side.\<close>

fun mark_handled :: "cstring option \<Rightarrow> int \<Rightarrow> byte list \<Rightarrow> int list \<Rightarrow> ('v introspecting_private, unit) prog" where
  "mark_handled name sz bytes [] = ret ()"
| "mark_handled name sz bytes (i # is) =
     andthen (on_ip_local (sa_deref no_local 16 i)) (\<lambda>l.
     andthen
      (case lt_signature l of None \<Rightarrow> ret ()
       | Some s \<Rightarrow>
           if lt_status l = Unhandled then
             (case name of None \<Rightarrow> stop Undef
              | Some n \<Rightarrow>
                  if n = sig_name s \<and> sz = sig_size s
                  then andthen (same_bytes (sig_signature s) (Some bytes) (sig_size s)) (\<lambda>same.
                       if same then put_local i (l\<lparr>lt_status := Unregistered\<rparr>) else ret ())
                  else ret ())
           else ret ()) (\<lambda>_.
     mark_handled name sz bytes is))"

text \<open>The handler of the message with the index, the name and the signature of a type of the other side.\<close>

definition handles_signature :: "int \<Rightarrow> cstring \<Rightarrow> byte list \<Rightarrow> ('v introspecting_private, unit) prog" where
  "handles_signature index name sig =
     andthen (ip_event (Locking DataLock)) (\<lambda>_.
     andthen (on_ip_remote (sa_deref no_remote 24 index)) (\<lambda>r.
     andthen (ip_malloc (length name + 1)) (\<lambda>named.
       let r = r\<lparr>rm_name := (if named then Some name else None)\<rparr> in
     andthen (ip_malloc (length sig)) (\<lambda>ok.
     andthen
      (if ok then
         let r = r\<lparr>rm_signature := Some sig, rm_size := int (length sig)\<rparr> in
         andthen (on_ip_remote (modify (\<lambda>(m, a). (m, sa_set index r a)))) (\<lambda>_.
         andthen (gets (\<lambda>p. sa_indices (ip_local p))) (\<lambda>is. mark_handled (rm_name r) (rm_size r) sig is))
       else on_ip_remote (modify (\<lambda>(m, a). (m, sa_set index (r\<lparr>rm_signature := None\<rparr>) a)))) (\<lambda>_.
     ip_event (Locking DataUnlock))))))"

text \<open>The deferred calls; the message is not freed.\<close>

definition send_handles_signature ::
    "(int \<Rightarrow> cstring \<Rightarrow> int \<Rightarrow> byte list \<Rightarrow> ('e, int) prog) \<Rightarrow> int \<Rightarrow> 'v signature option \<Rightarrow>
     ('v introspecting_private \<times> 'e, unit) prog" where
  "send_handles_signature encode index sig =
     (case sig of None \<Rightarrow> stop Undef
      | Some s \<Rightarrow> andthen (zoom snd (\<lambda>e (p, _). (p, e))
                    (encode index (sig_name s) (sig_size s) (sig_signature s))) (\<lambda>_. ret ()))"

definition register_encoder_signatures :: "('e, int) prog \<Rightarrow> ('v introspecting_private \<times> 'e, unit) prog" where
  "register_encoder_signatures register =
     andthen (zoom snd (\<lambda>e (p, _). (p, e)) register) (\<lambda>_. ret ())"

primrec introspecting_deferred ::
    "('e, int) prog \<Rightarrow> (int \<Rightarrow> cstring \<Rightarrow> int \<Rightarrow> byte list \<Rightarrow> ('e, int) prog) \<Rightarrow> 'v introspecting_call \<Rightarrow>
     ('v introspecting_private \<times> 'e, unit) prog" where
  "introspecting_deferred register encode Register_encoder_signatures = register_encoder_signatures register"
| "introspecting_deferred register encode (Send_handles_signature index sig) = send_handles_signature encode index sig"

text \<open>The reader.\<close>

definition introspecting_reader_alloc ::
    "('z reader_scheme, int) prog \<Rightarrow> ('z, 'v) reader_action list \<Rightarrow> ('z reader_scheme, int) prog" where
  "introspecting_reader_alloc register next = andthen register (\<lambda>_. labcomm2014_reader_alloc next)"

definition introspecting_reader_start ::
    "('z reader_scheme \<Rightarrow> 'v introspecting_private) \<Rightarrow> ('v introspecting_private \<Rightarrow> 'z reader_scheme \<Rightarrow> 'z reader_scheme) \<Rightarrow>
     ('z, 'v) reader_action list \<Rightarrow> int \<Rightarrow> int \<Rightarrow> 'v signature option \<Rightarrow> bool \<Rightarrow> ('z reader_scheme, int) prog" where
  "introspecting_reader_start get put next local_index remote_index sig has_value =
     andthen
       (if has_value then ret ()
        else zoom get put
          (andthen (zoom ip_memory (\<lambda>m p. p\<lparr>ip_memory := m\<rparr>) (labcomm2014_memory_alloc 1 24)) (\<lambda>ok.
           if ok then ip_event (Enqueued 0 (Send_handles_signature local_index sig)) else stop Undef))) (\<lambda>_.
     labcomm2014_reader_start next local_index remote_index sig has_value)"

definition introspecting_reader_action ::
    "('z reader_scheme \<Rightarrow> 'v introspecting_private) \<Rightarrow> ('v introspecting_private \<Rightarrow> 'z reader_scheme \<Rightarrow> 'z reader_scheme) \<Rightarrow>
     ('z reader_scheme, int) prog \<Rightarrow> ('z, 'v) reader_action list \<Rightarrow> ('z, 'v) reader_action" where
  "introspecting_reader_action get put register next =
     \<lparr>ra_alloc = Some (introspecting_reader_alloc register next), ra_free = None,
      ra_start = Some (introspecting_reader_start get put next), ra_end = None, ra_fill = None, ra_ioctl = None\<rparr>"

text \<open>The writer.\<close>

definition HAS_SIGNATURE :: u32 where
  "HAS_SIGNATURE = LABCOMM_IOS 0x69 2"

definition introspecting_writer_alloc ::
    "('z writer_scheme \<Rightarrow> 'v introspecting_private) \<Rightarrow> ('v introspecting_private \<Rightarrow> 'z writer_scheme \<Rightarrow> 'z writer_scheme) \<Rightarrow>
     ('z, 'v) writer_action list \<Rightarrow> ('z writer_scheme, int) prog" where
  "introspecting_writer_alloc get put next =
     andthen (zoom get put (ip_event (Enqueued 0 Register_encoder_signatures))) (\<lambda>_. labcomm2014_writer_alloc next)"

definition note_registered :: "int \<Rightarrow> 'v signature option \<Rightarrow> ('v introspecting_private, unit) prog" where
  "note_registered index sig =
     andthen (ip_event (Locking DataLock)) (\<lambda>_.
     andthen (get_local index sig) (\<lambda>l.
     andthen (put_local index (l\<lparr>lt_status := Registered\<rparr>)) (\<lambda>_.
     ip_event (Locking DataUnlock))))"

definition has_signature :: "int \<Rightarrow> 'v signature option \<Rightarrow> ('v introspecting_private, int) prog" where
  "has_signature index sig =
     andthen (ip_event (Locking DataLock)) (\<lambda>_.
     andthen (get_local index sig) (\<lambda>l.
     andthen (ip_event (Locking DataUnlock)) (\<lambda>_.
     ret (status_code (lt_status l)))))"

definition introspecting_writer_start ::
    "('z writer_scheme \<Rightarrow> 'v introspecting_private) \<Rightarrow> ('v introspecting_private \<Rightarrow> 'z writer_scheme \<Rightarrow> 'z writer_scheme) \<Rightarrow>
     ('z, 'v) writer_action list \<Rightarrow> int \<Rightarrow> 'v signature option \<Rightarrow> bool \<Rightarrow> ('z writer_scheme, int) prog" where
  "introspecting_writer_start get put next index sig has_value =
     andthen (if LABCOMM_USER \<le> index \<and> \<not> has_value then zoom get put (note_registered index sig) else ret ()) (\<lambda>_.
     labcomm2014_writer_start next index sig has_value)"

definition introspecting_writer_ioctl ::
    "('z writer_scheme \<Rightarrow> 'v introspecting_private) \<Rightarrow> ('v introspecting_private \<Rightarrow> 'z writer_scheme \<Rightarrow> 'z writer_scheme) \<Rightarrow>
     ('z, 'v) writer_action list \<Rightarrow> int \<Rightarrow> 'v signature option \<Rightarrow> u32 \<Rightarrow> int list \<Rightarrow>
     ('z writer_scheme, int \<times> ioctl_out) prog" where
  "introspecting_writer_ioctl get put next index sig action args =
     (if action = HAS_SIGNATURE
      then andthen (zoom get put (has_signature index sig)) (\<lambda>result. ret (result, IoctlNone))
      else labcomm2014_writer_ioctl next index sig action args)"

definition introspecting_writer_action ::
    "('z writer_scheme \<Rightarrow> 'v introspecting_private) \<Rightarrow> ('v introspecting_private \<Rightarrow> 'z writer_scheme \<Rightarrow> 'z writer_scheme) \<Rightarrow>
     ('z, 'v) writer_action list \<Rightarrow> ('z, 'v) writer_action" where
  "introspecting_writer_action get put next =
     \<lparr>wa_alloc = Some (introspecting_writer_alloc get put next), wa_free = None,
      wa_start = Some (introspecting_writer_start get put next), wa_end = None, wa_flush = None,
      wa_ioctl = Some (introspecting_writer_ioctl get put next)\<rparr>"

text \<open>\<^verbatim>\<open>introspecting_new\<close>, as \<^verbatim>\<open>decimating_new\<close>; the object has 120 bytes of the heap.\<close>

definition introspecting_new ::
    "('r reader_scheme \<Rightarrow> 'v introspecting_private) \<Rightarrow> ('v introspecting_private \<Rightarrow> 'r reader_scheme \<Rightarrow> 'r reader_scheme) \<Rightarrow>
     ('w writer_scheme \<Rightarrow> 'v introspecting_private) \<Rightarrow> ('v introspecting_private \<Rightarrow> 'w writer_scheme \<Rightarrow> 'w writer_scheme) \<Rightarrow>
     ('r reader_scheme, int) prog \<Rightarrow> memory \<Rightarrow> ('r, 'v) reader_action list \<Rightarrow> ('w, 'v) writer_action list \<Rightarrow>
     (memory, ('v introspecting_private \<times> ('r, 'v) reader_action list \<times> ('w, 'v) writer_action list) option) prog" where
  "introspecting_new rget rput wget wput register mem rnext wnext =
     andthen (default_alloc 0 120) (\<lambda>ok.
     andthen (gets id) (\<lambda>heap.
     ret (if ok
          then Some (\<lparr>ip_memory = mem, ip_heap = heap, ip_events = [], ip_remote = signature_array_init,
                      ip_local = signature_array_init\<rparr>,
                     introspecting_reader_action rget rput register rnext # rnext,
                     introspecting_writer_action wget wput wnext # wnext)
          else None)))"

end
