(* ===== verification/LC_TwowaySpec.thy ===== *)
theory LC_TwowaySpec
  imports LC_Twoway
begin

text \<open>The tables of the wrappers as total functions, and what each operation does to them.\<close>

section \<open>Tables with a bounded window\<close>

definition sa_within :: "int \<Rightarrow> 'a sigarr \<Rightarrow> bool" where
  "sa_within hi a \<longleftrightarrow> 0 \<le> sa_first a \<and> sa_last a \<le> hi"

lemma sa_within_room:
  assumes "sa_within hi a" and "0 \<le> i" "i < hi" and "0 < sz" "hi \<le> INT_MAX" "hi * sz \<le> INT_MAX"
  shows "sa_room sz i a"
proof -
  have "(max (sa_last a) (i + 1) - min (sa_first a) i) * sz \<le> hi * sz"
    using assms(1-4) by (intro mult_right_mono) (auto simp: sa_within_def)
  also have "\<dots> \<le> INT_MAX" by (rule assms(6))
  finally show ?thesis unfolding sa_room_def using assms(3-5) by linarith
qed

lemma sa_within_set [simp]: "sa_within hi (sa_set i v a) = sa_within hi a"
  by (simp add: sa_within_def sa_set_def)

lemma wp_array_ref_within:
  assumes ok: "sa_ok a" and within: "sa_within hi a" and i: "0 \<le> i" "i < hi"
    and sz: "0 < sz" "hi \<le> INT_MAX" "hi * sz \<le> INT_MAX"
  shows "wp (labcomm2014_signature_array_ref z sz i) (\<lambda>_ (m', a'). sa_within hi a') (m, a)"
proof (cases "sa_data a")
  case None
  with ok have "sa_first a = 0" "sa_last a = 0" by (simp_all add: sa_ok_def)
  with None i sz show ?thesis
    by (simp add: labcomm2014_signature_array_ref_def wp_simps Let_def sa_within_def)
next
  case (Some d)
  with ok have window: "sa_first a < sa_last a" by (simp add: sa_ok_def)
  have small: "n * sz \<le> INT_MAX" if "n \<le> hi" for n
    using mult_right_mono [OF that, of sz] sz by linarith
  consider "i < sa_first a" "\<not> sa_last a \<le> i" | "\<not> i < sa_first a" "sa_last a \<le> i" | "\<not> i < sa_first a" "\<not> sa_last a \<le> i"
    using window by linarith
  then show ?thesis
    by cases (use within i sz window Some small [of "sa_last a - i"] small [of "i + 1 - sa_first a"] in
      \<open>auto simp: labcomm2014_signature_array_ref_def wp_simps Let_def sa_within_def not_less\<close>)
qed

text \<open>A table that may be asked for every index below \<open>hi\<close>, any number of times.\<close>

definition bounded_table :: "int \<Rightarrow> int \<Rightarrow> memory \<times> 'a sigarr \<Rightarrow> bool" where
  "bounded_table sz hi = (\<lambda>(m, a). plenty m \<and> sa_ok a \<and> sa_within hi a \<and> 0 < sz \<and> hi \<le> INT_MAX \<and> hi * sz \<le> INT_MAX)"

interpretation bounded: index_table "sa_deref z sz" "sa_assign z sz" "\<lambda>i v (m, a). (m, sa_set i v a)"
  "\<lambda>(m, a). sa_lookup z a" "\<lambda>i (m, a). sa_in i a" "\<lambda>i (m, a). 0 \<le> i \<and> i < hi" "bounded_table sz hi" for z :: 'a and sz hi
proof unfold_locales
  fix t :: "memory \<times> 'a sigarr" and i :: int and v :: 'a
  obtain m a where t: "t = (m, a)" by (cases t)
  assume "bounded_table sz hi t" and "case t of (m, a) \<Rightarrow> 0 \<le> i \<and> i < hi"
  then have ok: "plenty m" "sa_ok a" "sa_within hi a" "0 < sz" "hi \<le> INT_MAX" "hi * sz \<le> INT_MAX" and i: "0 \<le> i" "i < hi"
    by (simp_all add: t bounded_table_def)
  note room = sa_within_room [OF ok(3) i ok(4-6)]
  have ref: "wp (labcomm2014_signature_array_ref z sz i) (\<lambda>r (m', a'). r \<and> sa_ok a' \<and> sa_in i a' \<and>
      sa_lookup z a' = sa_lookup z a \<and> plenty m' \<and> sa_within hi a') (m, a)"
    by (rule wp_mono [OF wp_conj [OF wp_signature_array_ref [OF ok(2) room] wp_array_ref_within [OF ok(2,3) i ok(4-6)]]])
      (use ok(1) in auto)
  show "wp (sa_deref z sz i) (\<lambda>x t'. x = (case t of (m, a) \<Rightarrow> sa_lookup z a) i \<and> bounded_table sz hi t' \<and>
      (case t' of (m, a) \<Rightarrow> sa_in i a) \<and> (case t' of (m, a) \<Rightarrow> sa_lookup z a) = (case t of (m, a) \<Rightarrow> sa_lookup z a)) t"
    unfolding sa_deref_def wp_simps t
    by (rule wp_mono [OF ref]) (use ok in \<open>auto simp: wp_simps sa_at_lookup [of _ _ z] bounded_table_def\<close>)
  show "wp (sa_assign z sz i v) (\<lambda>_ t'. bounded_table sz hi t' \<and> (case t' of (m, a) \<Rightarrow> sa_in i a) \<and>
      (case t' of (m, a) \<Rightarrow> sa_lookup z a) = (case t of (m, a) \<Rightarrow> sa_lookup z a)(i := v)) t"
    unfolding sa_assign_def wp_simps t
    by (rule wp_mono [OF ref]) (use ok in \<open>auto simp: wp_simps sa_lookup_set bounded_table_def\<close>)
qed (auto simp: sa_lookup_set bounded_table_def)

section \<open>Decimation\<close>

definition writer_table :: "decimating_private \<Rightarrow> memory \<times> decimation sigarr" where
  "writer_table p = (dp_memory p, dp_writer_decimation p)"

definition asked_for :: "decimating_private \<Rightarrow> int \<Rightarrow> decimation" where
  "asked_for p = sa_lookup no_decimation (dp_writer_decimation p)"

definition decimating_ok :: "int \<Rightarrow> decimating_private \<Rightarrow> bool" where
  "decimating_ok hi p \<longleftrightarrow> bounded_table 8 hi (writer_table p) \<and> bounded_table 4 hi (dp_memory p, dp_reader_decimation p)"

lemma decimating_ok_event [simp]: "decimating_ok hi (p\<lparr>dp_events := es\<rparr>) = decimating_ok hi p"
  by (simp add: decimating_ok_def writer_table_def)

lemma wp_dp_event [wp_simps]: "wp (dp_event c) Q p \<longleftrightarrow> Q () (p\<lparr>dp_events := dp_events p @ [c]\<rparr>)"
  by (simp add: dp_event_def wp_simps)

lemma wp_writer_deref:
  assumes "decimating_ok hi p" and "0 \<le> i" "i < hi"
  shows "wp (on_writer_decimation (sa_deref no_decimation 8 i)) (\<lambda>d p'. d = asked_for p i \<and> decimating_ok hi p' \<and>
      sa_in i (dp_writer_decimation p') \<and> asked_for p' = asked_for p) p"
  unfolding on_writer_decimation_def wp_zoom
  by (rule wp_mono [OF bounded.deref_law [where hi = hi]])
    (use assms in \<open>auto simp: decimating_ok_def writer_table_def asked_for_def bounded_table_def\<close>)

text \<open>One sample: whether it is sent, and the new count.\<close>

lemma wp_decimate:
  assumes ok: "decimating_ok hi p" and i: "0 \<le> i" "i < hi"
    and d: "asked_for p i = \<lparr>dec_n = n, dec_current = c\<rparr>" and c: "0 \<le> c" "c < INT_MAX"
  shows "wp (decimate i) (\<lambda>r p'. r = (if c + 1 < n then - EALREADY else 0) \<and> decimating_ok hi p' \<and>
      asked_for p' = (asked_for p)(i := \<lparr>dec_n = n, dec_current = (if c + 1 < n then c + 1 else 0)\<rparr>)) p"
  unfolding decimate_def wp_andthen wp_dp_event
proof (rule wp_mono [OF wp_writer_deref [where hi = hi]], goal_cases)
  case (4 x p1)
  then have p1: "decimating_ok hi p1" "sa_in i (dp_writer_decimation p1)" "asked_for p1 = asked_for p"
    and x: "x = \<lparr>dec_n = n, dec_current = c\<rparr>"
    using d by (simp_all add: asked_for_def)
  have look: "sa_lookup no_decimation (sa_set i v (dp_writer_decimation p1)) = (asked_for p)(i := v)" for v
    using p1 sa_lookup_set [of "dp_writer_decimation p1" i no_decimation v]
    by (simp add: asked_for_def decimating_ok_def writer_table_def bounded_table_def)
  have "bounded_table 8 hi (dp_memory p1, sa_set i v (dp_writer_decimation p1))" for v
    using p1(1) by (simp add: decimating_ok_def writer_table_def bounded_table_def)
  with look p1(1) c show ?case
    by (simp add: x wp_simps on_writer_decimation_def INT_MIN_def decimating_ok_def writer_table_def asked_for_def)
qed (use ok i in simp_all)

lemma wp_set_decimation:
  assumes ok: "decimating_ok hi p" and i: "0 \<le> i" "i < hi"
  shows "wp (set_decimation amount i) (\<lambda>_ p'. decimating_ok hi p' \<and>
      asked_for p' = (asked_for p)(i := \<lparr>dec_n = amount, dec_current = 0\<rparr>)) p"
  unfolding set_decimation_def on_writer_decimation_def wp_andthen wp_zoom wp_dp_event
  by (rule wp_mono [OF bounded.assign_law [where hi = hi]])
    (use assms in \<open>auto simp: decimating_ok_def writer_table_def asked_for_def bounded_table_def\<close>)

text \<open>The reader's side: what the application asked for, and the messages on their way.\<close>

definition wanted :: "decimating_private \<Rightarrow> int \<Rightarrow> int" where
  "wanted p = sa_lookup 0 (dp_reader_decimation p)"

definition deferred :: "'f sched_event list \<Rightarrow> 'f list" where
  "deferred es = concat (map (\<lambda>e. case e of Locking c \<Rightarrow> [] | Enqueued d f \<Rightarrow> [f]) es)"

lemma deferred_simps [simp]:
  "deferred [] = []" "deferred (es @ fs) = deferred es @ deferred fs" "deferred (Locking c # es) = deferred es"
  "deferred (Enqueued d f # es) = f # deferred es"
  by (simp_all add: deferred_def)

lemma wanted_event [simp]: "wanted (p\<lparr>dp_events := es\<rparr>) = wanted p"
  by (simp add: wanted_def)

lemma wp_reader_deref:
  assumes "decimating_ok hi p" and "0 \<le> i" "i < hi"
  shows "wp (on_reader_decimation (sa_deref 0 4 i)) (\<lambda>x p'. x = wanted p i \<and> decimating_ok hi p' \<and>
      wanted p' = wanted p \<and> dp_events p' = dp_events p) p"
  unfolding on_reader_decimation_def wp_zoom
  by (rule wp_mono [OF bounded.deref_law [where hi = hi]])
    (use assms in \<open>auto simp: decimating_ok_def writer_table_def wanted_def bounded_table_def\<close>)

lemma wp_reader_assign:
  assumes "decimating_ok hi p" and "0 \<le> i" "i < hi"
  shows "wp (on_reader_decimation (sa_assign 0 4 i v)) (\<lambda>_ p'. decimating_ok hi p' \<and>
      wanted p' = (wanted p)(i := v) \<and> dp_events p' = dp_events p) p"
  unfolding on_reader_decimation_def wp_zoom
  by (rule wp_mono [OF bounded.assign_law [where hi = hi]])
    (use assms in \<open>auto simp: decimating_ok_def writer_table_def wanted_def bounded_table_def\<close>)

lemma wp_enqueue_decimation:
  assumes "decimating_ok hi p"
  shows "wp (enqueue_decimation i amount) (\<lambda>_ p'. decimating_ok hi p' \<and> wanted p' = wanted p \<and>
      dp_events p' = dp_events p @ [Enqueued 0 (Send_set_decimation amount i)]) p"
proof -
  have "plenty (dp_memory p)" using assms by (simp add: decimating_ok_def writer_table_def bounded_table_def)
  then have "mem_grant (dp_memory p) k n" for k n by (simp add: plenty_def)
  then show ?thesis
    using assms by (simp add: enqueue_decimation_def wp_simps Let_def decimating_ok_def writer_table_def bounded_table_def wanted_def)
qed

text \<open>The two operations: a definition that arrives, and an application that asks.\<close>

lemma wp_decimating_definition:
  assumes lens: "\<And>p r. get (put p r) = p"
    and passes: "\<And>i j sig v r. wp (labcomm2014_reader_start rnext i j sig v) (\<lambda>_ r'. get r' = get r) r"
    and ok: "decimating_ok hi (get r)" and i: "0 \<le> i" "i < hi"
  shows "wp (decimating_reader_start get put rnext i remote_index sig False) (\<lambda>_ r'. decimating_ok hi (get r') \<and>
      wanted (get r') = wanted (get r) \<and> deferred (dp_events (get r')) = deferred (dp_events (get r)) @
        (if remote_index \<noteq> 0 \<and> wanted (get r) i \<noteq> 0 then [Send_set_decimation (wanted (get r) i) remote_index] else [])) r"
  unfolding decimating_reader_start_def if_False wp_andthen wp_zoom wp_dp_event
proof (rule wp_mono [OF wp_reader_deref [where hi = hi]], goal_cases)
  case (4 x p1)
  let ?p = "p1\<lparr>dp_events := dp_events p1 @ [Locking DataUnlock]\<rparr>"
  have "wp (if remote_index \<noteq> 0 \<and> x \<noteq> 0 then enqueue_decimation remote_index x else ret ()) (\<lambda>_ p'. decimating_ok hi p' \<and>
      wanted p' = wanted (get r) \<and> deferred (dp_events p') = deferred (dp_events (get r)) @
        (if remote_index \<noteq> 0 \<and> x \<noteq> 0 then [Send_set_decimation x remote_index] else [])) ?p"
    using 4 by (auto simp: wp_ret intro!: wp_mono [OF wp_enqueue_decimation [where hi = hi]])
  then show ?case
    by (rule wp_mono) (rule wp_mono [OF passes], use 4 in \<open>simp add: lens\<close>)
qed (use ok i in simp_all)

lemma wp_decimating_request:
  assumes lens: "\<And>p r. get (put p r) = p"
    and ok: "decimating_ok hi (get r)" and i: "0 \<le> i" "i < hi"
  shows "wp (decimating_reader_ioctl get put rnext i remote_index sig SET_DECIMATION [amount]) (\<lambda>res r'. res = (0, IoctlNone) \<and>
      decimating_ok hi (get r') \<and> wanted (get r') = (wanted (get r))(i := amount) \<and>
      deferred (dp_events (get r')) = deferred (dp_events (get r)) @
        (if remote_index \<noteq> 0 then [Send_set_decimation amount remote_index] else [])) r"
  unfolding decimating_reader_ioctl_def if_P [OF refl] list.case wp_andthen wp_zoom wp_dp_event
proof (rule wp_mono [OF wp_reader_assign [where hi = hi]], goal_cases)
  case (4 x p1)
  then show ?case
    by (auto simp: wp_ret lens intro!: wp_mono [OF wp_enqueue_decimation [where hi = hi]])
qed (use ok i in simp_all)

end
