(* ===== verification/LC_TwowayIntro.thy ===== *)
theory LC_TwowayIntro
  imports LC_TwowaySpec LC_DecoderSpec
begin

text \<open>
  The tables of the introspecting wrapper and what its three operations do to them: a message of the other
  side, a registration and a question of the application.
\<close>

definition remotes :: "'v introspecting_private \<Rightarrow> int \<Rightarrow> remote" where
  "remotes p = sa_lookup no_remote (ip_remote p)"

definition locals :: "'v introspecting_private \<Rightarrow> int \<Rightarrow> 'v local_type" where
  "locals p = sa_lookup no_local (ip_local p)"

definition ip_ok :: "int \<Rightarrow> 'v introspecting_private \<Rightarrow> bool" where
  "ip_ok hi p \<longleftrightarrow> bounded_table 24 hi (ip_memory p, ip_remote p) \<and> bounded_table 16 hi (ip_memory p, ip_local p) \<and> plenty (ip_heap p)"

lemma ip_ok_event [simp]: "ip_ok hi (p\<lparr>ip_events := es\<rparr>) = ip_ok hi p"
  by (simp add: ip_ok_def)

lemma tables_event [simp]: "remotes (p\<lparr>ip_events := es\<rparr>) = remotes p" "locals (p\<lparr>ip_events := es\<rparr>) = locals p"
  by (simp_all add: remotes_def locals_def)

lemma wp_ip_event [wp_simps]: "wp (ip_event c) Q p \<longleftrightarrow> Q () (p\<lparr>ip_events := ip_events p @ [c]\<rparr>)"
  by (simp add: ip_event_def wp_simps)

section \<open>The accesses to the tables\<close>

lemma wp_local_deref:
  assumes "ip_ok hi p" and "0 \<le> i" "i < hi"
  shows "wp (on_ip_local (sa_deref no_local 16 i)) (\<lambda>l p'. l = locals p i \<and> ip_ok hi p' \<and> sa_in i (ip_local p') \<and>
      locals p' = locals p \<and> remotes p' = remotes p) p"
  unfolding on_ip_local_def wp_zoom
  by (rule wp_mono [OF bounded.deref_law [where hi = hi]])
    (use assms in \<open>auto simp: ip_ok_def locals_def remotes_def bounded_table_def\<close>)

lemma wp_remote_deref:
  assumes "ip_ok hi p" and "0 \<le> i" "i < hi"
  shows "wp (on_ip_remote (sa_deref no_remote 24 i)) (\<lambda>r p'. r = remotes p i \<and> ip_ok hi p' \<and> sa_in i (ip_remote p') \<and>
      locals p' = locals p \<and> remotes p' = remotes p) p"
  unfolding on_ip_remote_def wp_zoom
  by (rule wp_mono [OF bounded.deref_law [where hi = hi]])
    (use assms in \<open>auto simp: ip_ok_def locals_def remotes_def bounded_table_def\<close>)

lemma wp_put_local:
  assumes "ip_ok hi p" and "sa_in i (ip_local p)"
    and "\<And>p'. ip_ok hi p' \<Longrightarrow> (\<forall>j. sa_in j (ip_local p') = sa_in j (ip_local p)) \<Longrightarrow> locals p' = (locals p)(i := l) \<Longrightarrow>
      remotes p' = remotes p \<Longrightarrow> Q () p'"
  shows "wp (put_local i l) Q p"
  unfolding put_local_def on_ip_local_def
  by (simp add: wp_simps) (rule assms(3), use assms(1,2) in \<open>simp_all add: ip_ok_def locals_def remotes_def bounded_table_def sa_lookup_set\<close>)

lemma wp_put_remote:
  assumes "ip_ok hi p" and "sa_in i (ip_remote p)"
    and "\<And>p'. ip_ok hi p' \<Longrightarrow> remotes p' = (remotes p)(i := r) \<Longrightarrow> locals p' = locals p \<Longrightarrow> Q () p'"
  shows "wp (on_ip_remote (modify (\<lambda>(m, a). (m, sa_set i r a)))) Q p"
  unfolding on_ip_remote_def
  by (simp add: wp_simps) (rule assms(3), use assms(1,2) in \<open>simp_all add: ip_ok_def locals_def remotes_def bounded_table_def sa_lookup_set\<close>)

lemma remote_inside: "ip_ok hi p \<Longrightarrow> remotes p i \<noteq> no_remote \<Longrightarrow> sa_in i (ip_remote p)"
  by (auto simp: remotes_def sa_lookup_def sa_in_def split: option.splits if_splits)

lemma local_inside: "ip_ok hi p \<Longrightarrow> locals p i \<noteq> no_local \<Longrightarrow> sa_in i (ip_local p)"
  by (auto simp: locals_def sa_lookup_def sa_in_def split: option.splits if_splits)

lemma remote_deref_inside:
  "ip_ok hi p \<Longrightarrow> sa_in i (ip_remote p) \<Longrightarrow> on_ip_remote (sa_deref no_remote 24 i) p = Some (Inr (remotes p i, p))"
  by (simp add: on_ip_remote_def prog_simps sa_deref_inside ip_ok_def bounded_table_def remotes_def)

lemma local_deref_inside:
  "ip_ok hi p \<Longrightarrow> sa_in i (ip_local p) \<Longrightarrow> on_ip_local (sa_deref no_local 16 i) p = Some (Inr (locals p i, p))"
  by (simp add: on_ip_local_def prog_simps sa_deref_inside ip_ok_def bounded_table_def locals_def)

lemma wp_ip_malloc:
  assumes "ip_ok hi p" and "\<And>p'. ip_ok hi p' \<Longrightarrow> remotes p' = remotes p \<Longrightarrow> locals p' = locals p \<Longrightarrow>
      ip_remote p' = ip_remote p \<Longrightarrow> ip_local p' = ip_local p \<Longrightarrow> Q True p'"
  shows "wp (ip_malloc n) Q p"
proof -
  have "plenty (ip_heap p)" using assms(1) by (simp add: ip_ok_def)
  then have "mem_grant (ip_heap p) k l" for k l by (simp add: plenty_def)
  moreover have "Q True (p\<lparr>ip_heap := m\<rparr>)" if "plenty m" for m
    using assms(1) that by (intro assms(2)) (simp_all add: ip_ok_def remotes_def locals_def)
  ultimately show ?thesis
    using \<open>plenty (ip_heap p)\<close> unfolding ip_malloc_def wp_zoom by (auto simp: default_alloc_def plenty_def wp_def intro!: exI [of _ True])
qed

section \<open>The two loops\<close>

definition sig_key :: "'v signature \<Rightarrow> cstring \<times> byte list" where
  "sig_key s = (sig_name s, sig_signature s)"

definition remote_of :: "cstring \<times> byte list \<Rightarrow> remote" where
  "remote_of = (\<lambda>(name, sig). \<lparr>rm_name = Some name, rm_size = int (length sig), rm_signature = Some sig\<rparr>)"

definition told_remotes :: "(int \<Rightarrow> cstring \<times> byte list) \<Rightarrow> int set \<Rightarrow> int \<Rightarrow> remote" where
  "told_remotes told D i = (if i \<in> D then remote_of (told i) else no_remote)"

lemma same_bytes_eq:
  "sig_sized s \<Longrightarrow> int (length b) = sig_size s \<Longrightarrow> same_bytes (sig_signature s) (Some b) (sig_size s) = ret (sig_signature s = b)"
  by (simp add: same_bytes_def sig_sized_def)

lemma wp_same_bytes: "length b = length a \<Longrightarrow> wp (same_bytes a (Some b) (int (length a))) Q p \<longleftrightarrow> Q (a = b) p"
  by (simp add: same_bytes_def wp_ret)

lemma find_remote_eq:
  assumes ok: "ip_ok hi p" and told: "remotes p = told_remotes told D" and sized: "sig_sized s"
    and "\<forall>i\<in>set is. sa_in i (ip_remote p)"
  shows "find_remote (Some s) is p = Some (Inr (\<exists>i\<in>set is. i \<in> D \<and> told i = sig_key s, p))"
  using assms(4)
proof (induction "is")
  case (Cons i "is")
  obtain n b where t: "told i = (n, b)" by (cases "told i")
  show ?case
    using Cons remote_deref_inside [OF ok, of i] sized
    by (auto simp: prog_simps told t told_remotes_def remote_of_def no_remote_def sig_key_def same_bytes_eq
        sig_sized_def same_bytes_def)
qed (simp add: prog_simps)

definition waits_for :: "cstring \<times> byte list \<Rightarrow> 'v local_type \<Rightarrow> bool" where
  "waits_for k l \<longleftrightarrow> lt_status l = Unhandled \<and> (case lt_signature l of None \<Rightarrow> False | Some s \<Rightarrow> sig_key s = k)"

lemma wp_mark_handled:
  assumes "ip_ok hi p" and "\<forall>i\<in>set is. sa_in i (ip_local p)"
    and "\<And>i s. lt_signature (locals p i) = Some s \<Longrightarrow> sig_sized s"
  shows "wp (mark_handled (Some name) (int (length sig)) sig is) (\<lambda>_ p'. ip_ok hi p' \<and> remotes p' = remotes p \<and>
      locals p' = (\<lambda>i. if i \<in> set is \<and> waits_for (name, sig) (locals p i)
        then (locals p i)\<lparr>lt_status := Unregistered\<rparr> else locals p i)) p"
  using assms
proof (induction "is" arbitrary: p)
  case Nil
  then show ?case by (simp add: wp_ret)
next
  case (Cons i "is")
  let ?l = "locals p i"
  note deref = local_deref_inside [OF Cons.prems(1), of i]
  have sized: "sig_sized s" if "lt_signature ?l = Some s" for s using Cons.prems(3) that .
  have body: "wp (case lt_signature ?l of None \<Rightarrow> ret ()
       | Some s \<Rightarrow> if lt_status ?l = Unhandled then
             (case Some name of None \<Rightarrow> stop Undef
              | Some n \<Rightarrow> if n = sig_name s \<and> int (length sig) = sig_size s
                then andthen (same_bytes (sig_signature s) (Some sig) (sig_size s)) (\<lambda>same.
                     if same then put_local i (?l\<lparr>lt_status := Unregistered\<rparr>) else ret ())
                else ret ()) else ret ())
      (\<lambda>_ p'. ip_ok hi p' \<and> (\<forall>j. sa_in j (ip_local p') = sa_in j (ip_local p)) \<and> remotes p' = remotes p \<and>
        locals p' = (locals p)(i := if waits_for (name, sig) ?l then ?l\<lparr>lt_status := Unregistered\<rparr> else ?l)) p"
    using Cons.prems(1,2) sized
    by (auto simp: wp_simps wp_same_bytes waits_for_def sig_key_def sig_sized_def split: option.splits
        intro!: wp_put_local [where hi = hi])
  show ?case
    by (simp add: wp_andthen, simp add: wp_def [of "on_ip_local _"] deref Cons.prems(2) wp_andthen, rule wp_mono [OF body],
        elim conjE, rule wp_mono [OF Cons.IH])
      (use Cons.prems(2,3) in \<open>auto simp: fun_eq_iff waits_for_def split: if_splits\<close>)
qed

section \<open>The three operations\<close>

text \<open>
  The other side has announced the indices \<open>D\<close>, whose types are \<open>told\<close>; the types of this side are \<open>sigs\<close>, of
  which those with an index in \<open>R\<close> are registered.
\<close>

definition shown_status ::
    "(int \<Rightarrow> 'v signature) \<Rightarrow> (int \<Rightarrow> cstring \<times> byte list) \<Rightarrow> int set \<Rightarrow> int set \<Rightarrow> int \<Rightarrow> introspecting_status" where
  "shown_status sigs told D R i =
     (if i \<in> R then Registered else if sig_key (sigs i) \<in> told ` D then Unregistered else Unhandled)"

definition shown :: "(int \<Rightarrow> 'v signature) \<Rightarrow> (int \<Rightarrow> cstring \<times> byte list) \<Rightarrow> int set \<Rightarrow> int set \<Rightarrow> int \<Rightarrow> 'v local_type" where
  "shown sigs told D R i = \<lparr>lt_status = shown_status sigs told D R i, lt_signature = Some (sigs i)\<rparr>"

definition ip_inv ::
    "int \<Rightarrow> (int \<Rightarrow> 'v signature) \<Rightarrow> (int \<Rightarrow> cstring \<times> byte list) \<Rightarrow> int set \<Rightarrow> int set \<Rightarrow> 'v introspecting_private \<Rightarrow> bool" where
  "ip_inv hi sigs told D R p \<longleftrightarrow> ip_ok hi p \<and> (\<forall>i. sig_sized (sigs i)) \<and> remotes p = told_remotes told D \<and>
     (\<forall>i. locals p i = shown sigs told D R i \<or> (i \<notin> R \<and> locals p i = no_local))"

lemma ip_inv_event [simp]: "ip_inv hi sigs told D R (p\<lparr>ip_events := es\<rparr>) = ip_inv hi sigs told D R p"
  by (simp add: ip_inv_def)

lemma told_inside:
  assumes "ip_ok hi p" and "remotes p = told_remotes told D"
  shows "(\<exists>i\<in>set (sa_indices (ip_remote p)). i \<in> D \<and> told i = k) \<longleftrightarrow> k \<in> told ` D"
proof -
  have "sa_in i (ip_remote p)" if "i \<in> D" for i
    using that by (intro remote_inside [OF assms(1)]) (simp add: assms(2) told_remotes_def remote_of_def no_remote_def split: prod.split)
  then show ?thesis by (auto simp: sa_indices_in)
qed

lemma wp_get_local:
  assumes inv: "ip_inv hi sigs told D R p" and i: "0 \<le> i" "i < hi"
  shows "wp (get_local i (Some (sigs i))) (\<lambda>l p'. l = shown sigs told D R i \<and> ip_inv hi sigs told D R p' \<and>
      sa_in i (ip_local p')) p"
proof -
  have ok: "ip_ok hi p" and told: "remotes p = told_remotes told D" using inv by (simp_all add: ip_inv_def)
  have old: "locals p i = shown sigs told D R i \<or> (i \<notin> R \<and> locals p i = no_local)" using inv by (simp add: ip_inv_def)
  show ?thesis
    unfolding get_local_def wp_andthen
  proof (rule wp_mono [OF wp_local_deref [OF ok i]], elim conjE)
    fix l p1
    assume l: "l = locals p i" and p1: "ip_ok hi p1" "sa_in i (ip_local p1)" "locals p1 = locals p" "remotes p1 = remotes p"
    let ?l1 = "if lt_signature l = None then \<lparr>lt_status = Unknown, lt_signature = Some (sigs i)\<rparr> else l"
    show "wp (let l1 = (if lt_signature l = None then \<lparr>lt_status = Unknown, lt_signature = Some (sigs i)\<rparr> else l) in
        andthen (put_local i l1) (\<lambda>_. if lt_status l1 = Unknown then
          andthen (gets (\<lambda>p. sa_indices (ip_remote p))) (\<lambda>is. andthen (find_remote (Some (sigs i)) is) (\<lambda>found.
            let l2 = l1\<lparr>lt_status := (if found then Unregistered else Unhandled)\<rparr> in
            andthen (put_local i l2) (\<lambda>_. ret l2))) else ret l1))
        (\<lambda>l p'. l = shown sigs told D R i \<and> ip_inv hi sigs told D R p' \<and> sa_in i (ip_local p')) p1"
      unfolding Let_def wp_andthen
    proof (rule wp_put_local [OF p1(1,2)], goal_cases)
      case (1 p2)
      have told2: "remotes p2 = told_remotes told D" using 1 p1 told by simp
      have sized: "sig_sized (sigs i)" using inv by (simp add: ip_inv_def)
      have find: "find_remote (Some (sigs i)) (sa_indices (ip_remote p2)) p2 = Some (Inr (sig_key (sigs i) \<in> told ` D, p2))"
        using find_remote_eq [OF 1(1) told2 sized, of "sa_indices (ip_remote p2)"] by (simp add: sa_indices_in told_inside [OF 1(1) told2])
      have look: "wp (find_remote (Some (sigs i)) (sa_indices (ip_remote p2))) Q p2 \<longleftrightarrow> Q (sig_key (sigs i) \<in> told ` D) p2" for Q
        by (simp add: wp_def find)
      have kept: "ip_inv hi sigs told D R p3" if "ip_ok hi p3" "remotes p3 = remotes p2" "locals p3 = (locals p)(i := shown sigs told D R i)" for p3
        using that told2 inv by (simp add: ip_inv_def)
      show ?case
      proof (cases "locals p i = no_local")
        case True
        with old have "shown_status sigs told D R i = (if sig_key (sigs i) \<in> told ` D then Unregistered else Unhandled)"
          by (auto simp: shown_def no_local_def shown_status_def)
        with True 1 p1 l show ?thesis
          by (simp add: wp_simps look no_local_def)
            (intro wp_put_local [where hi = hi] impI conjI, auto simp: wp_simps shown_def intro!: kept)
      next
        case False
        with old have "locals p i = shown sigs told D R i" by blast
        with 1 p1 l show ?thesis
          by (auto simp: wp_simps shown_def shown_status_def intro!: kept)
      qed
    qed
  qed
qed


lemma wp_note_registered:
  assumes inv: "ip_inv hi sigs told D R p" and i: "0 \<le> i" "i < hi"
  shows "wp (note_registered i (Some (sigs i))) (\<lambda>_ p'. ip_inv hi sigs told D (insert i R) p') p"
  unfolding note_registered_def wp_andthen wp_ip_event
proof (rule wp_mono [OF wp_get_local [where hi = hi and sigs = sigs and told = told and D = D and R = R]], goal_cases)
  case (4 l p1)
  then have l: "l = shown sigs told D R i" and p1: "ip_inv hi sigs told D R p1" "sa_in i (ip_local p1)" by simp_all
  have new: "l\<lparr>lt_status := Registered\<rparr> = shown sigs told D (insert i R) i" by (simp add: l shown_def shown_status_def)
  have others: "shown sigs told D (insert i R) j = shown sigs told D R j" if "j \<noteq> i" for j
    using that by (simp add: shown_def shown_status_def)
  show ?case
    by (rule wp_put_local [where hi = hi])
      (use p1 new others in \<open>auto simp: ip_inv_def\<close>)
qed (use inv i in simp_all)

lemma wp_has_signature:
  assumes inv: "ip_inv hi sigs told D R p" and i: "0 \<le> i" "i < hi"
  shows "wp (has_signature i (Some (sigs i))) (\<lambda>r p'. r = status_code (shown_status sigs told D R i) \<and> ip_inv hi sigs told D R p') p"
  unfolding has_signature_def wp_andthen wp_ip_event
  by (rule wp_mono [OF wp_get_local [where hi = hi and told = told and D = D and R = R]]) (use inv i in \<open>auto simp: wp_ret shown_def\<close>)

lemma shown_waits:
  "shown sigs told (insert i D) R j = (if waits_for (told i) (shown sigs told D R j)
     then (shown sigs told D R j)\<lparr>lt_status := Unregistered\<rparr> else shown sigs told D R j)"
  by (auto simp: shown_def shown_status_def waits_for_def)

text \<open>After the new entry is in the table: the loop over the types of this side.\<close>

lemma wp_mark_all:
  assumes inv: "ip_inv hi sigs told D R p" and t: "told i = (name, sig)"
    and q: "ip_ok hi q" "locals q = locals p" "remotes q = (remotes p)(i := remote_of (name, sig))"
  shows "wp (mark_handled (Some name) (int (length sig)) sig (sa_indices (ip_local q))) (\<lambda>_ p'. ip_inv hi sigs told (insert i D) R p') q"
proof (rule wp_mono [OF wp_mark_handled [OF q(1)]], goal_cases)
  case (2 j s)
  with inv show ?case by (auto simp: ip_inv_def q(2) shown_def no_local_def dest!: spec [of _ j])
next
  case (3 u p')
  have loc: "locals p' j = shown sigs told (insert i D) R j \<or> (j \<notin> R \<and> locals p' j = no_local)" for j
  proof (cases "locals p j = no_local")
    case True
    with inv have "j \<notin> R" by (auto simp: ip_inv_def shown_def no_local_def dest!: spec [of _ j])
    with True 3 show ?thesis by (simp add: q(2) waits_for_def no_local_def)
  next
    case False
    with inv have "locals p j = shown sigs told D R j" by (auto simp: ip_inv_def)
    moreover have "j \<in> set (sa_indices (ip_local q))" using local_inside [OF q(1)] False q(2) by (simp add: sa_indices_in)
    ultimately show ?thesis using 3 by (simp add: q(2) shown_waits t)
  qed
  with 3 inv q(3) t show ?case by (auto simp: ip_inv_def told_remotes_def)
qed (simp add: sa_indices_in)

lemma wp_handles_signature:
  assumes inv: "ip_inv hi sigs told D R p" and i: "0 \<le> i" "i < hi" and t: "told i = (name, sig)"
  shows "wp (handles_signature i name sig) (\<lambda>_ p'. ip_inv hi sigs told (insert i D) R p') p"
  unfolding handles_signature_def wp_andthen wp_ip_event
proof (rule wp_mono [OF wp_remote_deref [where hi = hi]], goal_cases)
  case (4 r p1)
  then have p1: "ip_ok hi p1" "sa_in i (ip_remote p1)" "locals p1 = locals p" "remotes p1 = remotes p" by simp_all
  show ?case
    unfolding Let_def if_True
  proof (rule wp_ip_malloc [OF p1(1)], simp only: if_True wp_andthen, rule wp_ip_malloc, assumption, simp only: if_True wp_andthen,
      rule wp_put_remote, assumption, goal_cases)
    case (2 p2 p3 p4)
    then have "locals p4 = locals p" "remotes p4 = (remotes p)(i := remote_of (name, sig))"
      using p1 by (simp_all add: remote_of_def) (cases r, simp)
    from wp_mark_all [OF inv t 2(11) this] show ?case
      by (auto simp: wp_simps elim!: wp_mono)
  qed (use p1 in simp_all)
qed (use inv i in \<open>simp_all add: ip_inv_def\<close>)

end
