(* ===== verification/LC_TwowayProps.thy ===== *)
theory LC_TwowayProps
  imports LC_TwowayIntro LC_EncoderProps
begin

text \<open>What the wrappers promise to the applications on both sides.\<close>

section \<open>Decimation\<close>

text \<open>The results of the starts of packets, one after the other: of the index, the signature and whether there is a value.\<close>

fun start_each :: "('z, 'v) writer_action list \<Rightarrow> (int \<times> 'v signature option \<times> bool) list \<Rightarrow> ('z writer_scheme, int list) prog" where
  "start_each acts [] = ret []"
| "start_each acts ((i, sig, v) # reqs) =
     andthen (labcomm2014_writer_start acts i sig v) (\<lambda>r.
     andthen (start_each acts reqs) (\<lambda>rs. ret (r # rs)))"

text \<open>
  What they should be, when \<open>n i\<close> is the decimation of the index \<open>i\<close> and \<open>k i\<close> packets were started under it
  before: the m-th start is passed on if and only if \<open>n i\<close> divides m.
\<close>

fun decimated :: "(int \<Rightarrow> int) \<Rightarrow> (int \<Rightarrow> nat) \<Rightarrow> int list \<Rightarrow> int list" where
  "decimated n k [] = []"
| "decimated n k (i # is) =
     (if i < LABCOMM_USER then 0 # decimated n k is
      else (if n i \<le> 1 \<or> n i dvd int (Suc (k i)) then 0 else - EALREADY) # decimated n (k(i := Suc (k i))) is)"

definition counted :: "(int \<Rightarrow> int) \<Rightarrow> (int \<Rightarrow> nat) \<Rightarrow> int \<Rightarrow> decimation" where
  "counted n k i = \<lparr>dec_n = n i, dec_current = (if n i \<le> 1 then 0 else int (k i) mod n i)\<rparr>"

lemma mod_Suc_dvd:
  assumes "1 < (n :: int)"
  shows "int k mod n + 1 < n \<longleftrightarrow> \<not> n dvd int (Suc k)" and "int (Suc k) mod n = (if int k mod n + 1 < n then int k mod n + 1 else 0)"
proof -
  have r: "0 \<le> int k mod n" "int k mod n < n" using assms by simp_all
  have eq: "int (Suc k) mod n = (int k mod n + 1) mod n" by (simp add: mod_simps add.commute)
  show "int (Suc k) mod n = (if int k mod n + 1 < n then int k mod n + 1 else 0)"
  proof (cases "int k mod n + 1 < n")
    case False
    then have "int k mod n + 1 = n" using r by linarith
    then show ?thesis unfolding eq by simp
  next
    case True
    then show ?thesis unfolding eq using r by (simp only: if_True mod_pos_pos_trivial)
  qed
  then show "int k mod n + 1 < n \<longleftrightarrow> \<not> n dvd int (Suc k)"
    using r by (auto simp: dvd_eq_mod_eq_0 split: if_splits)
qed

lemma wp_decimate_counted:
  assumes ok: "decimating_ok hi p" and i: "0 \<le> i" "i < hi" and n: "n i \<le> INT_MAX" and t: "asked_for p = counted n k"
  shows "wp (decimate i) (\<lambda>r p'. r = (if n i \<le> 1 \<or> n i dvd int (Suc (k i)) then 0 else - EALREADY) \<and> decimating_ok hi p' \<and>
      asked_for p' = counted n (k(i := Suc (k i)))) p"
proof -
  let ?c = "if n i \<le> 1 then 0 else int (k i) mod n i"
  have c: "0 \<le> ?c" "?c < INT_MAX"
  proof -
    show "0 \<le> ?c" by simp
    show "?c < INT_MAX"
    proof (cases "n i \<le> 1")
      case False
      then have "int (k i) mod n i < n i" by simp
      with n have "int (k i) mod n i < INT_MAX" by linarith
      with False show ?thesis by simp
    qed (simp add: INT_MAX_def)
  qed
  have d: "asked_for p i = \<lparr>dec_n = n i, dec_current = ?c\<rparr>" by (simp add: t counted_def)
  have same: "(asked_for p)(i := \<lparr>dec_n = n i, dec_current = (if ?c + 1 < n i then ?c + 1 else 0)\<rparr>) = counted n (k(i := Suc (k i)))"
    using mod_Suc_dvd(2) [of "n i" "k i"] by (auto simp: t counted_def fun_eq_iff)
  show ?thesis
    by (rule wp_mono [OF wp_decimate [OF ok i d c]])
      (use same mod_Suc_dvd(1) [of "n i" "k i"] in auto)
qed

lemma wp_start_each:
  assumes lens: "\<And>p w. get (put p w) = p"
    and passes: "\<And>i sig v w. wp (labcomm2014_writer_start wnext i sig v) (\<lambda>r w'. r = 0 \<and> get w' = get w) w"
    and "decimating_ok hi (get w)" and "asked_for (get w) = counted n k" and "\<And>i. n i \<le> INT_MAX" and "\<forall>(i, _)\<in>set reqs. i < hi"
  shows "wp (start_each (decimating_writer_action get put wnext # wnext) reqs)
    (\<lambda>rs _. rs = decimated n k (map fst reqs)) w"
  using assms(3,4,6)
proof (induction reqs arbitrary: w k)
  case Nil
  then show ?case by (simp add: wp_ret)
next
  case (Cons req reqs)
  obtain i sig v where req: "req = (i, sig, v)" by (cases req)
  have i: "i < hi" "\<forall>(i, _)\<in>set reqs. i < hi" using Cons.prems(3) req by simp_all
  have start: "labcomm2014_writer_start (decimating_writer_action get put wnext # wnext) i sig v = decimating_writer_start get put wnext i sig v"
    by (simp add: labcomm2014_writer_start_def dispatch_def decimating_writer_action_def)
  show ?case
  proof (cases "i < LABCOMM_USER")
    case True
    then show ?thesis
      unfolding req start_each.simps start wp_andthen decimating_writer_start_def
      by (simp add: wp_simps) (rule wp_mono [OF passes], auto simp: wp_simps intro!: wp_mono [OF Cons.IH] Cons.prems i)
  next
    case False
    then have i0: "0 \<le> i" by (simp add: tag_defs)
    note one = wp_decimate_counted [OF Cons.prems(1) i0 i(1) assms(5) Cons.prems(2)]
    show ?thesis
      unfolding req start_each.simps start wp_andthen decimating_writer_start_def if_not_P [OF False] wp_zoom
      by (rule wp_mono [OF one])
        (use False in \<open>auto simp: wp_simps lens EALREADY_def fun_upd_def intro!: wp_mono [OF passes] wp_mono [OF Cons.IH] i\<close>)
  qed
qed

text \<open>
  Claim C23. A writer with the decimating wrapper in front, over any actions that take every packet.  The wrapper counts every start of a
  packet under the index of a type, with or without a value: samples, but also the definition, the reference and
  the type definition, which the encoder starts under the same index.  When the other side has asked for the
  decimation \<open>amount\<close> of the type \<open>j\<close>, then of every sequence of starts, of any types in any order, exactly each
  \<open>amount\<close>-th start of \<open>j\<close> is passed on, whatever it is the start of, and of every other type those that its own
  decimation and the number of its starts so far say; the others are answered by \<^verbatim>\<open>-EALREADY\<close>, upon which
  the encoder leaves out the packet.  Starts under a reserved index always pass and are not counted.
\<close>

theorem decimation_sends_every_nth:
  assumes "\<And>p w. get (put p w) = p"
    and "\<And>i sig v w. wp (labcomm2014_writer_start wnext i sig v) (\<lambda>r w'. r = 0 \<and> get w' = get w) w"
    and "decimating_ok hi (get w)" and "asked_for (get w) = counted n k" and "\<And>i. n i \<le> INT_MAX"
    and "0 \<le> j" "j < hi" "amount \<le> INT_MAX" and "\<forall>(i, _)\<in>set reqs. i < hi"
  shows "wp (andthen (zoom get put (set_decimation amount j)) (\<lambda>_.
      start_each (decimating_writer_action get put wnext # wnext) reqs))
    (\<lambda>rs _. rs = decimated (n(j := amount)) (k(j := 0)) (map fst reqs)) w"
  unfolding wp_andthen wp_zoom
proof (rule wp_mono [OF wp_set_decimation [OF assms(3,6,7)]], elim conjE)
  fix p'
  assume p': "decimating_ok hi p'" and t: "asked_for p' = (asked_for (get w))(j := \<lparr>dec_n = amount, dec_current = 0\<rparr>)"
  have "asked_for p' = counted (n(j := amount)) (k(j := 0))" by (simp add: t assms(4) counted_def fun_eq_iff)
  with p' show "wp (start_each (decimating_writer_action get put wnext # wnext) reqs)
      (\<lambda>rs _. rs = decimated (n(j := amount)) (k(j := 0)) (map fst reqs)) (put p' w)"
    by (intro wp_start_each [where hi = hi] assms(1,2,9)) (use assms(1,5,8) in auto)
qed

text \<open>
  A writer that takes every packet, with the wrapper as its own state.  In the example the first start of the index 64
  is that of its definition, which is refused.
\<close>

definition taking :: "('z, 'v) writer_action" where
  "taking = \<lparr>wa_alloc = None, wa_free = None, wa_start = Some (\<lambda>i sig v. ret 0), wa_end = None, wa_flush = None, wa_ioctl = None\<rparr>"

definition wrapped_writer :: "'p \<Rightarrow> 'p writer_scheme" where
  "wrapped_writer p = \<lparr>w_memory = generous, w_data = None, w_data_size = 0, w_count = 0, w_pos = 0, w_error = 0, \<dots> = p\<rparr>"

definition new_decimating :: decimating_private where
  "new_decimating = \<lparr>dp_memory = generous, dp_events = [], dp_writer_decimation = signature_array_init,
     dp_reader_decimation = signature_array_init\<rparr>"

lemma new_decimating_ok: "decimating_ok 100 new_decimating" "asked_for new_decimating = counted (\<lambda>_. 0) (\<lambda>_. 0)"
  "sa_lookup 0 (dp_reader_decimation new_decimating) i = 0"
  by (simp_all add: decimating_ok_def writer_table_def bounded_table_def sa_within_def new_decimating_def asked_for_def
      no_decimation_def counted_def INT_MAX_def) (simp_all add: signature_array_init_def sa_lookup_def fun_eq_iff counted_def)

lemma taking_start: "wp (labcomm2014_writer_start [taking] i sig v) (\<lambda>r w'. r = 0 \<and> w' = w) w"
  by (simp add: labcomm2014_writer_start_def dispatch_def taking_def wp_ret)

theorem decimation_sends_every_nth_witness:
  "wp (andthen (zoom writer.more (\<lambda>p. writer.more_update (\<lambda>_. p)) (set_decimation 3 64)) (\<lambda>_.
      start_each (decimating_writer_action writer.more (\<lambda>p. writer.more_update (\<lambda>_. p)) [taking] # [taking])
        [(64, None :: 32 word signature option, False), (2, None, False), (64, None, True), (65, None, True), (64, None, True), (64, None, True)]))
    (\<lambda>rs _. rs = [- EALREADY, 0, - EALREADY, 0, 0, - EALREADY]) (wrapped_writer new_decimating)"
proof -
  have expected: "decimated ((\<lambda>_. 0)(64 := 3)) ((\<lambda>_. 0)(64 := 0)) [64, 2, 64, 65, 64, 64] =
      [- EALREADY, 0, - EALREADY, 0, 0, - EALREADY]"
    by (simp add: tag_defs)
  let ?reqs = "[(64 :: int, None :: 32 word signature option, False), (2, None, False), (64, None, True), (65, None, True), (64, None, True), (64, None, True)]"
  have pass: "wp (labcomm2014_writer_start [taking] i sig v) (\<lambda>r w'. r = 0 \<and> writer.more w' = writer.more w) w" for i sig v w
    by (rule wp_mono [OF taking_start]) simp
  have "wp (andthen (zoom writer.more (\<lambda>p. writer.more_update (\<lambda>_. p)) (set_decimation 3 64)) (\<lambda>_.
      start_each (decimating_writer_action writer.more (\<lambda>p. writer.more_update (\<lambda>_. p)) [taking] # [taking]) ?reqs))
    (\<lambda>rs _. rs = decimated ((\<lambda>_. 0)(64 := 3)) ((\<lambda>_. 0)(64 := 0)) (map fst ?reqs)) (wrapped_writer new_decimating)"
    by (rule decimation_sends_every_nth [where hi = 100 and n = "\<lambda>_. 0" and k = "\<lambda>_. 0"])
      (use new_decimating_ok in \<open>simp_all add: wrapped_writer_def INT_MAX_def pass\<close>)
  then show ?thesis by (simp only: list.map fst_conv expected)
qed

text \<open>
  What happens at the reader: the application asks for a decimation of a type, and a definition of the type arrives
  with the index that the other side has given it.  The decoder passes the index of the other side with a
  request, or 0 when there has been no definition.
\<close>

datatype decimation_event = Requested int int | Defined int int

primrec event_type :: "decimation_event \<Rightarrow> int" where
  "event_type (Requested i amount) = i"
| "event_type (Defined i j) = i"

primrec decimating_run :: "('z, 'v) reader_action list \<Rightarrow> (int \<Rightarrow> 'v signature option) \<Rightarrow> (int \<Rightarrow> int) \<Rightarrow> decimation_event list \<Rightarrow>
    ('z reader_scheme, unit) prog" where
  "decimating_run acts sigs remote [] = ret ()"
| "decimating_run acts sigs remote (e # es) =
     (case e of
        Requested i amount \<Rightarrow> andthen (labcomm2014_reader_ioctl acts i (remote i) (sigs i) SET_DECIMATION [amount]) (\<lambda>_.
          decimating_run acts sigs remote es)
      | Defined i j \<Rightarrow> andthen (labcomm2014_reader_start acts i j (sigs i) False) (\<lambda>_.
          decimating_run acts sigs (remote(i := j)) es))"

text \<open>The messages that are to reach the other side: a decimation and the index that it is for.\<close>

fun decimation_messages :: "(int \<Rightarrow> int) \<Rightarrow> (int \<Rightarrow> int) \<Rightarrow> decimation_event list \<Rightarrow> (int \<times> int) list" where
  "decimation_messages asked remote [] = []"
| "decimation_messages asked remote (Requested i amount # es) =
     (if remote i \<noteq> 0 then [(amount, remote i)] else []) @ decimation_messages (asked(i := amount)) remote es"
| "decimation_messages asked remote (Defined i j # es) =
     (if j \<noteq> 0 \<and> asked i \<noteq> 0 then [(asked i, j)] else []) @ decimation_messages asked (remote(i := j)) es"

text \<open>The scheduler makes the deferred calls in order; the other side handles the messages in order.\<close>

primrec make_deferred :: "('e, int) prog \<Rightarrow> (int \<Rightarrow> int \<Rightarrow> ('e, int) prog) \<Rightarrow> decimating_call list \<Rightarrow> (decimating_private \<times> 'e, unit) prog" where
  "make_deferred register encode [] = ret ()"
| "make_deferred register encode (c # cs) = andthen (decimating_deferred register encode c) (\<lambda>_. make_deferred register encode cs)"

primrec handle_decimations :: "(int \<times> int) list \<Rightarrow> (decimating_private, unit) prog" where
  "handle_decimations [] = ret ()"
| "handle_decimations (m # ms) = andthen (set_decimation (fst m) (snd m)) (\<lambda>_. handle_decimations ms)"

lemma wp_decimating_run:
  assumes lens: "\<And>p r. get (put p r) = p"
    and passes: "\<And>i j sig v r. wp (labcomm2014_reader_start rnext i j sig v) (\<lambda>_ r'. get r' = get r) r"
    and "decimating_ok hi (get r)" and "\<forall>e\<in>set es. 0 \<le> event_type e \<and> event_type e < hi"
  shows "wp (decimating_run (decimating_reader_action get put register rnext # rnext) sigs remote es)
    (\<lambda>_ r'. deferred (dp_events (get r')) = deferred (dp_events (get r)) @
       map (\<lambda>(amount, j). Send_set_decimation amount j) (decimation_messages (wanted (get r)) remote es)) r"
  using assms(3,4)
proof (induction es arbitrary: remote r)
  case Nil
  then show ?case by (simp add: wp_ret)
next
  case (Cons e es)
  let ?acts = "decimating_reader_action get put register rnext # rnext"
  have ops: "labcomm2014_reader_ioctl ?acts = decimating_reader_ioctl get put rnext"
    "labcomm2014_reader_start ?acts = decimating_reader_start get put rnext"
    by (simp_all add: fun_eq_iff labcomm2014_reader_ioctl_def labcomm2014_reader_start_def dispatch_def decimating_reader_action_def)
  have i: "0 \<le> event_type e" "event_type e < hi" and rest: "\<forall>e\<in>set es. 0 \<le> event_type e \<and> event_type e < hi"
    using Cons.prems(2) by simp_all
  have later: "wp (decimating_run ?acts sigs remote' es) (\<lambda>_ r''. deferred (dp_events (get r'')) =
      deferred (dp_events (get r)) @ xs @
      map (\<lambda>(amount, j). Send_set_decimation amount j) (decimation_messages asked remote' es)) r'"
    if "decimating_ok hi (get r')" "wanted (get r') = asked" "deferred (dp_events (get r')) = deferred (dp_events (get r)) @ xs"
    for remote' asked xs r'
    by (rule wp_mono [OF Cons.IH [OF that(1) rest]]) (simp add: that(2,3))
  show ?case
  proof (cases e)
    case (Requested k amount)
    with i show ?thesis
      by (simp add: wp_andthen ops split del: if_split)
        (rule wp_mono [OF wp_decimating_request [OF lens Cons.prems(1)]], simp, simp, elim conjE,
          rule wp_mono [OF later], assumption+, simp)
  next
    case (Defined k j)
    with i show ?thesis
      by (simp add: wp_andthen ops split del: if_split)
        (rule wp_mono [OF wp_decimating_definition [OF lens passes Cons.prems(1)]], simp, simp, elim conjE,
          rule wp_mono [OF later], assumption+, simp)
  qed
qed

lemma wp_make_deferred:
  assumes "\<And>amount j e. wp (encode amount j) (\<lambda>_ e'. sent e' = sent e @ [(amount, j)]) e"
  shows "wp (make_deferred register encode (map (\<lambda>(amount, j). Send_set_decimation amount j) ms))
    (\<lambda>_ (p', e'). sent e' = sent e @ ms) (p, e)"
proof (induction ms arbitrary: p e)
  case Nil
  then show ?case by (simp add: wp_ret)
next
  case (Cons m ms)
  obtain amount j where m: "m = (amount, j)" by (cases m)
  show ?case
    by (simp add: m wp_andthen send_set_decimation_def wp_zoom wp_memory_free)
      (rule wp_mono [OF assms], rule wp_mono [OF Cons.IH], auto)
qed

lemma wp_handle_decimations:
  assumes "decimating_ok hi q" and "\<forall>m\<in>set ms. 0 \<le> snd m \<and> snd m < hi"
  shows "wp (handle_decimations ms) (\<lambda>_ q'. \<forall>j. asked_for q' j =
    (case filter (\<lambda>m. snd m = j) ms of [] \<Rightarrow> asked_for q j | xs \<Rightarrow> \<lparr>dec_n = fst (last xs), dec_current = 0\<rparr>)) q"
  using assms
proof (induction ms arbitrary: q)
  case Nil
  then show ?case by (simp add: wp_ret)
next
  case (Cons m ms)
  have m: "0 \<le> snd m" "snd m < hi" using Cons.prems(2) by simp_all
  show ?case
    unfolding handle_decimations.simps wp_andthen
  proof (rule wp_mono [OF wp_set_decimation [OF Cons.prems(1) m]], elim conjE, rule wp_mono [OF Cons.IH], assumption, goal_cases)
    case (2 u q1 v q2)
    then show ?case by (auto split: list.splits)
  qed (use Cons.prems in simp)
qed

text \<open>The messages for one type depend on the events of this type only.\<close>

lemma messages_cong:
  "\<forall>e\<in>set es. event_type e = i \<Longrightarrow> asked i = asked' i \<Longrightarrow> remote i = remote' i \<Longrightarrow>
   decimation_messages asked remote es = decimation_messages asked' remote' es"
proof (induction es arbitrary: asked asked' remote remote')
  case (Cons e es)
  have same: "decimation_messages (asked(i := a)) remote es = decimation_messages (asked'(i := a)) remote' es"
    "decimation_messages asked (remote(i := a)) es = decimation_messages asked' (remote'(i := a)) es" for a
    using Cons.prems by (auto intro!: Cons.IH)
  show ?case using Cons.prems same by (cases e) auto
qed simp

lemma messages_of_type:
  assumes "\<forall>k l. Defined k l \<in> set es \<longrightarrow> k \<noteq> i \<longrightarrow> l \<noteq> j" and "\<forall>k. k \<noteq> i \<longrightarrow> remote k \<noteq> j"
  shows "filter (\<lambda>m. snd m = j) (decimation_messages asked remote es) =
    filter (\<lambda>m. snd m = j) (decimation_messages asked remote (filter (\<lambda>e. event_type e = i) es))"
  using assms
proof (induction asked remote es rule: decimation_messages.induct)
  case (2 asked remote k amount es)
  have "decimation_messages (asked(k := amount)) remote (filter (\<lambda>e. event_type e = i) es) =
      decimation_messages asked remote (filter (\<lambda>e. event_type e = i) es)" if "k \<noteq> i"
    by (rule messages_cong [where i = i]) (use that in auto)
  then show ?case using 2 by (auto simp: fun_upd_def)
next
  case (3 asked remote k l es)
  have "decimation_messages asked (remote(k := l)) (filter (\<lambda>e. event_type e = i) es) =
      decimation_messages asked remote (filter (\<lambda>e. event_type e = i) es)" if "k \<noteq> i"
    by (rule messages_cong [where i = i]) (use that in auto)
  moreover have "\<forall>k'. k' \<noteq> i \<longrightarrow> (remote(k := l)) k' \<noteq> j" using 3(2,3) by auto
  ultimately show ?case using 3 by (auto simp: fun_upd_def)
qed simp

lemma message_index:
  "m \<in> set (decimation_messages asked remote es) \<Longrightarrow> snd m \<noteq> 0 \<and> ((\<exists>k. remote k = snd m) \<or> (\<exists>k. Defined k (snd m) \<in> set es))"
  by (induction asked remote es rule: decimation_messages.induct) (auto split: if_splits)

text \<open>
  Claim C24. The decimation that an application asks of its reader reaches the other side exactly once, whether it asks before the
  type is defined there or after.  From a new wrapper, for every sequence of requests and definitions that arrive,
  of any types: the deferred calls that the scheduler makes afterwards send exactly the messages of
  \<open>decimation_messages\<close>, in order; when one type was asked for once and defined once, in either order and
  between any events of other types, exactly one of these messages carries the index of the other side for this type, with the
  decimation asked for, and the other side, on handling all messages, has this decimation for it, with the count at zero.
\<close>

theorem decimation_request_sent_once:
  assumes lens: "\<And>p r. get (put p r) = p"
    and "\<And>i j sig v r. wp (labcomm2014_reader_start rnext i j sig v) (\<lambda>_ r'. get r' = get r) r"
    and "\<And>amount j e. wp (encode amount j) (\<lambda>_ e'. sent e' = sent e @ [(amount, j)]) e"
    and "decimating_ok hi (get r)" and "wanted (get r) = (\<lambda>_. 0)" and "deferred (dp_events (get r)) = []"
    and "\<forall>e\<in>set es. 0 \<le> event_type e \<and> event_type e < hi" and "\<forall>k l. Defined k l \<in> set es \<longrightarrow> 0 \<le> l \<and> l < hi"
    and "filter (\<lambda>e. event_type e = i) es \<in> {[Requested i amount, Defined i j], [Defined i j, Requested i amount]}"
    and "amount \<noteq> 0" and "j \<noteq> 0" and "\<forall>k l. Defined k l \<in> set es \<longrightarrow> k \<noteq> i \<longrightarrow> l \<noteq> j"
    and "decimating_ok hi q"
  shows "wp (decimating_run (decimating_reader_action get put register rnext # rnext) sigs (\<lambda>_. 0) es) (\<lambda>_ r'.
    wp (make_deferred announce encode (deferred (dp_events (get r')))) (\<lambda>_ (p', e'). \<exists>ms. sent e' = sent e @ ms \<and>
      ms = decimation_messages (\<lambda>_. 0) (\<lambda>_. 0) es \<and> filter (\<lambda>m. snd m = j) ms = [(amount, j)] \<and>
      wp (handle_decimations ms) (\<lambda>_ q'. asked_for q' j = \<lparr>dec_n = amount, dec_current = 0\<rparr>) q) (get r', e)) r"
proof -
  let ?ms = "decimation_messages (\<lambda>_. 0) (\<lambda>_. 0) es"
  have one: "filter (\<lambda>m. snd m = j) ?ms = [(amount, j)]"
    using messages_of_type [of es i j "\<lambda>_. 0" "\<lambda>_. 0"] assms(9-12) by auto
  have "\<forall>m\<in>set ?ms. 0 \<le> snd m \<and> snd m < hi" using message_index [where es = es] assms(8) by fastforce
  note handled = wp_handle_decimations [OF assms(13) this]
  have run: "wp (decimating_run (decimating_reader_action get put register rnext # rnext) sigs (\<lambda>_. 0) es) (\<lambda>_ r'.
      deferred (dp_events (get r')) = map (\<lambda>(amount, j). Send_set_decimation amount j) ?ms) r"
    using wp_decimating_run [where get = get and put = put, OF lens assms(2,4,7)] assms(5,6) by simp
  have sends: "wp (make_deferred announce encode (map (\<lambda>(amount, j). Send_set_decimation amount j) ?ms))
      (\<lambda>_ (p', e'). sent e' = sent e @ ?ms) (p, e)" for p
    by (rule wp_make_deferred [where sent = sent, OF assms(3)])
  have other: "wp (handle_decimations ?ms) (\<lambda>_ q'. asked_for q' j = \<lparr>dec_n = amount, dec_current = 0\<rparr>) q"
    by (rule wp_mono [OF handled], drule spec [of _ j]) (simp add: one)
  show ?thesis
    by (rule wp_mono [OF run], simp only:, rule wp_mono [OF sends]) (use one other in auto)
qed

definition wrapped_reader :: "'p \<Rightarrow> 'p reader_scheme" where
  "wrapped_reader p = \<lparr>r_memory = generous, r_data = None, r_data_size = 0, r_count = 0, r_pos = 0, r_error = 0, \<dots> = p\<rparr>"

definition hearing :: "('z, 'v) reader_action" where
  "hearing = \<lparr>ra_alloc = Some (ret 0), ra_free = None, ra_start = Some (\<lambda>i j sig v. ret 0), ra_end = None, ra_fill = None, ra_ioctl = None\<rparr>"

text \<open>An encoder that records what it is to send.\<close>

definition recording :: "int \<Rightarrow> int \<Rightarrow> ((int \<times> int) list, int) prog" where
  "recording amount j = andthen (modify (\<lambda>ms. ms @ [(amount, j)])) (\<lambda>_. ret 0)"

theorem decimation_request_sent_once_witness:
  "wp (decimating_run (decimating_reader_action reader.more (\<lambda>p. reader.more_update (\<lambda>_. p)) (ret 0) [hearing] # [hearing])
      (\<lambda>_. None :: 32 word signature option) (\<lambda>_. 0) [Requested 70 5, Defined 71 67, Requested 71 2, Defined 70 66]) (\<lambda>_ r'.
    wp (make_deferred (ret 0) recording (deferred (dp_events (reader.more r')))) (\<lambda>_ (p', e'). e' = [(2, 67), (5, 66)] \<and>
      wp (handle_decimations e') (\<lambda>_ q'. asked_for q' 66 = \<lparr>dec_n = 5, dec_current = 0\<rparr>) new_decimating) (reader.more r', []))
    (wrapped_reader new_decimating)"
proof -
  have hears: "wp (labcomm2014_reader_start [hearing] i j sig v) (\<lambda>_ r'. reader.more r' = reader.more r) r"
    for i j v and sig :: "32 word signature option" and r
    by (simp add: labcomm2014_reader_start_def dispatch_def hearing_def wp_ret)
  have lens: "reader.more (reader.more_update (\<lambda>_. p) r) = p" for p :: decimating_private and r by simp
  have records: "wp (recording amount j) (\<lambda>_ e'. id e' = id e @ [(amount, j)]) e" for amount j e
    by (simp add: recording_def wp_simps)
  have start: "decimating_ok 100 (reader.more (wrapped_reader new_decimating))"
    "wanted (reader.more (wrapped_reader new_decimating)) = (\<lambda>_. 0)"
    "deferred (dp_events (reader.more (wrapped_reader new_decimating))) = []"
    using new_decimating_ok by (simp_all add: wrapped_reader_def wanted_def fun_eq_iff) (simp add: new_decimating_def)
  show ?thesis
    by (rule wp_mono [OF decimation_request_sent_once [where register = "ret 0" and announce = "ret 0" and sent = id and e = "[]" and i = 70 and j = 66 and
          amount = 5 and q = new_decimating and es = "[Requested 70 5, Defined 71 67, Requested 71 2, Defined 70 66]" and
          sigs = "\<lambda>_. None :: 32 word signature option",
          OF lens hears records start]])
      (use new_decimating_ok(1) in \<open>auto elim!: wp_mono\<close>)
qed

section \<open>Introspection\<close>

text \<open>
  What happens at the wrapper: the other side announces a type under its index, this side registers a type, and the
  application asks for the status of one.
\<close>

datatype introspecting_event = Announced int | Registers int | Asks int

primrec event_index :: "introspecting_event \<Rightarrow> int" where
  "event_index (Announced i) = i"
| "event_index (Registers i) = i"
| "event_index (Asks i) = i"

primrec introspecting_run ::
    "('z writer_scheme \<Rightarrow> 'v introspecting_private) \<Rightarrow> ('v introspecting_private \<Rightarrow> 'z writer_scheme \<Rightarrow> 'z writer_scheme) \<Rightarrow>
     ('z, 'v) writer_action list \<Rightarrow> (int \<Rightarrow> 'v signature) \<Rightarrow> (int \<Rightarrow> cstring \<times> byte list) \<Rightarrow> introspecting_event list \<Rightarrow>
     ('z writer_scheme, int list) prog" where
  "introspecting_run get put acts sigs told [] = ret []"
| "introspecting_run get put acts sigs told (e # es) =
     (case e of
        Announced i \<Rightarrow> andthen (zoom get put (handles_signature i (fst (told i)) (snd (told i)))) (\<lambda>_.
          introspecting_run get put acts sigs told es)
      | Registers i \<Rightarrow> andthen (labcomm2014_writer_start acts i (Some (sigs i)) False) (\<lambda>_.
          introspecting_run get put acts sigs told es)
      | Asks i \<Rightarrow> andthen (labcomm2014_writer_ioctl acts i (Some (sigs i)) HAS_SIGNATURE []) (\<lambda>r.
          andthen (introspecting_run get put acts sigs told es) (\<lambda>rs. ret (fst r # rs))))"

text \<open>The answers as a function of the announced and the registered indices.\<close>

fun statuses :: "(int \<Rightarrow> 'v signature) \<Rightarrow> (int \<Rightarrow> cstring \<times> byte list) \<Rightarrow> int set \<Rightarrow> int set \<Rightarrow> introspecting_event list \<Rightarrow> int list" where
  "statuses sigs told D R [] = []"
| "statuses sigs told D R (Announced i # es) = statuses sigs told (insert i D) R es"
| "statuses sigs told D R (Registers i # es) = statuses sigs told D (if LABCOMM_USER \<le> i then insert i R else R) es"
| "statuses sigs told D R (Asks i # es) = status_code (shown_status sigs told D R i) # statuses sigs told D R es"

lemma wp_introspecting_run:
  assumes lens: "\<And>p w. get (put p w) = p"
    and passes: "\<And>i sig v w. wp (labcomm2014_writer_start wnext i sig v) (\<lambda>_ w'. get w' = get w) w"
    and "ip_inv hi sigs told D R (get w)" and "\<forall>e\<in>set es. 0 \<le> event_index e \<and> event_index e < hi"
  shows "wp (introspecting_run get put (introspecting_writer_action get put wnext # wnext) sigs told es)
    (\<lambda>rs _. rs = statuses sigs told D R es) w"
  using assms(3,4)
proof (induction es arbitrary: D R w)
  case Nil
  then show ?case by (simp add: wp_ret)
next
  case (Cons e es)
  have ops: "labcomm2014_writer_start (introspecting_writer_action get put wnext # wnext) = introspecting_writer_start get put wnext"
    "labcomm2014_writer_ioctl (introspecting_writer_action get put wnext # wnext) = introspecting_writer_ioctl get put wnext"
    by (simp_all add: fun_eq_iff labcomm2014_writer_start_def labcomm2014_writer_ioctl_def dispatch_def introspecting_writer_action_def)
  have i: "0 \<le> event_index e" "event_index e < hi" and rest: "\<forall>e\<in>set es. 0 \<le> event_index e \<and> event_index e < hi"
    using Cons.prems(2) by simp_all
  show ?case
  proof (cases e)
    case (Announced i)
    with i show ?thesis
      by (simp add: wp_andthen wp_zoom)
        (rule wp_mono [OF wp_handles_signature [OF Cons.prems(1)]], auto simp: lens intro!: Cons.IH rest)
  next
    case (Registers i)
    let ?R = "if LABCOMM_USER \<le> i then insert i R else R"
    have "wp (if LABCOMM_USER \<le> i \<and> \<not> False then zoom get put (note_registered i (Some (sigs i))) else ret ())
        (\<lambda>_ w'. ip_inv hi sigs told D ?R (get w')) w"
      using i Registers Cons.prems(1) by (auto simp: wp_ret wp_zoom lens intro!: wp_mono [OF wp_note_registered])
    then have "wp (introspecting_writer_start get put wnext i (Some (sigs i)) False) (\<lambda>_ w'. ip_inv hi sigs told D ?R (get w')) w"
      unfolding introspecting_writer_start_def wp_andthen by (rule wp_mono) (rule wp_mono [OF passes], simp)
    then show ?thesis
      by (auto simp: Registers wp_andthen ops intro!: Cons.IH rest elim!: wp_mono simp del: if_split)
  next
    case (Asks i)
    with i show ?thesis
      by (simp add: wp_andthen wp_zoom ops introspecting_writer_ioctl_def)
        (rule wp_mono [OF wp_has_signature [OF Cons.prems(1)]], auto simp: wp_simps lens intro!: wp_mono [OF Cons.IH] rest)
  qed
qed

text \<open>
  Claim C22. From a new introspecting wrapper, after any sequence of announcements, registrations and questions in any order, the
  status of a type is \<^verbatim>\<open>registered\<close> if this side has registered it, otherwise \<^verbatim>\<open>unregistered\<close>
  if the other side has announced a type of the same name and signature, under whatever index and before or
  after the first question, and otherwise \<^verbatim>\<open>unhandled\<close>.
\<close>

theorem introspection_status_exact:
  assumes "\<And>p w. get (put p w) = p"
    and "\<And>i sig v w. wp (labcomm2014_writer_start wnext i sig v) (\<lambda>_ w'. get w' = get w) w"
    and "introspecting_new rget rput get put register mem rnext wnext heap = Some (Inr (Some (p, racts, wacts), heap'))"
    and "plenty mem" and "plenty heap" and "\<forall>i. sig_sized (sigs i)"
    and "0 \<le> hi" "hi * 24 \<le> INT_MAX" and "\<forall>e\<in>set es. 0 \<le> event_index e \<and> event_index e < hi"
  shows "wp (introspecting_run get put wacts sigs told es) (\<lambda>rs _. rs = statuses sigs told {} {} es) (put p w)"
proof -
  have acts: "wacts = introspecting_writer_action get put wnext # wnext" and p: "ip_memory p = mem" "ip_remote p = signature_array_init"
    "ip_local p = signature_array_init" "plenty (ip_heap p)"
    using assms(3,5) by (auto simp: introspecting_new_def prog_simps default_alloc_def plenty_def split: if_splits)
  have "bounded_table 24 hi (mem, signature_array_init)" "bounded_table 16 hi (mem, signature_array_init)"
    using assms(4,7,8) by (simp_all add: bounded_table_def sa_within_def INT_MAX_def) (simp_all add: signature_array_init_def)
  then have "ip_inv hi sigs told {} {} p"
    using p assms(6) by (simp add: ip_inv_def ip_ok_def remotes_def locals_def told_remotes_def fun_eq_iff)
  then show ?thesis
    unfolding acts by (intro wp_introspecting_run [where hi = hi] assms(1,2,9)) (simp add: assms(1))
qed

text \<open>
  Index 64 is asked for before its type is announced, after, and after its registration; 65 is registered
  and never announced; 66 has another type than 64.
\<close>

theorem introspection_status_exact_witness:
  "\<exists>p :: 32 word introspecting_private. \<exists>wacts. wp (introspecting_run writer.more (\<lambda>p. writer.more_update (\<lambda>_. p)) wacts
      (\<lambda>i. if i = 66 then Signature [0x63] (\<lambda>_. 4) 1 [0x24] i [SigBytes [0x24]] else int_sig) (\<lambda>i. ([0x61, 0x62], [0x23]))
      [Asks 64, Announced 70, Asks 64, Asks 66, Registers 64, Asks 64, Asks 65, Registers 65, Asks 65])
    (\<lambda>rs _. rs = [1, 2, 1, 3, 2, 3]) (wrapped_writer p)"
proof -
  let ?put = "\<lambda>p :: 32 word introspecting_private. writer.more_update (\<lambda>_. p)"
  let ?sigs = "\<lambda>i. if i = 66 then Signature [0x63] (\<lambda>_. 4) 1 [0x24] i [SigBytes [0x24]] else int_sig :: 32 word signature"
  let ?told = "\<lambda>i :: int. ([0x61, 0x62] :: cstring, [0x23] :: byte list)"
  let ?es = "[Asks 64, Announced 70, Asks 64, Asks 66, Registers 64, Asks 64, Asks 65, Registers 65, Asks 65]"
  obtain p racts wacts heap' where made: "introspecting_new reader.more (\<lambda>p. reader.more_update (\<lambda>_. p)) writer.more ?put (ret 0) generous
      [hearing] [taking] generous = Some (Inr (Some (p, racts, wacts), heap'))"
    by (simp add: introspecting_new_def prog_simps default_alloc_def generous_def)
  have "wp (introspecting_run writer.more ?put wacts ?sigs ?told ?es) (\<lambda>rs _. rs = statuses ?sigs ?told {} {} ?es)
      (?put p (wrapped_writer p))"
    by (rule introspection_status_exact [OF _ _ made, where hi = 100])
      (auto simp: INT_MAX_def sig_sized_def int_sig_def labcomm2014_writer_start_def dispatch_def taking_def wp_ret)
  moreover have "?put p (wrapped_writer p) = wrapped_writer p" by (simp add: wrapped_writer_def)
  moreover have "statuses ?sigs ?told {} {} ?es = [1, 2, 1, 3, 2, 3]"
    by (simp add: shown_status_def sig_key_def int_sig_def tag_defs)
  ultimately show ?thesis by auto
qed

end
