(* ===== verification/LC_Throttle.thy ===== *)
theory LC_Throttle
  imports LC_Memory
begin

text \<open>
  The drivers of \<^verbatim>\<open>experimental/ThrottleDrv\<close>: raw Ethernet frames (\<^verbatim>\<open>ethernet_drv.c\<close>), and messages that are
  cut into numbered fragments, one frame each, and put together again (\<^verbatim>\<open>throttle_drv.c\<close>).  The system calls
  are parameters, collected in a record; the host is little-endian and reads the fields of a header at any address.
\<close>

type_synonym u16 = "16 word"

section \<open>The Ethernet driver\<close>

text \<open>An interface.  The two bytes between the address and the socket are padding.\<close>

record eth_int_t =
  ei_mac_adr :: "byte list"
  ei_padding :: "byte list"
  ei_socket_id :: int
  ei_index :: int

record sockaddr_ll =
  sll_family :: int
  sll_addr :: "byte list"
  sll_halen :: nat
  sll_ifindex :: int
  sll_hatype :: int
  sll_protocol :: int
  sll_pkttype :: int

text \<open>The system calls on a device \<open>'d\<close>; a failure is -1 or \<open>None\<close>.\<close>

record 'd eth_os =
  os_socket :: "'d \<Rightarrow> int \<times> 'd"
  os_hwaddr :: "int \<Rightarrow> cstring \<Rightarrow> 'd \<Rightarrow> byte list option \<times> 'd"
  os_ifindex :: "int \<Rightarrow> cstring \<Rightarrow> 'd \<Rightarrow> int option \<times> 'd"
  os_close :: "int \<Rightarrow> 'd \<Rightarrow> int \<times> 'd"
  os_sendto :: "int \<Rightarrow> byte list \<Rightarrow> sockaddr_ll \<Rightarrow> 'd \<Rightarrow> int \<times> 'd"
  os_recvfrom :: "int \<Rightarrow> 'd \<Rightarrow> byte list option \<times> 'd"

text \<open>
  A channel.  \<open>p_msg\<close> is the message of the running handler.  A pointer to a handler is a number.
\<close>

datatype block_pointer = NullPointer | Indeterminate | Block "byte list"

record thr_chn_t =
  tc_dst_adr :: "byte list"
  tc_id :: byte
  tc_frag_size :: u16
  tc_freq :: u16
  tc_funct :: "nat option"
  tc_msg_length :: u16
  tc_p_msg :: block_pointer
  tc_last_sender_adr :: "byte list"

text \<open>
  The state of both drivers: the heap, the \<^verbatim>\<open>errno\<close> that they set, the device, the interface that \<^verbatim>\<open>thr_init\<close>
  has opened, the channels by address, and the times that were slept.
\<close>

record 'd net =
  nt_heap :: memory
  nt_errno :: int
  nt_dev :: 'd
  nt_eth_int :: "eth_int_t option"
  nt_chns :: "nat \<rightharpoonup> thr_chn_t"
  nt_fresh :: nat
  nt_slept :: "(int \<times> int) list"

definition ERANGE :: int where "ERANGE = 34"

definition fail_with :: "int \<Rightarrow> ('d net, unit) prog" where
  "fail_with e = modify (\<lambda>s. s\<lparr>nt_errno := e\<rparr>)"

definition nt_malloc :: "nat \<Rightarrow> ('d net, bool) prog" where
  "nt_malloc n = zoom nt_heap (\<lambda>m s. s\<lparr>nt_heap := m\<rparr>) (default_alloc 0 n)"

definition nt_free :: "('d net, unit) prog" where
  "nt_free = zoom nt_heap (\<lambda>m s. s\<lparr>nt_heap := m\<rparr>) (default_free 0 True)"

definition on_dev :: "('d \<Rightarrow> 'a \<times> 'd) \<Rightarrow> ('d net, 'a) prog" where
  "on_dev f = (\<lambda>s. case f (nt_dev s) of (x, d) \<Rightarrow> Some (Inr (x, s\<lparr>nt_dev := d\<rparr>)))"

text \<open>
  The name is copied to the 16 bytes of \<^verbatim>\<open>ifr_name\<close>.  \<open>padding\<close> are the bytes of the new block that are
  not written.
\<close>

definition eth_open :: "'d eth_os \<Rightarrow> byte list \<Rightarrow> cstring option \<Rightarrow> ('d net, eth_int_t option) prog" where
  "eth_open os padding eth_int_name =
     (case eth_int_name of
        None \<Rightarrow> andthen (fail_with EINVAL) (\<lambda>_. ret None)
      | Some name \<Rightarrow>
          andthen (nt_malloc 20) (\<lambda>ok.
          if \<not> ok then ret None
          else andthen (on_dev (os_socket os)) (\<lambda>sock.
            if sock = -1 then andthen nt_free (\<lambda>_. ret None)
            else if 16 \<le> length name then stop Undef
            else andthen (on_dev (os_hwaddr os sock name)) (\<lambda>mac.
              case mac of
                None \<Rightarrow> andthen (on_dev (os_close os sock)) (\<lambda>_. andthen nt_free (\<lambda>_. ret None))
              | Some adr \<Rightarrow>
                  andthen (on_dev (os_ifindex os sock name)) (\<lambda>index.
                  case index of
                    None \<Rightarrow> andthen (on_dev (os_close os sock)) (\<lambda>_. andthen nt_free (\<lambda>_. ret None))
                  | Some i \<Rightarrow> ret (Some \<lparr>ei_mac_adr = take 6 adr, ei_padding = padding,
                                        ei_socket_id = sock, ei_index = i\<rparr>))))))"

definition eth_close :: "'d eth_os \<Rightarrow> eth_int_t option \<Rightarrow> ('d net, int) prog" where
  "eth_close os eth_int =
     (case eth_int of
        None \<Rightarrow> andthen (fail_with EINVAL) (\<lambda>_. ret (-1))
      | Some e \<Rightarrow>
          andthen (on_dev (os_close os (ei_socket_id e))) (\<lambda>r.
          if r = -1 then ret (-1) else andthen nt_free (\<lambda>_. ret 0)))"

text \<open>
  The result and the bytes that are written to the address: \<^verbatim>\<open>sizeof(mac_adr)\<close> is the size of the pointer, so
  that the padding behind the address is copied too.
\<close>

definition eth_getMACadr :: "eth_int_t option \<Rightarrow> ('d net, int \<times> byte list) prog" where
  "eth_getMACadr eth_int =
     (case eth_int of
        None \<Rightarrow> andthen (fail_with EINVAL) (\<lambda>_. ret (-1, []))
      | Some e \<Rightarrow> ret (0, take 8 (ei_mac_adr e @ ei_padding e)))"

definition eth_send :: "'d eth_os \<Rightarrow> eth_int_t option \<Rightarrow> byte list \<Rightarrow> u16 \<Rightarrow> ('d net, int) prog" where
  "eth_send os eth_int eth_frame len =
     (case eth_int of
        None \<Rightarrow> andthen (fail_with EINVAL) (\<lambda>_. ret (-1))
      | Some e \<Rightarrow>
          if length eth_frame < 6 \<or> length eth_frame < unat len then stop Undef
          else on_dev (os_sendto os (ei_socket_id e) (take (unat len) eth_frame)
                 \<lparr>sll_family = 17, sll_addr = take 6 eth_frame @ [0, 0], sll_halen = 6, sll_ifindex = ei_index e,
                  sll_hatype = 0, sll_protocol = 0, sll_pkttype = 0\<rparr>))"

text \<open>The result and the new contents of the block: a packet that is longer than \<open>len\<close> is cut.\<close>

definition eth_receive :: "'d eth_os \<Rightarrow> eth_int_t option \<Rightarrow> byte list \<Rightarrow> u16 \<Rightarrow> ('d net, int \<times> byte list) prog" where
  "eth_receive os eth_int eth_frame len =
     (case eth_int of
        None \<Rightarrow> andthen (fail_with EINVAL) (\<lambda>_. ret (-1, eth_frame))
      | Some e \<Rightarrow>
          andthen (on_dev (os_recvfrom os (ei_socket_id e))) (\<lambda>packet.
          case packet of
            None \<Rightarrow> ret (-1, eth_frame)
          | Some bytes \<Rightarrow>
              let n = min (unat len) (length bytes) in
              if length eth_frame < n then stop Undef
              else ret (int n, take n bytes @ drop n eth_frame)))"

section \<open>The header of a fragment\<close>

definition THROTTLENET_PROTO :: u16 where "THROTTLENET_PROTO = 0x544e"

definition htons :: "u16 \<Rightarrow> u16" where
  "htons w = push_bit 8 w OR drop_bit 8 w"

definition u16_bytes :: "u16 \<Rightarrow> byte list" where
  "u16_bytes w = [ucast w, ucast (drop_bit 8 w)]"

definition u16_at :: "nat \<Rightarrow> byte list \<Rightarrow> u16" where
  "u16_at i b = ucast (b ! i) OR push_bit 8 (ucast (b ! Suc i))"

definition put_at :: "nat \<Rightarrow> byte list \<Rightarrow> byte list \<Rightarrow> byte list" where
  "put_at i bs b = take i b @ bs @ drop (i + length bs) b"

definition THR_DST_ADR_POS :: nat where "THR_DST_ADR_POS = 0"
definition THR_SRC_ADR_POS :: nat where "THR_SRC_ADR_POS = THR_DST_ADR_POS + 6"
definition THR_ETH_TYP_POS :: nat where "THR_ETH_TYP_POS = THR_SRC_ADR_POS + 6"
definition THR_CHN_ID_POS :: nat where "THR_CHN_ID_POS = THR_ETH_TYP_POS + 2"
definition THR_FRAG_NUM_POS :: nat where "THR_FRAG_NUM_POS = THR_CHN_ID_POS + 1"
definition THR_FRAG_TOT_NUM_POS :: nat where "THR_FRAG_TOT_NUM_POS = THR_FRAG_NUM_POS + 2"
definition THR_FRAG_LEN_POS :: nat where "THR_FRAG_LEN_POS = THR_FRAG_TOT_NUM_POS + 2"
definition THR_PAYLOAD_POS :: nat where "THR_PAYLOAD_POS = THR_FRAG_LEN_POS + 2"
definition THR_MSG_HEADER_LEN :: nat where "THR_MSG_HEADER_LEN = THR_PAYLOAD_POS"

lemmas thr_positions = THR_DST_ADR_POS_def THR_SRC_ADR_POS_def THR_ETH_TYP_POS_def THR_CHN_ID_POS_def
  THR_FRAG_NUM_POS_def THR_FRAG_TOT_NUM_POS_def THR_FRAG_LEN_POS_def THR_PAYLOAD_POS_def THR_MSG_HEADER_LEN_def

definition THR_MSG_ETH_TYP :: "byte list \<Rightarrow> u16" where "THR_MSG_ETH_TYP = u16_at THR_ETH_TYP_POS"
definition THR_MSG_CHN_ID :: "byte list \<Rightarrow> byte" where "THR_MSG_CHN_ID b = b ! THR_CHN_ID_POS"
definition THR_MSG_FRAG_NUM :: "byte list \<Rightarrow> u16" where "THR_MSG_FRAG_NUM = u16_at THR_FRAG_NUM_POS"
definition THR_MSG_FRAG_TOT_NUM :: "byte list \<Rightarrow> u16" where "THR_MSG_FRAG_TOT_NUM = u16_at THR_FRAG_TOT_NUM_POS"
definition THR_MSG_FRAG_LEN :: "byte list \<Rightarrow> u16" where "THR_MSG_FRAG_LEN = u16_at THR_FRAG_LEN_POS"
definition THR_MSG_PAYLOAD :: "byte list \<Rightarrow> byte list" where "THR_MSG_PAYLOAD = drop THR_PAYLOAD_POS"

lemmas thr_fields = THR_MSG_ETH_TYP_def THR_MSG_CHN_ID_def THR_MSG_FRAG_NUM_def THR_MSG_FRAG_TOT_NUM_def
  THR_MSG_FRAG_LEN_def THR_MSG_PAYLOAD_def

definition thr_msg_check :: "byte list \<Rightarrow> u16 \<Rightarrow> u16 \<Rightarrow> int" where
  "thr_msg_check thr_msg chn_id len =
     (if of_nat THR_MSG_HEADER_LEN < len then
        if THROTTLENET_PROTO = htons (THR_MSG_ETH_TYP thr_msg) then
          if ucast (THR_MSG_CHN_ID thr_msg) = chn_id then 0 else -1
        else -2
      else -3)"

section \<open>Channels\<close>

definition thr_init :: "'d eth_os \<Rightarrow> byte list \<Rightarrow> cstring option \<Rightarrow> ('d net, int) prog" where
  "thr_init os padding eth_int_name =
     (if eth_int_name = None then andthen (fail_with EINVAL) (\<lambda>_. ret (-1))
      else andthen (eth_open os padding eth_int_name) (\<lambda>e.
           andthen (modify (\<lambda>s. s\<lparr>nt_eth_int := e\<rparr>)) (\<lambda>_.
           ret (if e = None then -1 else 0))))"

text \<open>\<open>raw\<close> is what the new block contains; the fields of the message are not set.\<close>

definition thr_open_chn ::
    "thr_chn_t \<Rightarrow> byte list option \<Rightarrow> byte \<Rightarrow> byte \<Rightarrow> u16 \<Rightarrow> nat option \<Rightarrow> ('d net, nat option) prog" where
  "thr_open_chn raw dst_adr chn_id frag_size freq funct =
     (case dst_adr of
        None \<Rightarrow> andthen (fail_with EINVAL) (\<lambda>_. ret None)
      | Some dst \<Rightarrow>
          if frag_size = 0 then andthen (fail_with EINVAL) (\<lambda>_. ret None)
          else andthen (nt_malloc 48) (\<lambda>ok.
            if \<not> ok then ret None
            else if length dst < 6 then stop Undef
            else andthen (gets nt_fresh) (\<lambda>p.
              andthen (modify (\<lambda>s. s\<lparr>nt_fresh := Suc p, nt_chns := (nt_chns s)(p \<mapsto>
                raw\<lparr>tc_dst_adr := take 6 dst, tc_id := chn_id, tc_frag_size := ucast frag_size, tc_freq := freq,
                    tc_funct := funct, tc_p_msg := Indeterminate\<rparr>)\<rparr>)) (\<lambda>_.
              ret (Some p)))))"

definition chn_get :: "nat \<Rightarrow> ('d net, thr_chn_t) prog" where
  "chn_get p = andthen (gets (\<lambda>s. nt_chns s p)) (\<lambda>c. case c of None \<Rightarrow> stop Undef | Some c \<Rightarrow> ret c)"

definition chn_update :: "nat \<Rightarrow> (thr_chn_t \<Rightarrow> thr_chn_t) \<Rightarrow> ('d net, unit) prog" where
  "chn_update p f = andthen (chn_get p) (\<lambda>c. modify (\<lambda>s. s\<lparr>nt_chns := (nt_chns s)(p \<mapsto> f c)\<rparr>))"

definition thr_close_chn :: "nat option \<Rightarrow> ('d net, unit) prog" where
  "thr_close_chn c =
     (case c of None \<Rightarrow> ret ()
      | Some p \<Rightarrow> andthen (chn_get p) (\<lambda>_.
                  andthen (modify (\<lambda>s. s\<lparr>nt_chns := (nt_chns s)(p := None)\<rparr>)) (\<lambda>_. nt_free)))"

definition get_sender_addr :: "nat \<Rightarrow> ('d net, byte list) prog" where
  "get_sender_addr p = andthen (chn_get p) (\<lambda>c. ret (tc_last_sender_adr c))"

definition get_channel :: "nat \<Rightarrow> ('d net, byte) prog" where
  "get_channel p = andthen (chn_get p) (\<lambda>c. ret (tc_id c))"

section \<open>Sending\<close>

text \<open>
  The next fragment: its length, what is left of the length of the message, and the block of the frame with its
  number and length.
\<close>

definition next_fragment :: "u16 \<Rightarrow> byte \<Rightarrow> u32 \<Rightarrow> byte list \<Rightarrow> u16 \<times> u32 \<times> byte list" where
  "next_fragment frag_size i len thr_msg =
     (let numbered = put_at THR_FRAG_NUM_POS (u16_bytes (ucast i)) thr_msg in
      if ucast frag_size \<le> len
      then (frag_size, len - ucast frag_size, put_at THR_FRAG_LEN_POS (u16_bytes frag_size) numbered)
      else (ucast len, len, put_at THR_FRAG_LEN_POS (u16_bytes (ucast len)) numbered))"

definition send_fragment ::
    "'d eth_os \<Rightarrow> byte list \<Rightarrow> u16 \<Rightarrow> byte list \<Rightarrow> ('d net, int \<times> byte list) prog" where
  "send_fragment os data frag_len thr_msg =
     (if length data < unat frag_len then stop Undef
      else let framed = put_at THR_PAYLOAD_POS (take (unat frag_len) data) thr_msg in
        andthen (gets nt_eth_int) (\<lambda>e.
        andthen (eth_send os e framed (of_nat THR_MSG_HEADER_LEN + frag_len)) (\<lambda>r. ret (r, framed))))"

text \<open>
  The loop over the fragments.  \<open>data\<close> is what the pointer has in front of it, \<open>thr_msg\<close> the block of the frame,
  \<open>r\<close> the result so far.  The counter \<open>i\<close> has eight bits.
\<close>

partial_function (option) send_fragments ::
    "'d eth_os \<Rightarrow> u16 \<Rightarrow> int \<times> int \<Rightarrow> byte \<Rightarrow> u32 \<Rightarrow> byte list \<Rightarrow> byte list \<Rightarrow> int \<Rightarrow> 'd net \<Rightarrow>
     (stop + int \<times> 'd net) option" where
  "send_fragments os frag_size thr_time i len data thr_msg r s =
     (if ucast i \<le> THR_MSG_FRAG_TOT_NUM thr_msg then
        (case next_fragment frag_size i len thr_msg of (frag_len, len', thr_msg') \<Rightarrow>
          andthen (send_fragment os data frag_len thr_msg') (\<lambda>x s.
            if fst x = -1 then ret (fst x) s
            else andthen (modify (\<lambda>s. s\<lparr>nt_slept := nt_slept s @ [thr_time]\<rparr>)) (\<lambda>_ s.
                 send_fragments os frag_size thr_time (i + 1) len' (drop (unat frag_len) data) (snd x) (fst x) s) s) s)
      else ret r s)"

text \<open>\<open>raw\<close> are the bytes that a new block contains.\<close>

definition thr_send :: "'d eth_os \<Rightarrow> (nat \<Rightarrow> byte) \<Rightarrow> nat option \<Rightarrow> byte list option \<Rightarrow> u32 \<Rightarrow> ('d net, int) prog" where
  "thr_send os raw thr_chn data len =
     (case (thr_chn, data) of
        (Some p, Some bytes) \<Rightarrow>
          if len = 0 then andthen (fail_with EINVAL) (\<lambda>_. ret (-1))
          else andthen (chn_get p) (\<lambda>c.
            if tc_frag_size c = 0 then andthen (fail_with ERANGE) (\<lambda>_. ret (-1))
            else andthen (nt_malloc (THR_MSG_HEADER_LEN + unat (tc_frag_size c))) (\<lambda>ok.
              if \<not> ok then ret (-1)
              else
                let b0 = put_at THR_DST_ADR_POS (tc_dst_adr c) (map raw [0..<THR_MSG_HEADER_LEN + unat (tc_frag_size c)]) in
                andthen (gets nt_eth_int) (\<lambda>e.
                andthen (eth_getMACadr e) (\<lambda>(_, mac).
                let b1 = put_at THR_SRC_ADR_POS mac b0;
                    b2 = put_at THR_ETH_TYP_POS (u16_bytes (htons THROTTLENET_PROTO)) b1;
                    b3 = put_at THR_CHN_ID_POS [tc_id c] b2;
                    b4 = put_at THR_FRAG_TOT_NUM_POS (u16_bytes (ucast ((len - 1) div ucast (tc_frag_size c) + 1))) b3
                in
                andthen (send_fragments os (tc_frag_size c)
                  (uint (tc_freq c) div 1000, uint (tc_freq c) mod 1000 * 1000000) 1 len bytes b4 0) (\<lambda>r.
                andthen nt_free (\<lambda>_. ret r))))))
      | _ \<Rightarrow> andthen (fail_with EINVAL) (\<lambda>_. ret (-1)))"

section \<open>Receiving\<close>

text \<open>
  What is received is thrown away (an error of the device, another protocol or channel), or it is the expected
  fragment, or it is another one.  \<open>off\<close> bytes of the message are at the start of \<open>data\<close>.
\<close>

datatype received = Discarded | Accepted nat "byte list" | Mismatch

definition receive_fragment ::
    "'d eth_os \<Rightarrow> byte \<Rightarrow> u16 \<Rightarrow> byte list \<Rightarrow> byte list \<Rightarrow> nat \<Rightarrow> u16 \<Rightarrow> ('d net, received \<times> byte list) prog" where
  "receive_fragment os chn_id frag_size thr_msg data off frag_index =
     andthen (gets nt_eth_int) (\<lambda>e.
     andthen (eth_receive os e thr_msg (of_nat THR_MSG_HEADER_LEN + frag_size)) (\<lambda>(n, thr_msg').
       let byte_rec = word_of_int n :: u16 in
       if byte_rec = -1 \<or> thr_msg_check thr_msg' (ucast chn_id) byte_rec < 0 then ret (Discarded, thr_msg')
       else if frag_index = THR_MSG_FRAG_NUM thr_msg' then
         let len = unat (THR_MSG_FRAG_LEN thr_msg') in
         if length (THR_MSG_PAYLOAD thr_msg') < len \<or> length data < off + len then stop Undef
         else ret (Accepted (off + len) (put_at off (take len (THR_MSG_PAYLOAD thr_msg')) data), thr_msg')
       else ret (Mismatch, thr_msg')))"

text \<open>The loop until a message is complete.\<close>

partial_function (option) receive_fragments ::
    "'d eth_os \<Rightarrow> byte \<Rightarrow> u16 \<Rightarrow> byte list \<Rightarrow> byte list \<Rightarrow> nat \<Rightarrow> u16 \<Rightarrow> 'd net \<Rightarrow>
     (stop + (nat \<times> byte list \<times> byte list) \<times> 'd net) option" where
  "receive_fragments os chn_id frag_size thr_msg data off frag_index s =
     andthen (receive_fragment os chn_id frag_size thr_msg data off frag_index) (\<lambda>x s.
       case fst x of
         Discarded \<Rightarrow> receive_fragments os chn_id frag_size (snd x) data off frag_index s
       | Accepted off' data' \<Rightarrow>
           if THR_MSG_FRAG_TOT_NUM (snd x) < frag_index + 1 then ret (off', data', snd x) s
           else receive_fragments os chn_id frag_size (snd x) data' off' (frag_index + 1) s
       | Mismatch \<Rightarrow> receive_fragments os chn_id frag_size (snd x) data 0 1 s) s"

text \<open>The result and the caller's buffer; \<open>handlers\<close> are the functions behind the pointers.\<close>

definition thr_receive ::
    "'d eth_os \<Rightarrow> (nat \<Rightarrow> int \<Rightarrow> ('d net, int) prog) \<Rightarrow> (nat \<Rightarrow> byte) \<Rightarrow> nat option \<Rightarrow> byte list option \<Rightarrow> int option \<Rightarrow>
     ('d net, int \<times> byte list) prog" where
  "thr_receive os handlers raw thr_chn data param =
     (case (thr_chn, data, param) of
        (Some p, Some buf, Some arg) \<Rightarrow>
          andthen (chn_get p) (\<lambda>c. case tc_funct c of
            None \<Rightarrow> andthen (fail_with EINVAL) (\<lambda>_. ret (-1, buf))
          | Some funct \<Rightarrow>
              andthen (nt_malloc (THR_MSG_HEADER_LEN + unat (tc_frag_size c))) (\<lambda>ok.
              if \<not> ok then ret (-1, buf)
              else
                andthen (receive_fragments os (tc_id c) (tc_frag_size c)
                  (map raw [0..<THR_MSG_HEADER_LEN + unat (tc_frag_size c)]) buf 0 1) (\<lambda>(n, buf', thr_msg).
                andthen (nt_malloc n) (\<lambda>ok.
                andthen
                 (if ok then
                    andthen (chn_update p (\<lambda>c. c\<lparr>tc_p_msg := Block (take n buf'), tc_msg_length := of_nat n,
                      tc_last_sender_adr := take 6 (drop THR_SRC_ADR_POS thr_msg)\<rparr>)) (\<lambda>_.
                    andthen (handlers funct arg) (\<lambda>_.
                    andthen nt_free (\<lambda>_. chn_update p (\<lambda>c. c\<lparr>tc_p_msg := NullPointer\<rparr>))))
                  else chn_update p (\<lambda>c. c\<lparr>tc_p_msg := NullPointer\<rparr>)) (\<lambda>_.
                andthen nt_free (\<lambda>_. ret (if ok then int n else -1, buf')))))))
      | _ \<Rightarrow> andthen (fail_with EINVAL) (\<lambda>_. ret (-1, case data of None \<Rightarrow> [] | Some buf \<Rightarrow> buf)))"

definition thr_read :: "nat option \<Rightarrow> byte list option \<Rightarrow> int \<Rightarrow> ('d net, int \<times> byte list) prog" where
  "thr_read thr_chn data len =
     (case (thr_chn, data) of
        (Some p, Some buf) \<Rightarrow>
          andthen (chn_get p) (\<lambda>c.
            let len' = (if uint (tc_msg_length c) < len then uint (tc_msg_length c) else len) in
            case tc_p_msg c of
              Block msg \<Rightarrow>
                if len' < 0 \<or> length msg < nat len' \<or> length buf < nat len' then stop Undef
                else andthen (chn_update p (\<lambda>c. c\<lparr>tc_msg_length := 0\<rparr>)) (\<lambda>_.
                     ret (len', put_at 0 (take (nat len') msg) buf))
            | _ \<Rightarrow> stop Undef)
      | _ \<Rightarrow> andthen (fail_with EINVAL) (\<lambda>_. ret (-1, case data of None \<Rightarrow> [] | Some buf \<Rightarrow> buf)))"

end
