(* ===== verification/LC_ThrottleSpec.thy ===== *)
theory LC_ThrottleSpec
  imports LC_Throttle
begin

text \<open>
  The frames of a message, and what the two loops of the driver do to them: \<open>send_fragments\<close> puts them on
  the wire, \<open>receive_fragments\<close> puts them together, whatever other packets come in between.
\<close>

section \<open>Blocks\<close>

lemma length_u16_bytes [simp]: "length (u16_bytes w) = 2"
  by (simp add: u16_bytes_def)

lemma u16_word: "ucast (ucast w :: byte) OR push_bit 8 (ucast (ucast (drop_bit 8 w) :: byte)) = (w :: u16)"
  by (rule bit_word_eqI) (auto simp: bit_simps)

lemma u16_at_bytes: "i = length h \<Longrightarrow> u16_at i (h @ u16_bytes w @ t) = w"
  by (simp add: u16_at_def u16_bytes_def nth_append u16_word)

lemma put_at_append: "i = length h \<Longrightarrow> length bs = length a \<Longrightarrow> put_at i bs (h @ a @ t) = h @ bs @ t"
  by (simp add: put_at_def)

lemma length_put_at: "i + length bs \<le> length b \<Longrightarrow> length (put_at i bs b) = length b"
  by (simp add: put_at_def)

lemma take_put_at: "take i b = h \<Longrightarrow> i + length bs \<le> length b \<Longrightarrow> take (i + length bs) (put_at i bs b) = h @ bs"
  by (auto simp: put_at_def)

text \<open>The head of a frame: addresses, protocol and channel.\<close>

definition frame_head :: "byte list \<Rightarrow> byte list \<Rightarrow> byte \<Rightarrow> byte list" where
  "frame_head dst src chn_id = dst @ src @ u16_bytes (htons THROTTLENET_PROTO) @ [chn_id]"

definition frame_bytes :: "byte list \<Rightarrow> nat \<Rightarrow> nat \<Rightarrow> byte list \<Rightarrow> byte list" where
  "frame_bytes head num tot payload =
     head @ u16_bytes (of_nat num) @ u16_bytes (of_nat tot) @ u16_bytes (of_nat (length payload)) @ payload"

text \<open>A message is cut into pieces of \<open>n\<close> bytes, the last one may be shorter.\<close>

function chunks :: "nat \<Rightarrow> 'a list \<Rightarrow> 'a list list" where
  "chunks n xs = (if xs = [] \<or> n = 0 then [] else take n xs # chunks n (drop n xs))"
  by auto

termination by (relation "measure (\<lambda>(n, xs). length xs)") auto

declare chunks.simps [simp del]

lemma chunks_Nil [simp]: "chunks n [] = []"
  by (simp add: chunks.simps)

lemma chunks_step: "xs \<noteq> [] \<Longrightarrow> 0 < n \<Longrightarrow> chunks n xs = take n xs # chunks n (drop n xs)"
  by (subst chunks.simps) simp

lemma concat_chunks: "0 < n \<Longrightarrow> concat (chunks n xs) = xs"
  by (induction n xs rule: chunks.induct) (subst chunks.simps, auto)

lemma chunks_sizes: "c \<in> set (chunks n xs) \<Longrightarrow> c \<noteq> [] \<and> length c \<le> n"
proof (induction n xs rule: chunks.induct)
  case (1 n xs)
  then show ?case by (subst (asm) (2) chunks.simps) (auto split: if_splits)
qed

lemma chunks_eq_Nil: "0 < n \<Longrightarrow> chunks n xs = [] \<longleftrightarrow> xs = []"
  by (subst chunks.simps) simp

lemma length_chunks: "xs \<noteq> [] \<Longrightarrow> 0 < n \<Longrightarrow> length (chunks n xs) = (length xs - 1) div n + 1"
proof (induction n xs rule: chunks.induct)
  case (1 n xs)
  show ?case
  proof (cases "length xs \<le> n")
    case True
    with 1 show ?thesis by (simp add: chunks_step)
  next
    case False
    then have "(length xs - 1) div n = (length xs - n - 1) div n + 1"
      using 1(3) le_div_geq [of n "length xs - 1"] by (simp add: diff_commute)
    with False 1 show ?thesis by (simp add: chunks_step)
  qed
qed

definition frames :: "byte list \<Rightarrow> nat \<Rightarrow> nat \<Rightarrow> byte list list \<Rightarrow> byte list list" where
  "frames head k tot cs = map (\<lambda>(num, c). frame_bytes head num tot c) (enumerate k cs)"

lemma frames_simps [simp]:
  "frames head k tot [] = []" "frames head k tot (c # cs) = frame_bytes head k tot c # frames head (Suc k) tot cs"
  by (simp_all add: frames_def)

section \<open>Sending\<close>

text \<open>The block of the frame during the loop.\<close>

definition frame_block :: "byte list \<Rightarrow> nat \<Rightarrow> nat \<Rightarrow> byte list \<Rightarrow> bool" where
  "frame_block head tot room b \<longleftrightarrow> length head = 15 \<and>
     (\<exists>num len payload. b = head @ num @ u16_bytes (of_nat tot) @ len @ payload \<and> length num = 2 \<and> length len = 2 \<and>
        length payload = room)"

lemma frame_block_tot: "frame_block head tot room b \<Longrightarrow> THR_MSG_FRAG_TOT_NUM b = of_nat tot"
  using u16_at_bytes [of 17 "head @ num" "of_nat tot" for num] by (auto simp: frame_block_def thr_fields thr_positions)

lemma next_fragment_frame:
  assumes "frame_block head tot room b" and "length c \<le> room" and "next_fragment f i len b = (of_nat (length c), len', b')"
  shows "put_at THR_PAYLOAD_POS c b' = frame_bytes head (unat i) tot c @ drop (THR_MSG_HEADER_LEN + length c) b" and "frame_block head tot room (put_at THR_PAYLOAD_POS c b')"
proof -
  obtain num l payload where b: "b = head @ num @ u16_bytes (of_nat tot) @ l @ payload" "length num = 2" "length l = 2"
      "length payload = room" and head: "length head = 15"
    using assms(1) by (auto simp: frame_block_def)
  have n: "put_at THR_FRAG_NUM_POS (u16_bytes (ucast i)) b = head @ u16_bytes (ucast i) @ u16_bytes (of_nat tot) @ l @ payload"
    using b head by (simp add: put_at_append thr_positions)
  have "put_at THR_FRAG_LEN_POS (u16_bytes w) (head @ u16_bytes (ucast i) @ u16_bytes (of_nat tot) @ l @ payload) =
      head @ u16_bytes (ucast i) @ u16_bytes (of_nat tot) @ u16_bytes w @ payload" for w
    using b head put_at_append [of 19 "head @ u16_bytes (ucast i) @ u16_bytes (of_nat tot)" "u16_bytes w" l payload]
    by (simp add: thr_positions)
  then have b': "b' = head @ u16_bytes (ucast i) @ u16_bytes (of_nat tot) @ u16_bytes (of_nat (length c)) @ payload"
    using assms(3) n by (auto simp: next_fragment_def Let_def split: if_splits)
  have pl: "put_at THR_PAYLOAD_POS c b' = head @ u16_bytes (ucast i) @ u16_bytes (of_nat tot) @ u16_bytes (of_nat (length c)) @ c @ drop (length c) payload"
    unfolding b' using head b(4) assms(2) by (simp add: put_at_def thr_positions)
  then show "put_at THR_PAYLOAD_POS c b' = frame_bytes head (unat i) tot c @ drop (THR_MSG_HEADER_LEN + length c) b"
    using b head by (simp add: frame_bytes_def thr_positions)
  show "frame_block head tot room (put_at THR_PAYLOAD_POS c b')"
    unfolding pl frame_block_def using head b(4) assms(2)
    by (intro conjI exI [of _ "u16_bytes (ucast i)"] exI [of _ "u16_bytes (of_nat (length c))"] exI [of _ "c @ drop (length c) payload"]) simp_all
qed

text \<open>A device on which every packet is sent; \<open>wire\<close> are the packets so far.\<close>

definition sends_all :: "'d eth_os \<Rightarrow> ('d \<Rightarrow> byte list list) \<Rightarrow> bool" where
  "sends_all os wire \<longleftrightarrow> (\<forall>sock packet adr d.
     fst (os_sendto os sock packet adr d) = int (length packet) \<and>
     wire (snd (os_sendto os sock packet adr d)) = wire d @ [packet])"

lemma wp_on_dev [wp_simps]: "wp (on_dev f) Q s \<longleftrightarrow> Q (fst (f (nt_dev s))) (s\<lparr>nt_dev := snd (f (nt_dev s))\<rparr>)"
  by (simp add: wp_def on_dev_def split_beta)

lemma unat_frame_len:
  "n + 21 < 65536 \<Longrightarrow> unat (of_nat THR_MSG_HEADER_LEN + of_nat n :: u16) = THR_MSG_HEADER_LEN + n"
  by (simp only: unat_of_nat flip: of_nat_add) (simp add: thr_positions)

lemma wp_send_fragment:
  assumes os: "sends_all os wire" and eth: "nt_eth_int s = Some e"
    and b: "frame_block head tot room b" and c: "length c \<le> room" "room + 21 < 65536"
    and step: "next_fragment f i len b = (of_nat (length c), len', b')"
  shows "wp (send_fragment os (c @ rest) (of_nat (length c)) b') (\<lambda>x s'. fst x = int (THR_MSG_HEADER_LEN + length c) \<and>
      frame_block head tot room (snd x) \<and> (\<exists>d. s' = s\<lparr>nt_dev := d\<rparr> \<and> wire d = wire (nt_dev s) @ [frame_bytes head (unat i) tot c])) s"
proof -
  have small: "unat (of_nat (length c) :: u16) = length c" using c by (simp add: unat_of_nat take_bit_nat_eq_self)
  have len: "unat (of_nat THR_MSG_HEADER_LEN + of_nat (length c) :: u16) = THR_MSG_HEADER_LEN + length c"
    using c by (intro unat_frame_len) simp
  let ?p = "put_at THR_PAYLOAD_POS c b'"
  have p: "?p = frame_bytes head (unat i) tot c @ drop (THR_MSG_HEADER_LEN + length c) b" "frame_block head tot room ?p"
    using next_fragment_frame [OF b c(1) step] by simp_all
  have head: "length (frame_bytes head (unat i) tot c) = THR_MSG_HEADER_LEN + length c"
    using b by (simp add: frame_bytes_def frame_block_def thr_positions)
  have size: "\<not> length ?p < 6" "\<not> length ?p < THR_MSG_HEADER_LEN + length c"
    unfolding p(1) using head by (simp_all add: thr_positions)
  have taken: "take (THR_MSG_HEADER_LEN + length c) ?p = frame_bytes head (unat i) tot c"
    using head by (simp add: p(1))
  show ?thesis
    unfolding send_fragment_def Let_def small eth_send_def len
    using os head eth size p(2) by (auto simp: wp_simps len taken sends_all_def)
qed

lemma send_fragments_unfold:
  "send_fragments os f t i len data b r =
     (if ucast i \<le> THR_MSG_FRAG_TOT_NUM b then
        (case next_fragment f i len b of (frag_len, len', b') \<Rightarrow>
          andthen (send_fragment os data frag_len b') (\<lambda>x.
            if fst x = -1 then ret (fst x)
            else andthen (modify (\<lambda>s. s\<lparr>nt_slept := nt_slept s @ [t]\<rparr>)) (\<lambda>_.
                 send_fragments os f t (i + 1) len' (drop (unat frag_len) data) (snd x) (fst x))))
      else ret r)"
  by (rule ext, subst send_fragments.simps) (auto simp: split_beta intro!: arg_cong [where f = "\<lambda>g. andthen _ g _"] ext)

text \<open>The length of the next fragment: a whole piece, or what is left.\<close>

lemma next_fragment_length:
  assumes n: "0 < n" "n + 21 < 65536" and len: "unat len = length rest"
  obtains len' b' where "next_fragment (of_nat n) i len b = (of_nat (length (take n rest)), len', b')"
    and "drop n rest \<noteq> [] \<Longrightarrow> unat len' = length (drop n rest)"
proof -
  have size: "unat (ucast (of_nat n :: u16) :: u32) = n" using n by (simp add: unsigned_ucast_eq unsigned_of_nat take_bit_nat_eq_self)
  have short: "ucast len = (of_nat (length rest) :: u16)" by (simp flip: len)
  show thesis
  proof (cases "n \<le> length rest")
    case True
    then have le: "ucast (of_nat n :: u16) \<le> len" using size len by (simp add: word_le_nat_alt)
    then have "unat (len - ucast (of_nat n :: u16)) = length rest - n" using size len by (simp add: unat_sub)
    with True le show ?thesis by (intro that) (auto simp: next_fragment_def Let_def)
  next
    case False
    then have "\<not> ucast (of_nat n :: u16) \<le> len" using size len by (simp add: word_le_nat_alt)
    with False show ?thesis by (intro that) (auto simp: next_fragment_def Let_def short)
  qed
qed

lemma wp_send_fragments:
  assumes os: "sends_all os wire" and room: "0 < room" "room + 21 < 65536" and tot: "tot \<le> 254"
    and "k + length (chunks room rest) = tot" and "frame_block head tot room b" and "rest \<noteq> [] \<Longrightarrow> unat len = length rest"
    and "nt_eth_int s = Some e"
  shows "wp (send_fragments os (of_nat room) t (of_nat (Suc k)) len (rest @ tail) b r) (\<lambda>r' s'.
      r' = (if rest = [] then r else int (THR_MSG_HEADER_LEN + length (last (chunks room rest)))) \<and>
      (\<exists>d sl. s' = s\<lparr>nt_dev := d, nt_slept := sl\<rparr> \<and> wire d = wire (nt_dev s) @ frames head (Suc k) tot (chunks room rest))) s"
  using assms(2,3,5-8)
proof (induction room rest arbitrary: k b len r s rule: chunks.induct)
  case (1 n rest)
  have small: "Suc k < 256" using 1(4) tot by linarith
  have i: "unat (of_nat (Suc k) :: byte) = Suc k" by (simp only: unat_of_nat) (use small in simp)
  have "unat (ucast (of_nat (Suc k) :: byte) :: u16) = Suc k" "unat (of_nat tot :: u16) = tot"
    using tot small i by (simp_all only: unsigned_ucast_eq unsigned_of_nat) (simp_all add: take_bit_nat_eq_self)
  then have guard: "(ucast (of_nat (Suc k) :: byte) \<le> THR_MSG_FRAG_TOT_NUM b) \<longleftrightarrow> Suc k \<le> tot"
    by (simp only: frame_block_tot [OF 1(5)] word_le_nat_alt)
  show ?case
  proof (cases "rest = []")
    case True
    then show ?thesis using 1(4)
      by (subst send_fragments_unfold) (simp only: guard, auto simp: wp_ret intro!: exI [of _ "nt_dev s"] exI [of _ "nt_slept s"])
  next
    case False
    let ?c = "take n rest"
    have pieces: "chunks n rest = ?c # chunks n (drop n rest)" using False 1(2) by (simp add: chunks_step)
    obtain len' b' where step: "next_fragment (of_nat n) (of_nat (Suc k)) len b = (of_nat (length ?c), len', b')"
      and len': "drop n rest \<noteq> [] \<Longrightarrow> unat len' = length (drop n rest)"
      using next_fragment_length [OF 1(2,3) 1(6) [OF False]] by metis
    have go: "Suc k \<le> tot" using 1(4) pieces by simp
    have small: "unat (of_nat (length ?c) :: u16) = length ?c" using 1(3) by (simp add: unat_of_nat)
    have data: "rest @ tail = ?c @ drop n rest @ tail" by simp
    note sent = wp_send_fragment [OF os 1(7,5) _ 1(3) step, where rest = "drop n rest @ tail", folded data]
    show ?thesis
      unfolding send_fragments_unfold [of _ _ _ "of_nat (Suc k)"] guard if_P [OF go] step prod.case wp_andthen
    proof (rule wp_mono [OF sent], goal_cases)
      case (2 x s1)
      then obtain d where x: "fst x = int (THR_MSG_HEADER_LEN + length ?c)" "frame_block head tot n (snd x)"
        and s1: "s1 = s\<lparr>nt_dev := d\<rparr>" and d: "wire d = wire (nt_dev s) @ [frame_bytes head (Suc k) tot ?c]"
        unfolding i by blast
      have left: "drop (unat (of_nat (length ?c) :: u16)) (rest @ tail) = drop n rest @ tail" unfolding small data by simp
      have more: "fst x \<noteq> -1" unfolding x(1) by simp
      have succ: "of_nat (Suc k) + 1 = (of_nat (Suc (Suc k)) :: byte)" by simp
      show ?case
        unfolding left if_not_P [OF more] succ wp_andthen wp_modify
        by (rule wp_mono [OF 1(1)]) (use False 1 pieces x(2) s1 d len' in \<open>auto simp: x(1) chunks_eq_Nil\<close>)
    qed simp
  qed
qed

text \<open>The block of the frame before the loop.\<close>

lemma frame_block_start:
  assumes "length raw = THR_MSG_HEADER_LEN + room" and "length dst = 6" "length src = 6" "length pad = 2"
  shows "frame_block (frame_head dst src chn_id) tot room
    (put_at THR_FRAG_TOT_NUM_POS (u16_bytes (of_nat tot)) (put_at THR_CHN_ID_POS [chn_id]
      (put_at THR_ETH_TYP_POS (u16_bytes (htons THROTTLENET_PROTO)) (put_at THR_SRC_ADR_POS (src @ pad) (put_at THR_DST_ADR_POS dst raw)))))"
proof -
  define a where "a = take 6 raw"
  define b where "b = take 8 (drop 6 raw)"
  define c where "c = take 1 (drop 14 raw)"
  define num where "num = take 2 (drop 15 raw)"
  define t where "t = take 2 (drop 17 raw)"
  define rest where "rest = drop 19 raw"
  have raw: "raw = [] @ a @ b @ c @ num @ t @ rest" and len: "length a = 6" "length b = 8" "length c = 1" "length num = 2" "length t = 2"
      "length rest = room + 2"
    using assms(1) append_take_drop_id [of 6 raw] append_take_drop_id [of 8 "drop 6 raw"] append_take_drop_id [of 1 "drop 14 raw"]
      append_take_drop_id [of 2 "drop 15 raw"] append_take_drop_id [of 2 "drop 17 raw"]
    by (simp_all add: a_def b_def c_def num_def t_def rest_def thr_positions del: append_take_drop_id)
  have 1: "put_at THR_DST_ADR_POS dst raw = dst @ b @ c @ num @ t @ rest"
    unfolding raw using assms len by (subst put_at_append) (simp_all add: thr_positions)
  have 2: "put_at THR_SRC_ADR_POS (src @ pad) (dst @ b @ c @ num @ t @ rest) = (dst @ src) @ pad @ (c @ num @ t @ rest)"
    using assms len by (subst put_at_append) (simp_all add: thr_positions)
  have 3: "put_at THR_ETH_TYP_POS (u16_bytes (htons THROTTLENET_PROTO)) ((dst @ src) @ pad @ (c @ num @ t @ rest)) =
      (dst @ src @ u16_bytes (htons THROTTLENET_PROTO)) @ c @ (num @ t @ rest)"
    using assms len by (subst put_at_append) (simp_all add: thr_positions)
  have 4: "put_at THR_CHN_ID_POS [chn_id] ((dst @ src @ u16_bytes (htons THROTTLENET_PROTO)) @ c @ (num @ t @ rest)) =
      (frame_head dst src chn_id @ num) @ t @ rest"
    using assms len by (subst put_at_append) (simp_all add: thr_positions frame_head_def)
  have 5: "put_at THR_FRAG_TOT_NUM_POS (u16_bytes (of_nat tot)) ((frame_head dst src chn_id @ num) @ t @ rest) =
      frame_head dst src chn_id @ num @ u16_bytes (of_nat tot) @ take 2 rest @ drop 2 rest"
    using assms len by (subst put_at_append) (simp_all add: thr_positions frame_head_def)
  show ?thesis
    unfolding 1 2 3 4 5 frame_block_def
    by (intro conjI exI [of _ num] exI [of _ "take 2 rest"] exI [of _ "drop 2 rest"]) (use assms len in \<open>simp_all add: frame_head_def\<close>)
qed

lemma wp_nt_malloc:
  "plenty (nt_heap s) \<Longrightarrow> wp (nt_malloc n) Q s \<longleftrightarrow>
     Q True (s\<lparr>nt_heap := (nt_heap s)\<lparr>mem_calls := Suc (mem_calls (nt_heap s)), mem_live := mem_live (nt_heap s) + 1\<rparr>\<rparr>)"
  by (auto simp: nt_malloc_def wp_def zoom_apply default_alloc_def Let_def)

lemma wp_nt_free [wp_simps]:
  "wp nt_free Q s \<longleftrightarrow> Q () (s\<lparr>nt_heap := (nt_heap s)\<lparr>mem_live := mem_live (nt_heap s) - 1\<rparr>\<rparr>)"
  by (simp add: nt_free_def wp_simps default_free_def)

lemma wp_chn_get [wp_simps]: "wp (chn_get p) Q s \<longleftrightarrow> (\<exists>c. nt_chns s p = Some c \<and> Q c s)"
  by (auto simp: chn_get_def wp_simps split: option.splits)

text \<open>An open interface and a channel of which the pieces have \<open>room\<close> bytes.\<close>

definition channel_ready :: "nat \<Rightarrow> thr_chn_t \<Rightarrow> eth_int_t \<Rightarrow> nat \<Rightarrow> 'd net \<Rightarrow> bool" where
  "channel_ready p c e room s \<longleftrightarrow> nt_chns s p = Some c \<and> tc_frag_size c = of_nat room \<and> 0 < room \<and> room + 22 < 65536 \<and>
     length (tc_dst_adr c) = 6 \<and> nt_eth_int s = Some e \<and> length (ei_mac_adr e) = 6 \<and> length (ei_padding e) = 2 \<and> plenty (nt_heap s)"

definition message_frames :: "thr_chn_t \<Rightarrow> eth_int_t \<Rightarrow> nat \<Rightarrow> byte list \<Rightarrow> byte list list" where
  "message_frames c e room msg = frames (frame_head (tc_dst_adr c) (ei_mac_adr e) (tc_id c)) 1 (length (chunks room msg)) (chunks room msg)"

text \<open>The number of fragments that is computed from the length.\<close>

lemma fragment_count:
  assumes "0 < room" "room < 65536" and "msg \<noteq> []" "length msg < 2 ^ 32"
  shows "(ucast ((of_nat (length msg) - 1) div ucast (of_nat room :: u16) + 1 :: u32) :: u16) = of_nat (length (chunks room msg))"
proof -
  have one: "of_nat (length msg) - 1 = (of_nat (length msg - 1) :: u32)"
    using assms(3) by (cases msg) simp_all
  have nats: "unat (ucast (of_nat room :: u16) :: u32) = room" "unat (of_nat (length msg - 1) :: u32) = length msg - 1"
    using assms by (simp_all add: unsigned_ucast_eq unsigned_of_nat take_bit_nat_eq_self)
  have count: "(of_nat (length msg - 1) div ucast (of_nat room :: u16) + 1 :: u32) = of_nat (length (chunks room msg))"
    unfolding length_chunks [OF assms(3,1)] using nats by (simp add: word_arith_nat_div)
  have "(length msg - 1) div room + 1 \<le> length msg"
    using assms(3) div_le_dividend [of "length msg - 1" room] by (cases msg) simp_all
  then have "length (chunks room msg) < 2 ^ 32"
    unfolding length_chunks [OF assms(3,1)] using assms(4) by linarith
  then have "unat (of_nat (length (chunks room msg)) :: u32) = length (chunks room msg)"
    by (simp add: unsigned_of_nat take_bit_nat_eq_self)
  moreover have "(ucast w :: u16) = of_nat (unat w)" for w :: u32 by simp
  ultimately show ?thesis unfolding one count by (simp only:)
qed

text \<open>Up to the loop, for every channel that is ready.\<close>

lemma thr_send_starts:
  assumes chn: "channel_ready p c e room s" and msg: "msg \<noteq> []" "length msg < 2 ^ 32"
  obtains b t where "frame_block (frame_head (tc_dst_adr c) (ei_mac_adr e) (tc_id c)) (length (chunks room msg)) room b"
    and "thr_send os raw (Some p) (Some (msg @ tail)) (of_nat (length msg)) s =
      andthen (send_fragments os (of_nat room) t 1 (of_nat (length msg)) (msg @ tail) b 0) (\<lambda>r. andthen nt_free (\<lambda>_. ret r))
        (s\<lparr>nt_heap := (nt_heap s)\<lparr>mem_calls := Suc (mem_calls (nt_heap s)), mem_live := mem_live (nt_heap s) + 1\<rparr>\<rparr>)"
proof -
  have c: "nt_chns s p = Some c" "tc_frag_size c = of_nat room" "0 < room" "room + 22 < 65536" "length (tc_dst_adr c) = 6"
    "nt_eth_int s = Some e" "length (ei_mac_adr e) = 6" "length (ei_padding e) = 2" "plenty (nt_heap s)"
    using chn by (simp_all add: channel_ready_def)
  have f: "unat (tc_frag_size c) = room" "tc_frag_size c \<noteq> 0"
    using c(2-4) by (auto simp: unsigned_of_nat take_bit_nat_eq_self simp flip: unat_eq_zero)
  have len: "of_nat (length msg) \<noteq> (0 :: u32)"
    using msg by (auto simp: unsigned_of_nat take_bit_nat_eq_self simp flip: unat_eq_zero)
  have count: "(ucast ((of_nat (length msg) - 1) div ucast (tc_frag_size c) + 1 :: u32) :: u16) = of_nat (length (chunks room msg))"
    unfolding c(2) using c(3,4) msg by (intro fragment_count) simp_all
  have mac: "take 8 (ei_mac_adr e @ ei_padding e) = ei_mac_adr e @ ei_padding e" using c(7,8) by simp
  have get: "chn_get p s = Some (Inr (c, s))" by (simp add: chn_get_def prog_simps c(1))
  have malloc: "nt_malloc n s = Some (Inr (True, s\<lparr>nt_heap := (nt_heap s)\<lparr>mem_calls := Suc (mem_calls (nt_heap s)),
      mem_live := mem_live (nt_heap s) + 1\<rparr>\<rparr>))" for n
    using c(9) by (simp add: nt_malloc_def zoom_apply default_alloc_def)
  show thesis
    by (rule that [OF frame_block_start [of "map raw [0..<THR_MSG_HEADER_LEN + room]" _ _ _ "ei_padding e"]], use c(5,7,8) in simp_all)
      (simp add: thr_send_def eth_getMACadr_def len prog_simps get f malloc Let_def c(6) mac count c(2) [symmetric] del: take_append)
qed

lemma wp_thr_send:
  assumes os: "sends_all os wire" and chn: "channel_ready p c e room s"
    and msg: "msg \<noteq> []" "length msg < 2 ^ 32" "length (chunks room msg) \<le> 254"
  shows "wp (thr_send os raw (Some p) (Some (msg @ tail)) (of_nat (length msg))) (\<lambda>r s'.
      r = int (THR_MSG_HEADER_LEN + length (last (chunks room msg))) \<and>
      wire (nt_dev s') = wire (nt_dev s) @ message_frames c e room msg \<and> mem_live (nt_heap s') = mem_live (nt_heap s)) s"
proof -
  let ?tot = "length (chunks room msg)" and ?head = "frame_head (tc_dst_adr c) (ei_mac_adr e) (tc_id c)"
  let ?s = "s\<lparr>nt_heap := (nt_heap s)\<lparr>mem_calls := Suc (mem_calls (nt_heap s)), mem_live := mem_live (nt_heap s) + 1\<rparr>\<rparr>"
  have c: "0 < room" "room + 22 < 65536" "nt_eth_int s = Some e" using chn by (simp_all add: channel_ready_def)
  have len: "unat (of_nat (length msg) :: u32) = length msg" using msg(2) by (simp add: unsigned_of_nat take_bit_nat_eq_self)
  obtain b t where b: "frame_block ?head ?tot room b" and start: "thr_send os raw (Some p) (Some (msg @ tail)) (of_nat (length msg)) s =
      andthen (send_fragments os (of_nat room) t 1 (of_nat (length msg)) (msg @ tail) b 0) (\<lambda>r. andthen nt_free (\<lambda>_. ret r)) ?s"
    by (rule thr_send_starts [OF chn msg(1,2)])
  have "wp (send_fragments os (of_nat room) t (of_nat (Suc 0)) (of_nat (length msg)) (msg @ tail) b 0) (\<lambda>r' s'.
      r' = (if msg = [] then 0 else int (THR_MSG_HEADER_LEN + length (last (chunks room msg)))) \<and>
      (\<exists>d sl. s' = ?s\<lparr>nt_dev := d, nt_slept := sl\<rparr> \<and> wire d = wire (nt_dev ?s) @ frames ?head (Suc 0) ?tot (chunks room msg))) ?s"
    by (rule wp_send_fragments [OF os c(1) _ msg(3) _ b]) (use c(2,3) len in auto)
  then have "wp (andthen (send_fragments os (of_nat room) t 1 (of_nat (length msg)) (msg @ tail) b 0) (\<lambda>r. andthen nt_free (\<lambda>_. ret r))) (\<lambda>r s'.
      r = int (THR_MSG_HEADER_LEN + length (last (chunks room msg))) \<and> mem_live (nt_heap s') = mem_live (nt_heap s) \<and>
      wire (nt_dev s') = wire (nt_dev s) @ message_frames c e room msg) ?s"
    unfolding One_nat_def [symmetric] of_nat_1 wp_andthen
    by (rule wp_mono) (use msg(1) in \<open>auto simp: message_frames_def wp_simps\<close>)
  then show ?thesis unfolding wp_def start by auto
qed

section \<open>Sending without end\<close>

text \<open>
  When the total, which is taken modulo 65536, is 255 or more, the counter of eight bits never gets behind it.  A
  message of whole pieces is then followed by empty fragments for ever.  When the total is 0 nothing is sent.
\<close>

lemma next_fragment_whole:
  assumes n: "0 < n" "n + 21 < 65536" and len: "n dvd unat len" "unat len \<le> length data"
  obtains c len' b' where "next_fragment (of_nat n) i len b = (of_nat (length c), len', b')" and "data = c @ drop (length c) data"
    and "length c \<le> n" and "n dvd unat len'" and "unat len' \<le> length (drop (length c) data)"
proof -
  have size: "unat (ucast (of_nat n :: u16) :: u32) = n" using n by (simp add: unsigned_ucast_eq unsigned_of_nat take_bit_nat_eq_self)
  show thesis
  proof (cases "n \<le> unat len")
    case True
    then have le: "ucast (of_nat n :: u16) \<le> len" using size by (simp add: word_le_nat_alt)
    then have "unat (len - ucast (of_nat n :: u16)) = unat len - n" using size by (simp add: unat_sub)
    moreover have "length (take n data) = n" "unat len - n \<le> length data - n" using True len(2) by auto
    ultimately show ?thesis using le len
      by (intro that [of "take n data" "len - ucast (of_nat n :: u16)"
            "put_at THR_FRAG_LEN_POS (u16_bytes (of_nat n)) (put_at THR_FRAG_NUM_POS (u16_bytes (ucast i)) b)"])
        (simp_all add: next_fragment_def dvd_diff_nat del: length_take)
  next
    case False
    with len(1) have "len = 0" by (auto dest: dvd_imp_le simp flip: unat_eq_zero)
    with False size n show ?thesis by (intro that [of "[]"]) (auto simp: next_fragment_def Let_def word_le_nat_alt)
  qed
qed

lemma send_fragments_endless:
  assumes os: "sends_all os wire" and room: "0 < room" "room + 21 < 65536" and tot: "255 \<le> tot mod 65536"
    and "frame_block head tot room b" and "room dvd unat len" "unat len \<le> length data" and "nt_eth_int s = Some e"
  shows "send_fragments os (of_nat room) t i len data b r s = None"
proof (rule ccontr)
  assume "send_fragments os (of_nat room) t i len data b r s \<noteq> None"
  then obtain y where y: "send_fragments os (of_nat room) t i len data b r s = Some y" by blast
  have "os = os \<longrightarrow> (of_nat room :: u16) = of_nat room \<longrightarrow> frame_block head tot room b \<longrightarrow> room dvd unat len \<longrightarrow> unat len \<le> length data \<longrightarrow>
      nt_eth_int s = Some e \<longrightarrow> False"
  proof (rule send_fragments.raw_induct [OF _ y, where P = "\<lambda>os' f t i len data b r s y. os' = os \<longrightarrow> f = of_nat room \<longrightarrow>
      frame_block head tot room b \<longrightarrow> room dvd unat len \<longrightarrow> unat len \<le> length data \<longrightarrow> nt_eth_int s = Some e \<longrightarrow> False"], goal_cases)
    case (1 p os' f t i len data b r s y)
    show ?case
    proof (intro impI)
      assume ass: "os' = os" "f = of_nat room" "frame_block head tot room b" "room dvd unat len" "unat len \<le> length data" "nt_eth_int s = Some e"
      have "unat i < 2 ^ LENGTH(8)" by (rule unsigned_less)
      then have "unat (ucast i :: u16) \<le> 255" by (simp add: unsigned_ucast_eq take_bit_nat_eq_self)
      then have guard: "ucast i \<le> THR_MSG_FRAG_TOT_NUM b"
        unfolding frame_block_tot [OF ass(3)] word_le_nat_alt using tot by (simp add: unsigned_of_nat take_bit_eq_mod)
      obtain c len' b' where step: "next_fragment f i len b = (of_nat (length c), len', b')" and data: "data = c @ drop (length c) data"
        and c: "length c \<le> room" and len': "room dvd unat len'" "unat len' \<le> length (drop (length c) data)"
        using next_fragment_whole [OF room ass(4,5)] unfolding ass(2) by metis
      have small: "unat (of_nat (length c) :: u16) = length c" using c room by (simp add: unsigned_of_nat take_bit_nat_eq_self)
      from wp_send_fragment [OF os ass(6,3) c room(2) step [unfolded ass(2)], where rest = "drop (length c) data", folded data]
      obtain x s1 where sent: "send_fragment os data (of_nat (length c)) b' s = Some (Inr (x, s1))" and x: "fst x \<noteq> -1" "frame_block head tot room (snd x)"
        and s1: "nt_eth_int s1 = Some e"
        using ass(6) by (auto elim!: wpE)
      from 1(2) have "p os f t (i + 1) len' (drop (length c) data) (snd x) (fst x) (s1\<lparr>nt_slept := nt_slept s1 @ [t]\<rparr>) = Some y"
        using guard x(1) by (simp add: ass(1) step small prog_simps sent)
      from 1(1) [OF this] show False using ass(2) x(2) len' s1 by simp
    qed
  qed
  with assms show False by blast
qed

lemma thr_send_endless:
  assumes os: "sends_all os wire" and chn: "channel_ready p c e room s"
    and msg: "length msg < 2 ^ 32" "room dvd length msg" "msg \<noteq> []" and tot: "tot = length msg div room mod 65536"
  shows "255 \<le> tot \<Longrightarrow> thr_send os raw (Some p) (Some (msg @ tail)) (of_nat (length msg)) s = None"
    and "tot = 0 \<Longrightarrow> wp (thr_send os raw (Some p) (Some (msg @ tail)) (of_nat (length msg))) (\<lambda>r s'. r = 0 \<and> nt_dev s' = nt_dev s) s"
proof -
  have c: "0 < room" "room + 22 < 65536" "nt_eth_int s = Some e" using chn by (simp_all add: channel_ready_def)
  obtain k where k: "length msg = room * k" using msg(2) by blast
  then have "0 < k" using msg(3) by (cases k) auto
  then have "(length msg - 1) div room = k - 1"
    using c(1) unfolding k by (intro div_nat_eqI) (auto simp: diff_mult_distrib2 Suc_le_eq)
  then have pieces: "length (chunks room msg) = length msg div room"
    using \<open>0 < k\<close> c(1) by (simp add: length_chunks [OF msg(3) c(1)] k)
  have len: "unat (of_nat (length msg) :: u32) = length msg" using msg(1) by (simp add: unsigned_of_nat take_bit_nat_eq_self)
  obtain b t where b: "frame_block (frame_head (tc_dst_adr c) (ei_mac_adr e) (tc_id c)) (length msg div room) room b"
    and start: "thr_send os raw (Some p) (Some (msg @ tail)) (of_nat (length msg)) s =
      andthen (send_fragments os (of_nat room) t 1 (of_nat (length msg)) (msg @ tail) b 0) (\<lambda>r. andthen nt_free (\<lambda>_. ret r))
        (s\<lparr>nt_heap := (nt_heap s)\<lparr>mem_calls := Suc (mem_calls (nt_heap s)), mem_live := mem_live (nt_heap s) + 1\<rparr>\<rparr>)"
    using thr_send_starts [OF chn msg(3,1)] unfolding pieces by metis
  let ?s = "s\<lparr>nt_heap := (nt_heap s)\<lparr>mem_calls := Suc (mem_calls (nt_heap s)), mem_live := mem_live (nt_heap s) + 1\<rparr>\<rparr>"
  {
    assume "255 \<le> tot"
    then have many: "255 \<le> length msg div room mod 65536" by (simp only: tot)
    have "send_fragments os (of_nat room) t 1 (of_nat (length msg)) (msg @ tail) b 0 ?s = None"
      by (rule send_fragments_endless [OF os c(1) _ many b]) (use c msg(2) len in simp_all)
    then show "thr_send os raw (Some p) (Some (msg @ tail)) (of_nat (length msg)) s = None"
      unfolding start by (simp add: prog_simps)
  next
    assume "tot = 0"
    then have "length msg div room mod 65536 = 0" by (simp only: tot)
    then have "THR_MSG_FRAG_TOT_NUM b = 0"
      unfolding frame_block_tot [OF b] by (simp add: word_unat_eq_iff unsigned_of_nat take_bit_eq_mod)
    then have "send_fragments os (of_nat room) t 1 (of_nat (length msg)) (msg @ tail) b 0 ?s = Some (Inr (0, ?s))"
      by (subst send_fragments.simps) (simp add: prog_simps)
    then show "wp (thr_send os raw (Some p) (Some (msg @ tail)) (of_nat (length msg))) (\<lambda>r s'. r = 0 \<and> nt_dev s' = nt_dev s) s"
      unfolding wp_def start by (simp add: andthen_run nt_free_def prog_simps memory_defs)
  }
qed

end
