(* ===== verification/LC_ThrottleReceive.thy ===== *)
theory LC_ThrottleReceive
  imports LC_ThrottleSpec
begin

text \<open>
  Receiving: the loop of \<^verbatim>\<open>thr_receive\<close> on a sequence of packets, of which some are the fragments of messages and
  the others are noise.
\<close>

text \<open>A device with the packets that will come; \<open>None\<close> is an error of \<^verbatim>\<open>recvfrom\<close>.\<close>

definition receives_all :: "'d eth_os \<Rightarrow> ('d \<Rightarrow> byte list option list) \<Rightarrow> bool" where
  "receives_all os incoming \<longleftrightarrow> (\<forall>sock d x xs. incoming d = x # xs \<longrightarrow>
     fst (os_recvfrom os sock d) = x \<and> incoming (snd (os_recvfrom os sock d)) = xs)"

text \<open>An error, or a packet that is too short, of another protocol or of another channel.\<close>

definition noise :: "byte \<Rightarrow> byte list option \<Rightarrow> bool" where
  "noise chn_id x \<longleftrightarrow> (case x of None \<Rightarrow> True
     | Some p \<Rightarrow> length p \<le> THR_MSG_HEADER_LEN \<or> take 2 (drop THR_ETH_TYP_POS p) \<noteq> [0x54, 0x4e] \<or> p ! THR_CHN_ID_POS \<noteq> chn_id)"

section \<open>The check\<close>

lemma htons_bytes:
  "(ucast (drop_bit 8 (htons (ucast x OR push_bit 8 (ucast y)))) :: byte) = x"
  "(ucast (htons (ucast x OR push_bit 8 (ucast y))) :: byte) = y"
proof -
  have "\<not> bit (z :: byte) (8 + n)" for z n using bit_imp_le_length [of z "8 + n"] by auto
  then show "(ucast (drop_bit 8 (htons (ucast x OR push_bit 8 (ucast y)))) :: byte) = x"
    "(ucast (htons (ucast x OR push_bit 8 (ucast y))) :: byte) = y"
    by (auto intro!: bit_word_eqI simp: htons_def bit_simps)
qed

lemma protocol_bytes: "THROTTLENET_PROTO = htons (u16_at i p) \<longleftrightarrow> p ! i = 0x54 \<and> p ! Suc i = 0x4e"
proof
  assume eq: "THROTTLENET_PROTO = htons (u16_at i p)"
  show "p ! i = 0x54 \<and> p ! Suc i = 0x4e"
    using htons_bytes [of "p ! i" "p ! Suc i"] unfolding u16_at_def [symmetric] eq [symmetric]
    by (simp add: THROTTLENET_PROTO_def)
qed (simp add: u16_at_def htons_def THROTTLENET_PROTO_def)

lemma take_2_drop: "Suc i < length p \<Longrightarrow> take 2 (drop i p) = [p ! i, p ! Suc i]"
  by (simp add: numeral_2_eq_2 take_Suc_conv_app_nth Cons_nth_drop_Suc [symmetric])

lemma check_received:
  assumes "n \<le> length b" and "n < 65536" and "take n b = take n p" and "n \<le> length p"
  shows "thr_msg_check b (ucast chn_id) (of_nat n) < 0 \<longleftrightarrow>
     n \<le> THR_MSG_HEADER_LEN \<or> take 2 (drop THR_ETH_TYP_POS p) \<noteq> [0x54, 0x4e] \<or> p ! THR_CHN_ID_POS \<noteq> chn_id"
proof (cases "n \<le> THR_MSG_HEADER_LEN")
  case True
  then have "\<not> (of_nat THR_MSG_HEADER_LEN :: u16) < of_nat n"
    using assms(2) by (simp add: word_less_nat_alt unsigned_of_nat take_bit_nat_eq_self thr_positions)
  with True show ?thesis by (simp add: thr_msg_check_def)
next
  case False
  then have long: "(of_nat THR_MSG_HEADER_LEN :: u16) < of_nat n" and n: "21 < n"
    using assms(2) by (simp_all add: word_less_nat_alt unsigned_of_nat take_bit_nat_eq_self thr_positions)
  have same: "b ! i = p ! i" if "i < 21" for i
    using that n assms(1,3,4) by (metis nth_take order_less_trans)
  have "take 2 (drop THR_ETH_TYP_POS p) = [p ! 12, p ! 13]"
    using take_2_drop [of 12 p] n assms(4) by (simp add: thr_positions)
  moreover have "(ucast (ucast a :: u16) :: byte) = a" for a :: byte
    by (rule bit_word_eqI) (simp add: bit_simps)
  then have "(ucast (p ! 14) :: u16) = ucast chn_id \<longleftrightarrow> p ! 14 = chn_id" by metis
  ultimately show ?thesis
    using long False same by (simp add: thr_msg_check_def thr_fields protocol_bytes thr_positions)
qed

section \<open>One packet\<close>

lemma u16_of_nat_eq: "m < 65536 \<Longrightarrow> n < 65536 \<Longrightarrow> (of_nat m :: u16) = of_nat n \<longleftrightarrow> m = n"
  by (simp add: word_of_nat_eq_iff take_bit_nat_eq_self)

lemma u16_no_error: "n < 65535 \<Longrightarrow> (of_nat n :: u16) \<noteq> -1"
proof -
  have "(-1 :: u16) = of_nat 65535" by simp
  then show "n < 65535 \<Longrightarrow> (of_nat n :: u16) \<noteq> -1" by (simp only: u16_of_nat_eq)
qed

lemma wp_eth_receive:
  assumes os: "receives_all os incoming" and "incoming (nt_dev s) = x # xs" and "unat len = length b"
  shows "wp (eth_receive os (Some e) b len) (\<lambda>(n, b') s'. (\<exists>d. s' = s\<lparr>nt_dev := d\<rparr> \<and> incoming d = xs) \<and>
      (case x of None \<Rightarrow> n = -1 \<and> b' = b
       | Some p \<Rightarrow> let m = min (length b) (length p) in n = int m \<and> b' = take m p @ drop m b)) s"
  using assms unfolding eth_receive_def receives_all_def by (auto simp: wp_simps Let_def split: option.splits)

lemma wp_receive_noise:
  assumes os: "receives_all os incoming" and "incoming (nt_dev s) = x # xs" and "noise chn_id x" and "nt_eth_int s = Some e"
    and b: "length b = THR_MSG_HEADER_LEN + room" "room + 22 < 65536"
  shows "wp (receive_fragment os chn_id (of_nat room) b data off k) (\<lambda>y s'. fst y = Discarded \<and> length (snd y) = length b \<and>
      (\<exists>d. s' = s\<lparr>nt_dev := d\<rparr> \<and> incoming d = xs)) s"
proof -
  have len: "unat (of_nat THR_MSG_HEADER_LEN + of_nat room :: u16) = length b"
    using b by (subst unat_frame_len) simp_all
  show ?thesis
    unfolding receive_fragment_def wp_andthen wp_gets assms(4)
  proof (rule wp_mono [OF wp_eth_receive [OF os assms(2) len]], goal_cases)
    case (1 y s')
    obtain n b' where y: "y = (n, b')" by (cases y)
    show ?case
    proof (cases x)
      case None
      with 1 y show ?thesis by (auto simp: wp_ret)
    next
      case (Some p)
      let ?m = "min (length b) (length p)"
      have n: "n = int ?m" and b': "b' = take ?m p @ drop ?m b" using 1 y Some by (simp_all add: Let_def)
      have "?m \<le> length b'" "?m < 65536" "take ?m b' = take ?m p" "?m \<le> length p"
        using b by (auto simp: b' thr_positions)
      note check = check_received [OF this]
      have "?m \<le> THR_MSG_HEADER_LEN \<or> take 2 (drop THR_ETH_TYP_POS p) \<noteq> [0x54, 0x4e] \<or> p ! THR_CHN_ID_POS \<noteq> chn_id"
        using assms(3) Some by (auto simp: noise_def)
      then have "thr_msg_check b' (ucast chn_id) (of_nat ?m) < 0" by (simp only: check)
      then have "thr_msg_check b' (ucast chn_id) (word_of_int n) < 0" by (simp only: n of_int_of_nat_eq)
      moreover have "length b' = length b" by (simp add: b')
      ultimately show ?thesis using 1 y by (auto simp: wp_ret Let_def)
    qed
  qed
qed

text \<open>The fields of a frame in a block that starts with it.\<close>

lemma fragment_frame_fields:
  assumes head: "head = frame_head dst src chn_id" "length dst = 6" "length src = 6" and small: "num < 65536" "tot < 65536" "length c < 65536"
  shows "THR_MSG_FRAG_NUM (frame_bytes head num tot c @ rest) = of_nat num"
    and "THR_MSG_FRAG_TOT_NUM (frame_bytes head num tot c @ rest) = of_nat tot"
    and "unat (THR_MSG_FRAG_LEN (frame_bytes head num tot c @ rest)) = length c"
    and "THR_MSG_PAYLOAD (frame_bytes head num tot c @ rest) = c @ rest"
    and "take 6 (drop THR_SRC_ADR_POS (frame_bytes head num tot c @ rest)) = src"
    and "length (frame_bytes head num tot c) = THR_MSG_HEADER_LEN + length c"
    and "take 2 (drop THR_ETH_TYP_POS (frame_bytes head num tot c)) = [0x54, 0x4e]"
    and "frame_bytes head num tot c ! THR_CHN_ID_POS = chn_id"
proof -
  have len: "length head = 15" using head by (simp add: frame_head_def)
  note at = u16_at_bytes [of _ "head" "of_nat num"] u16_at_bytes [of _ "head @ u16_bytes (of_nat num)" "of_nat tot"]
    u16_at_bytes [of _ "head @ u16_bytes (of_nat num) @ u16_bytes (of_nat tot)" "of_nat (length c)"]
  show "THR_MSG_FRAG_NUM (frame_bytes head num tot c @ rest) = of_nat num"
    "THR_MSG_FRAG_TOT_NUM (frame_bytes head num tot c @ rest) = of_nat tot"
    using len by (simp_all add: thr_fields thr_positions frame_bytes_def at [simplified append_assoc])
  show "unat (THR_MSG_FRAG_LEN (frame_bytes head num tot c @ rest)) = length c"
    using len small(3) by (simp add: thr_fields thr_positions frame_bytes_def at [simplified append_assoc] unsigned_of_nat take_bit_nat_eq_self)
  show "THR_MSG_PAYLOAD (frame_bytes head num tot c @ rest) = c @ rest" "length (frame_bytes head num tot c) = THR_MSG_HEADER_LEN + length c"
    using len by (simp_all add: thr_fields thr_positions frame_bytes_def)
  show "take 6 (drop THR_SRC_ADR_POS (frame_bytes head num tot c @ rest)) = src"
    "take 2 (drop THR_ETH_TYP_POS (frame_bytes head num tot c)) = [0x54, 0x4e]" "frame_bytes head num tot c ! THR_CHN_ID_POS = chn_id"
    using head by (simp_all add: thr_positions frame_bytes_def frame_head_def nth_append) (simp_all add: u16_bytes_def THROTTLENET_PROTO_def htons_def)
qed

lemma wp_receive_frame:
  assumes os: "receives_all os incoming" and "incoming (nt_dev s) = Some (frame_bytes head num tot c) # xs" and "nt_eth_int s = Some e"
    and b: "length b = THR_MSG_HEADER_LEN + room" "room + 22 < 65536"
    and head: "head = frame_head dst src chn_id" "length dst = 6" "length src = 6" and small: "num < 65536" "tot < 65536"
    and c: "c \<noteq> []" "length c \<le> room" and room: "k = num \<Longrightarrow> off + length c \<le> length data" and k: "k < 65536"
  shows "wp (receive_fragment os chn_id (of_nat room) b data off (of_nat k)) (\<lambda>y s'.
      fst y = (if k = num then Accepted (off + length c) (put_at off c data) else Mismatch) \<and> length (snd y) = length b \<and>
      THR_MSG_FRAG_TOT_NUM (snd y) = of_nat tot \<and> take 6 (drop THR_SRC_ADR_POS (snd y)) = src \<and>
      (\<exists>d. s' = s\<lparr>nt_dev := d\<rparr> \<and> incoming d = xs)) s"
proof -
  have len: "unat (of_nat THR_MSG_HEADER_LEN + of_nat room :: u16) = length b"
    using b by (subst unat_frame_len) simp_all
  have lc: "length c < 65536" using c b by simp
  note fields = fragment_frame_fields [OF head small lc]
  let ?p = "frame_bytes head num tot c"
  have m: "min (length b) (length ?p) = length ?p" using c(2) b(1) by (simp add: fields(6))
  show ?thesis
    unfolding receive_fragment_def wp_andthen wp_gets assms(3)
  proof (rule wp_mono [OF wp_eth_receive [OF os assms(2) len]], goal_cases)
    case (1 y s')
    let ?b = "?p @ drop (length ?p) b"
    have whole: "take (length c) (c @ z) = c" for z by simp
    from 1 have y: "y = (int (length ?p), ?b)" by (cases y) (simp add: m Let_def)
    have "length ?p \<le> length ?b" "length ?p < 65536" "take (length ?p) ?b = take (length ?p) ?p" "length ?p \<le> length ?p"
      using c(2) b by (simp_all add: fields(6) thr_positions)
    note check = check_received [OF this, of chn_id]
    have "\<not> thr_msg_check ?b (ucast chn_id) (of_nat (length ?p)) < 0"
      unfolding check using c(1) by (simp add: fields(6-8))
    moreover have "(of_nat (length ?p) :: u16) \<noteq> -1"
      using c(2) b by (intro u16_no_error) (simp add: fields(6) thr_positions)
    moreover have "(of_nat k :: u16) = of_nat num \<longleftrightarrow> k = num"
      using k small(1) by (rule u16_of_nat_eq)
    ultimately show ?case
      using 1 room b c(2) by (auto simp: y wp_ret Let_def fields whole simp del: take_append drop_append)
  qed
qed

section \<open>All packets\<close>

text \<open>
  The abstract receiver on the fragments, as triples of number, total and payload: what it makes of them in a
  buffer of \<open>cap\<close> bytes when it expects the number \<open>k\<close> and has the bytes \<open>acc\<close>.
\<close>

datatype reassembled = Waiting | Overrun | Complete "byte list"

fun reassemble :: "nat \<Rightarrow> nat \<Rightarrow> byte list \<Rightarrow> (nat \<times> nat \<times> byte list) list \<Rightarrow> reassembled" where
  "reassemble cap k acc [] = Waiting"
| "reassemble cap k acc ((num, tot, c) # fs) =
     (if k \<noteq> num then reassemble cap 1 [] fs
      else if cap < length acc + length c then Overrun
      else if tot < k + 1 then Complete (acc @ c)
      else reassemble cap (k + 1) (acc @ c) fs)"

definition fragment_ok :: "nat \<Rightarrow> nat \<times> nat \<times> byte list \<Rightarrow> bool" where
  "fragment_ok room = (\<lambda>(num, tot, c). num < 65536 \<and> tot < 65535 \<and> c \<noteq> [] \<and> length c \<le> room)"

definition fragment_frame :: "byte list \<Rightarrow> nat \<times> nat \<times> byte list \<Rightarrow> byte list" where
  "fragment_frame head = (\<lambda>(num, tot, c). frame_bytes head num tot c)"

lemma receive_fragments_unfold:
  "receive_fragments os chn_id f b data off k =
     andthen (receive_fragment os chn_id f b data off k) (\<lambda>x.
       case fst x of
         Discarded \<Rightarrow> receive_fragments os chn_id f (snd x) data off k
       | Accepted off' data' \<Rightarrow>
           if THR_MSG_FRAG_TOT_NUM (snd x) < k + 1 then ret (off', data', snd x)
           else receive_fragments os chn_id f (snd x) data' off' (k + 1)
       | Mismatch \<Rightarrow> receive_fragments os chn_id f (snd x) data 0 1)"
  by (rule ext, subst receive_fragments.simps)
    (auto intro!: arg_cong [where f = "\<lambda>g. andthen _ g _"] ext split: received.split)

lemma put_at_taken: "i + length bs \<le> length b \<Longrightarrow> take (i + length bs) (put_at i bs b) = take i b @ bs"
  by (simp add: put_at_def)

lemma wp_receive_fragments:
  assumes os: "receives_all os incoming" and room: "room + 22 < 65536" and head: "head = frame_head dst src chn_id" "length dst = 6" "length src = 6"
    and "filter (\<lambda>x. \<not> noise chn_id x) xs = map (\<lambda>f. Some (fragment_frame head f)) fs" and "\<forall>f\<in>set fs. fragment_ok room f"
    and "incoming (nt_dev s) = xs @ later" and "nt_eth_int s = Some e" and "length b = THR_MSG_HEADER_LEN + room"
    and "k < 65535" and "off \<le> length data" and "reassemble (length data) k (take off data) fs = Complete msg"
  shows "wp (receive_fragments os chn_id (of_nat room) b data off (of_nat k)) (\<lambda>(n, data', b') s'.
      n = length msg \<and> take n data' = msg \<and> length data' = length data \<and> take 6 (drop THR_SRC_ADR_POS b') = src \<and>
      (\<exists>d. s' = s\<lparr>nt_dev := d\<rparr>)) s"
  using assms(6-)
proof (induction xs arbitrary: fs k b data off s)
  case Nil
  then show ?case by simp
next
  case (Cons x xs)
  note step = receive_fragments_unfold [of os chn_id "of_nat room" b data off "of_nat k"]
  have next_packet: "incoming (nt_dev s) = x # (xs @ later)" using Cons.prems(3) by simp
  show ?case
  proof (cases "noise chn_id x")
    case True
    show ?thesis
      unfolding step wp_andthen
      by (rule wp_mono [OF wp_receive_noise [OF os next_packet True Cons.prems(4,5) room]], clarsimp, rule wp_mono [OF Cons.IH [of fs]])
        (use Cons.prems True in auto)
  next
    case False
    with Cons.prems(1) obtain num tot c fs' where fs: "fs = (num, tot, c) # fs'" and x: "x = Some (frame_bytes head num tot c)"
      and xs: "filter (\<lambda>x. \<not> noise chn_id x) xs = map (\<lambda>f. Some (fragment_frame head f)) fs'"
      by (cases fs) (auto simp: fragment_frame_def)
    have c: "num < 65536" "tot < 65536" "tot < 65535" "c \<noteq> []" "length c \<le> room" using Cons.prems(2) fs by (auto simp: fragment_ok_def)
    have fits: "off + length c \<le> length data" if "k = num"
      using Cons.prems(7,8) that by (auto simp: fs not_less split: if_splits)
    note one = wp_receive_frame [OF os next_packet [unfolded x] Cons.prems(4,5) room head c(1,2,4,5) fits, of k]
    show ?thesis
      unfolding step wp_andthen
    proof (rule wp_mono [OF one], goal_cases)
      case (3 y s')
      note 1 = 3
      then obtain d where s': "s' = s\<lparr>nt_dev := d\<rparr>" and d: "incoming d = xs @ later" by blast
      have b': "length (snd y) = THR_MSG_HEADER_LEN + room" "THR_MSG_FRAG_TOT_NUM (snd y) = of_nat tot" "take 6 (drop THR_SRC_ADR_POS (snd y)) = src"
        using 1 Cons.prems(5) by simp_all
      show ?case
      proof (cases "k = num")
        case False
        with 1 Cons.prems(8) fs have y: "fst y = Mismatch" and m: "reassemble (length data) 1 [] fs' = Complete msg" by simp_all
        show ?thesis
          unfolding y received.case
          by (rule wp_mono [OF Cons.IH [of fs' _ _ 1, simplified]]) (use xs Cons.prems(2,4) fs s' d b'(1) m in auto)
      next
        case True
        let ?data = "put_at off c data"
        from True 1 have y: "fst y = Accepted (off + length c) ?data" by simp
        have len: "length ?data = length data" and got: "take (off + length c) ?data = take off data @ c"
          using fits [OF True] by (simp_all add: length_put_at put_at_taken)
        have u16: "of_nat k + 1 = (of_nat (k + 1) :: u16)" by simp
        have u16_nat: "unat (of_nat (k + 1) :: u16) = k + 1" "unat (of_nat tot :: u16) = tot"
          using c(2) Cons.prems(6) by (simp_all only: unsigned_of_nat) (simp_all add: take_bit_nat_eq_self)
        have final: "THR_MSG_FRAG_TOT_NUM (snd y) < of_nat k + 1 \<longleftrightarrow> tot < k + 1"
          unfolding b'(2) u16 word_less_nat_alt u16_nat ..
        show ?thesis
        proof (cases "tot < k + 1")
          case True
          with 1 \<open>k = num\<close> Cons.prems(7,8) fs fits have "msg = take off data @ c" by simp
          with True show ?thesis
            unfolding y received.case if_P [OF iffD2 [OF final True]] using got len b'(3) s' Cons.prems(7) by (auto simp: wp_ret)
        next
          case False
          with 1 \<open>k = num\<close> Cons.prems(8) fs have m: "reassemble (length ?data) (k + 1) (take (off + length c) ?data) fs' = Complete msg"
            using fits got len by (simp split: if_splits)
          have "off + length c \<le> length ?data" "k + 1 < 65535" using fits \<open>k = num\<close> len False c(3) by simp_all
          with m show ?thesis
            unfolding y received.case if_not_P [OF False [folded final]]
            unfolding u16 len [symmetric]
            by (intro wp_mono [OF Cons.IH [of fs']]) (use xs Cons.prems(2,4) fs s' d b'(1) in auto)
        qed
      qed
    qed (use Cons.prems(6) in simp_all)
  qed
qed

text \<open>The fragments of one message, in order.\<close>

definition fragments :: "nat \<Rightarrow> nat \<Rightarrow> byte list list \<Rightarrow> (nat \<times> nat \<times> byte list) list" where
  "fragments k tot cs = map (\<lambda>(num, c). (num, tot, c)) (enumerate k cs)"

lemma fragments_simps [simp]:
  "fragments k tot [] = []" "fragments k tot (c # cs) = (k, tot, c) # fragments (Suc k) tot cs"
  by (simp_all add: fragments_def)

lemma frames_fragments: "frames head k tot cs = map (fragment_frame head) (fragments k tot cs)"
  by (simp add: frames_def fragments_def fragment_frame_def split_beta)

lemma reassemble_fragments:
  "cs \<noteq> [] \<Longrightarrow> tot + 1 = k + length cs \<Longrightarrow> length acc + length (concat cs) \<le> cap \<Longrightarrow>
     reassemble cap k acc (fragments k tot cs @ fs) = Complete (acc @ concat cs)"
proof (induction cs arbitrary: k acc)
  case (Cons c cs)
  then show ?case by (cases "cs = []") simp_all
qed simp

lemma fragments_ok:
  assumes "tot + 1 = k + length cs" "tot < 65535" and "\<forall>c\<in>set cs. c \<noteq> [] \<and> length c \<le> room"
  shows "\<forall>f\<in>set (fragments k tot cs). fragment_ok room f"
  using assms by (induction cs arbitrary: k) (auto simp: fragment_ok_def)

section \<open>Receiving a message\<close>

lemma wp_chn_update [wp_simps]:
  "wp (chn_update p f) Q s \<longleftrightarrow> (\<exists>c. nt_chns s p = Some c \<and> Q () (s\<lparr>nt_chns := (nt_chns s)(p \<mapsto> f c)\<rparr>))"
  by (auto simp: chn_update_def wp_simps)

text \<open>
  What the handler of the channel \<open>q\<close> does when it is called for the message: it keeps the channel, and the device
  satisfies \<open>R\<close>.
\<close>

definition handles_message ::
    "(nat \<Rightarrow> int \<Rightarrow> ('d net, int) prog) \<Rightarrow> nat \<Rightarrow> int \<Rightarrow> nat \<Rightarrow> byte list \<Rightarrow> byte list \<Rightarrow> ('d \<Rightarrow> bool) \<Rightarrow> bool" where
  "handles_message handlers h arg q msg src R \<longleftrightarrow> (\<forall>s c. nt_chns s q = Some c \<and> tc_p_msg c = Block msg \<and>
     tc_msg_length c = of_nat (length msg) \<and> tc_last_sender_adr c = src \<longrightarrow>
     wp (handlers h arg) (\<lambda>_ s'. R (nt_dev s') \<and> nt_chns s' q \<noteq> None) s)"

lemma wp_thr_receive:
  assumes os: "receives_all os incoming" and chn: "channel_ready q c e room s" "tc_funct c = Some h"
    and src: "length dst = 6" "length src = 6"
    and xs: "filter (\<lambda>x. \<not> noise (tc_id c) x) xs = map (\<lambda>f. Some (fragment_frame (frame_head dst src (tc_id c)) f)) fs"
    and fs: "\<forall>f\<in>set fs. fragment_ok room f" and "incoming (nt_dev s) = xs @ later"
    and msg: "reassemble (length buf) 1 [] fs = Complete msg" and handles: "handles_message handlers h arg q msg src R"
  shows "wp (thr_receive os handlers raw (Some q) (Some buf) (Some arg)) (\<lambda>(n, buf') s'.
      n = int (length msg) \<and> take (length msg) buf' = msg \<and> length buf' = length buf \<and> R (nt_dev s') \<and>
      (\<exists>c'. nt_chns s' q = Some c' \<and> tc_p_msg c' = NullPointer)) s"
proof -
  have c: "nt_chns s q = Some c" "tc_frag_size c = of_nat room" "room + 22 < 65536" "nt_eth_int s = Some e" "plenty (nt_heap s)"
    using chn by (simp_all add: channel_ready_def)
  have f: "unat (tc_frag_size c) = room" unfolding c(2) using c(3) by (simp add: unsigned_of_nat take_bit_nat_eq_self)
  let ?s = "s\<lparr>nt_heap := (nt_heap s)\<lparr>mem_calls := Suc (mem_calls (nt_heap s)), mem_live := mem_live (nt_heap s) + 1\<rparr>\<rparr>"
  have loop: "wp (receive_fragments os (tc_id c) (of_nat room) (map raw [0..<THR_MSG_HEADER_LEN + room]) buf 0 (of_nat 1)) (\<lambda>(n, data', b') s'.
      n = length msg \<and> take n data' = msg \<and> length data' = length buf \<and> take 6 (drop THR_SRC_ADR_POS b') = src \<and>
      (\<exists>d. s' = ?s\<lparr>nt_dev := d\<rparr>)) ?s"
    by (rule wp_receive_fragments [OF os c(3) refl src xs fs]) (use assms(8) c(4) msg in simp_all)
  have handler: "wp (handlers h arg) (\<lambda>_ s'. R (nt_dev s') \<and> nt_chns s' q \<noteq> None) t"
    if "nt_chns t q = Some c'" "tc_p_msg c' = Block msg" "tc_msg_length c' = of_nat (length msg)" "tc_last_sender_adr c' = src" for t c'
    using handles that unfolding handles_message_def by blast
  show ?thesis
    unfolding thr_receive_def
    by (simp add: wp_andthen wp_chn_get c(1) chn(2) wp_nt_malloc c(5) f, simp only: c(2), rule wp_mono [OF loop [unfolded of_nat_1]],
        clarsimp simp: wp_andthen wp_nt_malloc c(5) wp_chn_update c(1), rule wp_mono [OF handler])
      (auto simp: wp_simps)
qed

text \<open>A fragment whose length field is greater than the pieces of the channel.\<close>

lemma thr_receive_hostile:
  assumes os: "receives_all os incoming" and chn: "channel_ready q c e room s" "tc_funct c = Some h"
    and p: "incoming (nt_dev s) = Some p # later" "\<not> noise (tc_id c) (Some p)"
    and bad: "THR_MSG_FRAG_NUM p = 1" "room < unat (THR_MSG_FRAG_LEN p)"
  shows "stops (thr_receive os handlers raw (Some q) (Some buf) (Some arg)) Undef s"
proof -
  have c: "nt_chns s q = Some c" "tc_frag_size c = of_nat room" "0 < room" "room + 22 < 65536" "nt_eth_int s = Some e" "plenty (nt_heap s)"
    using chn by (simp_all add: channel_ready_def)
  have f: "unat (tc_frag_size c) = room" unfolding c(2) using c(4) by (simp add: unsigned_of_nat take_bit_nat_eq_self)
  let ?s = "s\<lparr>nt_heap := (nt_heap s)\<lparr>mem_calls := Suc (mem_calls (nt_heap s)), mem_live := mem_live (nt_heap s) + 1\<rparr>\<rparr>"
  let ?b = "map raw [0..<THR_MSG_HEADER_LEN + room]"
  have len: "unat (of_nat THR_MSG_HEADER_LEN + of_nat room :: u16) = length ?b" using c(4) by (subst unat_frame_len) simp_all
  let ?m = "min (length ?b) (length p)"
  let ?r = "take ?m p @ drop ?m ?b"
  have long: "THR_MSG_HEADER_LEN < ?m" using p(2) c(3) by (auto simp: noise_def)
  have m: "?m \<le> length ?r" "?m < 65536" "take ?m ?r = take ?m p" "?m \<le> length p" using c(4) by (auto simp: thr_positions)
  have pass: "\<not> thr_msg_check ?r (ucast (tc_id c)) (of_nat ?m) < 0"
    unfolding check_received [OF m] using p(2) long by (auto simp: noise_def)
  have fields: "THR_MSG_FRAG_NUM ?r = 1" "THR_MSG_FRAG_LEN ?r = THR_MSG_FRAG_LEN p"
    using bad(1) long by (simp_all add: thr_fields thr_positions u16_at_def nth_append)
  have size: "(of_nat ?m :: u16) \<noteq> -1" using c(4) by (intro u16_no_error) (auto simp: thr_positions)
  have short: "length (THR_MSG_PAYLOAD ?r) < unat (THR_MSG_FRAG_LEN ?r)"
    using bad(2) fields(2) by (simp add: thr_fields thr_positions)
  have "stops (receive_fragment os (tc_id c) (of_nat room) ?b buf 0 1) Undef ?s"
    unfolding receive_fragment_def
    by (rule stops_later, simp only: wp_gets, simp add: c(5), rule stops_later, rule wp_mono [OF wp_eth_receive [OF os _ len]],
        use p(1) in simp) (use pass size short fields in \<open>auto simp: Let_def\<close>)
  then have "stops (receive_fragments os (tc_id c) (of_nat room) ?b buf 0 1) Undef ?s"
    by (subst receive_fragments_unfold) (rule stops_now)
  then show ?thesis
    unfolding stops_def thr_receive_def
    using c(1,6) chn(2) f by (simp add: prog_simps chn_get_def nt_malloc_def default_alloc_def c(2) [symmetric])
qed

text \<open>The frames that are sent are no noise for a channel of the same number.\<close>

lemma sent_frames_accepted:
  assumes "channel_ready p c e room s" and "f \<in> set (message_frames c e room msg)"
  shows "\<not> noise (tc_id c) (Some f)"
proof -
  have c: "length (tc_dst_adr c) = 6" "length (ei_mac_adr e) = 6" "0 < room" using assms(1) by (simp_all add: channel_ready_def)
  obtain num piece where f: "f = frame_bytes (frame_head (tc_dst_adr c) (ei_mac_adr e) (tc_id c)) num (length (chunks room msg)) piece"
    and "piece \<in> set (chunks room msg)"
    using assms(2) by (auto simp: message_frames_def frames_def in_set_enumerate_eq)
  then have "piece \<noteq> []" using chunks_sizes by blast
  moreover have "take 2 (drop THR_ETH_TYP_POS f) = [0x54, 0x4e]" "f ! THR_CHN_ID_POS = tc_id c" "length f = THR_MSG_HEADER_LEN + length piece"
    unfolding f using c by (simp_all add: thr_positions frame_bytes_def frame_head_def nth_append)
      (simp_all add: u16_bytes_def THROTTLENET_PROTO_def htons_def)
  ultimately show ?thesis by (simp add: noise_def)
qed

section \<open>Lost fragments\<close>

lemma reassemble_part:
  "j < length cs \<Longrightarrow> tot + 1 = k + length cs \<Longrightarrow> length acc + length (concat cs) \<le> cap \<Longrightarrow>
     reassemble cap k acc (take j (fragments k tot cs) @ fs) = reassemble cap (k + j) (acc @ concat (take j cs)) fs"
proof (induction cs arbitrary: k acc j)
  case (Cons c cs)
  then show ?case by (cases j) auto
qed simp

lemma reassemble_late: "1 < i \<Longrightarrow> reassemble cap 1 [] (fragments i tot cs @ fs) = reassemble cap 1 [] fs"
  by (induction cs arbitrary: i) simp_all

lemma reassemble_next_message:
  "0 < j \<Longrightarrow> cs \<noteq> [] \<Longrightarrow> reassemble cap (1 + j) acc (fragments 1 tot cs @ fs) = reassemble cap 1 [] fs"
  by (cases cs) (simp_all add: reassemble_late [unfolded One_nat_def])

end
