(* ===== verification/LC_ThrottleProps.thy ===== *)
theory LC_ThrottleProps
  imports LC_ThrottleReceive LC_BaseProps
begin

text \<open>What the throttle driver promises: messages from one end to the other, and where it fails.\<close>

section \<open>Two devices\<close>

text \<open>One that keeps what is sent, and one with the packets that will come and what the handler has read.\<close>

definition wire_os :: "byte list list eth_os" where
  "wire_os = \<lparr>os_socket = (\<lambda>d. (3, d)), os_hwaddr = (\<lambda>_ _ d. (Some [2, 0, 0, 0, 0, 1], d)), os_ifindex = (\<lambda>_ _ d. (Some 2, d)),
     os_close = (\<lambda>_ d. (0, d)), os_sendto = (\<lambda>_ p _ d. (int (length p), d @ [p])), os_recvfrom = (\<lambda>_ d. (None, d))\<rparr>"

definition packet_os :: "(byte list option list \<times> byte list list) eth_os" where
  "packet_os = \<lparr>os_socket = (\<lambda>d. (3, d)), os_hwaddr = (\<lambda>_ _ d. (Some [2, 0, 0, 0, 0, 2], d)), os_ifindex = (\<lambda>_ _ d. (Some 2, d)),
     os_close = (\<lambda>_ d. (0, d)), os_sendto = (\<lambda>_ p _ d. (int (length p), d)),
     os_recvfrom = (\<lambda>_ d. case fst d of [] \<Rightarrow> (None, d) | x # xs \<Rightarrow> (x, (xs, snd d)))\<rparr>"

lemma wire_os_sends: "sends_all wire_os id"
  by (simp add: sends_all_def wire_os_def)

lemma packet_os_receives: "receives_all packet_os fst"
  by (simp add: receives_all_def packet_os_def)

definition demo_interface :: eth_int_t where
  "demo_interface = \<lparr>ei_mac_adr = [2, 0, 0, 0, 0, 1], ei_padding = [0, 0], ei_socket_id = 3, ei_index = 2\<rparr>"

definition demo_channel :: "u16 \<Rightarrow> thr_chn_t" where
  "demo_channel frag_size = \<lparr>tc_dst_adr = [2, 0, 0, 0, 0, 2], tc_id = 9, tc_frag_size = frag_size, tc_freq = 10, tc_funct = Some 1,
     tc_msg_length = 0, tc_p_msg = Indeterminate, tc_last_sender_adr = replicate 6 0\<rparr>"

definition demo_net :: "u16 \<Rightarrow> 'd \<Rightarrow> 'd net" where
  "demo_net frag_size d = \<lparr>nt_heap = generous, nt_errno = 0, nt_dev = d, nt_eth_int = Some demo_interface,
     nt_chns = [5 \<mapsto> demo_channel frag_size], nt_fresh = 6, nt_slept = []\<rparr>"

lemma demo_ready:
  "0 < n \<Longrightarrow> n < 100 \<Longrightarrow> channel_ready 5 (demo_channel (of_nat n)) demo_interface n (demo_net (of_nat n) d)"
  by (simp add: channel_ready_def demo_net_def demo_channel_def demo_interface_def)

text \<open>A handler that reads the message with \<^verbatim>\<open>thr_read\<close>.\<close>

definition reading :: "nat \<Rightarrow> int \<Rightarrow> ((byte list option list \<times> byte list list) net, int) prog" where
  "reading h arg =
     andthen (thr_read (Some 5) (Some (replicate 20 0)) 100) (\<lambda>(n, buf).
     andthen (modify (\<lambda>s. s\<lparr>nt_dev := (fst (nt_dev s), snd (nt_dev s) @ [take (nat n) buf])\<rparr>)) (\<lambda>_. ret 0))"

lemma reading_handles:
  assumes "length msg \<le> 20"
  shows "handles_message reading h arg 5 msg src (\<lambda>d. msg \<in> set (snd d))"
proof -
  have "uint (of_nat (length msg) :: u16) = int (length msg)"
    using assms by (simp add: unsigned_of_nat take_bit_nat_eq_self)
  then show ?thesis
    using assms by (auto simp: handles_message_def reading_def thr_read_def wp_simps put_at_def)
qed

section \<open>Messages\<close>

text \<open>
  Claim C25. A message of at most 254 pieces of the channel is sent completely, and on a receiver with a channel of the same
  number and at least the same piece size, \<^verbatim>\<open>thr_receive\<close> puts exactly this message together and calls the
  handler of the channel with it, when between the frames come only errors of the receiving call and packets that are not for the
  channel: those that are too short, or of another protocol or of another channel.
\<close>

theorem throttle_message_delivered:
  assumes "sends_all os wire" and "receives_all os' incoming" and "channel_ready p c e room s"
    and "msg \<noteq> []" and "length msg < 2 ^ 32" and "length msg \<le> 254 * room"
    and "handles_message handlers h arg q msg (ei_mac_adr e) R"
  shows "wp (thr_send os raw (Some p) (Some (msg @ tail)) (of_nat (length msg))) (\<lambda>r s'. r \<noteq> -1 \<and>
    (\<exists>sent. wire (nt_dev s') = wire (nt_dev s) @ sent \<and> (\<forall>f\<in>set sent. \<not> noise (tc_id c) (Some f)) \<and>
      (\<forall>t c' e' room' buf xs later raw'. channel_ready q c' e' room' t \<and> tc_funct c' = Some h \<and> tc_id c' = tc_id c \<and> room \<le> room' \<and>
         length msg \<le> length buf \<and> filter (\<lambda>x. \<not> noise (tc_id c) x) xs = map Some sent \<and> incoming (nt_dev t) = xs @ later \<longrightarrow>
         wp (thr_receive os' handlers raw' (Some q) (Some buf) (Some arg)) (\<lambda>(n, buf') t'.
           n = int (length msg) \<and> take (length msg) buf' = msg \<and> R (nt_dev t')) t))) s"
proof -
  let ?cs = "chunks room msg" and ?head = "frame_head (tc_dst_adr c) (ei_mac_adr e) (tc_id c)"
  have c: "0 < room" "length (tc_dst_adr c) = 6" "length (ei_mac_adr e) = 6" using assms(3) by (simp_all add: channel_ready_def)
  have "length msg - 1 < 254 * room" using assms(4,6) by (cases msg) simp_all
  then have "(length msg - 1) div room < 254" by (simp add: less_mult_imp_div_less)
  then have count: "length ?cs \<le> 254" by (simp add: length_chunks [OF assms(4) c(1)])
  let ?fs = "fragments 1 (length ?cs) ?cs"
  have receives: "wp (thr_receive os' handlers raw' (Some q) (Some buf) (Some arg)) (\<lambda>(n, buf') t'.
      n = int (length msg) \<and> take (length msg) buf' = msg \<and> R (nt_dev t')) t"
    if t: "channel_ready q c' e' room' t" "tc_funct c' = Some h" and id: "tc_id c' = tc_id c" and r: "room \<le> room'" "length msg \<le> length buf"
      and xs: "filter (\<lambda>x. \<not> noise (tc_id c) x) xs = map Some (message_frames c e room msg)" "incoming (nt_dev t) = xs @ later"
    for t c' e' room' buf xs later raw'
  proof (rule wp_mono [OF wp_thr_receive [OF assms(2) t c(2,3) _ _ xs(2) _ assms(7), where fs = ?fs]], goal_cases)
    case 1
    show ?case using xs(1) by (simp add: id message_frames_def frames_fragments)
  next
    case 2
    show ?case using count r(1) chunks_sizes [of _ room msg] by (intro fragments_ok) (auto intro: order_trans)
  next
    case 3
    show ?case using reassemble_fragments [of ?cs "length ?cs" 1 "[]" "length buf" "[]"] r(2) c(1) assms(4)
      by (simp add: chunks_eq_Nil concat_chunks)
  next
    case (4 y t')
    then show ?case by auto
  qed
  show ?thesis
    by (rule wp_mono [OF wp_thr_send [OF assms(1,3-5) count]]) (elim conjE, intro conjI exI [of _ "message_frames c e room msg"] allI impI ballI, simp, assumption,
        erule sent_frames_accepted [OF assms(3)], elim conjE, rule receives)
qed

theorem throttle_message_delivered_witness:
  "wp (thr_send wire_os (\<lambda>_. 0) (Some 5) (Some ([1, 2, 3, 4, 5] @ [9, 9])) 5) (\<lambda>r s'.
     wp (thr_receive packet_os reading (\<lambda>_. 0) (Some 5) (Some (replicate 8 0)) (Some 7)) (\<lambda>(n, buf') t'.
       n = 5 \<and> take 5 buf' = [1, 2, 3, 4, 5] \<and> [1, 2, 3, 4, 5] \<in> set (snd (nt_dev t')))
       (demo_net 50 (None # Some [1, 2, 3] # map Some (nt_dev s'), []))) (demo_net 2 [])"
proof -
  let ?msg = "[1, 2, 3, 4, 5] :: byte list"
  have ready: "channel_ready 5 (demo_channel 2) demo_interface 2 (demo_net 2 ([] :: byte list list))"
    using demo_ready [of 2] by simp
  have ready': "channel_ready 5 (demo_channel 50) demo_interface 50 (demo_net 50 d)" for d :: "byte list option list \<times> byte list list"
    using demo_ready [of 50] by simp
  have demo: "tc_id (demo_channel n) = 9" "tc_funct (demo_channel n) = Some 1" "nt_dev (demo_net n d) = d" for n and d :: 'd
    by (simp_all add: demo_channel_def demo_net_def)
  have noises: "noise 9 None" "noise 9 (Some [1, 2, 3])" by (simp_all add: noise_def thr_positions)
  have handles: "handles_message reading 1 7 5 ?msg (ei_mac_adr demo_interface) (\<lambda>d. ?msg \<in> set (snd d))"
    by (rule reading_handles) simp
  have size: "length ?msg = 5" by simp
  have five: "of_nat (length ?msg) = (5 :: u32)" by simp
  note run = throttle_message_delivered [OF wire_os_sends packet_os_receives ready _ _ _ handles, of "\<lambda>_. 0" "[9, 9]", unfolded five]
  show ?thesis
  proof (rule wp_mono [OF run], goal_cases)
    case (4 r s')
    then obtain sent where "id (nt_dev s') = id (nt_dev (demo_net 2 ([] :: byte list list))) @ sent" "\<forall>f\<in>set sent. \<not> noise (tc_id (demo_channel 2)) (Some f)"
      and receives: "\<forall>t c' e' room' buf xs later raw'. channel_ready 5 c' e' room' t \<and> tc_funct c' = Some 1 \<and> tc_id c' = tc_id (demo_channel 2) \<and>
        2 \<le> room' \<and> length ?msg \<le> length buf \<and> filter (\<lambda>x. \<not> noise (tc_id (demo_channel 2)) x) xs = map Some sent \<and>
        fst (nt_dev t) = xs @ later \<longrightarrow>
        wp (thr_receive packet_os reading raw' (Some 5) (Some buf) (Some 7)) (\<lambda>(n, buf') t'.
          n = int (length ?msg) \<and> take (length ?msg) buf' = ?msg \<and> ?msg \<in> set (snd (nt_dev t'))) t"
      by (elim conjE exE)
    then have sent: "nt_dev s' = sent" "\<forall>f\<in>set sent. \<not> noise 9 (Some f)" by (simp_all add: demo)
    have "filter (\<lambda>x. \<not> noise 9 x) (None # Some [1, 2, 3] # map Some sent) = map Some sent"
      using sent(2) by (simp add: noises filter_map o_def)
    with receives [rule_format, unfolded size, of "demo_channel 50" demo_interface 50 "demo_net 50 (None # Some [1, 2, 3] # map Some sent, [])"
        "replicate 8 0" "None # Some [1, 2, 3] # map Some sent" "[]" "\<lambda>_. 0"] show ?case
      using ready' [of "(None # Some [1, 2, 3] # map Some sent, [])"] by (simp add: sent(1) demo)
  qed simp_all
qed

text \<open>
  Claim C37. A message of whole pieces of the channel whose number, taken modulo 65536, is 255 or more is never sent completely: the
  counter of the loop has eight bits and starts again from zero before it gets behind the total of 16
  bits, so that \<^verbatim>\<open>thr_send\<close> does not return but sends empty fragments for ever.  When the number is a multiple of 65536
  the total is 0, and \<^verbatim>\<open>thr_send\<close> sends nothing and returns 0.
\<close>

theorem throttle_send_endless:
  assumes "sends_all os wire" and "channel_ready p c e room s"
    and "length msg < 2 ^ 32" and "room dvd length msg" and "msg \<noteq> []" and "tot = length msg div room mod 65536"
  shows "(255 \<le> tot \<longrightarrow> thr_send os raw (Some p) (Some (msg @ tail)) (of_nat (length msg)) s = None) \<and>
    (tot = 0 \<longrightarrow> wp (thr_send os raw (Some p) (Some (msg @ tail)) (of_nat (length msg))) (\<lambda>r s'. r = 0 \<and> nt_dev s' = nt_dev s) s)"
  using thr_send_endless [OF assms] by blast

theorem throttle_send_endless_witness:
  "thr_send wire_os (\<lambda>_. 0) (Some 5) (Some (replicate 510 7)) 510 (demo_net 2 []) = None"
proof -
  have "channel_ready 5 (demo_channel 2) demo_interface 2 (demo_net 2 ([] :: byte list list))"
    using demo_ready [of 2] by simp
  then have "thr_send wire_os (\<lambda>_. 0) (Some 5) (Some (replicate 510 7 @ [])) (of_nat (length (replicate 510 (7 :: byte)))) (demo_net 2 []) = None"
    by (rule mp [OF conjunct1 [OF throttle_send_endless [OF wire_os_sends _ _ _ _ refl]]])
      (simp_all only: length_replicate replicate_empty, simp_all)
  then show ?thesis by (simp only: length_replicate append_Nil2 of_nat_numeral)
qed

text \<open>
  Claim C26. When the rest of a message is lost behind its first fragments, the next message is lost as well although all of its
  fragments arrive: its first fragment is thrown away with the old ones.  The message after it is received.
\<close>

theorem throttle_lost_fragment:
  assumes "receives_all os incoming" and "channel_ready q c e room s" and "tc_funct c = Some h" and "length dst = 6" "length src = 6"
    and "first \<noteq> []" "second \<noteq> []" "third \<noteq> []" and "0 < j" "j < length (chunks room first)"
    and "\<forall>msg\<in>{first, second, third}. length (chunks room msg) < 65535 \<and> length msg \<le> length buf"
    and "filter (\<lambda>x. \<not> noise (tc_id c) x) xs = map (\<lambda>f. Some (fragment_frame (frame_head dst src (tc_id c)) f))
      (take j (fragments 1 (length (chunks room first)) (chunks room first)) @
       fragments 1 (length (chunks room second)) (chunks room second) @
       fragments 1 (length (chunks room third)) (chunks room third))"
    and "incoming (nt_dev s) = xs @ later" and "handles_message handlers h arg q third src R"
  shows "wp (thr_receive os handlers raw (Some q) (Some buf) (Some arg)) (\<lambda>(n, buf') s'.
      n = int (length third) \<and> take (length third) buf' = third \<and> R (nt_dev s')) s"
proof -
  have room: "0 < room" using assms(2) by (simp add: channel_ready_def)
  let ?tail = "fragments 1 (length (chunks room third)) (chunks room third)"
  have "reassemble (length buf) 1 [] (take j (fragments 1 (length (chunks room first)) (chunks room first)) @
      fragments 1 (length (chunks room second)) (chunks room second) @ ?tail) = Complete third"
    using assms(7-11) room reassemble_fragments [of "chunks room third" "length (chunks room third)" 1 "[]" "length buf" "[]"]
    by (simp add: reassemble_part reassemble_next_message chunks_eq_Nil concat_chunks del: One_nat_def)
  moreover have "\<forall>f\<in>set (fragments 1 (length (chunks room msg)) (chunks room msg)). fragment_ok room f" if "msg \<in> {first, second, third}" for msg
    using assms(11) that chunks_sizes [of _ room msg] by (intro fragments_ok) auto
  ultimately show ?thesis
    by (intro wp_mono [OF wp_thr_receive [OF assms(1-5,12) _ assms(13) _ assms(14)]]) (auto dest: in_set_takeD)
qed

text \<open>Fragments of [1, 2, 3, 4], of [5, 6] and of [7, 8, 9] in pieces of two bytes; the second fragment of the first is lost.\<close>

definition lost_packets :: "byte list option list" where
  "lost_packets = map (\<lambda>f. Some (fragment_frame (frame_head [2, 0, 0, 0, 0, 2] [2, 0, 0, 0, 0, 1] 9) f))
     [(1, 2, [1, 2]), (1, 1, [5, 6]), (1, 2, [7, 8]), (2, 2, [9])]"

theorem throttle_lost_fragment_witness:
  "wp (thr_receive packet_os reading (\<lambda>_. 0) (Some 5) (Some (replicate 8 0)) (Some 7)) (\<lambda>(n, buf') s'.
     n = 3 \<and> take 3 buf' = [7, 8, 9] \<and> [7, 8, 9] \<in> set (snd (nt_dev s'))) (demo_net 2 (lost_packets, []))"
proof -
  have ready: "channel_ready 5 (demo_channel 2) demo_interface 2 (demo_net 2 (lost_packets, [] :: byte list list))"
    using demo_ready [of 2] by simp
  have demo: "tc_id (demo_channel 2) = 9" "tc_funct (demo_channel 2) = Some 1" "fst (nt_dev (demo_net 2 (lost_packets, [] :: byte list list))) = lost_packets @ []"
    by (simp_all add: demo_channel_def demo_net_def)
  have handles: "handles_message reading 1 7 5 [7, 8, 9] [2, 0, 0, 0, 0, 1] (\<lambda>d. [7, 8, 9] \<in> set (snd d))"
    by (rule reading_handles) simp
  have pieces: "chunks 2 [1, 2, 3, 4 :: byte] = [[1, 2], [3, 4]]" "chunks 2 [5, 6 :: byte] = [[5, 6]]" "chunks 2 [7, 8, 9 :: byte] = [[7, 8], [9]]"
    by (simp_all add: chunks.simps)
  have xs: "filter (\<lambda>x. \<not> noise (tc_id (demo_channel 2)) x) lost_packets = lost_packets"
    unfolding demo by (simp add: lost_packets_def noise_def fragment_frame_def frame_bytes_def frame_head_def thr_positions u16_bytes_def
        THROTTLENET_PROTO_def htons_def)
  have fs: "lost_packets = map (\<lambda>f. Some (fragment_frame (frame_head [2, 0, 0, 0, 0, 2] [2, 0, 0, 0, 0, 1] (tc_id (demo_channel 2))) f))
      (take 1 (fragments 1 (length (chunks 2 [1, 2, 3, 4 :: byte])) (chunks 2 [1, 2, 3, 4])) @
       fragments 1 (length (chunks 2 [5, 6 :: byte])) (chunks 2 [5, 6]) @ fragments 1 (length (chunks 2 [7, 8, 9 :: byte])) (chunks 2 [7, 8, 9]))"
    unfolding demo pieces by (simp add: lost_packets_def numeral_2_eq_2)
  have "wp (thr_receive packet_os reading (\<lambda>_. 0) (Some 5) (Some (replicate 8 0)) (Some 7)) (\<lambda>(n, buf') s'.
      n = int (length [7, 8, 9 :: byte]) \<and> take (length [7, 8, 9 :: byte]) buf' = [7, 8, 9] \<and> [7, 8, 9] \<in> set (snd (nt_dev s')))
      (demo_net 2 (lost_packets, []))"
    by (rule throttle_lost_fragment [OF packet_os_receives ready demo(2) _ _ _ _ _ _ _ _ trans [OF xs fs] demo(3) handles])
      (simp_all add: pieces)
  then show ?thesis by (simp add: numeral_3_eq_3)
qed

text \<open>
  Claim C38. The length in the header of a fragment is trusted: one packet whose length field is greater than the piece size of
  the channel makes \<^verbatim>\<open>thr_receive\<close> read behind its block.
\<close>

theorem throttle_hostile_length:
  assumes "receives_all os incoming" and "channel_ready q c e room s" and "tc_funct c = Some h"
    and "incoming (nt_dev s) = Some p # later" and "\<not> noise (tc_id c) (Some p)"
    and "THR_MSG_FRAG_NUM p = 1" and "room < unat (THR_MSG_FRAG_LEN p)"
  shows "stops (thr_receive os handlers raw (Some q) (Some buf) (Some arg)) Undef s"
  using assms by (rule thr_receive_hostile)

definition hostile_packet :: "byte list" where
  "hostile_packet = frame_head [2, 0, 0, 0, 0, 2] [2, 0, 0, 0, 0, 1] 9 @ [1, 0] @ [1, 0] @ [0xff, 0xff] @ [1, 2]"

theorem throttle_hostile_length_witness:
  "stops (thr_receive packet_os reading (\<lambda>_. 0) (Some 5) (Some (replicate 8 0)) (Some 7)) Undef (demo_net 2 ([Some hostile_packet], []))"
proof -
  have ready: "channel_ready 5 (demo_channel 2) demo_interface 2 (demo_net 2 ([Some hostile_packet], [] :: byte list list))"
    using demo_ready [of 2] by simp
  have fields: "\<not> noise (tc_id (demo_channel 2)) (Some hostile_packet)" "THR_MSG_FRAG_NUM hostile_packet = 1"
    "2 < unat (THR_MSG_FRAG_LEN hostile_packet)"
    by (simp_all add: hostile_packet_def noise_def demo_channel_def frame_head_def thr_positions thr_fields u16_at_def u16_bytes_def
        THROTTLENET_PROTO_def htons_def)
  show ?thesis
    by (rule throttle_hostile_length [OF packet_os_receives ready _ _ fields]) (simp_all add: demo_channel_def demo_net_def)
qed

end
