(* ===== verification/LC_Datagram.thy ===== *)
theory LC_Datagram
  imports LC_ThrottleReceive LC_Wire
begin

text \<open>
  Readers and writers of a former version of the library that exchange whole packets: over the throttle driver
  (\<^verbatim>\<open>experimental/labcomm_thr_reader_writer.c\<close>) and over UDP (\<^verbatim>\<open>experimental/labcomm_udp_reader_writer.c\<close> with
  \<^verbatim>\<open>experimental/udp_hack.c\<close>), and the packing of numbers in \<^verbatim>\<open>experimental/pack.c\<close>.  The header of the former
  version is not in the repository; the fields and actions are those that these files use.  A message goes through
  the writer and the reader of the throttle driver unchanged, and unpacking gives back what was packed for numbers
  below \<open>2 ^ 31\<close>.
\<close>

section \<open>Readers and writers of packets\<close>

record packet_buffer =
  pb_data :: "byte list option"
  pb_data_size :: int
  pb_count :: int
  pb_pos :: int

definition BUFFER_SIZE :: int where "BUFFER_SIZE = 2048"

datatype packet_reader_action = Reader_alloc | Reader_start | Reader_continue | Reader_end | Reader_free

datatype packet_writer_action =
  Writer_alloc | Writer_free | Writer_start | Writer_continue | Writer_end | Writer_available

text \<open>
  Both readers and both writers have the same code over their \<open>receive\<close> and \<open>send\<close>; \<open>raw\<close> are the bytes of a new
  block.  The context \<open>'c\<close> has the heap.
\<close>

definition on_buffer :: "(packet_buffer \<Rightarrow> packet_buffer) \<Rightarrow> (packet_buffer \<times> 'c, unit) prog" where
  "on_buffer f = modify (\<lambda>(b, c). (f b, c))"

definition on_context :: "('c, 'a) prog \<Rightarrow> (packet_buffer \<times> 'c, 'a) prog" where
  "on_context m = zoom snd (\<lambda>c (b, _). (b, c)) m"

definition packet_reader ::
    "(nat \<Rightarrow> ('c, bool) prog) \<Rightarrow> ('c, unit) prog \<Rightarrow> (byte list option \<Rightarrow> int \<Rightarrow> ('c, int \<times> byte list option) prog) \<Rightarrow>
     (nat \<Rightarrow> byte) \<Rightarrow> packet_reader_action \<Rightarrow> (packet_buffer \<times> 'c, int) prog" where
  "packet_reader malloc free receive raw action =
     (let fill =
        andthen (gets fst) (\<lambda>r.
        if pb_pos r < pb_count r then c_int (pb_count r - pb_pos r)
        else
          andthen (on_buffer (\<lambda>r. r\<lparr>pb_pos := 0\<rparr>)) (\<lambda>_.
          andthen (on_context (receive (pb_data r) (pb_data_size r))) (\<lambda>(err, data).
          if err \<le> 0 then andthen (on_buffer (\<lambda>r. r\<lparr>pb_data := data, pb_count := 0\<rparr>)) (\<lambda>_. ret (-1))
          else andthen (on_buffer (\<lambda>r. r\<lparr>pb_data := data, pb_count := err\<rparr>)) (\<lambda>_. ret err))))
      in case action of
        Reader_alloc \<Rightarrow>
          andthen (on_context (malloc (nat BUFFER_SIZE))) (\<lambda>ok.
          if ok then andthen (on_buffer (\<lambda>r. r\<lparr>pb_data := Some (map raw [0..<nat BUFFER_SIZE]), pb_data_size := BUFFER_SIZE,
                 pb_count := 0, pb_pos := 0\<rparr>)) (\<lambda>_. ret BUFFER_SIZE)
          else andthen (on_buffer (\<lambda>r. r\<lparr>pb_data := None, pb_data_size := 0, pb_count := 0, pb_pos := 0\<rparr>)) (\<lambda>_. ret (- ENOMEM)))
      | Reader_start \<Rightarrow> fill
      | Reader_continue \<Rightarrow> fill
      | Reader_end \<Rightarrow> ret 0
      | Reader_free \<Rightarrow>
          andthen (gets fst) (\<lambda>r.
          andthen (if pb_data r = None then ret () else on_context free) (\<lambda>_.
          andthen (on_buffer (\<lambda>r. r\<lparr>pb_data := None, pb_data_size := 0, pb_count := 0, pb_pos := 0\<rparr>)) (\<lambda>_. ret 0))))"

definition packet_writer ::
    "(nat \<Rightarrow> ('c, bool) prog) \<Rightarrow> ('c, unit) prog \<Rightarrow> (byte list option \<Rightarrow> int \<Rightarrow> ('c, int) prog) \<Rightarrow> (nat \<Rightarrow> byte) \<Rightarrow>
     packet_writer_action \<Rightarrow> (packet_buffer \<times> 'c, int) prog" where
  "packet_writer malloc free send raw action =
     (let deliver =
        andthen (gets fst) (\<lambda>w.
        andthen (on_context (send (pb_data w) (pb_pos w))) (\<lambda>result.
        andthen (on_buffer (\<lambda>w. w\<lparr>pb_pos := 0\<rparr>)) (\<lambda>_. ret result)))
      in case action of
        Writer_alloc \<Rightarrow>
          andthen (on_context (malloc (nat BUFFER_SIZE))) (\<lambda>ok.
          if ok then andthen (on_buffer (\<lambda>w. w\<lparr>pb_data := Some (map raw [0..<nat BUFFER_SIZE]), pb_data_size := BUFFER_SIZE,
                 pb_count := BUFFER_SIZE, pb_pos := 0\<rparr>)) (\<lambda>_. ret 0)
          else andthen (on_buffer (\<lambda>w. w\<lparr>pb_data := None, pb_data_size := 0, pb_count := 0, pb_pos := 0\<rparr>)) (\<lambda>_. ret (- ENOMEM)))
      | Writer_free \<Rightarrow>
          andthen (gets fst) (\<lambda>w.
          andthen (if pb_data w = None then ret () else on_context free) (\<lambda>_.
          andthen (on_buffer (\<lambda>w. w\<lparr>pb_data := None, pb_data_size := 0, pb_count := 0, pb_pos := 0\<rparr>)) (\<lambda>_. ret 0)))
      | Writer_start \<Rightarrow> andthen (on_buffer (\<lambda>w. w\<lparr>pb_pos := 0\<rparr>)) (\<lambda>_. ret 0)
      | Writer_continue \<Rightarrow> deliver
      | Writer_end \<Rightarrow> deliver
      | Writer_available \<Rightarrow> andthen (gets fst) (\<lambda>w. c_int (pb_count w - pb_pos w)))"

section \<open>Over the throttle driver\<close>

definition labcomm_thr_reader ::
    "(nat \<Rightarrow> byte) \<Rightarrow> nat option \<Rightarrow> packet_reader_action \<Rightarrow> (packet_buffer \<times> 'd net, int) prog" where
  "labcomm_thr_reader raw chn =
     packet_reader nt_malloc nt_free (\<lambda>data len.
       andthen (thr_read chn data len) (\<lambda>(n, buf). ret (n, map_option (\<lambda>_. buf) data))) raw"

definition labcomm_thr_writer ::
    "'d eth_os \<Rightarrow> (nat \<Rightarrow> byte) \<Rightarrow> nat option \<Rightarrow> packet_writer_action \<Rightarrow> (packet_buffer \<times> 'd net, int) prog" where
  "labcomm_thr_writer os raw chn =
     packet_writer nt_malloc nt_free (\<lambda>data len. thr_send os raw chn data (u32_of_int len)) raw"

section \<open>Over UDP\<close>

record sockaddr_in =
  sin_port :: u16
  sin_addr :: u32

text \<open>The system calls; \<open>u_aton\<close> is \<^verbatim>\<open>inet_aton\<close>.\<close>

record 'd udp_os =
  u_socket :: "'d \<Rightarrow> int \<times> 'd"
  u_bind :: "int \<Rightarrow> sockaddr_in \<Rightarrow> 'd \<Rightarrow> int \<times> 'd"
  u_aton :: "cstring \<Rightarrow> u32 option"
  u_sendto :: "int \<Rightarrow> byte list \<Rightarrow> sockaddr_in \<Rightarrow> 'd \<Rightarrow> int \<times> 'd"
  u_recvfrom :: "int \<Rightarrow> 'd \<Rightarrow> (byte list \<times> sockaddr_in) option \<times> 'd"
  u_close :: "int \<Rightarrow> 'd \<Rightarrow> int \<times> 'd"

record server_context =
  sc_si_me :: sockaddr_in
  sc_si_other :: sockaddr_in
  sc_s :: int
  sc_buf :: "byte list"

text \<open>The context, if there is one; the heap; the device.\<close>

record 'd udp =
  up_heap :: memory
  up_ctx :: "server_context option"
  up_dev :: 'd

definition diep :: "('d udp, 'a) prog" where
  "diep = stop ExitPerror"

definition up_malloc :: "nat \<Rightarrow> ('d udp, bool) prog" where
  "up_malloc n = zoom up_heap (\<lambda>m s. s\<lparr>up_heap := m\<rparr>) (default_alloc 0 n)"

definition up_free :: "('d udp, unit) prog" where
  "up_free = zoom up_heap (\<lambda>m s. s\<lparr>up_heap := m\<rparr>) (default_free 0 True)"

definition on_udp :: "('d \<Rightarrow> 'a \<times> 'd) \<Rightarrow> ('d udp, 'a) prog" where
  "on_udp f = (\<lambda>s. case f (up_dev s) of (x, d) \<Rightarrow> Some (Inr (x, s\<lparr>up_dev := d\<rparr>)))"

definition ctx_get :: "('d udp, server_context) prog" where
  "ctx_get = andthen (gets up_ctx) (\<lambda>c. case c of None \<Rightarrow> stop Undef | Some c \<Rightarrow> ret c)"

definition ctx_put :: "server_context \<Rightarrow> ('d udp, unit) prog" where
  "ctx_put c = modify (\<lambda>s. s\<lparr>up_ctx := Some c\<rparr>)"

definition PORT :: u16 where "PORT = 9930"
definition NPACK :: nat where "NPACK = 10"
definition BUFLEN :: int where "BUFLEN = 512"

text \<open>\<open>ctx\<close> is what the new block contains.\<close>

definition server_init :: "'d udp_os \<Rightarrow> server_context \<Rightarrow> ('d udp, unit) prog" where
  "server_init os ctx =
     andthen (up_malloc 556) (\<lambda>ok.
     if \<not> ok then diep
     else andthen (on_udp (u_socket os)) (\<lambda>sock.
       if sock = -1 then diep
       else let me = \<lparr>sin_port = htons PORT, sin_addr = 0\<rparr> in
         andthen (on_udp (u_bind os sock me)) (\<lambda>r.
         if r = -1 then diep else ctx_put (ctx\<lparr>sc_s := sock, sc_si_me := me\<rparr>))))"

definition udp_recv :: "'d udp_os \<Rightarrow> byte list option \<Rightarrow> int \<Rightarrow> ('d udp, int \<times> byte list option) prog" where
  "udp_recv os buf len =
     andthen ctx_get (\<lambda>c.
     andthen (on_udp (u_recvfrom os (sc_s c))) (\<lambda>packet.
     case packet of
       None \<Rightarrow> diep
     | Some (bytes, from) \<Rightarrow>
         let n = min (size_t_of_int len) (length bytes) in
         if n = 0 then andthen (ctx_put (c\<lparr>sc_si_other := from\<rparr>)) (\<lambda>_. ret (0, buf))
         else (case buf of
             None \<Rightarrow> diep
           | Some b \<Rightarrow> if length b < n then stop Undef
               else andthen (ctx_put (c\<lparr>sc_si_other := from\<rparr>)) (\<lambda>_.
                 ret (int n, Some (take n bytes @ drop n b))))))"

text \<open>The buffer is printed as a string after each packet, so there must be a NUL in it.\<close>

primrec server_loop :: "nat \<Rightarrow> 'd udp_os \<Rightarrow> ('d udp, unit) prog" where
  "server_loop 0 os = ret ()"
| "server_loop (Suc n) os =
     andthen ctx_get (\<lambda>c.
     andthen (udp_recv os (Some (sc_buf c)) BUFLEN) (\<lambda>(l, buf).
     andthen ctx_get (\<lambda>c.
     andthen (ctx_put (c\<lparr>sc_buf := (case buf of None \<Rightarrow> sc_buf c | Some b \<Rightarrow> b)\<rparr>)) (\<lambda>_.
     andthen ctx_get (\<lambda>c.
     if 0 \<notin> set (sc_buf c) then stop Undef else server_loop n os)))))"

definition server_run :: "'d udp_os \<Rightarrow> ('d udp, unit) prog" where
  "server_run = server_loop NPACK"

definition server_exit :: "'d udp_os \<Rightarrow> ('d udp, int) prog" where
  "server_exit os =
     andthen ctx_get (\<lambda>c.
     andthen (on_udp (u_close os (sc_s c))) (\<lambda>_.
     andthen (modify (\<lambda>s. s\<lparr>up_ctx := None\<rparr>)) (\<lambda>_.
     andthen up_free (\<lambda>_. ret 0))))"

text \<open>\<^verbatim>\<open>SRV_IP\<close> is 127.0.0.1.\<close>

definition SRV_IP :: cstring where
  "SRV_IP = [0x31, 0x32, 0x37, 0x2e, 0x30, 0x2e, 0x30, 0x2e, 0x31]"

definition client_init :: "'d udp_os \<Rightarrow> server_context \<Rightarrow> ('d udp, unit) prog" where
  "client_init os ctx =
     andthen (up_malloc 556) (\<lambda>ok.
     if \<not> ok then diep
     else andthen (on_udp (u_socket os)) (\<lambda>sock.
       if sock = -1 then diep
       else (case u_aton os SRV_IP of
           None \<Rightarrow> diep
         | Some ip \<Rightarrow> ctx_put (ctx\<lparr>sc_s := sock, sc_si_other := \<lparr>sin_port = htons PORT, sin_addr = ip\<rparr>\<rparr>))))"

definition udp_send :: "'d udp_os \<Rightarrow> byte list option \<Rightarrow> int \<Rightarrow> ('d udp, int) prog" where
  "udp_send os s len =
     andthen ctx_get (\<lambda>c.
     case s of
       None \<Rightarrow> if len = 0 then andthen (on_udp (u_sendto os (sc_s c) [] (sc_si_other c))) (\<lambda>r. if r = -1 then diep else ret r) else diep
     | Some bytes \<Rightarrow>
         if len < 0 \<or> length bytes < nat len then stop Undef
         else andthen (on_udp (u_sendto os (sc_s c) (take (nat len) bytes) (sc_si_other c))) (\<lambda>r.
              if r = -1 then diep else ret r))"

text \<open>The text is "Hello, world".\<close>

definition hello_world :: "byte list" where
  "hello_world = [0x48, 0x65, 0x6c, 0x6c, 0x6f, 0x2c, 0x20, 0x77, 0x6f, 0x72, 0x6c, 0x64, 0]"

primrec client_loop :: "nat \<Rightarrow> 'd udp_os \<Rightarrow> ('d udp, unit) prog" where
  "client_loop 0 os = ret ()"
| "client_loop (Suc n) os = andthen (udp_send os (Some hello_world) 12) (\<lambda>_. client_loop n os)"

definition client_run :: "'d udp_os \<Rightarrow> ('d udp, int) prog" where
  "client_run os = andthen (client_loop NPACK os) (\<lambda>_. ret 0)"

definition client_exit :: "'d udp_os \<Rightarrow> ('d udp, int) prog" where
  "client_exit = server_exit"

definition labcomm_udp_reader ::
    "'d udp_os \<Rightarrow> (nat \<Rightarrow> byte) \<Rightarrow> packet_reader_action \<Rightarrow> (packet_buffer \<times> 'd udp, int) prog" where
  "labcomm_udp_reader os raw = packet_reader up_malloc up_free (udp_recv os) raw"

definition labcomm_udp_writer ::
    "'d udp_os \<Rightarrow> (nat \<Rightarrow> byte) \<Rightarrow> packet_writer_action \<Rightarrow> (packet_buffer \<times> 'd udp, int) prog" where
  "labcomm_udp_writer os raw = packet_writer up_malloc up_free (udp_send os) raw"

section \<open>Packing\<close>

text \<open>\<^verbatim>\<open>do_pack\<close>: groups of seven bits, the lowest first; every byte but the last has bit 7 set.\<close>

function do_pack_loop :: "u32 \<Rightarrow> byte list" where
  "do_pack_loop tmp =
     (if 0x80 \<le> tmp then (ucast (tmp AND 0x7f) OR 0x80) # do_pack_loop (drop_bit 7 tmp) else [ucast tmp])"
  by auto

termination
  by (relation "measure unat") (simp_all add: drop_bit_eq_div unat_div word_le_nat_alt)

declare do_pack_loop.simps [simp del]

text \<open>The bytes are written to the start of \<open>buf\<close>; the result has eight bits.\<close>

definition do_pack :: "byte list \<Rightarrow> u32 \<Rightarrow> ('s, byte \<times> byte list) prog" where
  "do_pack buf i =
     (let bytes = do_pack_loop i in
      if length buf < length bytes then stop Undef
      else ret (of_nat (length bytes), bytes @ drop (length bytes) buf))"

text \<open>
  \<^verbatim>\<open>do_unpack\<close>: the shift is one of an \<^verbatim>\<open>int\<close>, by a number that must be less than 32 and to a value that must fit.  The
  counter has eight bits.
\<close>

fun do_unpack_loop :: "byte list \<Rightarrow> byte \<Rightarrow> u32 \<Rightarrow> ('s, u32) prog" where
  "do_unpack_loop [] i res = stop Undef"
| "do_unpack_loop (c # cs) i res =
     (let low = uint (c AND 0x7f); k = 7 * unat i in
      if 32 \<le> k \<or> INT_MAX < low * 2 ^ k then stop Undef
      else let res' = res OR u32_of_int (low * 2 ^ k) in
        if c AND 0x80 \<noteq> 0 then do_unpack_loop cs (i + 1) res' else ret res')"

definition do_unpack :: "byte list \<Rightarrow> ('s, u32) prog" where
  "do_unpack buf = do_unpack_loop buf 0 0"

subsection \<open>Unpacking what was packed\<close>

lemma low_or_shifted:
  fixes r a :: int
  assumes "0 \<le> r" "r < 2 ^ k"
  shows "r OR a * 2 ^ k = a * 2 ^ k + r"
proof -
  have "take_bit k r = r" using assms by (simp add: take_bit_int_eq_self)
  then have "r AND push_bit k a = take_bit k r AND push_bit k a" by simp
  also have "\<dots> = 0" by (intro bit_eqI) (auto simp: bit_simps)
  finally have "r + push_bit k a = r OR push_bit k a" using plus_and_or [of r "push_bit k a"] by simp
  then show ?thesis by (simp add: push_bit_eq_mult)
qed

text \<open>What is left of the number at byte \<open>i\<close> stands above the \<open>7 * i\<close> bits already read.\<close>

definition unpacks_from :: "u32 \<Rightarrow> byte \<Rightarrow> u32 \<Rightarrow> ('s, u32) prog" where
  "unpacks_from d i res =
     (if uint d * 2 ^ (7 * unat i) \<le> INT_MAX then ret (u32_of_int (uint d * 2 ^ (7 * unat i) + uint res)) else stop Undef)"

lemma pack_low: "uint (ucast d AND 0x7f :: byte) = uint (d :: u32) mod 128"
proof -
  have "(ucast d AND 0x7f :: byte) = take_bit 7 (ucast d)" by (simp only: mask7 take_bit_eq_mask)
  then have "uint (ucast d AND 0x7f :: byte) = take_bit 7 (take_bit 8 (uint d))"
    by (simp only: unsigned_take_bit_eq unsigned_ucast_eq) simp
  also have "\<dots> = take_bit 7 (uint d)" by (simp only: take_bit_take_bit)
  finally show ?thesis by (simp add: take_bit_eq_mod)
qed

lemma pack_marked_low: "(ucast (d AND 0x7f) OR 0x80) AND 0x7f = (ucast (d :: u32) AND 0x7f :: byte)"
proof -
  have "(ucast (d AND mask 7) OR 0x80) AND mask 7 = (ucast (d :: u32) AND mask 7 :: byte)"
    by (rule bit_word_eqI) (auto simp: bit_simps numeral_eq_Suc less_Suc_eq)
  then show ?thesis by (simp only: mask7)
qed

lemma pack_marked: "(b OR 0x80) AND 0x80 \<noteq> (0 :: byte)"
proof -
  have "bit ((b OR 0x80) AND 0x80) 7" by (simp add: bit_simps)
  then show ?thesis by auto
qed

lemma pack_unmarked:
  assumes "(d :: u32) < 0x80"
  shows "(ucast d AND 0x80 :: byte) = 0"
proof -
  have "uint d < 2 ^ 7" using assms by (simp add: word_less_def)
  then have "take_bit 7 d = d" by (intro word_uint_eqI) (simp add: unsigned_take_bit_eq take_bit_int_eq_self)
  then have "d AND 0x7f = d" by (simp only: mask7 take_bit_eq_mask)
  then show ?thesis using packed32_low_bit [of d] by (simp add: packed32_more_def)
qed

lemma uint_u32_of_int:
  assumes "0 \<le> x" "x < 2 ^ 32"
  shows "uint (u32_of_int x) = x"
  using take_bit_int_eq_self [of x 32] assms unfolding u32_of_int_def unsigned_of_int by simp

lemma pack_unpacks_last:
  assumes "uint res < 2 ^ k" "0 \<le> x" "x * 2 ^ k \<le> INT_MAX"
  shows "res OR u32_of_int (x * 2 ^ k) = u32_of_int (x * 2 ^ k + uint res)"
proof -
  have "uint (u32_of_int (x * 2 ^ k)) = x * 2 ^ k"
    using assms(2,3) by (intro uint_u32_of_int) (simp_all add: INT_MAX_def)
  then have "uint (res OR u32_of_int (x * 2 ^ k)) = x * 2 ^ k + uint res"
    using assms by (simp add: unsigned_or_eq low_or_shifted)
  then show ?thesis by (metis u32_of_int_def word_of_int_uint)
qed

lemma fits_iff:
  fixes x p q :: int
  assumes "q * p = INT_MAX + 1" "0 < p"
  shows "x * p \<le> INT_MAX \<longleftrightarrow> x < q"
proof -
  have "x * p \<le> INT_MAX \<longleftrightarrow> x * p < q * p" using assms(1) by linarith
  then show ?thesis using assms(2) by simp
qed

lemma div_128_less: "(x :: int) div 128 < q \<longleftrightarrow> x < q * 128"
proof -
  have "x = x div 128 * 128 + x mod 128" "0 \<le> x mod 128" "x mod 128 < 128" by simp_all
  then show ?thesis by linarith
qed

lemma do_unpack_loop_pack:
  assumes "uint res < 2 ^ (7 * unat i)" "uint d * 2 ^ (7 * unat i) < 2 ^ 32" "d \<noteq> 0 \<or> i = 0"
  shows "(do_unpack_loop (do_pack_loop d @ rest) i res :: ('s, u32) prog) = unpacks_from d i res"
  using assms
proof (induction d arbitrary: i res rule: do_pack_loop.induct)
  case (1 d)
  let ?D = "uint d" and ?k = "7 * unat i"
  show ?case
  proof (cases "0x80 \<le> d")
    case False
    have small: "?D < 128" using False by (simp add: word_le_def)
    have low: "uint (ucast d AND 0x7f :: byte) = ?D" using small by (simp add: pack_low)
    have k: "?k < 32"
    proof (cases "d = 0")
      case False
      then have "1 \<le> ?D" by (simp add: word_neq_0_conv word_less_def)
      then have "2 ^ ?k \<le> ?D * 2 ^ ?k" by simp
      with "1.prems"(2) have "(2 :: int) ^ ?k < 2 ^ 32" by linarith
      then show ?thesis by (simp only: power_strict_increasing_iff)
    qed (use "1.prems"(3) in simp)
    have "do_pack_loop d = [ucast d]" using False by (simp add: do_pack_loop.simps [of d])
    then show ?thesis
      using False k low pack_unmarked [of d] "1.prems"(1) pack_unpacks_last [of res ?k ?D]
      by (simp add: unpacks_from_def Let_def not_le)
  next
    case True
    have big: "128 \<le> ?D" using True by (simp add: word_le_def)
    have "(2 :: int) ^ (7 + ?k) \<le> ?D * 2 ^ ?k" using big by (simp add: power_add)
    with "1.prems"(2) have "(2 :: int) ^ (7 + ?k) < 2 ^ 32" by linarith
    then have "7 + ?k < 32" by (simp only: power_strict_increasing_iff)
    then have i: "unat i \<in> {0, 1, 2, 3}" by auto
    have low: "uint (ucast d AND 0x7f :: byte) = ?D mod 128" by (rule pack_low)
    have hi: "uint (drop_bit 7 d) = ?D div 128" by (simp add: drop_bit_eq_div uint_div)
    have "unat (i + 1) = unat i + 1" using i by (auto simp: unat_word_ariths)
    then have i': "7 * unat (i + 1) = 7 * unat i + 7" by simp
    let ?res = "res OR u32_of_int (?D mod 128 * 2 ^ ?k)"
    have shifted: "?D mod 128 * 2 ^ ?k \<le> INT_MAX" using i by (auto simp: INT_MAX_def)
    have res: "?res = u32_of_int (?D mod 128 * 2 ^ ?k + uint res)"
      using "1.prems"(1) shifted by (intro pack_unpacks_last) auto
    have bound: "?D mod 128 * 2 ^ ?k + uint res < 2 ^ (7 * unat i + 7)" using "1.prems"(1) i by auto
    have ures: "uint ?res = ?D mod 128 * 2 ^ ?k + uint res"
      unfolding res using bound i by (intro uint_u32_of_int) auto
    have "(do_unpack_loop (do_pack_loop (drop_bit 7 d) @ rest) (i + 1) ?res :: ('s, u32) prog) = unpacks_from (drop_bit 7 d) (i + 1) ?res"
    proof (rule "1.IH" [OF True])
      show "uint ?res < 2 ^ (7 * unat (i + 1))" using bound unfolding ures i' .
      show "uint (drop_bit 7 d) * 2 ^ (7 * unat (i + 1)) < 2 ^ 32" using "1.prems"(2) i unfolding hi i' by auto
      show "drop_bit 7 d \<noteq> 0 \<or> i + 1 = 0" using big hi by force
    qed
    also have "\<dots> = unpacks_from d i res"
    proof -
      have "a * 2 ^ (k + 7) + b * 2 ^ k = (a * 128 + b) * 2 ^ k" for a b :: int and k
        by (simp add: power_add distrib_right)
      from this [of "?D div 128" ?k "?D mod 128"]
      have "?D div 128 * 2 ^ (7 * unat i + 7) + ?D mod 128 * 2 ^ ?k = ?D * 2 ^ ?k" by (simp only: div_mult_mod_eq)
      then have "?D div 128 * 2 ^ (7 * unat i + 7) + (?D mod 128 * 2 ^ ?k + uint res) = ?D * 2 ^ ?k + uint res"
        by (simp only: div_mult_mod_eq add.assoc [symmetric])
      moreover have "?D div 128 * 2 ^ (7 * unat i + 7) \<le> INT_MAX \<longleftrightarrow> ?D * 2 ^ ?k \<le> INT_MAX"
      proof -
        have eqs: "2 ^ (24 - ?k) * 2 ^ (7 * unat i + 7) = INT_MAX + 1" "2 ^ (24 - ?k) * 128 * 2 ^ ?k = INT_MAX + 1"
          using i by (auto simp: INT_MAX_def)
        show ?thesis using fits_iff [OF eqs(1)] fits_iff [OF eqs(2)] div_128_less by simp
      qed
      ultimately show ?thesis unfolding unpacks_from_def ures hi i' by (simp only:)
    qed
    finally have rest: "(do_unpack_loop (do_pack_loop (drop_bit 7 d) @ rest) (i + 1) ?res :: ('s, u32) prog) = unpacks_from d i res" .
    have "do_pack_loop d = (ucast (d AND 0x7f) OR 0x80) # do_pack_loop (drop_bit 7 d)"
      using True by (simp add: do_pack_loop.simps [of d])
    then show ?thesis
      using low shifted \<open>7 + ?k < 32\<close> rest pack_marked_low [of d] pack_marked [of "ucast (d AND 0x7f)"]
      by (simp add: Let_def)
  qed
qed

lemma do_unpack_pack:
  "(do_unpack (do_pack_loop d @ rest) :: ('s, u32) prog) = (if uint d \<le> INT_MAX then ret d else stop Undef)"
proof -
  have "uint d < 2 ^ 32" using unsigned_less [of d, where 'a = int] by simp
  then show ?thesis
    using do_unpack_loop_pack [of 0 0 d rest, where 's = 's] by (simp add: do_unpack_def unpacks_from_def u32_of_int_def)
qed

lemma length_do_pack_loop: "uint d < 128 ^ Suc n \<Longrightarrow> length (do_pack_loop d) \<le> Suc n"
proof (induction n arbitrary: d)
  case 0
  then have "\<not> 0x80 \<le> d" by (simp add: word_le_def)
  then show ?case by (simp add: do_pack_loop.simps [of d])
next
  case (Suc n)
  have "uint (drop_bit 7 d) = uint d div 128" by (simp add: drop_bit_eq_div uint_div)
  moreover have "uint d div 128 < 128 ^ Suc n" using Suc.prems by (simp add: div_128_less mult.commute)
  ultimately show ?case using Suc.IH [of "drop_bit 7 d"] by (simp add: do_pack_loop.simps [of d])
qed

text \<open>
  Five bytes are enough for every number; the numbers from \<open>2 ^ 31\<close> on, the last two of the program's own list among them,
  are packed but shift an \<^verbatim>\<open>int\<close> beyond its range when they are unpacked.
\<close>

lemma do_pack_unpack:
  assumes "5 \<le> length buf"
  shows "andthen (do_pack buf i) (\<lambda>(n, buf'). do_unpack buf') = (if uint i \<le> INT_MAX then ret i else stop Undef)"
proof -
  have "uint i < 128 ^ Suc 4" using unsigned_less [of i, where 'a = int] by simp
  then have "length (do_pack_loop i) \<le> length buf" using length_do_pack_loop [of i 4] assms by simp
  then show ?thesis by (simp add: do_pack_def Let_def do_unpack_pack prog_simps)
qed

section \<open>Messages through the writer and the reader\<close>

lemma thr_writer_end_sends:
  assumes "sends_all os wire" "channel_ready p c e room t"
    and "msg \<noteq> []" "int (length msg) \<le> INT_MAX" "length (chunks room msg) \<le> 254"
    and "pb_data w = Some (msg @ tail)" "pb_pos w = int (length msg)"
  shows "wp (labcomm_thr_writer os raw (Some p) Writer_end) (\<lambda>r (w', t').
      w' = w\<lparr>pb_pos := 0\<rparr> \<and> wire (nt_dev t') = wire (nt_dev t) @ message_frames c e room msg) (w, t)"
proof -
  have "u32_of_int (int (length msg)) = of_nat (length msg)" "length msg < 2 ^ 32"
    using assms(4) by (simp_all add: u32_of_int_def INT_MAX_def)
  then have send: "wp (thr_send os raw (Some p) (Some (msg @ tail)) (u32_of_int (int (length msg)))) (\<lambda>r t'.
      wire (nt_dev t') = wire (nt_dev t) @ message_frames c e room msg) t"
    by (simp only:) (rule wp_mono [OF wp_thr_send [OF assms(1,2,3) _ assms(5)]], simp_all)
  show ?thesis
    using assms(6,7) send by (simp add: labcomm_thr_writer_def packet_writer_def Let_def on_context_def on_buffer_def wp_simps)
qed

lemma thr_reader_start_reads:
  assumes "nt_chns t p = Some c" "tc_p_msg c = Block (msg @ rest)" "tc_msg_length c = of_nat (length msg)"
    and "msg \<noteq> []" "length msg < 65536"
    and "pb_count r \<le> pb_pos r" "pb_data r = Some buf" "pb_data_size r = int (length buf)" "length msg \<le> length buf"
  shows "wp (labcomm_thr_reader raw (Some p) Reader_start) (\<lambda>n (r', t').
      n = int (length msg) \<and> r' = r\<lparr>pb_data := Some (msg @ drop (length msg) buf), pb_count := n, pb_pos := 0\<rparr> \<and>
      t' = t\<lparr>nt_chns := (nt_chns t)(p \<mapsto> c\<lparr>tc_msg_length := 0\<rparr>)\<rparr>) (r, t)"
proof -
  have n: "uint (of_nat (length msg) :: u16) = int (length msg)"
    using assms(5) by (simp add: unsigned_of_nat take_bit_nat_eq_self)
  show ?thesis
    using assms n by (auto simp: labcomm_thr_reader_def packet_reader_def Let_def on_context_def on_buffer_def thr_read_def
        chn_get_def chn_update_def put_at_def wp_simps)
qed

end
