(* ===== verification/LC_Print.thy ===== *)
theory LC_Print
  imports LC_Signature
begin

text \<open>
  What is printed for people: signatures (\<^verbatim>\<open>labcomm2014_signature_print\<close>) and the texts of the error handlers of
  \<^verbatim>\<open>labcomm2014_error.c\<close> and \<^verbatim>\<open>labcomm2014.c\<close>.  The functions give the characters that are printed; the text that
  \<^verbatim>\<open>vfprintf\<close> makes of the caller's format is an argument.
\<close>

section \<open>Numbers in the formats of printf\<close>

definition digit_char :: "nat \<Rightarrow> char" where
  "digit_char d = ''0123456789abcdef'' ! d"

fun digits :: "nat \<Rightarrow> nat \<Rightarrow> string" where
  "digits base n = (if 1 < base \<and> base \<le> n then digits base (n div base) @ [digit_char (n mod base)] else [digit_char n])"

declare digits.simps [simp del]

text \<open>A \<^verbatim>\<open>char\<close> is signed and becomes an \<^verbatim>\<open>int\<close>, which \<^verbatim>\<open>%02x\<close> prints as an unsigned number.\<close>

definition print_02x :: "byte \<Rightarrow> string" where
  "print_02x b = (let s = digits 16 (unat (scast b :: u32)) in if length s < 2 then CHR ''0'' # s else s)"

section \<open>Signatures\<close>

definition newline :: string where "newline = [CHR 0x0A]"

definition print_bytes :: "byte list \<Rightarrow> string" where
  "print_bytes bs = concat (map (\<lambda>b. print_02x b @ '' '') bs)"

text \<open>At a malformed entry the rest of the list is left out, but a caller goes on behind its reference.\<close>

function labcomm2014_signature_print :: "'v signature_data list \<Rightarrow> string" where
  "labcomm2014_signature_print [] = newline"
| "labcomm2014_signature_print (p # ps) =
     (let bailing = ''neither data nor ref, bailing out.'' @ newline in
      case p of
        SigBytes bs \<Rightarrow> if bs = [] then bailing else print_bytes bs @ labcomm2014_signature_print ps
      | SigRef s \<Rightarrow> labcomm2014_signature_print (sig_treedata s) @ labcomm2014_signature_print ps
      | SigNull \<Rightarrow> bailing)"
  by pat_completeness auto
termination
  by (relation "measure (size_list size)")
    (auto simp del: signature_data.size(5) intro: less_trans_Suc le_less_trans [OF less_imp_le [OF size_treedata_less]])

subsection \<open>What is printed\<close>

lemma digit_char_not_newline: "d < 16 \<Longrightarrow> digit_char d \<noteq> CHR 0x0A"
proof -
  assume "d < 16"
  then have "digit_char d \<in> set ''0123456789abcdef''" unfolding digit_char_def by (intro nth_mem) simp
  then show ?thesis by auto
qed

lemma digits_not_newline: "CHR 0x0A \<notin> set (digits 16 n)"
proof (induction n rule: less_induct)
  case (less n)
  show ?case
    using less.IH [of "n div 16"] digit_char_not_newline [of n] digit_char_not_newline [of "n mod 16"]
    by (subst digits.simps) (auto simp: eq_commute [of "CHR 0x0A"])
qed

lemma print_02x_not_newline: "CHR 0x0A \<notin> set (print_02x b)"
  using digits_not_newline by (auto simp: print_02x_def Let_def)

lemma print_bytes_lines: "filter (\<lambda>c. c \<notin> set newline) (print_bytes bs) = print_bytes bs"
  using print_02x_not_newline by (induction bs) (auto simp: print_bytes_def newline_def intro!: filter_True)

lemma print_bytes_append: "print_bytes (bs @ cs) = print_bytes bs @ print_bytes cs"
  by (simp add: print_bytes_def)

text \<open>
  Of well-formed tree data the bytes of the flattened signature are printed, in order; the only other characters
  are the ends of lines, of which there is one more than there are references.
\<close>

lemma signature_print_flatten:
  "tree_wf td \<Longrightarrow> filter (\<lambda>c. c \<notin> set newline) (labcomm2014_signature_print td) = print_bytes (flatten td)"
proof (induction td rule: tree_wf.induct)
  case 1
  then show ?case by (simp add: newline_def print_bytes_def)
qed (simp_all add: print_bytes_lines print_bytes_append)

text \<open>Below 0x80 a byte has two digits, from there on its sign is printed too, and it has eight.\<close>

lemma print_02x_examples: "print_02x 0x0a = ''0a''" "print_02x 0x28 = ''28''" "print_02x 0x80 = ''ffffff80''"
  by (simp_all add: print_02x_def digits.simps digit_char_def)

section \<open>Errors\<close>

definition description :: "labcomm2014_error \<Rightarrow> string" where
  "description e = labcomm2014_error_string ! error_id e"

text \<open>What the two handlers of \<^verbatim>\<open>labcomm2014_error.c\<close> print before they end the process.\<close>

definition fatal_global_text :: "labcomm2014_error \<Rightarrow> string \<Rightarrow> string" where
  "fatal_global_text e formatted =
     ''Fatal error '' @ digits 10 (error_id e) @ '' ('' @ description e @ '')'' @ newline @ formatted"

definition warning_text :: "labcomm2014_error \<Rightarrow> string \<Rightarrow> string" where
  "warning_text e formatted =
     ''Fatal warning '' @ digits 10 (error_id e) @ '' ('' @ description e @ '')'' @ newline @ formatted"

definition labcomm20142014_on_error_fprintf :: "nat \<Rightarrow> string option \<Rightarrow> string" where
  "labcomm20142014_on_error_fprintf i extra =
     (case labcomm2014_error_get_str i of
        None \<Rightarrow> ''Error with an unknown error ID occured.''
      | Some err_msg \<Rightarrow> err_msg) @ newline @
     (case extra of None \<Rightarrow> '''' | Some formatted \<Rightarrow> ''Extra info {'' @ newline @ formatted @ ''}'' @ newline)"

lemma on_error_prints_description: "labcomm20142014_on_error_fprintf (error_id e) None = description e @ newline"
  by (simp add: labcomm20142014_on_error_fprintf_def error_get_str_error_id description_def)

end
