(* ===== verification/Spec2Isabelle.thy ===== *)
theory Spec2Isabelle
  imports LC_Session LC_DynWriter LC_Ioctl LC_RenamingProps LC_PthreadProps LC_SigParserProps LC_TwowayProps LC_ThrottleProps LC_Datagram LC_Print
begin

text \<open>
  \<^bold>\<open>LabComm 2014, the C library.\<close>  LabComm is a binary protocol for typed samples.  An \<^emph>\<open>encoder\<close> announces
  the type of a sample (its name and its signature) together with an index of its choice and then sends
  values under this index; a \<^emph>\<open>decoder\<close> matches announced types against the types the program has
  registered, by name and signature, binds the sender's indices to its own, and calls the registered
  handlers.  Encoders write through \<^emph>\<open>writers\<close> and decoders read through \<^emph>\<open>readers\<close>, chains of actions that
  end in a file descriptor or a buffer; both lock through a \<^emph>\<open>scheduler\<close>, and \<^emph>\<open>renaming\<close> coders put
  themselves in front of others to change the names of types.  The sources are those of
  \<^verbatim>\<open>src/lib/c/2014/\<close>; names of files below are relative to it.

  \<^bold>\<open>How the code is modelled.\<close>  Every function is a computation of the state monad \<open>prog\<close> of \<open>LC_Prelude\<close>: it
  returns a value and a new state, or stops the program (\<open>Exit\<close>, \<open>ExitParser\<close>, \<open>Undef\<close> for undefined behaviour of C),
  or does not return (\<open>None\<close>).  Structures are records, machine integers are words or integers with the limits
  of \<^verbatim>\<open>int\<close> written out (\<open>c_int\<close>), and allocation asks an oracle that may refuse.  \<open>wp m Q s\<close> says that \<open>m\<close>
  returns from \<open>s\<close>, without undefined behaviour, and establishes \<open>Q\<close>: it is total correctness, and every
  theorem about results is stated with it (or as an equation).  Where the input is arbitrary, \<open>ends m Q s\<close> says that
  \<open>m\<close> does not run forever: it stops the program or returns and establishes \<open>Q\<close>.

  \<^bold>\<open>Theories.\<close>
  \<^item> \<open>LC_Prelude\<close>, \<open>LC_Memory\<close>: the monad, weakest preconditions, errors, C integers; allocation
    (\<^verbatim>\<open>labcomm2014_memory.c\<close>, \<^verbatim>\<open>labcomm2014_default_memory.c\<close>) and error reports (\<^verbatim>\<open>labcomm2014_error.c\<close>).
  \<^item> \<open>LC_Ioctl\<close>: the ioctl words (\<^verbatim>\<open>labcomm2014_ioctl.h\<close>), a round trip of their fields.
  \<^item> \<open>LC_Wire\<close>: tags, big-endian scalars, packed numbers (\<^verbatim>\<open>labcomm2014_private.h\<close>).
  \<^item> \<open>LC_Signature\<close>, \<open>LC_SigArray\<close>: type signatures and their walks (\<^verbatim>\<open>labcomm2014_type_signature.c\<close>, the
    indices of \<^verbatim>\<open>labcomm2014.c\<close>), and the growing arrays indexed by signature index, with the locale
    \<open>index_table\<close> of what their clients use, interpreted on them.
  \<^item> \<open>LC_Print\<close>: what \<^verbatim>\<open>labcomm2014_signature_print\<close> and the error handlers print.
  \<^item> \<open>LC_Writer\<close>, \<open>LC_FdWriter\<close>, \<open>LC_DynWriter\<close>: chains of writer actions and the write functions, with the locale
    \<open>writer_sink\<close> of what the encoder relies on; the file descriptor writer (\<^verbatim>\<open>labcomm2014_fd_writer.c\<close>) for every
    \<^verbatim>\<open>write(2)\<close> that obeys the locale \<open>posix_write\<close>, and the dynamic buffer writer.
  \<^item> \<open>LC_Reader\<close>, \<open>LC_FdReader\<close>: the same for readers (\<open>reader_source\<close>, \<open>posix_read\<close>, \<^verbatim>\<open>labcomm2014_fd_reader.c\<close>).
  \<^item> \<open>LC_Packets\<close>: the byte sequences of the packets, the abstract specification of both sides.
  \<^item> \<open>LC_Encoder\<close>, \<open>LC_EncoderSpec\<close>, \<open>LC_EncoderProps\<close>: \<^verbatim>\<open>labcomm2014_encoder.c\<close>; each operation delivers exactly its
    packet or reports an error, on any writer.
  \<^item> \<open>LC_Decoder\<close>, \<open>LC_DecoderSpec\<close>, \<open>LC_DecoderSamples\<close>, \<open>LC_DecoderProps\<close>: \<^verbatim>\<open>labcomm2014_decoder.c\<close>; each packet is
    consumed exactly and has the effect the protocol gives it; the decoding loop delivers samples in order.
  \<^item> \<open>LC_BaseProps\<close>: the properties of the wire formats, readers, writers, signatures and arrays.
  \<^item> \<open>LC_Session\<close> and this theory: an encoder and a decoder together, from the values sent to the handler calls.
  \<^item> \<open>LC_Renaming\<close>, \<open>LC_RenamingSpec\<close>, \<open>LC_RenamingCoders\<close>, \<open>LC_RenamingProps\<close>: the registry of renamed signatures
    (\<^verbatim>\<open>labcomm2014_renaming_registry.c\<close>, an explicit store of linked objects with use counts and an account of every
    block; locale \<open>renamer\<close> for the renaming functions of \<^verbatim>\<open>labcomm2014_renaming.c\<close>) and the renaming encoder and
    decoder over the method table of any next coder (locale \<open>next_coder\<close>, interpreted on the library's encoder
    and decoder).
  \<^item> \<open>LC_Scheduler\<close>, \<open>LC_Pthread\<close>, \<open>LC_PthreadSpec\<close>, \<open>LC_PthreadProps\<close>: the scheduler interface and the lock discipline
    (locale \<open>lock_provider\<close>), the default scheduler, and the scheduler for POSIX threads
    (\<^verbatim>\<open>labcomm2014_pthread_scheduler.c\<close>): circular doubly linked queues in an explicit store, run and entered in order.
  \<^item> \<open>LC_SigParser\<close>: the parser of whole files of packets (\<^verbatim>\<open>experimental/labcomm2014_sig_parser.c\<close>, with the loop of
    \<^verbatim>\<open>experimental/test_sig_parser.c\<close>), its value stack, its tables and its recursion over types.  \<open>LC_SigParserSpec\<close>,
    \<open>LC_SigParserTypes\<close>, \<open>LC_SigParserPackets\<close> and \<open>LC_SigParserFile\<close> show what it does to well-formed types, packets and
    files (\<open>parsing b0 rest stk fl b\<close>: the bytes not read and the values on the stack), \<open>LC_SigParserSkip\<close> how it skips
    samples.  On arbitrary bytes, \<open>LC_SigParserTotal\<close> shows that it ends and \<open>LC_SigParserTyped\<close> that its state stays
    well formed; \<open>LC_SigParserProps\<close> has the properties, among them that it understands what the encoder sends.

  \<^item> \<open>LC_Twoway\<close>: the two wrappers of readers and writers of \<^verbatim>\<open>src/examples/twoway/\<close>, \<^verbatim>\<open>decimating.c\<close> and
    \<^verbatim>\<open>introspecting.c\<close>: their actions, the messages they exchange and the calls they defer.  \<open>LC_TwowaySpec\<close> reads the
    tables as total functions (the locale \<open>index_table\<close> again, for arrays that are asked for a bounded range of
    indices) and has the decimation, \<open>LC_TwowayIntro\<close> the invariant of the introspection, \<open>LC_TwowayProps\<close> the
    properties: which starts of packets pass, that a request reaches the other side once, and which status is answered.
  \<^item> \<open>LC_Throttle\<close>: the drivers of \<^verbatim>\<open>experimental/ThrottleDrv/\<close>: raw Ethernet frames, and messages cut into numbered
    fragments of the size of their channel.  \<open>LC_ThrottleSpec\<close> has the sender: the frames of a message, for every
    device that sends.  \<open>LC_ThrottleReceive\<close> has the receiver: an abstract one over lists of fragments, which the
    loop of \<^verbatim>\<open>thr_receive\<close> refines, whatever packets that are not for the channel come in between, and \<open>LC_ThrottleProps\<close> the properties: delivery from
    one end to the other, and the messages, losses and packets with which it fails.
  \<^item> \<open>LC_Datagram\<close>: the experimental packet readers and writers over the throttle driver and over UDP, and the packing of
    numbers in \<^verbatim>\<open>experimental/pack.c\<close>.

  \<^bold>\<open>Bounds and loops.\<close>  There is no fuel: loops are structural recursion or \<open>partial_function\<close>, whose not
  returning would be the value \<open>None\<close>, and \<open>wp\<close> excludes it.  The side conditions of the theorems are the ranges in which
  the C arithmetic is defined: \<open>sig_ok\<close> (the payload of a definition fits in an \<^verbatim>\<open>int\<close>), \<open>sa_room\<close> (the window of an array
  fits in an \<^verbatim>\<open>int\<close>), \<open>indices_fit\<close> and \<open>uses_fit\<close> (no overflow of the index and use counters), \<open>plenty\<close> (allocation
  succeeds; the behaviour when it does not is part of the definitions and of the theorems that do not
  assume it).  Where the code breaks outside of these ranges, theorems show it
  (\<open>fd_read_string_hostile_length\<close>, \<open>dyn_unchecked_overrun\<close>, \<open>recorded_signature_not_skipped\<close>, \<open>throttle_send_endless\<close>,
  \<open>throttle_hostile_length\<close>).  Undefined behaviour ends a run of the model, where a compiled program may do anything,
  also go on for ever: the theorems on arbitrary input that are stated with \<open>ends\<close> or with not being \<open>None\<close> say nothing of such runs.

  \<^bold>\<open>Parameters.\<close>  The encode and decode functions that the LabComm compiler generates, \<^verbatim>\<open>read(2)\<close> and \<^verbatim>\<open>write(2)\<close>, the socket
  calls, the clock and mutex calls, deferred calls and other threads are arguments of the definitions; the theorems state
  what they need of them as hypotheses or locales, and the witnesses use concrete functions.

  \<^bold>\<open>Not modelled.\<close>  The text that \<^verbatim>\<open>vfprintf\<close> makes of a caller's format (a parameter), traces for debugging, the code
  under \<^verbatim>\<open>LABCOMM_WITH_SANITY_CHECKS\<close> and for big-endian hosts (the latter does not compile), the parsing of
  Ethernet addresses with \<^verbatim>\<open>sscanf\<close> (\<^verbatim>\<open>experimental/ethaddr.c\<close>), the demonstration programs (of the twoway example all but the two wrappers), the tests, the compiler and the libraries for other
  languages.  The theorems on the POSIX scheduler are about a thread that no other thread disturbs.  Its deferred calls return;
  in the theorems on the queues they do not use the scheduler, in the theorem on the locks (locale \<open>quiet_thread\<close>) they may take and release
  both locks and wake the scheduler up.  The definitions have the deferred calls and the other threads as parameters.  The sleep operation is modelled but has no
  theorem of its own.  Of the signature parser the theorems on skipping do not cover structures, whose fields the code
  expects in another form than it accepts them.
\<close>

section \<open>A session from one end to the other\<close>

text \<open>
  Claim C1. End to end, on any POSIX descriptors: an encoder announces a type and sends the values \<open>vs\<close>; if its
  writer ends without error, then every decoder that reads what was delivered, however the stream is
  cut into pieces, and that registered a type of the same name and signature (under any index of its
  own) runs to the end of the stream, and its handler was called with exactly the values \<open>vs\<close>, in
  order.  The hypotheses on the generated functions are that \<open>encode\<close> writes the bytes \<open>enc v\<close> of a value
  (or sets the error), that \<open>encoded_size\<close> is their number, and that \<open>f\<close> reads them back.
\<close>

theorem session_delivers_values:
  assumes "posix_write sys_write delivered" and "posix_read sys_read pending"
    and "plenty m" and "plenty (w_memory w)" and "delivered (fw_dev w) = []"
    and "sig_ok s" and "LABCOMM_USER \<le> sig_index s" and "0 \<notin> set (sig_name s)"
    and "sa_room 4 (sig_index s) signature_array_init"
    and "sig_name t = sig_name s" and "sig_signature t = sig_signature s" and "sig_sized t" and "0 < sig_index t"
    and "sa_room entry_size (sig_index t) signature_array_init"
    and "\<forall>v\<in>set vs. writer_sink.writes fdw_safe (fd_stream delivered) (encode [fdw_action sys_write wclose] v) (enc v) \<and>
           sig_encoded_size s v = int (length (enc v))"
    and "\<forall>v\<in>set vs. int (length (enc v)) \<le> INT_MAX \<and>
           reader_source.decodes [fdr_action sys_read rclose] fdr_ok (fd_unread pending) f (Sample v) (enc v)"
  shows "wp (labcomm2014_encoder_new w [fdw_action sys_write wclose]) (\<lambda>eo _. \<exists>e. eo = Some e \<and>
      wp (send_session s encode vs) (\<lambda>_ e'. w_error (e_writer e') = 0 \<longrightarrow>
        (\<forall>r mr. pending (fr_dev r) = delivered (fw_dev (e_writer e')) \<and> plenty (r_memory r) \<and> plenty mr \<longrightarrow>
          wp (labcomm2014_decoder_new r [fdr_action sys_read rclose]) (\<lambda>dd _. \<exists>d. dd = Some d \<and>
            wp (receive_session t f h ctx) (\<lambda>_ d'.
              d_calls d' = map (\<lambda>v. \<lparr>hc_handler = h, hc_context = ctx, hc_value = Sample v\<rparr>) vs) d) mr)) e) m"
  using posix_write.wp_new_session [where encode = encode and enc = enc and vs = vs, OF assms(1,3-9,15)]
    posix_read.wp_fresh_session [where f = f and h = h and ctx = ctx and enc = enc and vs = vs and t = t,
      OF assms(2) _ _ _ assms(6-14,16)]
  by (auto elim!: wp_mono)

text \<open>The receiver's own registration of the type: another index, the same name and signature.\<close>

definition peer_sig :: "32 word signature" where
  "peer_sig = Signature [0x61, 0x62] (\<lambda>_. 4) 1 [0x23] 80 [SigBytes [0x23]]"

theorem session_delivers_values_witness:
  "wp (labcomm2014_encoder_new (script_writer []) [fdw_action script_write id]) (\<lambda>eo _. \<exists>e. eo = Some e \<and>
      wp (send_session int_sig encode_int [7, 8]) (\<lambda>_ e'. w_error (e_writer e') = 0 \<longrightarrow>
        (\<forall>r mr. chunk_pending (fr_dev r) = sd_out (fw_dev (e_writer e')) \<and> plenty (r_memory r) \<and> plenty mr \<longrightarrow>
          wp (labcomm2014_decoder_new r [fdr_action chunk_read id]) (\<lambda>dd _. \<exists>d. dd = Some d \<and>
            wp (receive_session peer_sig decode_int 1 2) (\<lambda>_ d'.
              d_calls d' = map (\<lambda>v. \<lparr>hc_handler = 1, hc_context = 2, hc_value = Sample v\<rparr>) [7, 8]) d) mr)) e) generous \<and>
   (case send_session int_sig encode_int [7, 8] (demo_encoder [3, 1]) of
      Some (Inr (_, e')) \<Rightarrow> w_error (e_writer e') = 0 \<and>
        version_packet @ sd_out (fw_dev (e_writer e')) = session_bytes int_sig (be_bytes 4) [7, 8]
    | _ \<Rightarrow> False)"
proof (rule conjI, rule session_delivers_values [OF script.posix_write_axioms chunks.posix_read_axioms,
      where enc = "be_bytes 4"], goal_cases)
  case 13
  show ?case by (simp add: encode_int_writes)
next
  case 14
  show ?case by (simp add: decode_int_decodes INT_MAX_def)
next
  case 15
  show ?case by code_simp
qed (simp_all add: script_writer_def peer_sig_def sig_sized_def tag_defs sa_room_def signature_array_init_def INT_MAX_def)

end
